(* ===== verification/Prelude.thy ===== *)
theory Prelude
  imports Main "HOL-Library.Char_ord" "HOL-Library.List_Lexorder"
begin

text \<open>
  The prelude of the development: Go errors as values, the shapes every component shares
  (results, instants, SQL tables as lists of rows) and the generic lemmas about them.

  \<^item> Go's \<open>error\<close> interface is the datatype \<open>go_error\<close>: a format string with its
    arguments, a wrapped error (\<open>%w\<close>), a join, the sentinel errors the code compares
    against, and the two error structs the code defines. \<open>errors_is\<close> and
    \<open>commit_unknown_as\<close> walk the chain as \<open>errors.Is\<close> and \<open>errors.As\<close> do.
  \<^item> A Go call that returns \<open>(T, error)\<close> returns \<open>go_error + T\<close>: \<open>Inl\<close> the error.
  \<^item> A Go \<open>string\<close> is a list of bytes, HOL's \<open>string\<close>; \<open><\<close> on it is the bytewise order
    of Go (the lexicographic order of \<open>List_Lexorder\<close> over \<open>Char_ord\<close>).
  \<^item> \<open>time.Time\<close> is an \<open>instant\<close>, nanoseconds since the Unix epoch; \<open>time.Duration\<close>
    is a number of nanoseconds too.
  \<^item> A table is the list of its rows; \<open>UPDATE .. WHERE\<close> is \<open>upd_where\<close>.
\<close>

section \<open>Collections\<close>

named_theorems ok_rules \<open>inversion rules for calls that returned without an error\<close>
named_theorems tbl \<open>rewriting of table updates\<close>

section \<open>Errors as values\<close>

datatype fmt_arg = AStr string | AInt int

datatype go_error =
    Errorf string "fmt_arg list"
  | Wrapf string "fmt_arg list" go_error
  | Joined "go_error list"
  | ErrNotFound
  | ErrConflict
  | DeadlineExceeded
  | Canceled
  | CommitOutcomeError go_error go_error
  | FailureError string string string "go_error option"

type_synonym 'a result = "go_error + 'a"
type_synonym instant = int
type_synonym duration = int

text \<open>\<open>errors.Is\<close>: the error or one it wraps is the sentinel.\<close>

fun errors_is :: "go_error \<Rightarrow> go_error \<Rightarrow> bool" where
  "errors_is (Wrapf f as e) t = (Wrapf f as e = t \<or> errors_is e t)"
| "errors_is (Joined es) t = (Joined es = t \<or> (\<exists>e \<in> set es. errors_is e t))"
| "errors_is (CommitOutcomeError c s) t = (CommitOutcomeError c s = t \<or> errors_is c t)"
| "errors_is (FailureError st c m (Some e)) t = (FailureError st c m (Some e) = t \<or> errors_is e t)"
| "errors_is e t = (e = t)"

text \<open>A \<open>result\<close> whose call succeeded.\<close>

definition is_ok :: "'a result \<Rightarrow> bool" where
  "is_ok r = (case r of Inl _ \<Rightarrow> False | Inr _ \<Rightarrow> True)"

definition bind_res :: "'a result \<Rightarrow> ('a \<Rightarrow> 'b result) \<Rightarrow> 'b result" where
  "bind_res r k = (case r of Inl e \<Rightarrow> Inl e | Inr x \<Rightarrow> k x)"

lemma bind_res_simps [simp]:
  "bind_res (Inl e) k = Inl e"
  "bind_res (Inr x) k = k x"
  by (simp_all add: bind_res_def)

lemma bind_res_Inr [ok_rules]:
  "bind_res r k = Inr y \<longleftrightarrow> (\<exists>x. r = Inr x \<and> k x = Inr y)"
  by (cases r) auto

lemma is_ok_simps [simp]: "\<not> is_ok (Inl e)" "is_ok (Inr x)"
  by (simp_all add: is_ok_def)

lemma if_Inl_Inr [ok_rules]:
  "(if b then Inl e else r) = Inr y \<longleftrightarrow> \<not> b \<and> r = Inr y"
  by simp

section \<open>Go's pointers and zero values\<close>

text \<open>A lookup in a Go map of strings returns the zero value \<open>""\<close> for a missing key.\<close>

definition str_at :: "(string \<times> string) list \<Rightarrow> string \<Rightarrow> string" where
  "str_at m k = (case map_of m k of None \<Rightarrow> [] | Some v \<Rightarrow> v)"

definition int_at :: "(string \<times> int) list \<Rightarrow> string \<Rightarrow> int" where
  "int_at m k = (case map_of m k of None \<Rightarrow> 0 | Some v \<Rightarrow> v)"

text \<open>\<open>nullableString\<close>: the empty string is stored as NULL.\<close>

definition nullable_string :: "string \<Rightarrow> string option" where
  "nullable_string s = (if s = [] then None else Some s)"

lemma nullable_string_None [simp]: "nullable_string s = None \<longleftrightarrow> s = []"
  by (simp add: nullable_string_def)

lemma option_eqI: "(\<And>x. a = Some x \<longleftrightarrow> b = Some x) \<Longrightarrow> a = b"
  by (cases a; cases b) auto

section \<open>Tables\<close>

text \<open>\<open>UPDATE t SET f WHERE p\<close>, and the number of rows it affects.\<close>

definition upd_where :: "('r \<Rightarrow> bool) \<Rightarrow> ('r \<Rightarrow> 'r) \<Rightarrow> 'r list \<Rightarrow> 'r list" where
  "upd_where p f rows = map (\<lambda>r. if p r then f r else r) rows"

definition affected :: "('r \<Rightarrow> bool) \<Rightarrow> 'r list \<Rightarrow> nat" where
  "affected p rows = length (filter p rows)"

lemma upd_where_simps [simp, tbl]:
  "upd_where p f [] = []"
  "upd_where p f (r # rs) = (if p r then f r else r) # upd_where p f rs"
  "upd_where p f (rs @ ss) = upd_where p f rs @ upd_where p f ss"
  "length (upd_where p f rs) = length rs"
  by (simp_all add: upd_where_def)

lemma set_upd_where [tbl]: "set (upd_where p f rs) = (\<lambda>r. if p r then f r else r) ` set rs"
  by (simp add: upd_where_def)

lemma map_upd_where_keep:
  "(\<And>r. p r \<Longrightarrow> g (f r) = g r) \<Longrightarrow> map g (upd_where p f rs) = map g rs"
  by (simp add: upd_where_def)

lemma upd_where_none: "(\<And>r. r \<in> set rs \<Longrightarrow> \<not> p r) \<Longrightarrow> upd_where p f rs = rs"
  by (induction rs) auto

lemma filter_upd_where:
  "(\<And>r. k (f r) = k r) \<Longrightarrow> filter (\<lambda>r. k r = x) (upd_where p f rs) = upd_where p f (filter (\<lambda>r. k r = x) rs)"
  by (induction rs) auto

lemma affected_pos_iff: "affected p rs = 0 \<longleftrightarrow> (\<forall>r \<in> set rs. \<not> p r)"
  by (simp add: affected_def filter_empty_conv)

lemma affected_one_ex: "affected p rs = 1 \<Longrightarrow> \<exists>r \<in> set rs. p r"
  using affected_pos_iff [of p rs] by auto

lemma upd_where_last:
  assumes "xs \<noteq> []" and "p (last xs)" and "\<And>x. x \<in> set (butlast xs) \<Longrightarrow> \<not> p x"
  shows "upd_where p f xs = butlast xs @ [f (last xs)]"
proof -
  have "upd_where p f (butlast xs @ [last xs]) = upd_where p f (butlast xs) @ [f (last xs)]"
    using assms(2) by (simp add: upd_where_def)
  moreover have "upd_where p f (butlast xs) = butlast xs" using assms(3) by (rule upd_where_none)
  ultimately show ?thesis using assms(1) by simp
qed

text \<open>A key column: rows are found by key, and a key picks at most one row.\<close>

lemma find_Some_mem: "find p rs = Some r \<Longrightarrow> r \<in> set rs \<and> p r"
  by (induction rs) (auto split: if_splits)

lemma find_None_all: "find p rs = None \<longleftrightarrow> (\<forall>r \<in> set rs. \<not> p r)"
  by (induction rs) auto

lemma distinct_map_eqD: "distinct (map f xs) \<Longrightarrow> x \<in> set xs \<Longrightarrow> y \<in> set xs \<Longrightarrow> f x = f y \<Longrightarrow> x = y"
  by (metis distinct_map inj_on_def)

lemma find_key_unique:
  assumes "distinct (map k rs)" and "r \<in> set rs"
  shows "find (\<lambda>x. k x = k r) rs = Some r"
proof -
  from assms(2) have "find (\<lambda>x. k x = k r) rs \<noteq> None"
    by (auto simp: find_None_all)
  then obtain y where y: "find (\<lambda>x. k x = k r) rs = Some y" by blast
  from find_Some_mem [OF y] have "y \<in> set rs" and "k y = k r" by auto
  with assms have "y = r" by (auto intro: distinct_map_eqD)
  with y show ?thesis by simp
qed

lemma affected_key_unique:
  assumes "distinct (map k rs)"
  shows "affected (\<lambda>r. k r = x \<and> p r) rs \<le> 1"
  using assms
proof (induction rs)
  case Nil
  then show ?case by (simp add: affected_def)
next
  case (Cons r rs)
  show ?case
  proof (cases "k r = x")
    case True
    with Cons.prems have "\<forall>s \<in> set rs. k s \<noteq> x" by (auto simp: image_iff)
    then have "filter (\<lambda>r. k r = x \<and> p r) rs = []"
      by (simp add: filter_empty_conv)
    then show ?thesis by (simp add: affected_def)
  next
    case False
    with Cons show ?thesis by (simp add: affected_def)
  qed
qed

lemma distinct_map_snoc: "distinct (map k (xs @ [x])) \<Longrightarrow> k x \<notin> k ` set xs"
  by simp

lemma distinct_map_append_fresh:
  "distinct (map k rs) \<Longrightarrow> k r \<notin> k ` set rs \<Longrightarrow> distinct (map k (rs @ [r]))"
  by simp

section \<open>Lists\<close>

text \<open>The first key at which an association list is bound is the one \<open>map_of\<close> reads.\<close>

lemma map_of_in_keys: "map_of m k = Some v \<Longrightarrow> k \<in> fst ` set m"
  by (metis domI dom_map_of_conv_image_fst)

lemma map_of_SomeI_distinct:
  "distinct (map fst m) \<Longrightarrow> (k, v) \<in> set m \<Longrightarrow> map_of m k = Some v"
  by simp

lemma sorted_wrt_remdups:
  "sorted (xs :: 'a::linorder list) \<Longrightarrow> sorted_wrt (<) (remdups xs)"
  by (simp add: strict_sorted_iff)

end
