(* ===== verification/GoStrings.thy ===== *)
theory GoStrings
  imports Prelude
begin

text \<open>
  What the program uses of Go's \<open>strings\<close>, \<open>strconv\<close>, \<open>unicode/utf8\<close> and \<open>unicode\<close>
  packages, over byte strings: decimal integers of 64 bits, ASCII case folding, splitting,
  trimming, and the UTF-8 codec behind \<open>[]rune(s)\<close>, \<open>string(runes)\<close>, \<open>range s\<close> and
  \<open>utf8.ValidString\<close>. The lemmas show that the codec round trips and that a range over a
  string sees a control character exactly when a byte is one.
\<close>

section \<open>Decimal integers\<close>

definition ord :: "char \<Rightarrow> nat" where
  "ord c = of_char c"

definition is_digit :: "char \<Rightarrow> bool" where
  "is_digit c = (48 \<le> ord c \<and> ord c \<le> 57)"

fun digits_val :: "int \<Rightarrow> string \<Rightarrow> int" where
  "digits_val acc [] = acc"
| "digits_val acc (c # cs) = digits_val (10 * acc + int (ord c - 48)) cs"

text \<open>
  \<open>strconv.Atoi\<close> and \<open>strconv.ParseInt(s, 10, 64)\<close> on a 64-bit platform: an optional sign,
  at least one digit, nothing else, and a value of the range of \<open>int64\<close>.
\<close>

definition atoi :: "string \<Rightarrow> int option" where
  "atoi s =
     (let neg = (s \<noteq> [] \<and> hd s = CHR ''-'');
          ds = (if s \<noteq> [] \<and> (hd s = CHR ''-'' \<or> hd s = CHR ''+'') then tl s else s)
      in if ds = [] \<or> \<not> list_all is_digit ds then None
         else let n = digits_val 0 ds
              in if neg then (if n \<le> 2 ^ 63 then Some (- n) else None)
                 else (if n < 2 ^ 63 then Some n else None))"

lemma digits_val_nonneg: "0 \<le> acc \<Longrightarrow> 0 \<le> digits_val acc ds"
  by (induction acc ds rule: digits_val.induct) simp_all

lemma atoi_range: "atoi s = Some n \<Longrightarrow> - (2 ^ 63) \<le> n \<and> n < 2 ^ 63"
  using digits_val_nonneg [of 0 s] digits_val_nonneg [of 0 "tl s"] unfolding atoi_def Let_def
  by (auto split: if_splits)

lemma atoi_Nil [simp]: "atoi [] = None"
  by (simp add: atoi_def)

section \<open>Case, prefixes, splitting, trimming\<close>

definition ascii_upper :: "char \<Rightarrow> char" where
  "ascii_upper c = (if 97 \<le> ord c \<and> ord c \<le> 122 then char_of (ord c - 32) else c)"

definition ascii_lower :: "char \<Rightarrow> char" where
  "ascii_lower c = (if 65 \<le> ord c \<and> ord c \<le> 90 then char_of (ord c + 32) else c)"

definition is_ascii :: "string \<Rightarrow> bool" where
  "is_ascii s = list_all (\<lambda>c. ord c < 128) s"

text \<open>
  \<open>strings.ToUpper\<close>: ASCII strings byte by byte; the Unicode case tables are the parameter
  \<open>uni\<close>.
\<close>

definition to_upper :: "(string \<Rightarrow> string) \<Rightarrow> string \<Rightarrow> string" where
  "to_upper uni s = (if is_ascii s then map ascii_upper s else uni s)"

text \<open>
  \<open>strings.EqualFold(s, t)\<close> for an ASCII \<open>t\<close>: besides ASCII case, two letters outside ASCII
  fold into it, the long s (C5 BF) and the Kelvin sign (E2 84 AA).
\<close>

fun fold_ascii :: "string \<Rightarrow> string" where
  "fold_ascii [] = []"
| "fold_ascii (c # cs) =
     (if ord c = 197 \<and> (case cs of d # _ \<Rightarrow> ord d = 191 | _ \<Rightarrow> False)
      then CHR ''s'' # fold_ascii (tl cs)
      else if ord c = 226 \<and> (case cs of d # e # _ \<Rightarrow> ord d = 132 \<and> ord e = 170 | _ \<Rightarrow> False)
      then CHR ''k'' # fold_ascii (tl (tl cs))
      else ascii_lower c # fold_ascii cs)"

definition equal_fold :: "string \<Rightarrow> string \<Rightarrow> bool" where
  "equal_fold s t = (fold_ascii s = map ascii_lower t)"

definition has_prefix :: "string \<Rightarrow> string \<Rightarrow> bool" where
  "has_prefix s p = (take (length p) s = p)"

definition trim_prefix :: "string \<Rightarrow> string \<Rightarrow> string" where
  "trim_prefix s p = (if has_prefix s p then drop (length p) s else s)"

text \<open>\<open>strings.Split(s, sep)\<close> for a one-byte separator: always at least one segment.\<close>

fun split_on :: "char \<Rightarrow> string \<Rightarrow> string list" where
  "split_on sep [] = [[]]"
| "split_on sep (c # cs) =
     (if c = sep then [] # split_on sep cs
      else (case split_on sep cs of
              [] \<Rightarrow> [[c]]
            | seg # segs \<Rightarrow> (c # seg) # segs))"

lemma split_on_not_Nil [simp]: "split_on sep s \<noteq> []"
  by (induction s) (auto split: list.splits)

fun join_with :: "char \<Rightarrow> string list \<Rightarrow> string" where
  "join_with sep [] = []"
| "join_with sep [s] = s"
| "join_with sep (s # t # ss) = s @ sep # join_with sep (t # ss)"

lemma join_split: "join_with sep (split_on sep s) = s"
proof (induction s)
  case Nil
  then show ?case by simp
next
  case (Cons c cs)
  obtain seg segs where seg: "split_on sep cs = seg # segs"
    by (cases "split_on sep cs") auto
  with Cons show ?case by (cases segs) auto
qed

lemma split_on_no_sep: "seg \<in> set (split_on sep s) \<Longrightarrow> sep \<notin> set seg"
proof (induction s arbitrary: seg)
  case Nil
  then show ?case by simp
next
  case (Cons c cs)
  obtain sg segs where sg: "split_on sep cs = sg # segs"
    by (cases "split_on sep cs") auto
  with Cons.IH [of sg] have hd: "sep \<notin> set sg" by simp
  show ?case
  proof (cases "c = sep")
    case True
    with Cons show ?thesis by auto
  next
    case False
    with sg Cons.prems have "seg = c # sg \<or> seg \<in> set (split_on sep cs)" by auto
    with hd False Cons.IH show ?thesis by auto
  qed
qed

lemma set_segments: "seg \<in> set (split_on sep s) \<Longrightarrow> set seg \<subseteq> set s"
proof (induction s arbitrary: seg)
  case Nil
  then show ?case by simp
next
  case (Cons c cs)
  obtain sg segs where sg: "split_on sep cs = sg # segs"
    by (cases "split_on sep cs") auto
  with Cons.IH [of sg] have hd: "set sg \<subseteq> set cs" by simp
  from sg Cons.prems have "seg = [] \<or> seg = c # sg \<or> seg \<in> set (split_on sep cs)"
    by (auto split: if_splits)
  with hd Cons.IH show ?case by auto
qed

text \<open>Every byte but a separator is in some segment.\<close>

lemma byte_in_segment: "c \<in> set s \<Longrightarrow> c \<noteq> sep \<Longrightarrow> \<exists>seg \<in> set (split_on sep s). c \<in> set seg"
proof (induction s)
  case Nil
  then show ?case by simp
next
  case (Cons d cs)
  obtain sg segs where sg: "split_on sep cs = sg # segs"
    by (cases "split_on sep cs") auto
  with Cons show ?case by (cases "d = sep"; cases "c = d") auto
qed

section \<open>UTF-8\<close>

type_synonym rune = nat

definition rune_error :: rune where
  "rune_error = 65533"

definition cont :: "nat \<Rightarrow> bool" where
  "cont b = (128 \<le> b \<and> b \<le> 191)"

text \<open>
  One step of \<open>utf8.DecodeRune\<close>: the rune, the bytes it takes, and whether it is well formed;
  an ill-formed start consumes one byte and reads as \<open>U+FFFD\<close>. The second byte's range
  depends on the first, which excludes overlong forms, surrogates and values past \<open>10FFFF\<close>.
\<close>

definition second_lo :: "nat \<Rightarrow> nat" where
  "second_lo b = (if b = 224 then 160 else if b = 240 then 144 else 128)"

definition second_hi :: "nat \<Rightarrow> nat" where
  "second_hi b = (if b = 237 then 159 else if b = 244 then 143 else 191)"

fun decode_rune :: "nat list \<Rightarrow> rune \<times> nat \<times> bool" where
  "decode_rune [] = (rune_error, 1, False)"
| "decode_rune (b0 # bs) =
     (if b0 < 128 then (b0, 1, True)
      else if 194 \<le> b0 \<and> b0 \<le> 223 then
        (case bs of
           b1 # _ \<Rightarrow> if cont b1 then ((b0 - 192) * 64 + (b1 - 128), 2, True) else (rune_error, 1, False)
         | _ \<Rightarrow> (rune_error, 1, False))
      else if 224 \<le> b0 \<and> b0 \<le> 239 then
        (case bs of
           b1 # b2 # _ \<Rightarrow>
             if second_lo b0 \<le> b1 \<and> b1 \<le> second_hi b0 \<and> cont b2
             then ((b0 - 224) * 4096 + (b1 - 128) * 64 + (b2 - 128), 3, True)
             else (rune_error, 1, False)
         | _ \<Rightarrow> (rune_error, 1, False))
      else if 240 \<le> b0 \<and> b0 \<le> 244 then
        (case bs of
           b1 # b2 # b3 # _ \<Rightarrow>
             if second_lo b0 \<le> b1 \<and> b1 \<le> second_hi b0 \<and> cont b2 \<and> cont b3
             then ((b0 - 240) * 262144 + (b1 - 128) * 4096 + (b2 - 128) * 64 + (b3 - 128), 4, True)
             else (rune_error, 1, False)
         | _ \<Rightarrow> (rune_error, 1, False))
      else (rune_error, 1, False))"

lemma decode_rune_width: "1 \<le> fst (snd (decode_rune bs))"
  by (cases bs) (auto split: list.splits)

function runes_of :: "nat list \<Rightarrow> (rune \<times> bool) list" where
  "runes_of [] = []"
| "runes_of (b # bs) =
     (case decode_rune (b # bs) of
        (r, w, ok) \<Rightarrow> (r, ok) # runes_of (drop w (b # bs)))"
  by pat_completeness auto
termination
  using decode_rune_width
  by (relation "measure length") (simp, metis diff_less fst_conv in_measure length_drop
    length_greater_0_conv list.distinct(1) not_one_le_zero not_gr_zero snd_conv)

declare runes_of.simps(2) [simp del]

definition bytes_of :: "string \<Rightarrow> nat list" where
  "bytes_of s = map ord s"

text \<open>\<open>[]rune(s)\<close>, \<open>utf8.ValidString\<close>, \<open>utf8.RuneCountInString\<close>.\<close>

definition runes :: "string \<Rightarrow> rune list" where
  "runes s = map fst (runes_of (bytes_of s))"

definition valid_utf8 :: "string \<Rightarrow> bool" where
  "valid_utf8 s = list_all snd (runes_of (bytes_of s))"

lemma runes_of_ascii: "list_all (\<lambda>b. b < 128) bs \<Longrightarrow> runes_of bs = map (\<lambda>b. (b, True)) bs"
  by (induction bs rule: runes_of.induct) (auto simp: runes_of.simps(2))

lemma valid_ascii: "list_all (\<lambda>c. ord c < 128) s \<Longrightarrow> valid_utf8 s"
  by (simp add: valid_utf8_def bytes_of_def runes_of_ascii list_all_iff)

definition rune_count :: "string \<Rightarrow> nat" where
  "rune_count s = length (runes s)"

definition scalar :: "rune \<Rightarrow> bool" where
  "scalar r = (r < 55296 \<or> (57343 < r \<and> r < 1114112))"

definition encode_rune :: "rune \<Rightarrow> nat list" where
  "encode_rune r =
     (if r < 128 then [r]
      else if r < 2048 then [192 + r div 64, 128 + r mod 64]
      else if \<not> scalar r then [239, 191, 189]
      else if r < 65536 then [224 + r div 4096, 128 + r div 64 mod 64, 128 + r mod 64]
      else [240 + r div 262144, 128 + r div 4096 mod 64, 128 + r div 64 mod 64, 128 + r mod 64])"

lemma encode_rune_bytes: "b \<in> set (encode_rune r) \<Longrightarrow> b < 256"
  by (auto simp: encode_rune_def scalar_def split: if_splits)

text \<open>The base-64 digits of a rune.\<close>

lemma shift_digits: "64 * a + b = q \<Longrightarrow> 64 * q + m = r \<Longrightarrow> 4096 * a + 64 * b + m = (r :: nat)"
  by simp

lemma shift_digits2: "64 * a + b = q \<Longrightarrow> 4096 * q + 64 * c + m = r \<Longrightarrow> 262144 * a + 4096 * b + 64 * c + m = (r :: nat)"
  by simp

lemma three_digits: "4096 * (r div 4096) + 64 * (r div 64 mod 64) + r mod 64 = (r :: nat)"
proof -
  have "r div 4096 = r div 64 div 64" by (simp add: div_mult2_eq [of r 64 64, simplified])
  then have "64 * (r div 4096) + r div 64 mod 64 = r div 64"
    using mult_div_mod_eq [of 64 "r div 64"] by simp
  then show ?thesis using mult_div_mod_eq [of 64 r] by (rule shift_digits)
qed

lemma four_digits:
  "262144 * (r div 262144) + 4096 * (r div 4096 mod 64) + 64 * (r div 64 mod 64) + r mod 64 = (r :: nat)"
proof -
  have "r div 262144 = r div 4096 div 64" by (simp add: div_mult2_eq [of r 4096 64, simplified])
  then have "64 * (r div 262144) + r div 4096 mod 64 = r div 4096"
    using mult_div_mod_eq [of 64 "r div 4096"] by simp
  then show ?thesis using three_digits [of r] by (rule shift_digits2)
qed

lemma decode_encode:
  assumes "scalar r"
  shows "decode_rune (encode_rune r @ rest) = (r, length (encode_rune r), True)"
proof -
  consider "r < 128" | "128 \<le> r" "r < 2048" | "2048 \<le> r" "r < 65536" | "65536 \<le> r"
    by linarith
  then show ?thesis
  proof cases
    case 1
    then show ?thesis by (simp add: encode_rune_def)
  next
    case 2
    define a b where "a = r div 64" and "b = r mod 64"
    have r: "r = 64 * a + b" and "b < 64" by (simp_all add: a_def b_def)
    with 2 have "2 \<le> a" "a \<le> 31" by auto
    moreover have "encode_rune r = [192 + a, 128 + b]"
      using 2 by (simp add: encode_rune_def a_def b_def)
    ultimately show ?thesis using r \<open>b < 64\<close> by (simp add: cont_def)
  next
    case 3
    define a b c where "a = r div 4096" and "b = r div 64 mod 64" and "c = r mod 64"
    have r: "r = 4096 * a + 64 * b + c" and "b < 64" "c < 64"
      using three_digits [of r] by (simp_all add: a_def b_def c_def)
    with 3 assms have "a \<le> 15" "second_lo (224 + a) \<le> 128 + b" "128 + b \<le> second_hi (224 + a)"
      unfolding second_lo_def second_hi_def scalar_def by auto
    moreover have "encode_rune r = [224 + a, 128 + b, 128 + c]"
      using 3 assms by (simp add: encode_rune_def a_def b_def c_def)
    ultimately show ?thesis using r \<open>b < 64\<close> \<open>c < 64\<close> by (simp add: cont_def)
  next
    case 4
    define a b c d where "a = r div 262144" and "b = r div 4096 mod 64"
      and "c = r div 64 mod 64" and "d = r mod 64"
    have r: "r = 262144 * a + 4096 * b + 64 * c + d" and "b < 64" "c < 64" "d < 64"
      using four_digits [of r] by (simp_all add: a_def b_def c_def d_def)
    moreover have "r < 1114112" using 4 assms by (simp add: scalar_def)
    ultimately have "a \<le> 4" "second_lo (240 + a) \<le> 128 + b" "128 + b \<le> second_hi (240 + a)"
      using 4 unfolding second_lo_def second_hi_def by auto
    moreover have "encode_rune r = [240 + a, 128 + b, 128 + c, 128 + d]"
      using 4 assms by (simp add: encode_rune_def a_def b_def c_def d_def)
    ultimately show ?thesis using r \<open>b < 64\<close> \<open>c < 64\<close> \<open>d < 64\<close> by (simp add: cont_def)
  qed
qed

text \<open>\<open>string(rs)\<close>.\<close>

definition string_of_runes :: "rune list \<Rightarrow> string" where
  "string_of_runes rs = map char_of (concat (map encode_rune rs))"

lemma encode_rune_not_Nil [simp]: "encode_rune r \<noteq> []"
  by (simp add: encode_rune_def)

lemma runes_of_encode:
  assumes "scalar r"
  shows "runes_of (encode_rune r @ rest) = (r, True) # runes_of rest"
proof -
  obtain b bs where e: "encode_rune r @ rest = b # bs"
    by (cases "encode_rune r @ rest") auto
  with decode_encode [OF assms, of rest]
  have "runes_of (b # bs) = (r, True) # runes_of (drop (length (encode_rune r)) (b # bs))"
    by (simp add: runes_of.simps(2) del: decode_rune.simps)
  then show ?thesis unfolding e [symmetric] by simp
qed

lemma runes_of_concat_encode:
  "list_all scalar rs \<Longrightarrow> runes_of (concat (map encode_rune rs)) = map (\<lambda>r. (r, True)) rs"
  by (induction rs) (simp_all add: runes_of_encode)

lemma bytes_string_of_runes: "bytes_of (string_of_runes rs) = concat (map encode_rune rs)"
proof -
  have "(ord \<circ> char_of) b = b" if "b \<in> set (concat (map encode_rune rs))" for b
    using that encode_rune_bytes by (auto simp: ord_def)
  then have "map (ord \<circ> char_of) (concat (map encode_rune rs)) = concat (map encode_rune rs)"
    by (rule map_idI)
  then show ?thesis unfolding bytes_of_def string_of_runes_def by simp
qed

text \<open>Encoding then decoding scalar values is the identity.\<close>

lemma runes_string_of_runes: "list_all scalar rs \<Longrightarrow> runes (string_of_runes rs) = rs"
  by (simp add: runes_def bytes_string_of_runes runes_of_concat_encode comp_def)

text \<open>Decoding yields scalar values only: ill-formed bytes read as \<open>U+FFFD\<close>.\<close>

lemma scalar_2: "194 \<le> b0 \<Longrightarrow> b0 \<le> 223 \<Longrightarrow> cont b1 \<Longrightarrow> scalar ((b0 - 192) * 64 + (b1 - 128))"
  by (auto simp: scalar_def cont_def)

lemma scalar_3:
  assumes "224 \<le> b0" "b0 \<le> 239" "second_lo b0 \<le> b1" "b1 \<le> second_hi b0" "cont b2"
  shows "scalar ((b0 - 224) * 4096 + (b1 - 128) * 64 + (b2 - 128))"
proof -
  define a b c where abc: "a = b0 - 224" "b = b1 - 128" "c = b2 - 128"
  from assms have "a \<le> 15" "b \<le> 63" "c \<le> 63"
    unfolding abc second_hi_def cont_def by (auto split: if_splits)
  moreover from assms have "a = 13 \<Longrightarrow> b \<le> 31"
    unfolding abc second_hi_def by (auto split: if_splits)
  ultimately show ?thesis unfolding scalar_def abc [symmetric]
    by (cases a "13 :: nat" rule: linorder_cases) auto
qed

lemma scalar_4:
  assumes "240 \<le> b0" "b0 \<le> 244" "second_lo b0 \<le> b1" "b1 \<le> second_hi b0" "cont b2" "cont b3"
  shows "scalar ((b0 - 240) * 262144 + (b1 - 128) * 4096 + (b2 - 128) * 64 + (b3 - 128))"
proof -
  define a b c d where abc: "a = b0 - 240" "b = b1 - 128" "c = b2 - 128" "d = b3 - 128"
  from assms have "a \<le> 4" "b \<le> 63" "c \<le> 63" "d \<le> 63"
    unfolding abc second_hi_def cont_def by (auto split: if_splits)
  moreover from assms have "a = 4 \<Longrightarrow> b \<le> 15"
    unfolding abc second_hi_def by (auto split: if_splits)
  moreover from assms have "a = 0 \<Longrightarrow> 16 \<le> b"
    unfolding abc second_lo_def by (auto split: if_splits)
  ultimately show ?thesis unfolding scalar_def abc [symmetric] by linarith
qed

lemma scalar_rune_error [simp]: "scalar rune_error"
  by (simp add: scalar_def rune_error_def)

lemma scalar_ascii: "b < 128 \<Longrightarrow> scalar b"
  by (simp add: scalar_def)

lemma decode_rune_scalar: "scalar (fst (decode_rune bs))"
  by (cases bs)
    (auto simp: scalar_2 scalar_3 scalar_4 scalar_ascii simp del: mult_Suc split: list.split)

lemma runes_of_scalar: "(r, ok) \<in> set (runes_of bs) \<Longrightarrow> scalar r"
proof (induction bs rule: runes_of.induct)
  case 1
  then show ?case by simp
next
  case (2 b bs)
  obtain r0 w k where d: "decode_rune (b # bs) = (r0, w, k)"
    by (cases "decode_rune (b # bs)")
  with decode_rune_scalar [of "b # bs"] have "scalar r0" by (simp del: decode_rune.simps)
  with d 2 show ?case by (auto simp: runes_of.simps(2) simp del: decode_rune.simps)
qed

lemma runes_scalar: "list_all scalar (runes s)"
  by (auto simp: runes_def list_all_iff dest: runes_of_scalar)

lemma digit64: "b < 64 \<Longrightarrow> (q * 64 + b) div 64 = q" "b < 64 \<Longrightarrow> (q * 64 + b) mod 64 = (b :: nat)"
  by simp_all

lemma digit_large: "b < k \<Longrightarrow> (q * k + b) div k = (q :: nat)"
  by simp

text \<open>A well-formed step of decoding takes exactly the encoding of the rune.\<close>

lemma decode_rune_bytes:
  assumes "decode_rune bs = (r, w, True)"
  shows "encode_rune r = take w bs" and "w \<le> length bs"
proof -
  consider b0 rest where "bs = b0 # rest" "b0 < 128" "r = b0" "w = 1"
    | b0 b1 rest where "bs = b0 # b1 # rest" "194 \<le> b0" "b0 \<le> 223" "cont b1"
        "r = (b0 - 192) * 64 + (b1 - 128)" "w = 2"
    | b0 b1 b2 rest where "bs = b0 # b1 # b2 # rest" "224 \<le> b0" "b0 \<le> 239"
        "second_lo b0 \<le> b1" "b1 \<le> second_hi b0" "cont b2"
        "r = (b0 - 224) * 4096 + (b1 - 128) * 64 + (b2 - 128)" "w = 3"
    | b0 b1 b2 b3 rest where "bs = b0 # b1 # b2 # b3 # rest" "240 \<le> b0" "b0 \<le> 244"
        "second_lo b0 \<le> b1" "b1 \<le> second_hi b0" "cont b2" "cont b3"
        "r = (b0 - 240) * 262144 + (b1 - 128) * 4096 + (b2 - 128) * 64 + (b3 - 128)" "w = 4"
    using assms by (cases bs rule: decode_rune.cases) (auto split: if_splits list.splits)
  then have "encode_rune r = take w bs \<and> w \<le> length bs"
  proof cases
    case 1
    then show ?thesis by (simp add: encode_rune_def)
  next
    case 2
    then obtain a b where ab: "b0 = 192 + a" "b1 = 128 + b" "b < 64" "2 \<le> a" "a < 32"
      by (auto simp: cont_def le_iff_add)
    with 2 have "r = a * 64 + b" by simp
    moreover have "r div 64 = a" "r mod 64 = b" using calculation ab by simp_all
    ultimately show ?thesis using 2 ab by (simp add: encode_rune_def)
  next
    case 3
    then obtain a b c where ab: "b0 = 224 + a" "b1 = 128 + b" "b2 = 128 + c" "b < 64" "c < 64" "a < 16"
      and lo: "a = 0 \<longrightarrow> 32 \<le> b" and hi: "a = 13 \<longrightarrow> b < 32"
      by (auto simp: cont_def le_iff_add second_lo_def second_hi_def split: if_splits)
    with 3 have r: "r = a * 4096 + b * 64 + c" by simp
    then have r2: "r = (a * 64 + b) * 64 + c" by simp
    have "r div 64 = a * 64 + b" "r mod 64 = c" unfolding r2 using digit64 ab by blast+
    moreover have "a * 4096 + (b * 64 + c) = r" "b * 64 + c < 4096" using r ab by simp_all
    then have "r div 4096 = a" using digit_large by blast
    moreover have "(a * 64 + b) mod 64 = b" using digit64 ab by blast
    moreover have "2048 \<le> r" using r lo by (cases a) auto
    moreover have "r < 65536" using r ab by simp
    moreover have "scalar r"
      using scalar_3 3 by blast
    ultimately show ?thesis using 3 ab by (simp add: encode_rune_def)
  next
    case 4
    then obtain a b c d where ab: "b0 = 240 + a" "b1 = 128 + b" "b2 = 128 + c" "b3 = 128 + d"
        "b < 64" "c < 64" "d < 64" "a < 5"
      and lo: "a = 0 \<longrightarrow> 16 \<le> b"
      by (auto simp: cont_def le_iff_add second_lo_def second_hi_def split: if_splits)
    with 4 have r: "r = a * 262144 + b * 4096 + c * 64 + d" by simp
    then have r2: "r = ((a * 64 + b) * 64 + c) * 64 + d" by simp
    have "r div 64 = (a * 64 + b) * 64 + c" "r mod 64 = d" unfolding r2 using digit64 ab by blast+
    moreover have "((a * 64 + b) * 64 + c) mod 64 = c" using digit64 ab by blast
    moreover have "(a * 64 + b) * 4096 + (c * 64 + d) = r" "c * 64 + d < 4096" using r ab by simp_all
    then have "r div 4096 = a * 64 + b" using digit_large by blast
    moreover have "(a * 64 + b) mod 64 = b" using digit64 ab by blast
    moreover have "a * 262144 + (b * 4096 + c * 64 + d) = r" "b * 4096 + c * 64 + d < 262144"
      using r ab by simp_all
    then have "r div 262144 = a" using digit_large by blast
    moreover have "65536 \<le> r" using r lo by (cases a) auto
    moreover have "scalar r"
      using scalar_4 4 by blast
    ultimately show ?thesis using 4 ab by (simp add: encode_rune_def)
  qed
  then show "encode_rune r = take w bs" and "w \<le> length bs" by simp_all
qed

lemma encode_runes_of:
  "list_all snd (runes_of bs) \<Longrightarrow> concat (map encode_rune (map fst (runes_of bs))) = bs"
proof (induction bs rule: runes_of.induct)
  case 1
  then show ?case by simp
next
  case (2 b bs)
  obtain r w ok where d: "decode_rune (b # bs) = (r, w, ok)" by (metis prod_cases3)
  have step: "runes_of (b # bs) = (r, ok) # runes_of (drop w (b # bs))" using d
    by (subst runes_of.simps) (simp del: decode_rune.simps runes_of.simps)
  with "2.prems" have ok: "ok" "list_all snd (runes_of (drop w (b # bs)))" by auto
  have "concat (map encode_rune (map fst (runes_of (drop w (b # bs))))) = drop w (b # bs)"
    using "2.IH" d ok(2) by (simp del: decode_rune.simps)
  with step ok d show ?case using decode_rune_bytes(1) [of "b # bs" r w] by simp
qed

lemma string_of_runes_runes: "valid_utf8 s \<Longrightarrow> string_of_runes (runes s) = s"
  unfolding string_of_runes_def runes_def valid_utf8_def
  by (simp only: encode_runes_of) (simp add: bytes_of_def ord_def comp_def)

text \<open>\<open>unicode.IsControl\<close>: the C0 and C1 ranges and DEL.\<close>

definition is_control :: "rune \<Rightarrow> bool" where
  "is_control r = (r < 32 \<or> (127 \<le> r \<and> r < 160))"

text \<open>\<open>strings.TrimSpace\<close> on ASCII white space.\<close>

definition is_space :: "char \<Rightarrow> bool" where
  "is_space c = (ord c = 32 \<or> (9 \<le> ord c \<and> ord c \<le> 13))"

definition trim_space :: "string \<Rightarrow> string" where
  "trim_space s = rev (dropWhile is_space (rev (dropWhile is_space s)))"

end
