(* ===== verification/GtfsCsv.thy ===== *)
theory GtfsCsv
  imports GoStrings "HOL-Library.Word"
begin

text \<open>
  The CSV layer of \<open>internal/gtfs/parse.go\<close>: the reader that bounds the bytes of one record
  (\<open>recordLimitReader\<close>), the header and row access (\<open>csvRows\<close>, \<open>rowReader\<close>), the field
  conversions, and the \<open>for rows.Next()\<close> loop all four table parsers share, with one
  invariant rule for it.

  Parameters of the model, in the record \<open>gtfs_env\<close>: the standard library's CSV tokeniser
  (the successive results of \<open>csv.Reader.Read\<close> before \<open>io.EOF\<close> on a byte stream),
  \<open>archive/zip\<close>, \<open>strconv.ParseFloat\<close> (a float64 is its 64-bit pattern), Unicode upper
  casing, and the order in which Go ranges over a map.
\<close>

section \<open>Parameters\<close>

record zip_entry =
  ze_name :: string
  ze_size :: nat
  ze_bytes :: "string result"

record gtfs_env =
  csv_reads :: "string \<times> go_error option \<Rightarrow> string list result list"
  zip_decode :: "string \<Rightarrow> zip_entry list result"
  parse_float :: "string \<Rightarrow> 64 word option"
  unicode_upper :: "string \<Rightarrow> string"
  map_order :: "string list \<Rightarrow> string list"

text \<open>Ranging over a map visits every key: the order is arbitrary, the keys are not.\<close>

definition fair_order :: "gtfs_env \<Rightarrow> bool" where
  "fair_order env = (\<forall>ks. set (map_order env ks) = set ks)"

section \<open>The record limit reader\<close>

definition max_csv_record_bytes :: int where
  "max_csv_record_bytes = 1048576"

record limit_reader =
  lr_remaining :: int
  lr_failed :: bool
  lr_in_quotes :: bool
  lr_quote_pending :: bool

definition new_limit_reader :: limit_reader where
  "new_limit_reader = \<lparr>lr_remaining = max_csv_record_bytes, lr_failed = False,
     lr_in_quotes = False, lr_quote_pending = False\<rparr>"

text \<open>What \<open>Read\<close> does with one byte once \<open>remaining\<close> is counted down.\<close>

definition unquoted_byte :: "limit_reader \<Rightarrow> char \<Rightarrow> limit_reader" where
  "unquoted_byte r c =
     (if c = CHR 0x22 then r\<lparr>lr_in_quotes := True\<rparr>
      else if c = CHR 0x0A then r\<lparr>lr_remaining := max_csv_record_bytes\<rparr>
      else r)"

definition limit_byte :: "limit_reader \<Rightarrow> char \<Rightarrow> limit_reader" where
  "limit_byte r c =
     (if lr_in_quotes r then
        (if lr_quote_pending r then
           (if c = CHR 0x22 then r\<lparr>lr_quote_pending := False\<rparr>
            else unquoted_byte (r\<lparr>lr_in_quotes := False, lr_quote_pending := False\<rparr>) c)
         else if c = CHR 0x22 then r\<lparr>lr_quote_pending := True\<rparr>
         else r)
      else unquoted_byte r c)"

text \<open>The loop over the bytes of one \<open>Read\<close>: the index of the byte that broke the limit, if any.\<close>

fun limit_scan :: "limit_reader \<Rightarrow> nat \<Rightarrow> string \<Rightarrow> nat option \<times> limit_reader" where
  "limit_scan r index [] = (None, r)"
| "limit_scan r index (c # cs) =
     (let r = r\<lparr>lr_remaining := lr_remaining r - 1\<rparr>
      in if lr_remaining r < 0 then (Some index, r\<lparr>lr_failed := True\<rparr>)
         else limit_scan (limit_byte r c) (Suc index) cs)"

definition record_too_long :: go_error where
  "record_too_long = Errorf ''GTFS CSV record exceeds %d bytes'' [AInt max_csv_record_bytes]"

text \<open>
  \<open>recordLimitReader.Read\<close>: the underlying \<open>Read\<close> gave the bytes \<open>buf\<close> and the error
  \<open>err\<close>; the result is the count and error the caller sees.
\<close>

definition limit_read ::
    "limit_reader \<Rightarrow> string \<Rightarrow> go_error option \<Rightarrow> (nat \<times> go_error option) \<times> limit_reader" where
  "limit_read r buf err =
     (if lr_failed r then ((0, Some record_too_long), r)
      else (case limit_scan r 0 buf of
              (Some index, r') \<Rightarrow> ((index + 1, Some record_too_long), r')
            | (None, r') \<Rightarrow> ((length buf, err), r')))"

text \<open>
  The whole stream of a file as the CSV reader sees it through the limit reader: the bytes
  delivered, and the error that ended it (none for end of file).
\<close>

definition limited_stream :: "string \<Rightarrow> string \<times> go_error option" where
  "limited_stream bytes =
     (case limit_read new_limit_reader bytes None of
        ((n, err), _) \<Rightarrow> (take n bytes, err))"

subsection \<open>Chunks do not matter\<close>

lemma limit_scan_index:
  "limit_scan r i cs = (case limit_scan r 0 cs of (None, r') \<Rightarrow> (None, r') | (Some k, r') \<Rightarrow> (Some (i + k), r'))"
proof (induction cs arbitrary: r i)
  case Nil
  then show ?case by simp
next
  case (Cons c cs)
  let ?r = "r\<lparr>lr_remaining := lr_remaining r - 1\<rparr>"
  show ?case
    using Cons.IH [of "limit_byte ?r c" "Suc i"] Cons.IH [of "limit_byte ?r c" "Suc 0"]
    by (simp add: Let_def split: option.splits prod.splits)
qed

lemma limit_scan_append:
  "limit_scan r i (xs @ ys) =
     (case limit_scan r i xs of
        (None, r') \<Rightarrow> limit_scan r' (i + length xs) ys
      | (Some k, r') \<Rightarrow> (Some k, r'))"
  by (induction xs arbitrary: r i) (simp_all add: Let_def split: option.splits prod.splits)

text \<open>Successive \<open>Read\<close> calls over the chunks the underlying reader happens to return.\<close>

fun limit_reads :: "limit_reader \<Rightarrow> string list \<Rightarrow> string \<times> go_error option" where
  "limit_reads r [] = ([], None)"
| "limit_reads r (chunk # chunks) =
     (case limit_read r chunk None of
        ((n, Some e), r') \<Rightarrow> (take n chunk, Some e)
      | ((n, None), r') \<Rightarrow> (case limit_reads r' chunks of (bs, e) \<Rightarrow> (take n chunk @ bs, e)))"

lemma limit_scan_None_failed: "limit_scan r i cs = (None, r') \<Longrightarrow> \<not> lr_failed r \<Longrightarrow> \<not> lr_failed r'"
  by (induction cs arbitrary: r i)
    (auto simp: Let_def limit_byte_def unquoted_byte_def split: if_splits)

lemma limit_scan_Some_less: "limit_scan r 0 cs = (Some k, r') \<Longrightarrow> k < length cs"
proof (induction cs arbitrary: r k)
  case Nil
  then show ?case by simp
next
  case (Cons c cs)
  then show ?case
    using limit_scan_index [of _ "Suc 0" cs]
    by (fastforce simp: Let_def split: if_splits option.splits prod.splits)
qed

lemma limit_reads_concat:
  assumes "\<not> lr_failed r"
  shows "limit_reads r chunks =
    (case limit_scan r 0 (concat chunks) of
       (None, _) \<Rightarrow> (concat chunks, None)
     | (Some k, _) \<Rightarrow> (take (Suc k) (concat chunks), Some record_too_long))"
  using assms
proof (induction chunks arbitrary: r)
  case Nil
  then show ?case by simp
next
  case (Cons chunk chunks)
  obtain k r' where scan: "limit_scan r 0 chunk = (k, r')" by fastforce
  show ?case
  proof (cases k)
    case None
    with scan Cons.prems have "\<not> lr_failed r'" by (simp add: limit_scan_None_failed)
    then show ?thesis using Cons.prems scan None Cons.IH [of r']
        limit_scan_index [of r' "length chunk" "concat chunks"]
      by (auto simp: limit_read_def limit_scan_append split: option.splits prod.splits)
  next
    case (Some j)
    with scan have "j < length chunk" by (simp add: limit_scan_Some_less)
    then show ?thesis using Cons.prems scan Some
      by (simp add: limit_read_def limit_scan_append)
  qed
qed

subsection \<open>The limit as a property of the records\<close>

text \<open>
  The specification: a quote-aware split of the stream into records, each with its newline.
  The automaton has three states, outside quotes, inside, and inside with a quote just seen.
\<close>

datatype quoting = Plain | Quoted | QuotePending

definition quoting_step :: "quoting \<Rightarrow> char \<Rightarrow> quoting" where
  "quoting_step q c =
     (case q of
        Plain \<Rightarrow> (if c = CHR 0x22 then Quoted else Plain)
      | Quoted \<Rightarrow> (if c = CHR 0x22 then QuotePending else Quoted)
      | QuotePending \<Rightarrow> (if c = CHR 0x22 then Quoted else Plain))"

definition ends_record :: "quoting \<Rightarrow> char \<Rightarrow> bool" where
  "ends_record q c = (q \<noteq> Quoted \<and> c = CHR 0x0A)"

fun csv_records :: "quoting \<Rightarrow> string \<Rightarrow> string \<Rightarrow> string list" where
  "csv_records q cur [] = [cur]"
| "csv_records q cur (c # cs) =
     (if ends_record q c then (cur @ [c]) # csv_records (quoting_step q c) [] cs
      else csv_records (quoting_step q c) (cur @ [c]) cs)"

definition quoting_of :: "limit_reader \<Rightarrow> quoting" where
  "quoting_of r = (if lr_in_quotes r then (if lr_quote_pending r then QuotePending else Quoted) else Plain)"

lemma quoting_of_remaining [simp]:
  "quoting_of (r\<lparr>lr_remaining := n\<rparr>) = quoting_of r"
  by (simp add: quoting_of_def)

definition limit_wf :: "limit_reader \<Rightarrow> bool" where
  "limit_wf r = (lr_quote_pending r \<longrightarrow> lr_in_quotes r)"

lemma limit_byte_quoting:
  assumes "limit_wf r"
  shows "quoting_of (limit_byte r c) = quoting_step (quoting_of r) c" and "limit_wf (limit_byte r c)"
  using assms
  by (auto simp: limit_wf_def limit_byte_def unquoted_byte_def quoting_of_def quoting_step_def)

lemma limit_byte_remaining:
  "lr_remaining (limit_byte r c) =
     (if ends_record (quoting_of r) c then max_csv_record_bytes else lr_remaining r)"
  by (auto simp: limit_byte_def unquoted_byte_def quoting_of_def ends_record_def)

lemma csv_records_hd: "\<exists>rec \<in> set (csv_records q cur cs). length cur \<le> length rec"
proof (induction q cur cs rule: csv_records.induct)
  case (2 q cur c cs)
  then show ?case by (cases "ends_record q c") (auto dest: Suc_leD)
qed simp

lemma limit_scan_spec:
  assumes "limit_wf r" and "lr_remaining r = max_csv_record_bytes - int (length cur)"
    and "int (length cur) \<le> max_csv_record_bytes"
  shows "fst (limit_scan r i cs) = None \<longleftrightarrow>
    (\<forall>rec \<in> set (csv_records (quoting_of r) cur cs). int (length rec) \<le> max_csv_record_bytes)"
  using assms
proof (induction cs arbitrary: r i cur)
  case Nil
  then show ?case by simp
next
  case (Cons c cs)
  let ?r = "r\<lparr>lr_remaining := lr_remaining r - 1\<rparr>"
  have wf: "limit_wf ?r" using Cons.prems(1) by (simp add: limit_wf_def)
  note step = limit_byte_quoting [OF wf, of c] limit_byte_remaining [of ?r c]
  show ?case
  proof (cases "lr_remaining r - 1 < 0")
    case True
    then have "max_csv_record_bytes < int (length (cur @ [c]))" using Cons.prems(2) by simp
    moreover have "\<exists>rec \<in> set (csv_records (quoting_of r) cur (c # cs)). length (cur @ [c]) \<le> length rec"
      using csv_records_hd [of _ "cur @ [c]" cs] by auto
    ultimately have "\<exists>rec \<in> set (csv_records (quoting_of r) cur (c # cs)). max_csv_record_bytes < int (length rec)"
      by force
    moreover from True have "fst (limit_scan r i (c # cs)) \<noteq> None" by (simp add: Let_def)
    ultimately show ?thesis by (meson linorder_not_less)
  next
    case False
    let ?cur = "if ends_record (quoting_of r) c then [] else cur @ [c]"
    have "fst (limit_scan (limit_byte ?r c) (Suc i) cs) = None \<longleftrightarrow>
        (\<forall>rec \<in> set (csv_records (quoting_step (quoting_of r) c) ?cur cs). int (length rec) \<le> max_csv_record_bytes)"
      using Cons.IH [of "limit_byte ?r c" ?cur "Suc i"] step Cons.prems False
      by (simp add: max_csv_record_bytes_def)
    with False Cons.prems show ?thesis by (simp add: Let_def)
  qed
qed

section \<open>Rows\<close>

record row_reader =
  rr_file :: string
  rr_reads :: "string list result list"
  rr_columns :: "(string \<times> nat) list"
  rr_record :: "string list"
  rr_err :: "go_error option"
  rr_line :: nat

definition bom :: string where
  "bom = [CHR 0xEF, CHR 0xBB, CHR 0xBF]"

text \<open>The header loop of \<open>csvRows\<close>: column name to index, the byte order mark dropped.\<close>

fun header_columns ::
    "string \<Rightarrow> nat \<Rightarrow> string list \<Rightarrow> (string \<times> nat) list \<Rightarrow> (string \<times> nat) list result" where
  "header_columns file index [] columns = Inr columns"
| "header_columns file index (name # names) columns =
     (let name = trim_prefix name bom
      in if map_of columns name \<noteq> None
         then Inl (Errorf ''%s has duplicate column %q'' [AStr file, AStr name])
         else header_columns file (Suc index) names (columns @ [(name, index)]))"

fun missing_column :: "(string \<times> nat) list \<Rightarrow> string list \<Rightarrow> string option" where
  "missing_column columns [] = None"
| "missing_column columns (name # names) =
     (if map_of columns name = None then Some name else missing_column columns names)"

definition eof :: go_error where
  "eof = Errorf ''EOF'' []"

definition csv_rows :: "gtfs_env \<Rightarrow> zip_entry \<Rightarrow> string list \<Rightarrow> row_reader result" where
  "csv_rows env file required =
     (case ze_bytes file of
        Inl e \<Rightarrow> Inl (Wrapf ''open %s: %w'' [AStr (ze_name file)] e)
      | Inr bytes \<Rightarrow>
          (case csv_reads env (limited_stream bytes) of
             [] \<Rightarrow> Inl (Wrapf ''read %s header: %w'' [AStr (ze_name file)] eof)
           | Inl e # _ \<Rightarrow> Inl (Wrapf ''read %s header: %w'' [AStr (ze_name file)] e)
           | Inr header # reads \<Rightarrow>
               bind_res (header_columns (ze_name file) 0 header []) (\<lambda>columns.
               case missing_column columns required of
                 Some name \<Rightarrow>
                   Inl (Errorf ''%s is missing required column %q'' [AStr (ze_name file), AStr name])
               | None \<Rightarrow> Inr \<lparr>rr_file = ze_name file, rr_reads = reads, rr_columns = columns,
                   rr_record = [], rr_err = None, rr_line = 1\<rparr>)))"

definition row_next :: "row_reader \<Rightarrow> bool \<times> row_reader" where
  "row_next r =
     (if rr_err r \<noteq> None then (False, r)
      else (case rr_reads r of
              [] \<Rightarrow> (False, r)
            | Inl e # reads \<Rightarrow>
                (False, r\<lparr>rr_reads := reads,
                   rr_err := Some (Wrapf ''read %s near record %d: %w''
                     [AStr (rr_file r), AInt (int (rr_line r + 1))] e)\<rparr>)
            | Inr rec # reads \<Rightarrow>
                (True, r\<lparr>rr_reads := reads, rr_line := rr_line r + 1, rr_record := rec\<rparr>)))"

definition row_value :: "row_reader \<Rightarrow> string \<Rightarrow> string" where
  "row_value r column =
     (case map_of (rr_columns r) column of
        None \<Rightarrow> []
      | Some index \<Rightarrow> if length (rr_record r) \<le> index then [] else rr_record r ! index)"

text \<open>\<open>rows.Line()\<close> as the error messages print it.\<close>

definition row_line :: "row_reader \<Rightarrow> fmt_arg" where
  "row_line r = AInt (int (rr_line r))"

section \<open>Field conversions\<close>

definition required_int :: "string \<Rightarrow> string \<Rightarrow> fmt_arg \<Rightarrow> int result" where
  "required_int value field line =
     (if value = [] then Inl (Errorf ''line %d: %s is required'' [line, AStr field])
      else (case atoi value of
              None \<Rightarrow> Inl (Errorf ''line %d: invalid %s %q: %w'' [line, AStr field, AStr value])
            | Some parsed \<Rightarrow> Inr parsed))"

definition optional_int :: "string \<Rightarrow> int \<Rightarrow> string \<Rightarrow> fmt_arg \<Rightarrow> int result" where
  "optional_int value fallback field line =
     (if value = [] then Inr fallback else required_int value field line)"

definition optional_int_pointer :: "string \<Rightarrow> string \<Rightarrow> fmt_arg \<Rightarrow> int option result" where
  "optional_int_pointer value field line =
     (if value = [] then Inr None
      else bind_res (required_int value field line) (\<lambda>parsed. Inr (Some parsed)))"

definition optional_float_pointer ::
    "gtfs_env \<Rightarrow> string \<Rightarrow> string \<Rightarrow> fmt_arg \<Rightarrow> (64 word) option result" where
  "optional_float_pointer env value field line =
     (if value = [] then Inr None
      else (case parse_float env value of
              None \<Rightarrow> Inl (Errorf ''line %d: invalid %s %q: %w'' [line, AStr field, AStr value])
            | Some parsed \<Rightarrow> Inr (Some parsed)))"

section \<open>The row loop\<close>

text \<open>
  \<open>for rows.Next() { .. }\<close>: the body sees the current row and the loop's variables, and
  returns early with an error. Every \<open>Next\<close> that returns true consumes a record, so the loop
  ends.
\<close>

function each_row :: "(row_reader \<Rightarrow> 's \<Rightarrow> 's result) \<Rightarrow> row_reader \<Rightarrow> 's \<Rightarrow> (row_reader \<times> 's) result" where
  "each_row body r s =
     (case row_next r of
        (False, r') \<Rightarrow> Inr (r', s)
      | (True, r') \<Rightarrow> (case body r' s of Inl e \<Rightarrow> Inl e | Inr s' \<Rightarrow> each_row body r' s'))"
  by pat_completeness auto
termination
  by (relation "measure (\<lambda>(_, r, _). length (rr_reads r))")
    (auto simp: row_next_def split: if_splits list.splits sum.splits)

declare each_row.simps [simp del]

text \<open>The loop, then \<open>rows.Err()\<close>.\<close>

definition parse_rows :: "(row_reader \<Rightarrow> 's \<Rightarrow> 's result) \<Rightarrow> row_reader \<Rightarrow> 's \<Rightarrow> 's result" where
  "parse_rows body r s =
     bind_res (each_row body r s) (\<lambda>(r', s').
       case rr_err r' of Some e \<Rightarrow> Inl e | None \<Rightarrow> Inr s')"

text \<open>
  The invariant rule: what holds at the start and is kept by every row that is accepted holds
  when the loop ends. It is the induction behind every table parser's correctness.
\<close>

lemma each_row_invariant:
  assumes "each_row body r s = Inr (r', s')" and "P s"
    and "\<And>r s s'. P s \<Longrightarrow> body r s = Inr s' \<Longrightarrow> P s'"
  shows "P s'"
  using assms
proof (induction body r s rule: each_row.induct)
  case (1 body r s)
  obtain b r1 where nxt: "row_next r = (b, r1)" by fastforce
  show ?case
  proof (cases b)
    case False
    with nxt "1.prems" show ?thesis by (simp add: each_row.simps [of body r s])
  next
    case True
    with nxt "1.prems"(1) obtain s1 where s1: "body r1 s = Inr s1"
      by (auto simp: each_row.simps [of body r s] split: sum.splits)
    with nxt True "1.prems"(1) have "each_row body r1 s1 = Inr (r', s')"
      by (simp add: each_row.simps [of body r s])
    moreover from "1.prems"(2) s1 have "P s1" by (rule "1.prems"(3))
    moreover from nxt True have "(True, r1) = row_next r" by simp
    ultimately show ?thesis using "1.IH" [of True r1 s1] s1 "1.prems"(3) by blast
  qed
qed

lemma parse_rows_invariant [consumes 1]:
  assumes "parse_rows body r s = Inr s'" and "P s"
    and "\<And>r s s'. P s \<Longrightarrow> body r s = Inr s' \<Longrightarrow> P s'"
  shows "P s'"
  using assms
  by (auto simp: parse_rows_def ok_rules split: option.splits intro: each_row_invariant)

end
