(* ===== verification/GtfsParse.thy ===== *)
theory GtfsParse
  imports GtfsCsv "HOL-Library.Product_Lexorder"
begin

text \<open>
  The table parsers of \<open>internal/gtfs/parse.go\<close> and the data of \<open>internal/gtfs/types.go\<close>:
  routes, stops with their parent stations, trips and stop times, from the rows of the
  archive's four CSV files to the network the importer stores.
\<close>

section \<open>Data\<close>

record route =
  rt_id :: string
  rt_agency :: string
  rt_short_name :: string
  rt_long_name :: string
  rt_type :: int
  rt_color :: string
  rt_text_color :: string
  rt_replacement_bus :: bool

record stop =
  st_id :: string
  st_name :: string
  st_latitude :: "(64 word) option"
  st_longitude :: "(64 word) option"
  st_url :: string
  st_location_type :: int
  st_parent :: string
  st_wheelchair :: "int option"
  st_level :: string
  st_platform :: string

record route_station =
  rs_route :: string
  rs_station :: string

record summary =
  sm_routes :: nat
  sm_stops :: nat
  sm_stations :: nat
  sm_trips :: nat
  sm_stop_times :: nat
  sm_route_stations :: nat
  sm_skipped_stop_times :: nat
  sm_metro_bytes :: nat

record dataset =
  ds_routes :: "route list"
  ds_stops :: "stop list"
  ds_route_stations :: "route_station list"
  ds_summary :: summary

definition max_metro_zip_bytes :: nat where "max_metro_zip_bytes = 268435456"
definition max_route_records :: nat where "max_route_records = 10000"
definition max_stop_records :: nat where "max_stop_records = 100000"
definition max_trip_records :: nat where "max_trip_records = 500000"
definition max_stop_time_rows :: nat where "max_stop_time_rows = 5000000"
definition max_relations :: nat where "max_relations = 250000"

definition required_file_limits :: "(string \<times> nat) list" where
  "required_file_limits =
     [(''routes.txt'', 10485760), (''stops.txt'', 52428800), (''trips.txt'', 104857600),
      (''stop_times.txt'', 1073741824)]"

section \<open>routes.txt\<close>

type_synonym routes_state = "route list \<times> string list"

definition route_row :: "gtfs_env \<Rightarrow> row_reader \<Rightarrow> routes_state \<Rightarrow> routes_state result" where
  "route_row env rows s =
     (case s of (routes, ids) \<Rightarrow>
      bind_res (required_int (row_value rows ''route_type'') ''route_type'' (row_line rows)) (\<lambda>route_type.
      let id = row_value rows ''route_id'';
          short_name = row_value rows ''route_short_name'';
          long_name = row_value rows ''route_long_name''
      in if id = [] then Inl (Errorf ''routes.txt line %d: route_id is required'' [row_line rows])
         else if id \<in> set ids
         then Inl (Errorf ''routes.txt line %d: duplicate route_id %q'' [row_line rows, AStr id])
         else if short_name = [] \<and> long_name = []
         then Inl (Errorf ''routes.txt line %d: route_short_name or route_long_name is required'' [row_line rows])
         else
           let routes = routes @ [\<lparr>rt_id = id, rt_agency = row_value rows ''agency_id'',
                 rt_short_name = short_name, rt_long_name = long_name, rt_type = route_type,
                 rt_color = to_upper (unicode_upper env) (row_value rows ''route_color''),
                 rt_text_color = to_upper (unicode_upper env) (row_value rows ''route_text_color''),
                 rt_replacement_bus = equal_fold short_name ''Replacement Bus''\<rparr>]
           in if length routes > max_route_records
              then Inl (Errorf ''routes.txt exceeds %d records'' [AInt (int max_route_records)])
              else Inr (routes, ids @ [id])))"

definition parse_routes :: "gtfs_env \<Rightarrow> zip_entry \<Rightarrow> routes_state result" where
  "parse_routes env file =
     bind_res (csv_rows env file [''route_id'', ''route_type'']) (\<lambda>rows.
     parse_rows (route_row env) rows ([], []))"

definition routes_inv :: "routes_state \<Rightarrow> bool" where
  "routes_inv = (\<lambda>(routes, ids). ids = map rt_id routes \<and> distinct ids \<and> [] \<notin> set ids \<and>
     length routes \<le> max_route_records \<and>
     (\<forall>r \<in> set routes. (rt_short_name r \<noteq> [] \<or> rt_long_name r \<noteq> []) \<and>
        - (2 ^ 63) \<le> rt_type r \<and> rt_type r < 2 ^ 63))"

lemma required_int_range:
  "required_int value field line = Inr n \<Longrightarrow> - (2 ^ 63) \<le> n \<and> n < 2 ^ 63"
  by (auto simp: required_int_def dest!: atoi_range split: if_splits option.splits)

lemma route_row_inv: "routes_inv s \<Longrightarrow> route_row env rows s = Inr s' \<Longrightarrow> routes_inv s'"
  by (auto simp: route_row_def routes_inv_def Let_def ok_rules dest!: required_int_range
      split: prod.splits)

lemma parse_routes_inv:
  assumes "parse_routes env file = Inr (routes, ids)"
  shows "routes_inv (routes, ids)"
proof -
  from assms obtain rows where "parse_rows (route_row env) rows ([], []) = Inr (routes, ids)"
    by (auto simp: parse_routes_def ok_rules)
  moreover have "routes_inv ([], [])" by (simp add: routes_inv_def)
  ultimately show ?thesis
    by (rule parse_rows_invariant [where P = routes_inv]) (rule route_row_inv)
qed

section \<open>stops.txt\<close>

record stops_state =
  ss_stops :: "stop list"
  ss_stations :: "string list"
  ss_types :: "(string \<times> int) list"
  ss_parents :: "(string \<times> string) list"

definition empty_stops :: stops_state where
  "empty_stops = \<lparr>ss_stops = [], ss_stations = [], ss_types = [], ss_parents = []\<rparr>"

text \<open>The bookkeeping at the end of a row: the three maps and the list.\<close>

definition add_stop :: "stop \<Rightarrow> stops_state \<Rightarrow> stops_state" where
  "add_stop x s =
     s\<lparr>ss_types := (st_id x, st_location_type x) # ss_types s,
       ss_parents := (st_id x, st_parent x) # ss_parents s,
       ss_stations := (if st_location_type x = 1 then st_id x # ss_stations s else ss_stations s),
       ss_stops := ss_stops s @ [x]\<rparr>"

definition stop_row :: "gtfs_env \<Rightarrow> row_reader \<Rightarrow> stops_state \<Rightarrow> stops_state result" where
  "stop_row env rows s =
     (let line = row_line rows; id = row_value rows ''stop_id''
      in if id = [] then Inl (Errorf ''stops.txt line %d: stop_id is required'' [line])
         else if map_of (ss_types s) id \<noteq> None
         then Inl (Errorf ''stops.txt line %d: duplicate stop_id %q'' [line, AStr id])
         else
      bind_res (optional_float_pointer env (row_value rows ''stop_lat'') ''stop_lat'' line) (\<lambda>latitude.
      bind_res (optional_float_pointer env (row_value rows ''stop_lon'') ''stop_lon'' line) (\<lambda>longitude.
      bind_res (optional_int (row_value rows ''location_type'') 0 ''location_type'' line) (\<lambda>location_type.
      if location_type < 0 \<or> location_type > 4
      then Inl (Errorf ''stops.txt line %d: unsupported location_type %d'' [line, AInt location_type])
      else
      let name = row_value rows ''stop_name''
      in if location_type \<le> 2 \<and> name = []
         then Inl (Errorf ''stops.txt line %d: stop_name is required for location_type %d'' [line, AInt location_type])
         else if location_type \<le> 2 \<and> (latitude = None \<or> longitude = None)
         then Inl (Errorf ''stops.txt line %d: stop_lat and stop_lon are required for location_type %d'' [line, AInt location_type])
         else
      bind_res (optional_int_pointer (row_value rows ''wheelchair_boarding'') ''wheelchair_boarding'' line) (\<lambda>wheelchair.
      let s = add_stop \<lparr>st_id = id, st_name = name, st_latitude = latitude,
            st_longitude = longitude, st_url = row_value rows ''stop_url'',
            st_location_type = location_type, st_parent = row_value rows ''parent_station'',
            st_wheelchair = wheelchair, st_level = row_value rows ''level_id'',
            st_platform = row_value rows ''platform_code''\<rparr> s
      in if length (ss_stops s) > max_stop_records
         then Inl (Errorf ''stops.txt exceeds %d records'' [AInt (int max_stop_records)])
         else Inr s)))))"

text \<open>The parent a stop must have, by its location type: -1 where none is checked.\<close>

definition expected_parent_type :: "int \<Rightarrow> string \<Rightarrow> int" where
  "expected_parent_type location_type parent =
     (if location_type = 0 then (if parent \<noteq> [] then 1 else -1)
      else if location_type = 2 \<or> location_type = 3 then 1
      else if location_type = 4 then 0
      else -1)"

definition check_parent ::
    "(string \<times> int) list \<Rightarrow> (string \<times> string) list \<Rightarrow> string \<Rightarrow> unit result" where
  "check_parent types parents stop_id =
     (let location_type = int_at types stop_id;
          parent_id = str_at parents stop_id;
          expected = expected_parent_type location_type parent_id
      in if location_type = 1 \<and> parent_id \<noteq> []
         then Inl (Errorf ''stops.txt: station %q must not have a parent'' [AStr stop_id])
         else if expected \<ge> 0 \<and> parent_id = []
         then Inl (Errorf ''stops.txt: stop %q requires a parent for location_type %d'' [AStr stop_id, AInt location_type])
         else if expected \<ge> 0 \<and> map_of types parent_id \<noteq> Some expected
         then Inl (Errorf ''stops.txt: stop %q requires parent location_type %d, got %q''
                [AStr stop_id, AInt expected, AStr parent_id])
         else Inr ())"

fun check_parents ::
    "(string \<times> int) list \<Rightarrow> (string \<times> string) list \<Rightarrow> string list \<Rightarrow> unit result" where
  "check_parents types parents [] = Inr ()"
| "check_parents types parents (stop_id # ids) =
     bind_res (check_parent types parents stop_id) (\<lambda>_. check_parents types parents ids)"

text \<open>
  \<open>resolveStation\<close>: up the parents until a station; the stops on the path are marked, so a
  cycle is an error and every call marks a stop that has a parent entry and was not marked.
\<close>

lemma str_at_key: "str_at m k \<noteq> [] \<Longrightarrow> k \<in> fst ` set m"
  by (auto simp: str_at_def dest: map_of_in_keys split: option.splits)

function resolve_station ::
    "string \<Rightarrow> (string \<times> int) list \<Rightarrow> (string \<times> string) list \<Rightarrow> string list \<Rightarrow> string result" where
  "resolve_station stop_id types parents visiting =
     (if stop_id \<in> set visiting
      then Inl (Errorf ''stops.txt: parent cycle at stop %q'' [AStr stop_id])
      else if int_at types stop_id = 1 then Inr stop_id
      else if str_at parents stop_id = [] then Inr []
      else resolve_station (str_at parents stop_id) types parents (stop_id # visiting))"
  by pat_completeness auto
termination
proof (relation "measure (\<lambda>(_, _, parents, visiting). card (fst ` set parents - set visiting))")
  fix stop_id types parents visiting
  assume "stop_id \<notin> set visiting" and "str_at parents stop_id \<noteq> []"
  then have "stop_id \<in> fst ` set parents - set visiting" by (simp add: str_at_key)
  then have "card (fst ` set parents - insert stop_id (set visiting)) < card (fst ` set parents - set visiting)"
    by (intro psubset_card_mono) auto
  then show "((str_at parents stop_id, types, parents, stop_id # visiting), stop_id, types, parents, visiting)
      \<in> measure (\<lambda>(_, _, parents, visiting). card (fst ` set parents - set visiting))"
    by simp
qed simp

declare resolve_station.simps [simp del]

fun resolve_stations ::
    "(string \<times> int) list \<Rightarrow> (string \<times> string) list \<Rightarrow> string list \<Rightarrow>
     (string \<times> string) list \<Rightarrow> (string \<times> string) list result" where
  "resolve_stations types parents [] stop_stations = Inr stop_stations"
| "resolve_stations types parents (stop_id # ids) stop_stations =
     (if int_at types stop_id \<noteq> 0 \<and> int_at types stop_id \<noteq> 4
      then resolve_stations types parents ids stop_stations
      else bind_res (resolve_station stop_id types parents []) (\<lambda>station_id.
        resolve_stations types parents ids
          (if station_id \<noteq> [] then (stop_id, station_id) # stop_stations else stop_stations)))"

record stops_result =
  sr_stops :: "stop list"
  sr_stop_stations :: "(string \<times> string) list"
  sr_stations :: "string list"

definition parse_stops :: "gtfs_env \<Rightarrow> zip_entry \<Rightarrow> stops_result result" where
  "parse_stops env file =
     bind_res (csv_rows env file [''stop_id'']) (\<lambda>rows.
     bind_res (parse_rows (stop_row env) rows empty_stops) (\<lambda>s.
     bind_res (check_parents (ss_types s) (ss_parents s) (map_order env (map fst (ss_types s)))) (\<lambda>_.
     bind_res (resolve_stations (ss_types s) (ss_parents s) (map_order env (map fst (ss_types s))) []) (\<lambda>stop_stations.
     Inr \<lparr>sr_stops = ss_stops s, sr_stop_stations = stop_stations, sr_stations = ss_stations s\<rparr>))))"

subsection \<open>What an accepted stops.txt satisfies\<close>

definition stop_ok :: "stop \<Rightarrow> bool" where
  "stop_ok x \<longleftrightarrow> st_id x \<noteq> [] \<and> 0 \<le> st_location_type x \<and> st_location_type x \<le> 4 \<and>
     (st_location_type x \<le> 2 \<longrightarrow> st_name x \<noteq> [] \<and> st_latitude x \<noteq> None \<and> st_longitude x \<noteq> None)"

definition stops_inv :: "stops_state \<Rightarrow> bool" where
  "stops_inv s \<longleftrightarrow>
     ss_types s = rev (map (\<lambda>x. (st_id x, st_location_type x)) (ss_stops s)) \<and>
     ss_parents s = rev (map (\<lambda>x. (st_id x, st_parent x)) (ss_stops s)) \<and>
     ss_stations s = rev (map st_id (filter (\<lambda>x. st_location_type x = 1) (ss_stops s))) \<and>
     distinct (map st_id (ss_stops s)) \<and> length (ss_stops s) \<le> max_stop_records \<and>
     (\<forall>x \<in> set (ss_stops s). stop_ok x)"

lemma stop_row_Inr:
  assumes "stop_row env rows s = Inr s'"
  shows "\<exists>x. s' = add_stop x s \<and> stop_ok x \<and> map_of (ss_types s) (st_id x) = None \<and>
    length (ss_stops s') \<le> max_stop_records"
proof -
  from assms obtain lat lon t w where s': "s' = add_stop \<lparr>st_id = row_value rows ''stop_id'',
      st_name = row_value rows ''stop_name'', st_latitude = lat, st_longitude = lon,
      st_url = row_value rows ''stop_url'', st_location_type = t,
      st_parent = row_value rows ''parent_station'', st_wheelchair = w,
      st_level = row_value rows ''level_id'', st_platform = row_value rows ''platform_code''\<rparr> s"
    and ok: "row_value rows ''stop_id'' \<noteq> []" "\<not> (t < 0 \<or> 4 < t)"
      "map_of (ss_types s) (row_value rows ''stop_id'') = None"
      "\<not> (t \<le> 2 \<and> row_value rows ''stop_name'' = [])" "\<not> (t \<le> 2 \<and> (lat = None \<or> lon = None))"
      "\<not> max_stop_records < length (ss_stops s')"
    unfolding stop_row_def Let_def if_Inl_Inr bind_res_Inr by force
  have "stop_ok x" if "x = \<lparr>st_id = row_value rows ''stop_id'',
      st_name = row_value rows ''stop_name'', st_latitude = lat, st_longitude = lon,
      st_url = row_value rows ''stop_url'', st_location_type = t,
      st_parent = row_value rows ''parent_station'', st_wheelchair = w,
      st_level = row_value rows ''level_id'', st_platform = row_value rows ''platform_code''\<rparr>" for x
    using ok by (auto simp: stop_ok_def that)
  with s' ok show ?thesis by auto
qed

lemma fresh_stop_id:
  "stops_inv s \<Longrightarrow> map_of (ss_types s) k = None \<Longrightarrow> k \<notin> st_id ` set (ss_stops s)"
  unfolding stops_inv_def map_of_eq_None_iff by (auto simp: image_image)

lemma add_stop_inv:
  "stops_inv s \<Longrightarrow> stop_ok x \<Longrightarrow> st_id x \<notin> st_id ` set (ss_stops s) \<Longrightarrow>
   length (ss_stops (add_stop x s)) \<le> max_stop_records \<Longrightarrow> stops_inv (add_stop x s)"
  by (auto simp: stops_inv_def add_stop_def)

lemma stop_row_inv: "stops_inv s \<Longrightarrow> stop_row env rows s = Inr s' \<Longrightarrow> stops_inv s'"
  by (auto dest!: stop_row_Inr intro!: add_stop_inv dest: fresh_stop_id)

lemma stops_inv_lookup:
  assumes "stops_inv s" and "x \<in> set (ss_stops s)"
  shows "map_of (ss_types s) (st_id x) = Some (st_location_type x)"
    and "map_of (ss_parents s) (st_id x) = Some (st_parent x)"
proof -
  have *: "distinct (map fst (rev (map (\<lambda>x. (st_id x, f x)) (ss_stops s))))" for f :: "stop \<Rightarrow> 'a"
    using assms(1) by (simp add: stops_inv_def comp_def rev_map [symmetric])
  show "map_of (ss_types s) (st_id x) = Some (st_location_type x)"
    using assms * [of st_location_type] by (auto simp: stops_inv_def intro!: map_of_SomeI_distinct)
  show "map_of (ss_parents s) (st_id x) = Some (st_parent x)"
    using assms * [of st_parent] by (auto simp: stops_inv_def intro!: map_of_SomeI_distinct)
qed

lemma stops_inv_types_Some:
  assumes "stops_inv s" and "map_of (ss_types s) k = Some t"
  shows "\<exists>x \<in> set (ss_stops s). st_id x = k \<and> st_location_type x = t"
  using map_of_SomeD [OF assms(2)] assms(1) by (auto simp: stops_inv_def)

text \<open>The parent rules, as a property of the stops alone.\<close>

definition has_parent_of_type :: "stop list \<Rightarrow> stop \<Rightarrow> int \<Rightarrow> bool" where
  "has_parent_of_type stops x t = (\<exists>p \<in> set stops. st_id p = st_parent x \<and> st_location_type p = t)"

definition parent_rule :: "stop list \<Rightarrow> stop \<Rightarrow> bool" where
  "parent_rule stops x =
     (if st_location_type x = 0 then st_parent x = [] \<or> has_parent_of_type stops x 1
      else if st_location_type x = 1 then st_parent x = []
      else if st_location_type x = 4 then has_parent_of_type stops x 0
      else has_parent_of_type stops x 1)"

lemma check_parent_rule:
  assumes "stops_inv s" and "x \<in> set (ss_stops s)"
    and "check_parent (ss_types s) (ss_parents s) (st_id x) = Inr ()"
  shows "parent_rule (ss_stops s) x"
proof -
  have "int_at (ss_types s) (st_id x) = st_location_type x"
    and "str_at (ss_parents s) (st_id x) = st_parent x"
    using stops_inv_lookup [OF assms(1,2)] by (simp_all add: int_at_def str_at_def)
  moreover have "0 \<le> st_location_type x \<and> st_location_type x \<le> 4"
    using assms(1,2) by (simp add: stops_inv_def stop_ok_def)
  ultimately show ?thesis using assms(3) stops_inv_types_Some [OF assms(1)]
    by (auto simp: check_parent_def expected_parent_type_def parent_rule_def
        has_parent_of_type_def Let_def split: if_splits)
qed

lemma check_parents_all:
  "check_parents types parents ids = Inr () \<longleftrightarrow> (\<forall>k \<in> set ids. check_parent types parents k = Inr ())"
  by (induction ids) (auto simp: ok_rules)

lemma check_parents_order:
  "set ids = set ids' \<Longrightarrow> (check_parents types parents ids = Inr ()) = (check_parents types parents ids' = Inr ())"
  by (simp add: check_parents_all)

text \<open>The station a stop belongs to: its parent, or the parent of its platform.\<close>

definition station_of :: "stop list \<Rightarrow> stop \<Rightarrow> string \<Rightarrow> bool" where
  "station_of stops x station \<longleftrightarrow>
     (\<exists>y \<in> set stops. st_id y = station \<and> st_location_type y = 1 \<and>
        (st_location_type x = 0 \<and> st_parent x = station \<or>
         st_location_type x = 4 \<and>
           (\<exists>p \<in> set stops. st_id p = st_parent x \<and> st_location_type p = 0 \<and> st_parent p = station)))"

lemma stops_inv_ids: "stops_inv s \<Longrightarrow> set (map fst (ss_types s)) = st_id ` set (ss_stops s)"
  by (auto simp: stops_inv_def image_image)

lemma parent_rule_distinct_types:
  assumes "stops_inv s" and "x \<in> set (ss_stops s)" and "y \<in> set (ss_stops s)"
    and "st_location_type x \<noteq> st_location_type y"
  shows "st_id x \<noteq> st_id y"
  using assms by (metis distinct_map_eqD stops_inv_def)

text \<open>One unfolding of \<open>resolveStation\<close> at a stop of the table.\<close>

lemma resolve_station_at:
  assumes "stops_inv s" and "x \<in> set (ss_stops s)"
  shows "resolve_station (st_id x) (ss_types s) (ss_parents s) visiting =
    (if st_id x \<in> set visiting
     then Inl (Errorf ''stops.txt: parent cycle at stop %q'' [AStr (st_id x)])
     else if st_location_type x = 1 then Inr (st_id x)
     else if st_parent x = [] then Inr []
     else resolve_station (st_parent x) (ss_types s) (ss_parents s) (st_id x # visiting))"
  using stops_inv_lookup [OF assms]
  by (subst resolve_station.simps) (simp add: int_at_def str_at_def)

text \<open>
  After the parent check a platform resolves to its station and a boarding area to the station
  of its platform: at most two steps, never a cycle.
\<close>

lemma resolve_platform:
  assumes inv: "stops_inv s" and rules: "\<forall>x \<in> set (ss_stops s). parent_rule (ss_stops s) x"
    and x: "x \<in> set (ss_stops s)" "st_location_type x = 0" and v: "st_id x \<notin> set visiting"
    and typed: "\<forall>v \<in> set visiting. \<exists>y \<in> set (ss_stops s). st_id y = v \<and> st_location_type y \<noteq> 1"
  shows "resolve_station (st_id x) (ss_types s) (ss_parents s) visiting = Inr (st_parent x)"
proof (cases "st_parent x = []")
  case True
  with x v show ?thesis by (simp add: resolve_station_at [OF inv])
next
  case False
  with rules x have "has_parent_of_type (ss_stops s) x 1"
    by (fastforce simp: parent_rule_def)
  then obtain p where p: "p \<in> set (ss_stops s)" "st_id p = st_parent x" "st_location_type p = 1"
    by (auto simp: has_parent_of_type_def)
  have "st_id p \<notin> set (st_id x # visiting)"
    using typed p x parent_rule_distinct_types [OF inv _ p(1)] by fastforce
  with p have "resolve_station (st_parent x) (ss_types s) (ss_parents s) (st_id x # visiting) = Inr (st_parent x)"
    using resolve_station_at [OF inv p(1), of "st_id x # visiting"] by simp
  with False x v show ?thesis by (simp add: resolve_station_at [OF inv])
qed

lemma resolve_boarding_area:
  assumes inv: "stops_inv s" and rules: "\<forall>x \<in> set (ss_stops s). parent_rule (ss_stops s) x"
    and x: "x \<in> set (ss_stops s)" "st_location_type x = 4"
  shows "\<exists>p \<in> set (ss_stops s). st_id p = st_parent x \<and> st_location_type p = 0 \<and>
    resolve_station (st_id x) (ss_types s) (ss_parents s) [] = Inr (st_parent p)"
proof -
  from rules x have "has_parent_of_type (ss_stops s) x 0"
    by (fastforce simp: parent_rule_def)
  then obtain p where p: "p \<in> set (ss_stops s)" "st_id p = st_parent x" "st_location_type p = 0"
    by (auto simp: has_parent_of_type_def)
  have "st_id p \<noteq> st_id x" using p x by (intro parent_rule_distinct_types [OF inv]) auto
  then have "resolve_station (st_id p) (ss_types s) (ss_parents s) [st_id x] = Inr (st_parent p)"
    using x by (intro resolve_platform [OF inv rules p(1,3)]) auto
  moreover have "st_parent x \<noteq> []" using p inv by (auto simp: stops_inv_def stop_ok_def)
  ultimately have "resolve_station (st_id x) (ss_types s) (ss_parents s) [] = Inr (st_parent p)"
    using p x by (simp add: resolve_station_at [OF inv])
  with p show ?thesis by blast
qed

lemma resolve_station_spec:
  assumes inv: "stops_inv s" and rules: "\<forall>x \<in> set (ss_stops s). parent_rule (ss_stops s) x"
    and x: "x \<in> set (ss_stops s)" "st_location_type x = 0 \<or> st_location_type x = 4"
  shows "\<exists>st. resolve_station (st_id x) (ss_types s) (ss_parents s) [] = Inr st \<and>
    (\<forall>k. st = k \<and> k \<noteq> [] \<longleftrightarrow> station_of (ss_stops s) x k)"
proof (cases "st_location_type x = 0")
  case True
  with resolve_platform [OF inv rules x(1), of "[]"]
  have "resolve_station (st_id x) (ss_types s) (ss_parents s) [] = Inr (st_parent x)" by simp
  moreover have "(st_parent x = k \<and> k \<noteq> []) = station_of (ss_stops s) x k" for k
    using rules x True inv
    by (fastforce simp: station_of_def parent_rule_def has_parent_of_type_def stops_inv_def stop_ok_def)
  ultimately show ?thesis by blast
next
  case False
  with x have t: "st_location_type x = 4" by simp
  obtain p where p: "p \<in> set (ss_stops s)" "st_id p = st_parent x" "st_location_type p = 0"
    and res: "resolve_station (st_id x) (ss_types s) (ss_parents s) [] = Inr (st_parent p)"
    using resolve_boarding_area [OF inv rules x(1) t] by blast
  have uniq: "q = p" if "q \<in> set (ss_stops s)" "st_id q = st_parent x" for q
    using that p inv by (metis distinct_map_eqD stops_inv_def)
  have pr: "st_parent p = [] \<or> has_parent_of_type (ss_stops s) p 1"
    using rules p(1,3) by (fastforce simp: parent_rule_def)
  have ids: "st_id y \<noteq> []" if "y \<in> set (ss_stops s)" for y
    using that inv by (simp add: stops_inv_def stop_ok_def)
  have "(st_parent p = k \<and> k \<noteq> []) = station_of (ss_stops s) x k" for k
  proof
    assume "st_parent p = k \<and> k \<noteq> []"
    with pr obtain y where "y \<in> set (ss_stops s)" "st_id y = k" "st_location_type y = 1"
      by (auto simp: has_parent_of_type_def)
    with p t \<open>st_parent p = k \<and> k \<noteq> []\<close> show "station_of (ss_stops s) x k"
      unfolding station_of_def by blast
  next
    assume "station_of (ss_stops s) x k"
    then obtain y q where "y \<in> set (ss_stops s)" "st_id y = k"
      and "q \<in> set (ss_stops s)" "st_id q = st_parent x" "st_parent q = k"
      using t by (auto simp: station_of_def)
    with uniq ids show "st_parent p = k \<and> k \<noteq> []" by auto
  qed
  with res show ?thesis by blast
qed

lemma station_of_type: "station_of stops x st \<Longrightarrow> st_location_type x = 0 \<or> st_location_type x = 4"
  by (auto simp: station_of_def)

definition stop_in_station :: "stop list \<Rightarrow> string \<Rightarrow> string \<Rightarrow> bool" where
  "stop_in_station stops k st = (\<exists>x \<in> set stops. st_id x = k \<and> station_of stops x st)"

lemma resolve_stations_spec:
  assumes inv: "stops_inv s" and rules: "\<forall>x \<in> set (ss_stops s). parent_rule (ss_stops s) x"
    and "set ids \<subseteq> st_id ` set (ss_stops s)"
  shows "\<exists>m. resolve_stations (ss_types s) (ss_parents s) ids acc = Inr m \<and>
    (\<forall>k st. map_of m k = Some st \<longleftrightarrow>
       (if k \<in> set ids \<and> (\<exists>st. stop_in_station (ss_stops s) k st)
        then stop_in_station (ss_stops s) k st else map_of acc k = Some st))"
  using assms(3)
proof (induction ids arbitrary: acc)
  case Nil
  then show ?case by simp
next
  case (Cons i ids)
  let ?L = "stop_in_station (ss_stops s)"
  from Cons.prems obtain x where x: "x \<in> set (ss_stops s)" "st_id x = i" by auto
  have type: "int_at (ss_types s) i = st_location_type x"
    using stops_inv_lookup [OF inv x(1)] x(2) by (simp add: int_at_def)
  have L: "?L i st \<longleftrightarrow> station_of (ss_stops s) x st" for st
    using x inv unfolding stop_in_station_def stops_inv_def by (metis distinct_map_eqD)
  show ?case
  proof (cases "st_location_type x = 0 \<or> st_location_type x = 4")
    case False
    then have none: "\<not> ?L i st" for st using L station_of_type by blast
    from Cons.IH [of acc] Cons.prems obtain m where
      m: "resolve_stations (ss_types s) (ss_parents s) ids acc = Inr m"
      and mspec: "\<And>k st. map_of m k = Some st \<longleftrightarrow>
         (if k \<in> set ids \<and> (\<exists>st. ?L k st) then ?L k st else map_of acc k = Some st)" by auto
    have "map_of m k = Some st \<longleftrightarrow>
         (if k \<in> set (i # ids) \<and> (\<exists>st. ?L k st) then ?L k st else map_of acc k = Some st)" for k st
      using mspec [of k st] none by (cases "k = i") auto
    with m type False show ?thesis by auto
  next
    case True
    obtain st0 where res: "resolve_station i (ss_types s) (ss_parents s) [] = Inr st0"
      and spec: "\<And>k. (st0 = k \<and> k \<noteq> []) = ?L i k"
      using resolve_station_spec [OF inv rules x(1) True] L x(2) by auto
    let ?acc = "if st0 \<noteq> [] then (i, st0) # acc else acc"
    from Cons.IH [of ?acc] Cons.prems obtain m where
      m: "resolve_stations (ss_types s) (ss_parents s) ids ?acc = Inr m"
      and mspec: "\<And>k st. map_of m k = Some st \<longleftrightarrow>
         (if k \<in> set ids \<and> (\<exists>st. ?L k st) then ?L k st else map_of ?acc k = Some st)" by auto
    have "map_of m k = Some st \<longleftrightarrow>
         (if k \<in> set (i # ids) \<and> (\<exists>st. ?L k st) then ?L k st else map_of acc k = Some st)" for k st
    proof (cases "k = i")
      case eq: True
      show ?thesis
      proof (cases "st0 = []")
        case True
        then have "\<not> ?L i st" for st using spec [of st] by auto
        with True show ?thesis using mspec [of k st] eq by simp
      next
        case False
        then have L: "?L i st \<longleftrightarrow> st0 = st" for st using spec [of st] by auto
        show ?thesis using mspec [of k st] False eq by (simp add: L)
      qed
    next
      case False
      then have acc: "map_of ?acc k = map_of acc k" by simp
      show ?thesis using mspec [of k st] False unfolding acc by simp
    qed
    with m res type True show ?thesis by auto
  qed
qed

text \<open>
  What \<open>parseStops\<close> returns: the stops satisfy the row rules and the parent rules, the stations
  are exactly the stops of location type 1, and \<open>stopStations\<close> maps a platform or boarding
  area to its station and nothing else.
\<close>

definition stops_table :: "stop list \<Rightarrow> bool" where
  "stops_table stops \<longleftrightarrow> distinct (map st_id stops) \<and> length stops \<le> max_stop_records \<and>
     (\<forall>x \<in> set stops. stop_ok x \<and> parent_rule stops x)"

lemma parse_stops_stations:
  assumes "parse_stops env file = Inr r"
  shows "sr_stations r = rev (map st_id (filter (\<lambda>x. st_location_type x = 1) (sr_stops r)))"
proof -
  from assms obtain rows s m where
    rows: "parse_rows (stop_row env) rows empty_stops = Inr s"
    and r: "r = \<lparr>sr_stops = ss_stops s, sr_stop_stations = m, sr_stations = ss_stations s\<rparr>"
    unfolding parse_stops_def bind_res_Inr by auto
  have "stops_inv empty_stops" by (simp add: stops_inv_def empty_stops_def)
  with rows have "stops_inv s"
    by (rule parse_rows_invariant [where P = stops_inv]) (rule stop_row_inv)
  then show ?thesis by (simp add: stops_inv_def r)
qed

lemma parse_stops_spec:
  assumes "fair_order env" and "parse_stops env file = Inr r"
  shows "stops_table (sr_stops r)"
    and "set (sr_stations r) = {st_id x | x. x \<in> set (sr_stops r) \<and> st_location_type x = 1}"
    and "map_of (sr_stop_stations r) k = Some st \<longleftrightarrow> stop_in_station (sr_stops r) k st"
proof -
  from assms(2) obtain rows s m where
    rows: "parse_rows (stop_row env) rows empty_stops = Inr s"
    and chk: "check_parents (ss_types s) (ss_parents s) (map_order env (map fst (ss_types s))) = Inr ()"
    and res: "resolve_stations (ss_types s) (ss_parents s) (map_order env (map fst (ss_types s))) [] = Inr m"
    and r: "r = \<lparr>sr_stops = ss_stops s, sr_stop_stations = m, sr_stations = ss_stations s\<rparr>"
    unfolding parse_stops_def bind_res_Inr by auto
  have "stops_inv empty_stops" by (simp add: stops_inv_def empty_stops_def)
  with rows have inv: "stops_inv s"
    by (rule parse_rows_invariant [where P = stops_inv]) (rule stop_row_inv)
  have ids: "set (map_order env (map fst (ss_types s))) = st_id ` set (ss_stops s)"
    using assms(1) stops_inv_ids [OF inv] by (simp add: fair_order_def)
  have rules: "\<forall>x \<in> set (ss_stops s). parent_rule (ss_stops s) x"
    using chk ids check_parent_rule [OF inv] by (auto simp: check_parents_all)
  show "stops_table (sr_stops r)"
    using inv rules r by (simp add: stops_table_def stops_inv_def)
  show "set (sr_stations r) = {st_id x | x. x \<in> set (sr_stops r) \<and> st_location_type x = 1}"
    using inv r by (auto simp: stops_inv_def)
  show "map_of (sr_stop_stations r) k = Some st \<longleftrightarrow> stop_in_station (sr_stops r) k st"
    using resolve_stations_spec [OF inv rules, of "map_order env (map fst (ss_types s))" "[]"] ids res r
    by (auto simp: stop_in_station_def split: if_splits)
qed

text \<open>Go ranges over a map in an arbitrary order: no outcome of \<open>parseStops\<close> depends on it.\<close>

lemma csv_rows_map_order [simp]: "csv_rows (env\<lparr>map_order := f\<rparr>) file cols = csv_rows env file cols"
  by (simp add: csv_rows_def cong: sum.case_cong)

lemma optional_float_pointer_map_order [simp]:
  "optional_float_pointer (env\<lparr>map_order := f\<rparr>) = optional_float_pointer env"
  by (simp add: fun_eq_iff optional_float_pointer_def)

lemma stop_row_map_order [simp]: "stop_row (env\<lparr>map_order := f\<rparr>) = stop_row env"
  by (simp add: fun_eq_iff stop_row_def Let_def)

lemma parse_stops_ok_iff:
  assumes "fair_order env"
  shows "(\<exists>m. parse_stops env file = Inr \<lparr>sr_stops = stops, sr_stop_stations = m, sr_stations = stations\<rparr>) \<longleftrightarrow>
    (\<exists>rows s. csv_rows env file [''stop_id''] = Inr rows \<and> parse_rows (stop_row env) rows empty_stops = Inr s \<and>
       (\<forall>k \<in> st_id ` set (ss_stops s). check_parent (ss_types s) (ss_parents s) k = Inr ()) \<and>
       stops = ss_stops s \<and> stations = ss_stations s)" (is "?L \<longleftrightarrow> ?R")
proof -
  have inv: "stops_inv s" if "parse_rows (stop_row env) rows empty_stops = Inr s" for rows s
  proof -
    have "stops_inv empty_stops" by (simp add: stops_inv_def empty_stops_def)
    with that show ?thesis
      by (rule parse_rows_invariant [where P = stops_inv]) (rule stop_row_inv)
  qed
  have ids: "set (map_order env (map fst (ss_types s))) = st_id ` set (ss_stops s)" if "stops_inv s" for s
    using assms stops_inv_ids [OF that] by (simp add: fair_order_def)
  show ?thesis
  proof
    assume ?L
    then show ?R unfolding parse_stops_def bind_res_Inr using inv ids by (auto simp: check_parents_all)
  next
    assume ?R
    then obtain rows s where 1: "csv_rows env file [''stop_id''] = Inr rows"
      and 2: "parse_rows (stop_row env) rows empty_stops = Inr s"
      and 3: "\<forall>k \<in> st_id ` set (ss_stops s). check_parent (ss_types s) (ss_parents s) k = Inr ()"
      and 4: "stops = ss_stops s" "stations = ss_stations s" by blast
    note I = inv [OF 2]
    have rules: "\<forall>x \<in> set (ss_stops s). parent_rule (ss_stops s) x"
      using 3 check_parent_rule [OF I] by auto
    obtain m where "resolve_stations (ss_types s) (ss_parents s) (map_order env (map fst (ss_types s))) [] = Inr m"
      using resolve_stations_spec [OF I rules, of "map_order env (map fst (ss_types s))" "[]"] ids [OF I] by auto
    moreover have "check_parents (ss_types s) (ss_parents s) (map_order env (map fst (ss_types s))) = Inr ()"
      using 3 ids [OF I] by (simp add: check_parents_all)
    ultimately show ?L using 1 2 4 unfolding parse_stops_def by auto
  qed
qed

lemma parse_stops_reordered:
  assumes "fair_order (env\<lparr>map_order := f\<rparr>)" and "fair_order (env\<lparr>map_order := g\<rparr>)"
    and "parse_stops (env\<lparr>map_order := f\<rparr>) file = Inr r"
  shows "\<exists>r'. parse_stops (env\<lparr>map_order := g\<rparr>) file = Inr r' \<and> sr_stops r' = sr_stops r \<and>
    sr_stations r' = sr_stations r \<and> map_of (sr_stop_stations r') = map_of (sr_stop_stations r)"
proof -
  have "parse_stops (env\<lparr>map_order := f\<rparr>) file = Inr \<lparr>sr_stops = sr_stops r,
      sr_stop_stations = sr_stop_stations r, sr_stations = sr_stations r\<rparr>" using assms(3) by simp
  then have "\<exists>m. parse_stops (env\<lparr>map_order := f\<rparr>) file = Inr \<lparr>sr_stops = sr_stops r,
      sr_stop_stations = m, sr_stations = sr_stations r\<rparr>" by blast
  then obtain m where m: "parse_stops (env\<lparr>map_order := g\<rparr>) file = Inr \<lparr>sr_stops = sr_stops r,
      sr_stop_stations = m, sr_stations = sr_stations r\<rparr>"
    unfolding parse_stops_ok_iff [OF assms(1)] csv_rows_map_order stop_row_map_order
    using parse_stops_ok_iff [OF assms(2), of "file" "sr_stops r" "sr_stations r"] unfolding csv_rows_map_order stop_row_map_order by metis
  have "map_of m k = map_of (sr_stop_stations r) k" for k
    using parse_stops_spec(3) [OF assms(2) m, of k] parse_stops_spec(3) [OF assms(1,3), of k]
    by (intro option_eqI) simp
  with m show ?thesis by auto
qed

section \<open>trips.txt\<close>

type_synonym trips = "(string \<times> string) list"

definition trip_row :: "string list \<Rightarrow> row_reader \<Rightarrow> trips \<Rightarrow> trips result" where
  "trip_row routes rows trips =
     (let trip_id = row_value rows ''trip_id''; route_id = row_value rows ''route_id''
      in if trip_id = [] \<or> route_id = []
         then Inl (Errorf ''trips.txt line %d: trip_id and route_id are required'' [row_line rows])
         else if route_id \<notin> set routes
         then Inl (Errorf ''trips.txt line %d: unknown route_id %q'' [row_line rows, AStr route_id])
         else if map_of trips trip_id \<noteq> None
         then Inl (Errorf ''trips.txt line %d: duplicate trip_id %q'' [row_line rows, AStr trip_id])
         else let trips = (trip_id, route_id) # trips
              in if length trips > max_trip_records
                 then Inl (Errorf ''trips.txt exceeds %d records'' [AInt (int max_trip_records)])
                 else Inr trips)"

definition parse_trips :: "gtfs_env \<Rightarrow> zip_entry \<Rightarrow> string list \<Rightarrow> (trips \<times> nat) result" where
  "parse_trips env file routes =
     bind_res (csv_rows env file [''route_id'', ''trip_id'']) (\<lambda>rows.
     bind_res (parse_rows (trip_row routes) rows []) (\<lambda>trips.
     Inr (trips, length trips)))"

definition trips_inv :: "string list \<Rightarrow> trips \<Rightarrow> bool" where
  "trips_inv routes trips \<longleftrightarrow> distinct (map fst trips) \<and> length trips \<le> max_trip_records \<and>
     (\<forall>(t, r) \<in> set trips. t \<noteq> [] \<and> r \<in> set routes)"

lemma trip_row_inv: "trips_inv routes s \<Longrightarrow> trip_row routes rows s = Inr s' \<Longrightarrow> trips_inv routes s'"
  unfolding trip_row_def Let_def if_Inl_Inr
  by (auto simp: trips_inv_def map_of_eq_None_iff)

lemma parse_trips_spec:
  assumes "parse_trips env file routes = Inr (trips, n)"
  shows "trips_inv routes trips" and "n = length trips"
proof -
  from assms obtain rows where rows: "parse_rows (trip_row routes) rows [] = Inr trips"
    and n: "n = length trips"
    by (auto simp: parse_trips_def ok_rules)
  show "n = length trips" by (rule n)
  have "trips_inv routes []" by (simp add: trips_inv_def)
  with rows show "trips_inv routes trips"
    by (rule parse_rows_invariant [where P = "trips_inv routes"]) (rule trip_row_inv)
qed

section \<open>stop_times.txt\<close>

record stop_times_state =
  ts_relations :: "route_station list"
  ts_count :: nat
  ts_skipped :: nat

definition stop_time_row ::
    "trips \<Rightarrow> (string \<times> string) list \<Rightarrow> string list \<Rightarrow> row_reader \<Rightarrow>
     stop_times_state \<Rightarrow> stop_times_state result" where
  "stop_time_row trips stop_stations stations rows s =
     (let s = s\<lparr>ts_count := ts_count s + 1\<rparr>;
          line = row_line rows; trip_id = row_value rows ''trip_id''; stop_id = row_value rows ''stop_id''
      in if ts_count s > max_stop_time_rows
         then Inl (Errorf ''stop_times.txt exceeds %d records'' [AInt (int max_stop_time_rows)])
         else (case map_of trips trip_id of
             None \<Rightarrow> Inl (Errorf ''stop_times.txt line %d: unknown trip_id %q'' [line, AStr trip_id])
           | Some route_id \<Rightarrow>
         (case map_of stop_stations stop_id of
             None \<Rightarrow> Inl (Errorf ''stop_times.txt line %d: stop_id %q does not map to a parent station''
               [line, AStr stop_id])
           | Some station_id \<Rightarrow>
               if station_id \<notin> set stations
               then Inl (Errorf ''stop_times.txt line %d: unknown station_id %q'' [line, AStr station_id])
               else
                 let s = s\<lparr>ts_relations :=
                       List.insert \<lparr>rs_route = route_id, rs_station = station_id\<rparr> (ts_relations s)\<rparr>
                 in if length (ts_relations s) > max_relations
                    then Inl (Errorf ''route-station relationships exceed %d records'' [AInt (int max_relations)])
                    else Inr s)))"

text \<open>\<open>sort.Slice\<close> by route, then station: the key is injective, so the order is determined.\<close>

definition relation_key :: "route_station \<Rightarrow> string \<times> string" where
  "relation_key r = (rs_route r, rs_station r)"

definition parse_stop_times ::
    "gtfs_env \<Rightarrow> zip_entry \<Rightarrow> trips \<Rightarrow> (string \<times> string) list \<Rightarrow> string list \<Rightarrow>
     (route_station list \<times> nat \<times> nat) result" where
  "parse_stop_times env file trips stop_stations stations =
     bind_res (csv_rows env file [''trip_id'', ''stop_id'']) (\<lambda>rows.
     bind_res (parse_rows (stop_time_row trips stop_stations stations) rows
                 \<lparr>ts_relations = [], ts_count = 0, ts_skipped = 0\<rparr>) (\<lambda>s.
     Inr (sort_key relation_key (ts_relations s), ts_count s, ts_skipped s)))"

definition stop_times_inv ::
    "trips \<Rightarrow> (string \<times> string) list \<Rightarrow> string list \<Rightarrow> stop_times_state \<Rightarrow> bool" where
  "stop_times_inv trips stop_stations stations s \<longleftrightarrow>
     distinct (ts_relations s) \<and> length (ts_relations s) \<le> max_relations \<and>
     ts_count s \<le> max_stop_time_rows \<and> ts_skipped s = 0 \<and>
     (\<forall>r \<in> set (ts_relations s).
        (\<exists>t. map_of trips t = Some (rs_route r)) \<and>
        (\<exists>k. map_of stop_stations k = Some (rs_station r)) \<and> rs_station r \<in> set stations)"

lemma stop_time_row_inv:
  assumes "stop_times_inv trips stop_stations stations s"
    and "stop_time_row trips stop_stations stations rows s = Inr s'"
  shows "stop_times_inv trips stop_stations stations s'"
proof -
  from assms(2) obtain route_id station_id where
    ids: "map_of trips (row_value rows ''trip_id'') = Some route_id"
      "map_of stop_stations (row_value rows ''stop_id'') = Some station_id" "station_id \<in> set stations"
    and s': "s' = s\<lparr>ts_count := ts_count s + 1,
        ts_relations := List.insert \<lparr>rs_route = route_id, rs_station = station_id\<rparr> (ts_relations s)\<rparr>"
    and bounds: "ts_count s' \<le> max_stop_time_rows" "length (ts_relations s') \<le> max_relations"
    unfolding stop_time_row_def Let_def if_Inl_Inr
    by (auto split: option.splits if_splits)
  from assms(1) ids bounds show ?thesis
    by (fastforce simp: stop_times_inv_def s')
qed

lemma relation_key_inj: "inj relation_key"
  by (rule injI) (simp add: relation_key_def)

lemma parse_stop_times_spec:
  assumes "parse_stop_times env file trips stop_stations stations = Inr (rels, n, skipped)"
  shows "sorted_wrt (\<lambda>a b. relation_key a < relation_key b) rels"
    and "length rels \<le> max_relations" and "n \<le> max_stop_time_rows" and "skipped = 0"
    and "r \<in> set rels \<Longrightarrow> (\<exists>t. map_of trips t = Some (rs_route r)) \<and>
      (\<exists>k. map_of stop_stations k = Some (rs_station r)) \<and> rs_station r \<in> set stations"
proof -
  let ?P = "stop_times_inv trips stop_stations stations"
  from assms obtain rows s where
    rows: "parse_rows (stop_time_row trips stop_stations stations) rows
        \<lparr>ts_relations = [], ts_count = 0, ts_skipped = 0\<rparr> = Inr s"
    and res: "rels = sort_key relation_key (ts_relations s)" "n = ts_count s" "skipped = ts_skipped s"
    by (auto simp: parse_stop_times_def ok_rules)
  have "?P \<lparr>ts_relations = [], ts_count = 0, ts_skipped = 0\<rparr>" by (simp add: stop_times_inv_def)
  with rows have inv: "?P s"
    by (rule parse_rows_invariant [where P = ?P]) (rule stop_time_row_inv)
  have "distinct (map relation_key rels)"
    using inv res relation_key_inj by (auto simp: stop_times_inv_def distinct_map inj_def inj_on_def)
  moreover have "sorted (map relation_key rels)" using res by simp
  ultimately have "sorted_wrt (<) (map relation_key rels)" by (simp add: strict_sorted_iff)
  then show "sorted_wrt (\<lambda>a b. relation_key a < relation_key b) rels"
    by (simp add: sorted_wrt_map)
  show "length rels \<le> max_relations" and "n \<le> max_stop_time_rows" and "skipped = 0"
    using inv res by (simp_all add: stop_times_inv_def)
  show "r \<in> set rels \<Longrightarrow> (\<exists>t. map_of trips t = Some (rs_route r)) \<and>
      (\<exists>k. map_of stop_stations k = Some (rs_station r)) \<and> rs_station r \<in> set stations"
    using inv res by (simp add: stop_times_inv_def)
qed

end
