(* ===== verification/Files.thy ===== *)
theory Files
  imports GoStrings
begin

text \<open>
  Temporary files, as \<open>internal/gtfs\<close> handles them: the file system is a map from paths to
  contents, every call that can fail takes its outcome from a record, and \<open>errors.Join\<close> and
  the deferred clean-up that both \<open>extractEntry\<close> and \<open>Downloader.Fetch\<close> share are modelled
  once.
\<close>

type_synonym files = "string \<Rightarrow> string option"

text \<open>\<open>errors.Join\<close>: nil when every argument is nil, else the join of the others.\<close>

definition join_errors :: "go_error option list \<Rightarrow> go_error option" where
  "join_errors es = (case List.map_filter (\<lambda>e. e) es of [] \<Rightarrow> None | xs \<Rightarrow> Some (Joined xs))"

lemma join_errors_Some_ex [simp]: "(\<exists>y. join_errors es = Some y) \<longleftrightarrow> (\<exists>e \<in> set es. e \<noteq> None)"
  by (induction es) (auto simp: join_errors_def List.map_filter_def split: list.splits option.splits)

lemma join_errors_None [simp]: "join_errors es = None \<longleftrightarrow> (\<forall>e \<in> set es. e = None)"
  by (induction es) (auto simp: join_errors_def List.map_filter_def split: list.splits option.splits)

text \<open>
  \<open>removeFile\<close>: nothing for the empty path; a file that does not exist is no error; \<open>rm\<close> is
  any other error of \<open>os.Remove\<close>, which leaves the file where it is.
\<close>

definition remove_file :: "string \<Rightarrow> go_error option \<Rightarrow> files \<Rightarrow> go_error option \<times> files" where
  "remove_file path rm fs =
     (if path = [] then (None, fs)
      else (case rm of
              Some e \<Rightarrow> (Some (Wrapf ''remove temporary GTFS archive: %w'' [] e), fs)
            | None \<Rightarrow> (None, fs(path := None))))"

record temp_io =
  io_temp :: "string result"
  io_copy :: "go_error option"
  io_close :: "go_error option"
  io_remove :: "go_error option"

text \<open>
  The deferred function of \<open>extractEntry\<close> and \<open>Fetch\<close>: close the file if it is still open,
  remove it unless it is kept, and join what fails to the error being returned.
\<close>

definition finish_temp ::
    "temp_io \<Rightarrow> bool \<Rightarrow> bool \<Rightarrow> string \<Rightarrow> go_error option \<Rightarrow> files \<Rightarrow> go_error option \<times> files" where
  "finish_temp io closed keep path err fs =
     (let err = (if \<not> closed then join_errors [err, io_close io] else err)
      in if keep then (err, fs)
         else (case remove_file path (io_remove io) fs of
                 (rm, fs') \<Rightarrow> (join_errors [err, rm], fs')))"

lemma remove_file_clean: "remove_file path None fs = (None, if path = [] then fs else fs(path := None))"
  by (simp add: remove_file_def)

lemma finish_temp_fails:
  assumes "finish_temp io closed False path (Some e) fs = (err, fs')"
  shows "\<exists>e. err = Some e"
  using assms by (cases closed) (auto simp: finish_temp_def Let_def split: prod.splits)

lemma finish_temp_files:
  assumes "finish_temp io closed False path err fs = (err', fs')"
  shows "io_remove io = None \<Longrightarrow> path \<noteq> [] \<Longrightarrow> fs' = fs(path := None)"
    and "p \<noteq> path \<Longrightarrow> fs' p = fs p"
  using assms
  by (auto simp: finish_temp_def remove_file_def Let_def split: prod.splits option.splits if_splits)

lemma finish_temp_keep: "finish_temp io True True path err fs = (err, fs)"
  by (simp add: finish_temp_def)

end
