(* ===== verification/GtfsArchive.thy ===== *)
theory GtfsArchive
  imports GtfsParse Files
begin

text \<open>
  \<open>ParseArchive\<close>, \<open>findUniqueEntry\<close> and \<open>extractEntry\<close> of \<open>internal/gtfs/parse.go\<close>: from
  the downloaded archive to the network, with the nested archive extracted to a temporary file
  and removed on every path.
\<close>

definition metro_archive_name :: string where
  "metro_archive_name = ''2/google_transit.zip''"

fun find_entry :: "string \<Rightarrow> zip_entry list \<Rightarrow> zip_entry option \<Rightarrow> zip_entry result" where
  "find_entry name [] match =
     (case match of
        None \<Rightarrow> Inl (Errorf ''GTFS archive is missing %q'' [AStr name])
      | Some file \<Rightarrow> Inr file)"
| "find_entry name (file # files) match =
     (if ze_name file \<noteq> name then find_entry name files match
      else if match \<noteq> None then Inl (Errorf ''GTFS archive contains duplicate %q'' [AStr name])
      else find_entry name files (Some file))"

definition find_unique_entry :: "zip_entry list \<Rightarrow> string \<Rightarrow> zip_entry result" where
  "find_unique_entry files name = find_entry name files None"

text \<open>The body of \<open>extractEntry\<close> up to its deferred clean-up: closed, keep, error, files.\<close>

definition extract_copy ::
    "temp_io \<Rightarrow> string \<Rightarrow> string \<Rightarrow> files \<Rightarrow> bool \<times> bool \<times> go_error option \<times> files" where
  "extract_copy io path content fs =
     (let written = take (max_metro_zip_bytes + 1) content; fs = fs(path := Some written)
      in case io_copy io of
           Some e \<Rightarrow> (False, False, Some (Wrapf ''extract Metro GTFS archive: %w'' [] e), fs)
         | None \<Rightarrow>
             if length written > max_metro_zip_bytes
             then (False, False, Some (Errorf ''Metro GTFS archive exceeds %d bytes'' [AInt (int max_metro_zip_bytes)]), fs)
             else (case io_close io of
                     Some e \<Rightarrow> (True, False, Some (Wrapf ''close temporary Metro GTFS archive: %w'' [] e), fs)
                   | None \<Rightarrow> (True, True, None, fs)))"

definition extract_entry :: "temp_io \<Rightarrow> zip_entry \<Rightarrow> files \<Rightarrow> string result \<times> files" where
  "extract_entry io file fs =
     (case ze_bytes file of
        Inl e \<Rightarrow> (Inl (Wrapf ''open %s: %w'' [AStr (ze_name file)] e), fs)
      | Inr content \<Rightarrow>
     (case io_temp io of
        Inl e \<Rightarrow> (Inl (Wrapf ''create temporary Metro GTFS archive: %w'' [] e), fs)
      | Inr path \<Rightarrow>
     (case extract_copy io path content fs of (closed, keep, err, fs1) \<Rightarrow>
      case finish_temp io closed keep path err fs1 of
        (Some e, fs2) \<Rightarrow> (Inl e, fs2)
      | (None, fs2) \<Rightarrow> (Inr path, fs2))))"

fun find_required ::
    "zip_entry list \<Rightarrow> string list \<Rightarrow> (string \<times> zip_entry) list \<Rightarrow> (string \<times> zip_entry) list result" where
  "find_required files [] entries = Inr entries"
| "find_required files (name # names) entries =
     bind_res (find_unique_entry files name) (\<lambda>entry.
     case map_of required_file_limits name of
       None \<Rightarrow> find_required files names entries
     | Some limit \<Rightarrow>
         if ze_size entry > limit
         then Inl (Errorf ''%s exceeds %d bytes'' [AStr name, AInt (int limit)])
         else find_required files names ((name, entry) # entries))"

definition entry_at :: "(string \<times> zip_entry) list \<Rightarrow> string \<Rightarrow> zip_entry result" where
  "entry_at entries name =
     (case map_of entries name of None \<Rightarrow> Inl (Errorf ''nil file'' []) | Some e \<Rightarrow> Inr e)"

text \<open>The parse of the opened nested archive, the middle of \<open>ParseArchive\<close>.\<close>

definition parse_metro :: "gtfs_env \<Rightarrow> nat \<Rightarrow> zip_entry list \<Rightarrow> dataset result" where
  "parse_metro env metro_size files =
     bind_res (find_required files (map_order env (map fst required_file_limits)) []) (\<lambda>entries.
     bind_res (bind_res (entry_at entries ''routes.txt'') (parse_routes env)) (\<lambda>(routes, route_ids).
     bind_res (bind_res (entry_at entries ''stops.txt'') (parse_stops env)) (\<lambda>stops.
     bind_res (bind_res (entry_at entries ''trips.txt'') (\<lambda>f. parse_trips env f route_ids)) (\<lambda>(trip_routes, trip_count).
     bind_res (bind_res (entry_at entries ''stop_times.txt'') (\<lambda>f.
         parse_stop_times env f trip_routes (sr_stop_stations stops) (sr_stations stops)))
       (\<lambda>(route_stations, stop_time_count, skipped).
     if routes = [] \<or> sr_stops stops = [] \<or> sr_stations stops = [] \<or> trip_count = 0
        \<or> stop_time_count = 0 \<or> route_stations = []
     then Inl (Errorf ''Metro GTFS dataset must be non-empty: routes=%d stops=%d stations=%d trips=%d stop_times=%d route_stations=%d''
            [AInt (int (length routes)), AInt (int (length (sr_stops stops))),
             AInt (int (length (sr_stations stops))), AInt (int trip_count),
             AInt (int stop_time_count), AInt (int (length route_stations))])
     else Inr \<lparr>ds_routes = routes, ds_stops = sr_stops stops, ds_route_stations = route_stations,
        ds_summary = \<lparr>sm_routes = length routes, sm_stops = length (sr_stops stops),
          sm_stations = length (sr_stations stops), sm_trips = trip_count,
          sm_stop_times = stop_time_count, sm_route_stations = length route_stations,
          sm_skipped_stop_times = skipped, sm_metro_bytes = metro_size\<rparr>\<rparr>)))))"

definition zip_open :: "gtfs_env \<Rightarrow> files \<Rightarrow> string \<Rightarrow> zip_entry list result" where
  "zip_open env fs path =
     (case fs path of
        None \<Rightarrow> Inl (Errorf ''open %s: no such file or directory'' [AStr path])
      | Some content \<Rightarrow> zip_decode env content)"

definition parse_archive :: "gtfs_env \<Rightarrow> temp_io \<Rightarrow> string \<Rightarrow> files \<Rightarrow> dataset result \<times> files" where
  "parse_archive env io path fs =
     (case zip_open env fs path of
        Inl e \<Rightarrow> (Inl (Wrapf ''open GTFS archive: %w'' [] e), fs)
      | Inr outer \<Rightarrow>
     (case find_unique_entry outer metro_archive_name of
        Inl e \<Rightarrow> (Inl e, fs)
      | Inr metro_entry \<Rightarrow>
        if ze_size metro_entry > max_metro_zip_bytes
        then (Inl (Errorf ''Metro GTFS archive exceeds %d bytes'' [AInt (int max_metro_zip_bytes)]), fs)
        else
     (case extract_entry io metro_entry fs of
        (Inl e, fs1) \<Rightarrow> (Inl e, fs1)
      | (Inr metro_path, fs1) \<Rightarrow>
          let res = (case zip_open env fs1 metro_path of
                       Inl e \<Rightarrow> Inl (Wrapf ''open nested Metro GTFS archive: %w'' [] e)
                     | Inr files \<Rightarrow> parse_metro env (ze_size metro_entry) files)
          in case remove_file metro_path (io_remove io) fs1 of
               (None, fs2) \<Rightarrow> (res, fs2)
             | (Some rm, fs2) \<Rightarrow>
                 (Inl (case res of Inl e \<Rightarrow> Joined [e, rm] | Inr _ \<Rightarrow> Joined [rm]), fs2))))"

section \<open>Correctness of an accepted archive\<close>

lemma find_entry_spec:
  "find_entry name files match = Inr f \<Longrightarrow>
   (match = Some f \<and> (\<forall>x \<in> set files. ze_name x \<noteq> name)) \<or>
   (match = None \<and> filter (\<lambda>x. ze_name x = name) files = [f])"
proof (induction files arbitrary: match)
  case Nil
  then show ?case by (auto split: option.splits)
next
  case (Cons x files)
  then show ?case by (fastforce split: if_splits simp: filter_empty_conv)
qed

lemma find_unique_entry_spec:
  "find_unique_entry files name = Inr f \<longleftrightarrow> filter (\<lambda>x. ze_name x = name) files = [f]"
proof
  show "find_unique_entry files name = Inr f \<Longrightarrow> filter (\<lambda>x. ze_name x = name) files = [f]"
    using find_entry_spec [of name files None f] by (simp add: find_unique_entry_def)
  have "find_entry name files (Some f) = Inr f" if "filter (\<lambda>x. ze_name x = name) files = []" for files
    using that by (induction files) (auto split: if_splits)
  then show "filter (\<lambda>x. ze_name x = name) files = [f] \<Longrightarrow> find_unique_entry files name = Inr f"
    unfolding find_unique_entry_def by (induction files) (auto split: if_splits)
qed

text \<open>The network as the importer needs it: keyed tables, closed references, sorted relations.\<close>

definition network_ok :: "dataset \<Rightarrow> bool" where
  "network_ok d \<longleftrightarrow>
     distinct (map rt_id (ds_routes d)) \<and> [] \<notin> rt_id ` set (ds_routes d) \<and>
     stops_table (ds_stops d) \<and>
     sorted_wrt (\<lambda>a b. relation_key a < relation_key b) (ds_route_stations d) \<and>
     (\<forall>r \<in> set (ds_route_stations d).
        rs_route r \<in> rt_id ` set (ds_routes d) \<and>
        (\<exists>x \<in> set (ds_stops d). st_id x = rs_station r \<and> st_location_type x = 1))"

definition counts_ok :: "dataset \<Rightarrow> bool" where
  "counts_ok d \<longleftrightarrow>
     (let s = ds_summary d in
      sm_routes s = length (ds_routes d) \<and> sm_stops s = length (ds_stops d) \<and>
      sm_stations s = length (filter (\<lambda>x. st_location_type x = 1) (ds_stops d)) \<and>
      sm_route_stations s = length (ds_route_stations d) \<and>
      sm_skipped_stop_times s = 0 \<and>
      0 < sm_routes s \<and> sm_routes s \<le> max_route_records \<and>
      0 < sm_stops s \<and> sm_stops s \<le> max_stop_records \<and>
      0 < sm_stations s \<and> 0 < sm_trips s \<and> sm_trips s \<le> max_trip_records \<and>
      0 < sm_stop_times s \<and> sm_stop_times s \<le> max_stop_time_rows \<and>
      0 < sm_route_stations s \<and> sm_route_stations s \<le> max_relations)"

lemma parse_metro_steps:
  assumes "parse_metro env sz files = Inr d"
  obtains routes ids f1 f2 f3 f4 stops trips n m k rels where
    "parse_routes env f1 = Inr (routes, ids)" "parse_stops env f2 = Inr stops"
    "parse_trips env f3 ids = Inr (trips, n)"
    "parse_stop_times env f4 trips (sr_stop_stations stops) (sr_stations stops) = Inr (rels, m, k)"
    "routes \<noteq> []" "sr_stops stops \<noteq> []" "sr_stations stops \<noteq> []" "n \<noteq> 0" "m \<noteq> 0" "rels \<noteq> []"
    "d = \<lparr>ds_routes = routes, ds_stops = sr_stops stops, ds_route_stations = rels,
        ds_summary = \<lparr>sm_routes = length routes, sm_stops = length (sr_stops stops),
          sm_stations = length (sr_stations stops), sm_trips = n,
          sm_stop_times = m, sm_route_stations = length rels,
          sm_skipped_stop_times = k, sm_metro_bytes = sz\<rparr>\<rparr>"
  using assms unfolding parse_metro_def bind_res_Inr
  by (auto simp: bind_res_Inr split: prod.splits if_splits)

lemma parse_metro_network:
  assumes "fair_order env" and "parse_metro env sz files = Inr d"
  shows "network_ok d" and "counts_ok d"
proof -
  from parse_metro_steps [OF assms(2)] obtain routes ids f1 f2 f3 f4 stops trips n m k rels where
    s: "parse_routes env f1 = Inr (routes, ids)" "parse_stops env f2 = Inr stops"
    "parse_trips env f3 ids = Inr (trips, n)"
    "parse_stop_times env f4 trips (sr_stop_stations stops) (sr_stations stops) = Inr (rels, m, k)"
    and ne: "routes \<noteq> []" "sr_stops stops \<noteq> []" "sr_stations stops \<noteq> []" "n \<noteq> 0" "m \<noteq> 0" "rels \<noteq> []"
    and d: "d = \<lparr>ds_routes = routes, ds_stops = sr_stops stops, ds_route_stations = rels,
        ds_summary = \<lparr>sm_routes = length routes, sm_stops = length (sr_stops stops),
          sm_stations = length (sr_stations stops), sm_trips = n,
          sm_stop_times = m, sm_route_stations = length rels,
          sm_skipped_stop_times = k, sm_metro_bytes = sz\<rparr>\<rparr>" by metis
  note R = parse_routes_inv [OF s(1)]
  note S = parse_stops_spec [OF assms(1) s(2)]
  note T = parse_trips_spec [OF s(3)]
  note ST = parse_stop_times_spec [OF s(4)]
  have "rs_route r \<in> rt_id ` set routes \<and>
      (\<exists>x \<in> set (sr_stops stops). st_id x = rs_station r \<and> st_location_type x = 1)"
    if "r \<in> set rels" for r
  proof -
    from ST(5) [OF that] obtain t where "map_of trips t = Some (rs_route r)" by blast
    then have "rs_route r \<in> set ids" using T(1) by (auto simp: trips_inv_def dest: map_of_SomeD)
    moreover have "rs_station r \<in> set (sr_stations stops)" using ST(5) [OF that] by blast
    ultimately show ?thesis using R S(2) by (auto simp: routes_inv_def)
  qed
  with R S(1) ST(1) show "network_ok d"
    by (auto simp: network_ok_def d routes_inv_def)
  have st: "length (sr_stations stops) = length (filter (\<lambda>x. st_location_type x = 1) (sr_stops stops))"
    by (simp add: parse_stops_stations [OF s(2)])
  from R S(1) T ST(2-4) ne st show "counts_ok d"
    by (auto simp: counts_ok_def d routes_inv_def trips_inv_def stops_table_def Let_def)
qed

lemma parse_archive_Inr:
  "parse_archive env io path fs = (Inr d, fs') \<Longrightarrow>
   \<exists>files sz. parse_metro env sz files = Inr d \<and> sz \<le> max_metro_zip_bytes"
  unfolding parse_archive_def Let_def
  by (auto split: sum.splits prod.splits option.splits if_splits intro!: exI conjI)

section \<open>The temporary file\<close>

lemma extract_copy_path:
  "extract_copy io path content fs = (closed, keep, err, fs1) \<Longrightarrow>
   (\<forall>p. p \<noteq> path \<longrightarrow> fs1 p = fs p) \<and> (keep \<longleftrightarrow> err = None) \<and> (keep \<longrightarrow> closed \<and> fs1 path = Some content)"
  by (auto simp: extract_copy_def Let_def split: option.splits if_splits)

lemma extract_entry_files:
  assumes "extract_entry io file fs = (r, fs')" and "io_remove io = None"
    and "\<And>p. io_temp io = Inr p \<Longrightarrow> p \<noteq> [] \<and> fs p = None"
  shows "case r of Inl _ \<Rightarrow> fs' = fs
    | Inr q \<Rightarrow> q \<noteq> [] \<and> fs q = None \<and> (\<exists>content. ze_bytes file = Inr content \<and> fs' = fs(q := Some content))"
proof (cases "ze_bytes file")
  case (Inl e)
  with assms(1) show ?thesis by (auto simp: extract_entry_def)
next
  case content: (Inr content)
  show ?thesis
  proof (cases "io_temp io")
    case (Inl e)
    with content assms(1) show ?thesis by (auto simp: extract_entry_def)
  next
    case (Inr path)
    obtain closed keep err fs1 where cp: "extract_copy io path content fs = (closed, keep, err, fs1)"
      by (metis prod_cases4)
    note P = extract_copy_path [OF cp] assms(3) [OF Inr]
    show ?thesis
    proof (cases keep)
      case True
      with P have "closed" "err = None" "fs1 = fs(path := Some content)" by (auto simp: fun_eq_iff)
      with True content Inr cp assms(1) have "r = Inr path" "fs' = fs(path := Some content)"
        by (simp_all add: extract_entry_def finish_temp_keep)
      with content P show ?thesis by simp
    next
      case False
      with P obtain e where e: "err = Some e" by auto
      obtain err' fs2 where fin: "finish_temp io closed False path (Some e) fs1 = (err', fs2)" by fastforce
      from finish_temp_fails [OF fin] obtain e' where "err' = Some e'" by blast
      moreover have "fs2 = fs"
        using finish_temp_files(1) [OF fin assms(2)] P by (auto simp: fun_eq_iff)
      ultimately show ?thesis
        using False content Inr cp e fin assms(1) by (auto simp: extract_entry_def)
    qed
  qed
qed

lemma parse_archive_files:
  assumes "io_remove io = None" and "\<And>p. io_temp io = Inr p \<Longrightarrow> p \<noteq> [] \<and> fs p = None"
  shows "snd (parse_archive env io path fs) = fs"
proof -
  have "fs(q := None) = fs" if "fs q = None" for q using that by (auto simp: fun_eq_iff)
  then show ?thesis
    using extract_entry_files [OF _ assms, of _ "_"] assms(1)
    by (fastforce simp: parse_archive_def Let_def remove_file_def split: sum.splits prod.splits option.splits)
qed

end
