(* ===== verification/GtfsProperties.thy ===== *)
theory GtfsProperties
  imports GtfsArchive
begin

text \<open>
  The promises of the archive parser, each with a concrete application: a small archive whose
  four tables hold one route, one station with one platform, one trip and one stop time.
\<close>

section \<open>A sample archive\<close>

definition sample_rows :: "string \<Rightarrow> string list list" where
  "sample_rows bytes =
     (if bytes = ''R'' then [[''route_id'', ''route_type'', ''route_short_name''], [''r1'', ''2'', ''Line'']]
      else if bytes = ''S'' then
        [[''stop_id'', ''location_type'', ''parent_station'', ''stop_name'', ''stop_lat'', ''stop_lon''],
         [''p1'', ''0'', ''s1'', ''Platform'', ''1'', ''1''], [''s1'', ''1'', '''', ''Station'', ''1'', ''1'']]
      else if bytes = ''T'' then [[''route_id'', ''trip_id''], [''r1'', ''t1'']]
      else if bytes = ''U'' then [[''trip_id'', ''stop_id''], [''t1'', ''p1'']]
      else [])"

definition sample_entry :: "string \<Rightarrow> string \<Rightarrow> zip_entry" where
  "sample_entry name bytes = \<lparr>ze_name = name, ze_size = 1, ze_bytes = Inr bytes\<rparr>"

definition sample_zip :: "string \<Rightarrow> zip_entry list result" where
  "sample_zip bytes =
     (if bytes = ''O'' then Inr [sample_entry ''2/google_transit.zip'' ''M'']
      else if bytes = ''M'' then Inr [sample_entry ''routes.txt'' ''R'', sample_entry ''stops.txt'' ''S'',
        sample_entry ''trips.txt'' ''T'', sample_entry ''stop_times.txt'' ''U'']
      else Inl (Errorf ''zip: not a valid zip file'' []))"

definition sample_gtfs :: gtfs_env where
  "sample_gtfs = \<lparr>csv_reads = (\<lambda>(bytes, _). map Inr (sample_rows bytes)), zip_decode = sample_zip,
     parse_float = (\<lambda>_. Some 0), unicode_upper = (\<lambda>s. s), map_order = (\<lambda>ks. ks)\<rparr>"

definition sample_temp :: temp_io where
  "sample_temp = \<lparr>io_temp = Inr ''tmp'', io_copy = None, io_close = None, io_remove = None\<rparr>"

definition sample_files :: files where
  "sample_files = [''z'' \<mapsto> ''O'']"

lemmas gtfs_eval = sample_gtfs_def sample_rows_def sample_entry_def sample_zip_def sample_temp_def sample_files_def

lemma sample_fair: "fair_order sample_gtfs"
  by (simp add: fair_order_def sample_gtfs_def)

lemma sample_stream: "limited_stream [c] = ([c], None)"
  by (simp add: limited_stream_def limit_read_def new_limit_reader_def Let_def max_csv_record_bytes_def)

lemmas rows_eval = csv_rows_def parse_rows_def each_row.simps row_next_def row_value_def bom_def trim_prefix_def
  has_prefix_def bind_res_def required_int_def optional_int_def optional_int_pointer_def optional_float_pointer_def
  Let_def sample_stream

lemma sample_conversions:
  "atoi ''2'' = Some 2" "atoi ''1'' = Some 1" "atoi ''0'' = Some 0"
  "equal_fold ''Line'' ''Replacement Bus'' = False" "to_upper (\<lambda>s. s) [] = []"
  by code_simp+

lemmas limits_eval = max_route_records_def max_stop_records_def max_trip_records_def max_stop_time_rows_def
  max_relations_def

lemma sample_routes: "parse_routes sample_gtfs (sample_entry ''routes.txt'' ''R'') = Inr
    ([\<lparr>rt_id = ''r1'', rt_agency = [], rt_short_name = ''Line'', rt_long_name = [], rt_type = 2, rt_color = [],
       rt_text_color = [], rt_replacement_bus = False\<rparr>], [''r1''])"
  by (simp add: parse_routes_def route_row_def rows_eval gtfs_eval sample_conversions limits_eval)

definition sample_stop :: "string \<Rightarrow> string \<Rightarrow> int \<Rightarrow> string \<Rightarrow> stop" where
  "sample_stop stop_id name location_type parent = \<lparr>st_id = stop_id, st_name = name, st_latitude = Some 0,
     st_longitude = Some 0, st_url = [], st_location_type = location_type, st_parent = parent,
     st_wheelchair = None, st_level = [], st_platform = []\<rparr>"

definition sample_stops :: stops_result where
  "sample_stops = \<lparr>sr_stops = [sample_stop ''p1'' ''Platform'' 0 ''s1'', sample_stop ''s1'' ''Station'' 1 []],
     sr_stop_stations = [(''p1'', ''s1'')], sr_stations = [''s1'']\<rparr>"

lemma sample_stops_ok: "parse_stops sample_gtfs (sample_entry ''stops.txt'' ''S'') = Inr sample_stops"
  by (simp add: parse_stops_def stop_row_def rows_eval gtfs_eval sample_conversions limits_eval add_stop_def
      empty_stops_def check_parent_def expected_parent_type_def int_at_def str_at_def resolve_station.simps
      sample_stops_def sample_stop_def)

lemma sample_trips: "parse_trips sample_gtfs (sample_entry ''trips.txt'' ''T'') [''r1''] = Inr ([(''t1'', ''r1'')], 1)"
  by (simp add: parse_trips_def trip_row_def rows_eval gtfs_eval limits_eval)

lemma sample_stop_times: "parse_stop_times sample_gtfs (sample_entry ''stop_times.txt'' ''U'') [(''t1'', ''r1'')]
    [(''p1'', ''s1'')] [''s1''] = Inr ([\<lparr>rs_route = ''r1'', rs_station = ''s1''\<rparr>], 1, 0)"
  by (simp add: parse_stop_times_def stop_time_row_def rows_eval gtfs_eval limits_eval)

lemma sample_find: "zip_decode sample_gtfs ''M'' = Inr files \<Longrightarrow>
    find_unique_entry files ''routes.txt'' = Inr (sample_entry ''routes.txt'' ''R'') \<and>
    find_unique_entry files ''stops.txt'' = Inr (sample_entry ''stops.txt'' ''S'') \<and>
    find_unique_entry files ''trips.txt'' = Inr (sample_entry ''trips.txt'' ''T'') \<and>
    find_unique_entry files ''stop_times.txt'' = Inr (sample_entry ''stop_times.txt'' ''U'')"
  by (auto simp: gtfs_eval find_unique_entry_def)

lemma sample_order: "map_order sample_gtfs ks = ks"
  by (simp add: sample_gtfs_def)

lemma sample_size: "ze_size (sample_entry name bytes) = 1"
  by (simp add: sample_entry_def)

definition sample_dataset :: dataset where
  "sample_dataset = \<lparr>ds_routes = [\<lparr>rt_id = ''r1'', rt_agency = [], rt_short_name = ''Line'', rt_long_name = [],
       rt_type = 2, rt_color = [], rt_text_color = [], rt_replacement_bus = False\<rparr>],
     ds_stops = sr_stops sample_stops, ds_route_stations = [\<lparr>rs_route = ''r1'', rs_station = ''s1''\<rparr>],
     ds_summary = \<lparr>sm_routes = 1, sm_stops = 2, sm_stations = 1, sm_trips = 1, sm_stop_times = 1,
       sm_route_stations = 1, sm_skipped_stop_times = 0, sm_metro_bytes = 1\<rparr>\<rparr>"

lemma sample_metro:
  assumes "zip_decode sample_gtfs ''M'' = Inr files"
  shows "parse_metro sample_gtfs 1 files = Inr sample_dataset"
  using sample_find [OF assms]
  by (simp add: parse_metro_def required_file_limits_def entry_at_def sample_routes sample_stops_ok sample_trips
      sample_stop_times bind_res_def sample_order sample_size sample_stops_def sample_dataset_def)

lemma sample_extract: "extract_entry sample_temp (sample_entry name ''M'') fs = (Inr ''tmp'', fs(''tmp'' \<mapsto> ''M''))"
  by (simp add: extract_entry_def extract_copy_def sample_entry_def sample_temp_def max_metro_zip_bytes_def Let_def
      finish_temp_keep)

lemma sample_parse: "parse_archive sample_gtfs sample_temp ''z'' sample_files = (Inr sample_dataset, sample_files(''tmp'' := None))"
proof -
  let ?fs = "sample_files(''tmp'' \<mapsto> ''M'')"
  obtain files where files: "zip_decode sample_gtfs ''M'' = Inr files" by (simp add: gtfs_eval)
  note d = sample_metro [OF files]
  have outer: "zip_open sample_gtfs sample_files ''z'' = Inr [sample_entry ''2/google_transit.zip'' ''M'']"
    by (simp add: zip_open_def gtfs_eval)
  have inner: "zip_open sample_gtfs ?fs ''tmp'' = Inr files"
    by (simp add: zip_open_def files)
  have entry: "find_unique_entry [sample_entry ''2/google_transit.zip'' ''M''] metro_archive_name =
      Inr (sample_entry ''2/google_transit.zip'' ''M'')"
    by (simp add: find_unique_entry_def metro_archive_name_def sample_entry_def)
  show ?thesis
    using d by (simp add: parse_archive_def outer entry sample_extract inner sample_size max_metro_zip_bytes_def
        remove_file_def sample_temp_def [THEN arg_cong [where f = io_remove], simplified])
qed

section \<open>The archive\<close>

text \<open>C4: what \<open>ParseArchive\<close> returns is a closed network: route and stop ids are distinct and
  not empty, every stop satisfies its row rules and its parent rule, and the route-station
  relation is strictly sorted and relates routes of the archive to its stations. The summary
  counts what is returned, and all its counts are positive and within the limits.\<close>

theorem parsed_archive_is_a_network:
  assumes "parse_archive env io path fs = (Inr d, fs')" and "fair_order env"
  shows "network_ok d \<and> counts_ok d"
  using parse_archive_Inr [OF assms(1)] parse_metro_network [OF assms(2)] by blast

theorem parsed_archive_is_a_network_witness:
  "network_ok sample_dataset \<and> counts_ok sample_dataset"
  by (rule parsed_archive_is_a_network [OF sample_parse sample_fair])

text \<open>whatever \<open>ParseArchive\<close> returns, the nested archive it extracted is gone: the files are
  as they were, when the file can be removed.\<close>

theorem no_temporary_archive_is_left:
  assumes "io_remove io = None" and "\<And>p. io_temp io = Inr p \<Longrightarrow> p \<noteq> [] \<and> fs p = None"
  shows "snd (parse_archive env io path fs) = fs"
  using assms by (rule parse_archive_files)

theorem no_temporary_archive_is_left_witness:
  "snd (parse_archive sample_gtfs sample_temp ''z'' sample_files) = sample_files"
  by (rule no_temporary_archive_is_left) (auto simp: sample_temp_def sample_files_def)

text \<open>C27: Go ranges over maps in an arbitrary order. Whether \<open>parseStops\<close> accepts a table, the
  stops and stations it returns and the station of every stop do not depend on it.\<close>

theorem stops_do_not_depend_on_map_order:
  assumes "fair_order (env\<lparr>map_order := f\<rparr>)" and "fair_order (env\<lparr>map_order := g\<rparr>)"
    and "parse_stops (env\<lparr>map_order := f\<rparr>) entry = Inr r"
  shows "\<exists>r'. parse_stops (env\<lparr>map_order := g\<rparr>) entry = Inr r' \<and> sr_stops r' = sr_stops r \<and>
    sr_stations r' = sr_stations r \<and> map_of (sr_stop_stations r') = map_of (sr_stop_stations r)"
  using assms by (rule parse_stops_reordered)

theorem stops_do_not_depend_on_map_order_witness:
  "\<exists>r'. parse_stops (sample_gtfs\<lparr>map_order := rev\<rparr>) (sample_entry ''stops.txt'' ''S'') = Inr r' \<and>
     sr_stops r' = sr_stops sample_stops \<and> sr_stations r' = sr_stations sample_stops \<and>
     map_of (sr_stop_stations r') = map_of (sr_stop_stations sample_stops)"
proof (rule stops_do_not_depend_on_map_order [where f = "\<lambda>ks. ks"])
  have "sample_gtfs\<lparr>map_order := \<lambda>ks. ks\<rparr> = sample_gtfs" by (simp add: sample_gtfs_def)
  then show "parse_stops (sample_gtfs\<lparr>map_order := \<lambda>ks. ks\<rparr>) (sample_entry ''stops.txt'' ''S'') = Inr sample_stops"
    by (simp only: sample_stops_ok)
qed (simp_all add: fair_order_def)

text \<open>\<open>parseStops\<close> maps a stop to a station exactly when the stop is a platform below a
  station, or a boarding area below a platform below a station, and then to that station.\<close>

theorem stop_stations_are_ancestors:
  assumes "parse_stops env entry = Inr r" and "fair_order env"
  shows "map_of (sr_stop_stations r) k = Some st \<longleftrightarrow> stop_in_station (sr_stops r) k st"
  using assms by (rule parse_stops_spec(3) [rotated])

theorem stop_stations_are_ancestors_witness:
  "stop_in_station (sr_stops sample_stops) ''p1'' ''s1'' \<and> \<not> stop_in_station (sr_stops sample_stops) ''s1'' ''s1''"
  using stop_stations_are_ancestors [OF sample_stops_ok sample_fair, of "''p1''" "''s1''"]
    stop_stations_are_ancestors [OF sample_stops_ok sample_fair, of "''s1''" "''s1''"]
  by (simp add: sample_stops_def)

section \<open>The record limit\<close>

text \<open>the limit reader gives the CSV reader the same bytes and the same error in whatever
  chunks the archive is read.\<close>

theorem limit_reader_ignores_chunks:
  "limit_reads new_limit_reader chunks = limited_stream (concat chunks)"
proof -
  have "limit_reads new_limit_reader cs =
      (case limit_scan new_limit_reader 0 (concat cs) of
         (None, _) \<Rightarrow> (concat cs, None)
       | (Some k, _) \<Rightarrow> (take (Suc k) (concat cs), Some record_too_long))" for cs
    by (rule limit_reads_concat) (simp add: new_limit_reader_def)
  then show ?thesis
    by (simp add: limited_stream_def limit_read_def new_limit_reader_def split: option.split prod.split)
qed

text \<open>C28: the limit reader lets a file through whole exactly when every record of it, quoted
  newlines not ending a record, is at most 1 MiB long with its newline.\<close>

theorem limit_reader_bounds_records:
  "snd (limited_stream bytes) = None \<longleftrightarrow>
   (\<forall>rec \<in> set (csv_records Plain [] bytes). int (length rec) \<le> max_csv_record_bytes)"
proof -
  have "fst (limit_scan new_limit_reader 0 bytes) = None \<longleftrightarrow>
      (\<forall>rec \<in> set (csv_records (quoting_of new_limit_reader) [] bytes). int (length rec) \<le> max_csv_record_bytes)"
    by (rule limit_scan_spec) (simp_all add: limit_wf_def new_limit_reader_def max_csv_record_bytes_def)
  moreover have "quoting_of new_limit_reader = Plain" by (simp add: quoting_of_def new_limit_reader_def)
  ultimately show ?thesis
    by (auto simp: limited_stream_def limit_read_def new_limit_reader_def split: option.splits prod.splits)
qed

theorem limit_reader_bounds_records_witness:
  "snd (limited_stream ''ab'') = None"
  unfolding limit_reader_bounds_records by (simp add: max_csv_record_bytes_def ends_record_def quoting_step_def)

end
