(* ===== verification/GoJson.thy ===== *)
theory GoJson
  imports GoStrings
begin

text \<open>
  \<open>encoding/json\<close> as the program uses it: \<open>json.Marshal\<close> of structs, slices, pointers,
  strings, booleans and integers, into the bytes it prints (HTML escaping on, as
  \<open>Marshal\<close> has it). \<open>encode_json_inj\<close> shows the encoding determines the value when the
  strings are valid UTF-8, which is what makes a hash of the encoding a hash of the value.
\<close>

section \<open>Values and their encoding\<close>

datatype json =
    JNull
  | JBool bool
  | JInt int
  | JStr string
  | JArr "json list"
  | JObj "(string \<times> json) list"

definition hex_digit :: "nat \<Rightarrow> nat" where
  "hex_digit n = (if n < 10 then 48 + n else 87 + n)"

definition unhex_digit :: "nat \<Rightarrow> nat" where
  "unhex_digit b = (if b < 58 then b - 48 else b - 87)"

text \<open>The two-character escapes: backslash and a letter.\<close>

definition short_escape :: "nat \<Rightarrow> nat option" where
  "short_escape r =
     (if r = 34 then Some 34 else if r = 92 then Some 92 else if r = 8 then Some 98
      else if r = 12 then Some 102 else if r = 10 then Some 110 else if r = 13 then Some 114
      else if r = 9 then Some 116 else None)"

definition html_unsafe :: "nat \<Rightarrow> bool" where
  "html_unsafe r = (r < 32 \<or> r = 38 \<or> r = 60 \<or> r = 62)"

definition hex4 :: "nat \<Rightarrow> nat list" where
  "hex4 r = [92, 117, hex_digit (r div 4096 mod 16), hex_digit (r div 256 mod 16),
     hex_digit (r div 16 mod 16), hex_digit (r mod 16)]"

text \<open>
  One step of \<open>appendString\<close>: an ASCII byte, an ill-formed byte (the flag is false), the line
  and paragraph separators, any other rune unchanged.
\<close>

definition json_rune :: "rune \<times> bool \<Rightarrow> nat list" where
  "json_rune = (\<lambda>(r, ok).
     if r < 128 then
       (case short_escape r of
          Some c \<Rightarrow> [92, c]
        | None \<Rightarrow> if html_unsafe r then hex4 r else [r])
     else if \<not> ok then hex4 rune_error
     else if r = 8232 \<or> r = 8233 then hex4 r
     else encode_rune r)"

definition json_string :: "string \<Rightarrow> nat list" where
  "json_string s = 34 # concat (map json_rune (runes_of (bytes_of s))) @ [34]"

fun nat_digits :: "nat \<Rightarrow> nat list" where
  "nat_digits n = (if n < 10 then [48 + n] else nat_digits (n div 10) @ [48 + n mod 10])"

declare nat_digits.simps [simp del]

definition int_digits :: "int \<Rightarrow> nat list" where
  "int_digits i = (if i < 0 then 45 # nat_digits (nat (- i)) else nat_digits (nat i))"

definition ascii :: "string \<Rightarrow> nat list" where
  "ascii s = bytes_of s"

text \<open>Values joined by commas.\<close>

fun commas :: "nat list list \<Rightarrow> nat list" where
  "commas [] = []"
| "commas [b] = b"
| "commas (b # bs) = b @ 44 # commas bs"

fun encode_json :: "json \<Rightarrow> nat list" where
  "encode_json JNull = ascii ''null''"
| "encode_json (JBool b) = (if b then ascii ''true'' else ascii ''false'')"
| "encode_json (JInt i) = int_digits i"
| "encode_json (JStr s) = json_string s"
| "encode_json (JArr vs) = 91 # commas (map encode_json vs) @ [93]"
| "encode_json (JObj fs) = 123 # commas (map (\<lambda>(k, v). json_string k @ 58 # encode_json v) fs) @ [125]"

definition marshal :: "json \<Rightarrow> string" where
  "marshal v = map char_of (encode_json v)"

text \<open>Struct fields with \<open>omitempty\<close>.\<close>

definition omit_str :: "string \<Rightarrow> string \<Rightarrow> (string \<times> json) list" where
  "omit_str k s = (if s = [] then [] else [(k, JStr s)])"

definition omit_ptr :: "string \<Rightarrow> ('a \<Rightarrow> json) \<Rightarrow> 'a option \<Rightarrow> (string \<times> json) list" where
  "omit_ptr k f v = (case v of None \<Rightarrow> [] | Some x \<Rightarrow> [(k, f x)])"

definition json_ptr :: "('a \<Rightarrow> json) \<Rightarrow> 'a option \<Rightarrow> json" where
  "json_ptr f v = (case v of None \<Rightarrow> JNull | Some x \<Rightarrow> f x)"

section \<open>The encoding determines the value\<close>

text \<open>A value whose strings, field names included, are valid UTF-8.\<close>

fun json_valid :: "json \<Rightarrow> bool" where
  "json_valid (JStr s) = valid_utf8 s"
| "json_valid (JArr vs) = list_all json_valid vs"
| "json_valid (JObj fs) = list_all (\<lambda>(k, v). valid_utf8 k \<and> json_valid v) fs"
| "json_valid _ = True"

definition unescape_rune :: "nat list \<Rightarrow> rune \<times> nat list" where
  "unescape_rune bs =
     (if hd bs = 92 then
        (if bs ! 1 = 117 then
           (unhex_digit (bs ! 2) * 4096 + unhex_digit (bs ! 3) * 256 + unhex_digit (bs ! 4) * 16
              + unhex_digit (bs ! 5), drop 6 bs)
         else ((if bs ! 1 = 98 then 8 else if bs ! 1 = 102 then 12 else if bs ! 1 = 110 then 10
                else if bs ! 1 = 114 then 13 else if bs ! 1 = 116 then 9 else bs ! 1), drop 2 bs))
      else (case decode_rune bs of (r, w, _) \<Rightarrow> (r, drop w bs)))"

lemma unhex_hex [simp]: "n < 16 \<Longrightarrow> unhex_digit (hex_digit n) = n"
  by (simp add: unhex_digit_def hex_digit_def)

lemma hex4_digits: "r = 4096 * (r div 4096) + 256 * (r div 256 mod 16) + 16 * (r div 16 mod 16) + r mod (16::nat)"
proof -
  have 1: "r = 16 * (r div 16) + r mod 16" by simp
  have "r div 256 = r div 16 div 16" by (simp add: div_mult2_eq [of r 16 16, simplified])
  then have 2: "r div 16 = 16 * (r div 256) + r div 16 mod 16" by simp
  have "r div 4096 = r div 256 div 16" by (simp add: div_mult2_eq [of r 256 16, simplified])
  then have 3: "r div 256 = 16 * (r div 4096) + r div 256 mod 16" by simp
  show ?thesis using 1 2 3 by linarith
qed

lemma unescape_hex4:
  assumes "r < 65536"
  shows "unescape_rune (hex4 r @ x) = (r, x)"
proof -
  have "r div 4096 mod 16 = r div 4096" using assms by simp
  moreover have "r div 4096 < 16" using assms by simp
  ultimately show ?thesis using hex4_digits [of r] by (simp add: unescape_rune_def hex4_def mult.commute)
qed

lemma encode_rune_hd: "128 \<le> r \<Longrightarrow> 128 \<le> hd (encode_rune r)"
  by (simp add: encode_rune_def)

lemma unescape_raw:
  assumes "128 \<le> r" and "scalar r"
  shows "unescape_rune (encode_rune r @ x) = (r, x)"
proof -
  have "hd (encode_rune r @ x) \<noteq> 92" using encode_rune_hd [OF assms(1)] by simp
  then show ?thesis by (simp add: unescape_rune_def decode_encode [OF assms(2)])
qed

lemma unescape_json_rune:
  assumes "scalar r"
  shows "unescape_rune (json_rune (r, True) @ x) = (r, x)"
proof (cases "r < 128")
  case ascii: True
  show ?thesis
  proof (cases "short_escape r")
    case (Some c)
    with ascii show ?thesis
      by (auto simp: json_rune_def unescape_rune_def short_escape_def split: if_splits)
  next
    case None
    then have "r \<noteq> 92" by (auto simp: short_escape_def)
    with None ascii show ?thesis
      using unescape_hex4 [of r x] by (auto simp: json_rune_def unescape_rune_def split: if_splits)
  qed
next
  case False
  then show ?thesis
    using unescape_raw [of r x] unescape_hex4 [of r x] assms by (auto simp: json_rune_def)
qed

lemma json_rune_hd: "json_rune (r, True) \<noteq> [] \<and> hd (json_rune (r, True)) \<noteq> 34"
  using encode_rune_hd [of r]
  by (auto simp: json_rune_def hex4_def short_escape_def split: if_splits)

lemma json_body_inj:
  assumes "list_all scalar rs" and "list_all scalar rs'"
    and "concat (map (\<lambda>r. json_rune (r, True)) rs) @ 34 # x = concat (map (\<lambda>r. json_rune (r, True)) rs') @ 34 # y"
  shows "rs = rs' \<and> x = y"
  using assms
proof (induction rs arbitrary: rs')
  case Nil
  then show ?case
    using json_rune_hd [of "hd rs'"] by (cases rs') (auto simp: hd_append dest!: arg_cong [where f = hd])
next
  case (Cons r rs)
  show ?case
  proof (cases rs')
    case Nil
    with Cons.prems(3) have "hd (json_rune (r, True)) = 34"
      using json_rune_hd [of r] by (auto dest!: arg_cong [where f = hd] simp: hd_append)
    then show ?thesis using json_rune_hd [of r] by simp
  next
    case (Cons r' rs2)
    let ?f = "\<lambda>rs. concat (map (\<lambda>r. json_rune (r, True)) rs)"
    have "json_rune (r, True) @ (?f rs @ 34 # x) = json_rune (r', True) @ (?f rs2 @ 34 # y)"
      using Cons.prems(3) Cons by simp
    then have "unescape_rune (json_rune (r, True) @ (?f rs @ 34 # x)) = unescape_rune (json_rune (r', True) @ (?f rs2 @ 34 # y))"
      by (rule arg_cong)
    then have "r = r'" "?f rs @ 34 # x = ?f rs2 @ 34 # y"
      using Cons.prems(1,2) Cons by (auto simp: unescape_json_rune)
    with Cons.IH [of rs2] Cons.prems(1,2) Cons show ?thesis by simp
  qed
qed

lemma valid_runes_of: "valid_utf8 s \<Longrightarrow> runes_of (bytes_of s) = map (\<lambda>r. (r, True)) (runes s)"
  by (auto simp: valid_utf8_def runes_def list_all_iff comp_def intro!: map_idI [symmetric])

lemma json_string_inj:
  assumes "valid_utf8 s" and "valid_utf8 t" and "json_string s @ x = json_string t @ y"
  shows "s = t \<and> x = y"
proof -
  have "runes s = runes t \<and> x = y"
    using assms runes_scalar [of s] runes_scalar [of t]
    by (intro json_body_inj) (auto simp: json_string_def valid_runes_of comp_def)
  moreover have "s = t" if "runes s = runes t"
    using that assms(1,2) by (metis string_of_runes_runes)
  ultimately show ?thesis by simp
qed

text \<open>Decimal digits.\<close>

definition digit_byte :: "nat \<Rightarrow> bool" where
  "digit_byte b = (48 \<le> b \<and> b \<le> 57)"

lemma nat_digits_bytes: "list_all digit_byte (nat_digits n)"
proof (induction n rule: nat_digits.induct)
  case (1 n)
  then show ?case by (subst nat_digits.simps) (cases "n < 10"; simp add: digit_byte_def [of "48 + _"])
qed

lemma nat_digits_hd: "nat_digits n \<noteq> [] \<and> digit_byte (hd (nat_digits n))"
proof -
  have "nat_digits n \<noteq> []" by (subst nat_digits.simps) simp
  with nat_digits_bytes [of n] show ?thesis by (cases "nat_digits n") auto
qed

lemma nat_digits_val: "foldl (\<lambda>a b. 10 * a + (b - 48)) 0 (nat_digits n) = n"
proof (induction n rule: nat_digits.induct)
  case (1 n)
  then show ?case by (subst nat_digits.simps) auto
qed

text \<open>What may follow a value: nothing, a comma, or a closing bracket.\<close>

definition ends_value :: "nat list \<Rightarrow> bool" where
  "ends_value x = (x = [] \<or> hd x \<in> {44, 93, 125})"

lemma takeWhile_digits:
  "ends_value x \<Longrightarrow> takeWhile digit_byte (nat_digits n @ x) = nat_digits n"
  using nat_digits_bytes [of n]
  by (cases x) (auto simp: ends_value_def digit_byte_def list_all_iff takeWhile_append)

lemma nat_digits_inj:
  assumes "ends_value x" and "ends_value y" and "nat_digits n @ x = nat_digits m @ y"
  shows "n = m \<and> x = y"
proof -
  have "nat_digits n = nat_digits m"
    using takeWhile_digits [OF assms(1), of n] takeWhile_digits [OF assms(2), of m] assms(3) by simp
  with assms(3) show ?thesis by (metis nat_digits_val same_append_eq)
qed

lemma int_digits_inj:
  assumes "ends_value x" and "ends_value y" and "int_digits i @ x = int_digits j @ y"
  shows "i = j \<and> x = y"
proof (cases "i < 0")
  case True
  with assms(3) nat_digits_hd [of "nat j"] have "j < 0"
    by (auto simp: int_digits_def digit_byte_def neq_Nil_conv split: if_splits)
  with True assms nat_digits_inj [of x y "nat (- i)" "nat (- j)"] show ?thesis
    by (auto simp: int_digits_def)
next
  case False
  with assms(3) nat_digits_hd [of "nat i"] have "\<not> j < 0"
    by (auto simp: int_digits_def digit_byte_def neq_Nil_conv split: if_splits)
  with False assms nat_digits_inj [of x y "nat i" "nat j"] show ?thesis
    by (auto simp: int_digits_def)
qed

text \<open>The first byte tells the constructor.\<close>

definition json_tag :: "json \<Rightarrow> nat \<Rightarrow> bool" where
  "json_tag v b = (case v of
      JNull \<Rightarrow> b = 110 | JBool True \<Rightarrow> b = 116 | JBool False \<Rightarrow> b = 102
    | JInt _ \<Rightarrow> b = 45 \<or> digit_byte b | JStr _ \<Rightarrow> b = 34 | JArr _ \<Rightarrow> b = 91 | JObj _ \<Rightarrow> b = 123)"

lemma ascii_words:
  "ascii ''null'' = [110, 117, 108, 108]" "ascii ''true'' = [116, 114, 117, 101]"
  "ascii ''false'' = [102, 97, 108, 115, 101]"
  by (simp_all add: ascii_def bytes_of_def ord_def)

lemma encode_json_hd: "encode_json v \<noteq> [] \<and> json_tag v (hd (encode_json v))"
  using nat_digits_hd
  by (cases v) (auto simp: json_tag_def ascii_words json_string_def int_digits_def)

definition same_shape :: "json \<Rightarrow> json \<Rightarrow> bool" where
  "same_shape v w = (case (v, w) of
      (JNull, JNull) \<Rightarrow> True | (JBool a, JBool b) \<Rightarrow> a = b | (JInt _, JInt _) \<Rightarrow> True
    | (JStr _, JStr _) \<Rightarrow> True | (JArr _, JArr _) \<Rightarrow> True | (JObj _, JObj _) \<Rightarrow> True | _ \<Rightarrow> False)"

lemma json_tag_shape: "json_tag v b \<Longrightarrow> json_tag w b \<Longrightarrow> same_shape v w"
  by (cases v; cases w) (auto simp: json_tag_def same_shape_def digit_byte_def split: bool.splits)

lemma encode_json_shape:
  assumes "encode_json v @ x = encode_json w @ y"
  shows "same_shape v w"
proof -
  have "hd (encode_json v) = hd (encode_json w)"
    using assms encode_json_hd [of v] encode_json_hd [of w] by (metis hd_append2)
  with encode_json_hd [of v] encode_json_hd [of w] show ?thesis by (auto intro: json_tag_shape)
qed

lemma commas_Cons: "commas (b # bs) = b @ (if bs = [] then [] else 44 # commas bs)"
  by (cases bs) auto

lemma commas_inj:
  assumes "\<And>v w x y. v \<in> set vs \<Longrightarrow> w \<in> set ws \<Longrightarrow> ends_value x \<Longrightarrow> ends_value y \<Longrightarrow>
      f v @ x = f w @ y \<Longrightarrow> v = w \<and> x = y"
    and "\<And>v. f v \<noteq> [] \<and> hd (f v) \<noteq> c" and "c \<in> {93, 125}"
    and "commas (map f vs) @ c # x = commas (map f ws) @ c # y"
  shows "vs = ws \<and> x = y"
  using assms(1,4)
proof (induction vs arbitrary: ws)
  case Nil
  then show ?case using assms(2) [of "hd ws"]
    by (cases ws) (auto simp: commas_Cons hd_append dest!: arg_cong [where f = hd])
next
  case (Cons v vs)
  show ?case
  proof (cases ws)
    case Nil
    with Cons.prems(2) assms(2) [of v] show ?thesis
      by (auto simp: commas_Cons hd_append dest!: arg_cong [where f = hd])
  next
    case ws: (Cons w ws')
    let ?t = "\<lambda>vs x. (if vs = [] then [] else 44 # commas (map f vs)) @ c # x"
    have "ends_value (?t vs x)" "ends_value (?t ws' y)"
      using assms(3) by (auto simp: ends_value_def)
    moreover have "f v @ ?t vs x = f w @ ?t ws' y"
      using Cons.prems(2) ws by (simp add: commas_Cons)
    ultimately have eq: "v = w" "?t vs x = ?t ws' y"
      using Cons.prems(1) [of v w "?t vs x" "?t ws' y"] ws by auto
    have "commas (map f vs) @ c # x = commas (map f ws') @ c # y"
      using eq(2) assms(3) by (auto split: if_splits)
    with Cons.IH [of ws'] Cons.prems(1) ws eq(1) show ?thesis by auto
  qed
qed

theorem encode_json_inj:
  assumes "json_valid v" and "json_valid w" and "ends_value x" and "ends_value y"
    and "encode_json v @ x = encode_json w @ y"
  shows "v = w \<and> x = y"
  using assms
proof (induction v arbitrary: w x y)
  case JNull
  with encode_json_shape [OF JNull.prems(5)] show ?case
    by (cases w) (auto simp: same_shape_def)
next
  case (JBool b)
  with encode_json_shape [OF JBool.prems(5)] show ?case
    by (cases w) (auto simp: same_shape_def split: if_splits)
next
  case (JInt i)
  with encode_json_shape [OF JInt.prems(5)] obtain j where "w = JInt j"
    by (cases w) (auto simp: same_shape_def)
  with int_digits_inj [OF JInt.prems(3,4), of i j] JInt.prems(5) show ?case by simp
next
  case (JStr s)
  with encode_json_shape [OF JStr.prems(5)] obtain t where "w = JStr t"
    by (cases w) (auto simp: same_shape_def)
  with json_string_inj [of s t x y] JStr.prems show ?case by simp
next
  case (JArr vs)
  with encode_json_shape [OF JArr.prems(5)] obtain ws where w: "w = JArr ws"
    by (cases w) (auto simp: same_shape_def)
  have "vs = ws \<and> x = y"
  proof (rule commas_inj [where f = encode_json and c = 93])
    fix v u x y
    assume m: "v \<in> set vs" "u \<in> set ws" and ev: "ends_value x" "ends_value y"
      and eq: "encode_json v @ x = encode_json u @ y"
    have "json_valid v" "json_valid u" using JArr.prems(1,2) m w by (simp_all add: list_all_iff)
    then show "v = u \<and> x = y" using ev eq by (rule JArr.IH [OF m(1)])
  next
    show "encode_json v \<noteq> [] \<and> hd (encode_json v) \<noteq> 93" for v
      using encode_json_hd [of v] by (cases v) (auto simp: json_tag_def digit_byte_def split: bool.splits)
  qed (use JArr.prems(5) w in auto)
  with w show ?case by simp
next
  case (JObj fs)
  with encode_json_shape [OF JObj.prems(5)] obtain gs where w: "w = JObj gs"
    by (cases w) (auto simp: same_shape_def)
  let ?f = "\<lambda>(k, v). json_string k @ 58 # encode_json v"
  have "fs = gs \<and> x = y"
  proof (rule commas_inj [where f = ?f and c = 125])
    fix p q x y
    assume pq: "p \<in> set fs" "q \<in> set gs" and ev: "ends_value x" "ends_value y" and eq: "?f p @ x = ?f q @ y"
    obtain k v l u where kv: "p = (k, v)" "q = (l, u)" by fastforce
    have valid: "valid_utf8 k" "valid_utf8 l" "json_valid v" "json_valid u"
      using JObj.prems(1,2) w pq kv by (auto simp: list_all_iff)
    from eq kv have "json_string k @ (58 # encode_json v @ x) = json_string l @ (58 # encode_json u @ y)" by simp
    from json_string_inj [OF valid(1,2) this] have "k = l" "encode_json v @ x = encode_json u @ y" by auto
    have "v = u \<and> x = y"
    proof (rule JObj.IH [OF pq(1)])
      show "v \<in> Basic_BNFs.snds p" by (simp add: kv)
    qed fact+
    with \<open>k = l\<close> kv show "p = q \<and> x = y" by simp
  next
    show "?f p \<noteq> [] \<and> hd (?f p) \<noteq> 125" for p by (cases p) (simp add: json_string_def)
  qed (use JObj.prems(5) w in auto)
  with w show ?case by simp
qed

lemma hex_digit_bound: "n < 16 \<Longrightarrow> hex_digit n < 256"
  by (simp add: hex_digit_def)

lemma hex4_bytes: "b \<in> set (hex4 r) \<Longrightarrow> b < 256"
  by (auto simp: hex4_def hex_digit_bound)

lemma json_rune_bytes: "b \<in> set (json_rune p) \<Longrightarrow> b < 256"
  using hex4_bytes encode_rune_bytes
  by (cases p) (auto simp: json_rune_def short_escape_def split: if_splits)

lemma nat_digits_bound: "b \<in> set (nat_digits n) \<Longrightarrow> b < 256"
  using nat_digits_bytes [of n] by (fastforce simp: list_all_iff digit_byte_def)

lemma json_string_bytes: "b \<in> set (json_string s) \<Longrightarrow> b < 256"
  by (auto simp: json_string_def dest: json_rune_bytes)

lemma commas_bytes: "b \<in> set (commas bs) \<Longrightarrow> b = 44 \<or> (\<exists>x \<in> set bs. b \<in> set x)"
  by (induction bs) (auto simp: commas_Cons split: if_splits)

lemma encode_json_bytes: "b \<in> set (encode_json v) \<Longrightarrow> b < 256"
proof (induction v)
  case (JArr vs)
  then show ?case by (auto dest!: commas_bytes)
next
  case (JObj fs)
  then show ?case by (fastforce dest!: commas_bytes dest: json_string_bytes)
qed (auto simp: ascii_words int_digits_def dest: json_string_bytes nat_digits_bound split: if_splits)

corollary marshal_inj:
  assumes "json_valid v" and "json_valid w" and "marshal v = marshal w"
  shows "v = w"
proof -
  have "map of_char (marshal u) = encode_json u" for u
    using encode_json_bytes [of _ u] by (simp add: marshal_def comp_def map_idI)
  with assms(3) have "encode_json v @ [] = encode_json w @ []" by (metis append_Nil2)
  with assms(1,2) show ?thesis
    using encode_json_inj [of v w "[]" "[]"] by (simp add: ends_value_def)
qed

end
