(* ===== verification/RealtimeHash.thy ===== *)
theory RealtimeHash
  imports GoJson "HOL-Library.Product_Lexorder" "HOL-Library.Multiset"
begin

text \<open>
  The decoded feed of \<open>internal/realtime/decode.go\<close> as data, and \<open>HashAlert\<close> of
  \<open>internal/realtime/hash.go\<close>: the canonical form of an alert, its JSON, and the digest that
  decides whether a new revision is stored. SHA-256 (with the hexadecimal encoding of its sum)
  is a parameter, a function on byte strings.
\<close>

section \<open>The feed\<close>

record timestamp =
  ts_unix :: nat
  ts_utc :: string

record translation =
  tr_text :: string
  tr_language :: string

record active_period =
  ap_start :: "timestamp option"
  ap_end :: "timestamp option"

record informed_entity =
  ie_agency :: string
  ie_route :: string
  ie_route_type :: "int option"
  ie_stop :: string
  ie_direction :: "nat option"
  ie_trip :: string
  ie_trip_route :: string
  ie_trip_start_time :: string
  ie_trip_start_date :: string
  ie_trip_direction :: "nat option"
  ie_trip_schedule :: string

record alert_summary =
  al_entity_id :: string
  al_deleted :: bool
  al_cause :: "string option"
  al_effect :: "string option"
  al_severity :: "string option"
  al_header :: "translation list"
  al_description :: "translation list"
  al_url :: "translation list"
  al_periods :: "active_period list"
  al_entities :: "informed_entity list"
  al_unknown_bytes :: int
  al_unknown_hash :: string

record feed_summary =
  fe_version :: string
  fe_incrementality :: string
  fe_timestamp :: "timestamp option"
  fe_entity_count :: nat
  fe_alert_count :: nat
  fe_non_alert_count :: nat
  fe_unknown_bytes :: nat
  fe_alerts :: "alert_summary list"

section \<open>JSON of the parts\<close>

definition json_translation :: "translation \<Rightarrow> json" where
  "json_translation t = JObj ((''text'', JStr (tr_text t)) # omit_str ''language'' (tr_language t))"

definition json_timestamp :: "timestamp \<Rightarrow> json" where
  "json_timestamp t = JObj ((''unix'', JInt (int (ts_unix t))) # omit_str ''utc'' (ts_utc t))"

definition json_period :: "active_period \<Rightarrow> json" where
  "json_period p = JObj (omit_ptr ''start'' json_timestamp (ap_start p) @ omit_ptr ''end'' json_timestamp (ap_end p))"

definition json_entity :: "informed_entity \<Rightarrow> json" where
  "json_entity e = JObj
     (omit_str ''agency_id'' (ie_agency e) @ omit_str ''route_id'' (ie_route e) @
      omit_ptr ''route_type'' JInt (ie_route_type e) @ omit_str ''stop_id'' (ie_stop e) @
      omit_ptr ''direction_id'' (JInt \<circ> int) (ie_direction e) @ omit_str ''trip_id'' (ie_trip e) @
      omit_str ''trip_route_id'' (ie_trip_route e) @ omit_str ''trip_start_time'' (ie_trip_start_time e) @
      omit_str ''trip_start_date'' (ie_trip_start_date e) @
      omit_ptr ''trip_direction_id'' (JInt \<circ> int) (ie_trip_direction e) @
      omit_str ''trip_schedule_relationship'' (ie_trip_schedule e))"

section \<open>The canonical alert\<close>

text \<open>
  \<open>sortTranslations\<close> and the two \<open>encodedLess\<close> sorts. \<open>sort.Slice\<close> is not stable; elements
  it may exchange have the same key, and then print the same JSON, so the stable sort stands
  for all of them.
\<close>

definition sort_translations :: "translation list \<Rightarrow> translation list" where
  "sort_translations = sort_key (\<lambda>t. (tr_language t, tr_text t))"

definition sort_encoded :: "('a \<Rightarrow> json) \<Rightarrow> 'a list \<Rightarrow> 'a list" where
  "sort_encoded f = sort_key (\<lambda>x. marshal (f x))"

definition canonical_alert :: "alert_summary \<Rightarrow> alert_summary" where
  "canonical_alert a = a\<lparr>al_header := sort_translations (al_header a),
     al_description := sort_translations (al_description a),
     al_url := sort_translations (al_url a),
     al_periods := sort_encoded json_period (al_periods a),
     al_entities := sort_encoded json_entity (al_entities a)\<rparr>"

text \<open>The JSON of \<open>canonicalAlert\<close>: every field of the struct, the entity id is not one.\<close>

definition json_canonical :: "alert_summary \<Rightarrow> json" where
  "json_canonical a = JObj
     [(''deleted'', JBool (al_deleted a)), (''cause'', json_ptr JStr (al_cause a)),
      (''effect'', json_ptr JStr (al_effect a)), (''severity'', json_ptr JStr (al_severity a)),
      (''header'', JArr (map json_translation (al_header a))),
      (''description'', JArr (map json_translation (al_description a))),
      (''url'', JArr (map json_translation (al_url a))),
      (''active_periods'', JArr (map json_period (al_periods a))),
      (''informed_entities'', JArr (map json_entity (al_entities a))),
      (''unknown_fields_bytes'', JInt (al_unknown_bytes a)),
      (''unknown_fields_sha256'', JStr (al_unknown_hash a))]"

definition hash_payload :: "alert_summary \<Rightarrow> string" where
  "hash_payload a = marshal (json_canonical (canonical_alert a))"

definition hash_alert :: "(string \<Rightarrow> string) \<Rightarrow> alert_summary \<Rightarrow> string result" where
  "hash_alert sha256 a =
     (if al_unknown_bytes a > 0
      then Inl (Errorf ''alert contains %d unknown protobuf bytes; revision hashing requires explicit field support''
             [AInt (al_unknown_bytes a)])
      else Inr (sha256 (hash_payload a)))"

section \<open>What the hash depends on\<close>

text \<open>Same content: equal fields, the five lists up to order, the entity id ignored.\<close>

definition same_content :: "alert_summary \<Rightarrow> alert_summary \<Rightarrow> bool" where
  "same_content a b \<longleftrightarrow>
     al_deleted a = al_deleted b \<and> al_cause a = al_cause b \<and> al_effect a = al_effect b \<and>
     al_severity a = al_severity b \<and> mset (al_header a) = mset (al_header b) \<and>
     mset (al_description a) = mset (al_description b) \<and> mset (al_url a) = mset (al_url b) \<and>
     mset (al_periods a) = mset (al_periods b) \<and> mset (al_entities a) = mset (al_entities b) \<and>
     al_unknown_bytes a = al_unknown_bytes b \<and> al_unknown_hash a = al_unknown_hash b"

definition timestamp_valid :: "timestamp option \<Rightarrow> bool" where
  "timestamp_valid t = (case t of None \<Rightarrow> True | Some t \<Rightarrow> valid_utf8 (ts_utc t))"

definition translation_valid :: "translation \<Rightarrow> bool" where
  "translation_valid t = (valid_utf8 (tr_text t) \<and> valid_utf8 (tr_language t))"

definition entity_valid :: "informed_entity \<Rightarrow> bool" where
  "entity_valid e = list_all valid_utf8
     [ie_agency e, ie_route e, ie_stop e, ie_trip e, ie_trip_route e, ie_trip_start_time e,
      ie_trip_start_date e, ie_trip_schedule e]"

definition alert_valid :: "alert_summary \<Rightarrow> bool" where
  "alert_valid a \<longleftrightarrow>
     pred_option valid_utf8 (al_cause a) \<and> pred_option valid_utf8 (al_effect a) \<and>
     pred_option valid_utf8 (al_severity a) \<and> list_all translation_valid (al_header a) \<and>
     list_all translation_valid (al_description a) \<and> list_all translation_valid (al_url a) \<and>
     list_all (\<lambda>p. timestamp_valid (ap_start p) \<and> timestamp_valid (ap_end p)) (al_periods a) \<and>
     list_all entity_valid (al_entities a) \<and> valid_utf8 (al_unknown_hash a)"

lemma map_sort_key: "map k (sort_key k xs) = sort (map k xs)"
  by (metis mset_map mset_sort properties_for_sort sorted_sort_key)

lemma sort_map_mset: "mset xs = mset ys \<Longrightarrow> sort (map k xs) = sort (map k ys)"
  by (rule properties_for_sort) simp_all

lemma sort_key_inj_mset:
  assumes "mset xs = mset ys" and "inj k"
  shows "sort_key k xs = sort_key k ys"
proof -
  have "map k (sort_key k xs) = map k (sort_key k ys)"
    unfolding map_sort_key using assms(1) by (rule sort_map_mset)
  with assms(2) show ?thesis by (simp add: inj_map_eq_map)
qed

lemma sort_translations_mset: "mset xs = mset ys \<Longrightarrow> sort_translations xs = sort_translations ys"
  unfolding sort_translations_def by (rule sort_key_inj_mset) (auto intro!: injI)

lemma of_marshal: "map of_char (marshal v) = encode_json v"
  using encode_json_bytes [of _ v] by (simp add: marshal_def comp_def map_idI)

lemma marshal_eq_iff: "marshal v = marshal w \<longleftrightarrow> encode_json v = encode_json w"
  by (metis of_marshal marshal_def)

lemma sort_encoded_mset:
  assumes "mset xs = mset ys"
  shows "map (\<lambda>x. encode_json (f x)) (sort_encoded f xs) = map (\<lambda>x. encode_json (f x)) (sort_encoded f ys)"
proof -
  have "map (\<lambda>x. marshal (f x)) (sort_encoded f xs) = map (\<lambda>x. marshal (f x)) (sort_encoded f ys)"
    unfolding sort_encoded_def map_sort_key using assms by (rule sort_map_mset)
  then have "map (map (of_char :: char \<Rightarrow> nat)) (map (\<lambda>x. marshal (f x)) (sort_encoded f xs)) =
      map (map of_char) (map (\<lambda>x. marshal (f x)) (sort_encoded f ys))" by (rule arg_cong)
  then show ?thesis by (simp add: comp_def of_marshal)
qed

lemma encode_obj_cong:
  "list_all2 (\<lambda>(k, v) (l, u). k = l \<and> encode_json v = encode_json u) fs gs \<Longrightarrow>
   encode_json (JObj fs) = encode_json (JObj gs)"
proof -
  assume "list_all2 (\<lambda>(k, v) (l, u). k = l \<and> encode_json v = encode_json u) fs gs"
  then have "map (\<lambda>(k, v). json_string k @ 58 # encode_json v) fs = map (\<lambda>(k, v). json_string k @ 58 # encode_json v) gs"
    by (induction rule: list_all2_induct) auto
  then show ?thesis by (simp only: encode_json.simps)
qed

lemma encode_arr_cong:
  "map (\<lambda>x. encode_json (f x)) xs = map (\<lambda>x. encode_json (f x)) ys \<Longrightarrow>
   encode_json (JArr (map f xs)) = encode_json (JArr (map f ys))"
  by (simp add: comp_def)

text \<open>The payload does not depend on the order of the collections, nor on the entity id.\<close>

lemma hash_payload_order:
  assumes "same_content a b"
  shows "hash_payload a = hash_payload b"
proof -
  have periods: "map (\<lambda>x. encode_json (json_period x)) (sort_encoded json_period (al_periods a)) =
      map (\<lambda>x. encode_json (json_period x)) (sort_encoded json_period (al_periods b))"
    using assms by (intro sort_encoded_mset) (simp add: same_content_def)
  have entities: "map (\<lambda>x. encode_json (json_entity x)) (sort_encoded json_entity (al_entities a)) =
      map (\<lambda>x. encode_json (json_entity x)) (sort_encoded json_entity (al_entities b))"
    using assms by (intro sort_encoded_mset) (simp add: same_content_def)
  have texts: "sort_translations (al_header a) = sort_translations (al_header b)"
    "sort_translations (al_description a) = sort_translations (al_description b)"
    "sort_translations (al_url a) = sort_translations (al_url b)"
    using assms by (auto simp: same_content_def intro!: sort_translations_mset)
  show ?thesis
    unfolding hash_payload_def marshal_eq_iff json_canonical_def
  proof (rule encode_obj_cong)
  qed (use assms texts encode_arr_cong [OF periods] encode_arr_cong [OF entities] in
      \<open>simp add: same_content_def canonical_alert_def del: encode_json.simps\<close>)
qed

text \<open>And it determines the content: two valid alerts with one payload have the same content.\<close>

lemma omit_str_eq:
  "k \<notin> fst ` set xs \<Longrightarrow> k \<notin> fst ` set ys \<Longrightarrow>
   omit_str k s @ xs = omit_str k t @ ys \<longleftrightarrow> s = t \<and> xs = ys"
  by (auto simp: omit_str_def)

lemma omit_ptr_eq:
  "k \<notin> fst ` set xs \<Longrightarrow> k \<notin> fst ` set ys \<Longrightarrow> inj f \<Longrightarrow>
   omit_ptr k f v @ xs = omit_ptr k f w @ ys \<longleftrightarrow> v = w \<and> xs = ys"
  by (auto simp: omit_ptr_def inj_eq split: option.splits)

lemma omit_keys:
  "set (map fst (omit_str k s)) \<subseteq> {k}" "set (map fst (omit_ptr k f v)) \<subseteq> {k}"
  by (auto simp: omit_str_def omit_ptr_def split: option.splits)

lemma omit_key_iff:
  "k' \<in> fst ` set (omit_str k s) \<longleftrightarrow> k' = k \<and> s \<noteq> []"
  "k' \<in> fst ` set (omit_ptr k f v) \<longleftrightarrow> k' = k \<and> v \<noteq> None"
  by (auto simp: omit_str_def omit_ptr_def split: option.splits)

lemma json_translation_inj: "inj json_translation"
  by (rule injI) (auto simp: json_translation_def omit_str_def split: if_splits)

lemma json_timestamp_inj: "inj json_timestamp"
  by (rule injI) (auto simp: json_timestamp_def omit_str_def split: if_splits)

lemma json_period_inj: "inj json_period"
proof (rule injI)
  fix p q :: active_period
  assume "json_period p = json_period q"
  then have eq: "omit_ptr ''start'' json_timestamp (ap_start p) @ omit_ptr ''end'' json_timestamp (ap_end p) @ [] =
      omit_ptr ''start'' json_timestamp (ap_start q) @ omit_ptr ''end'' json_timestamp (ap_end q) @ []"
    by (simp add: json_period_def)
  then have "ap_start p = ap_start q" "ap_end p = ap_end q"
    using omit_ptr_eq [of "''end''" "[]" "[]" json_timestamp]
    by (simp_all add: omit_ptr_eq omit_key_iff json_timestamp_inj)
  then show "p = q" by simp
qed

lemma json_entity_inj: "inj json_entity"
proof (rule injI)
  fix p q :: informed_entity
  have i: "inj JInt" "inj (JInt \<circ> int)" by (auto intro!: injI)
  assume "json_entity p = json_entity q"
  then have "ie_agency p = ie_agency q \<and> ie_route p = ie_route q \<and> ie_route_type p = ie_route_type q \<and>
      ie_stop p = ie_stop q \<and> ie_direction p = ie_direction q \<and> ie_trip p = ie_trip q \<and>
      ie_trip_route p = ie_trip_route q \<and> ie_trip_start_time p = ie_trip_start_time q \<and>
      ie_trip_start_date p = ie_trip_start_date q \<and> ie_trip_direction p = ie_trip_direction q \<and>
      ie_trip_schedule p = ie_trip_schedule q"
    unfolding json_entity_def json.inject
    using omit_str_eq [of _ "[]" "[]"]
    by (simp add: omit_str_eq omit_ptr_eq omit_key_iff image_Un i)
  then show "p = q" by simp
qed

lemma omit_valid [simp]:
  "list_all (\<lambda>(k, v). valid_utf8 k \<and> json_valid v) (omit_str k s) \<longleftrightarrow> s = [] \<or> valid_utf8 k \<and> valid_utf8 s"
  "list_all (\<lambda>(k, v). valid_utf8 k \<and> json_valid v) (omit_ptr k f v) \<longleftrightarrow>
     (case v of None \<Rightarrow> True | Some x \<Rightarrow> valid_utf8 k \<and> json_valid (f x))"
  by (auto simp: omit_str_def omit_ptr_def split: option.splits)

lemma json_timestamp_valid: "timestamp_valid (Some t) \<Longrightarrow> json_valid (json_timestamp t)"
  by (simp add: json_timestamp_def timestamp_valid_def valid_ascii ord_def)

lemma json_parts_valid:
  "translation_valid t \<Longrightarrow> json_valid (json_translation t)"
  "timestamp_valid (ap_start p) \<Longrightarrow> timestamp_valid (ap_end p) \<Longrightarrow> json_valid (json_period p)"
  "entity_valid e \<Longrightarrow> json_valid (json_entity e)"
  using json_timestamp_valid
  by (auto simp: json_translation_def translation_valid_def json_period_def json_entity_def
      entity_valid_def valid_ascii ord_def split: option.splits)

lemma json_ptr_simps [simp]:
  "json_ptr JStr c = json_ptr JStr d \<longleftrightarrow> c = d"
  "json_valid (json_ptr JStr c) \<longleftrightarrow> pred_option valid_utf8 c"
  by (auto simp: json_ptr_def split: option.splits)

lemma json_canonical_valid: "alert_valid a \<Longrightarrow> json_valid (json_canonical (canonical_alert a))"
  using json_parts_valid
  by (simp add: json_canonical_def canonical_alert_def alert_valid_def list_all_iff valid_ascii ord_def
      sort_translations_def sort_encoded_def)

lemma sort_translations_iff: "sort_translations xs = sort_translations ys \<longleftrightarrow> mset xs = mset ys"
proof
  assume "sort_translations xs = sort_translations ys"
  then have "mset (sort_translations xs) = mset (sort_translations ys)" by simp
  then show "mset xs = mset ys" by (simp add: sort_translations_def)
qed (rule sort_translations_mset)

lemma sort_encoded_iff: "inj f \<Longrightarrow> sort_encoded f xs = sort_encoded f ys \<Longrightarrow> mset xs = mset ys"
  by (drule arg_cong [where f = mset]) (simp add: sort_encoded_def)

lemma hash_payload_content:
  assumes "alert_valid a" and "alert_valid b"
  shows "hash_payload a = hash_payload b \<longleftrightarrow> same_content a b"
proof
  assume "hash_payload a = hash_payload b"
  then have "json_canonical (canonical_alert a) = json_canonical (canonical_alert b)"
    unfolding hash_payload_def by (rule marshal_inj [OF json_canonical_valid json_canonical_valid, OF assms])
  then have eqs: "al_deleted a = al_deleted b" "al_cause a = al_cause b" "al_effect a = al_effect b"
    "al_severity a = al_severity b" "al_unknown_bytes a = al_unknown_bytes b"
    "al_unknown_hash a = al_unknown_hash b"
    "sort_translations (al_header a) = sort_translations (al_header b)"
    "sort_translations (al_description a) = sort_translations (al_description b)"
    "sort_translations (al_url a) = sort_translations (al_url b)"
    "sort_encoded json_period (al_periods a) = sort_encoded json_period (al_periods b)"
    "sort_encoded json_entity (al_entities a) = sort_encoded json_entity (al_entities b)"
    unfolding json_canonical_def canonical_alert_def
    by (simp_all add: inj_map_eq_map json_translation_inj json_period_inj json_entity_inj)
  note sort_encoded_iff [OF json_period_inj eqs(10)] sort_encoded_iff [OF json_entity_inj eqs(11)]
  with eqs show "same_content a b" by (simp add: same_content_def sort_translations_iff)
qed (rule hash_payload_order)

end
