(* ===== verification/Schema.thy ===== *)
theory Schema
  imports RealtimeHash GtfsParse "HOL-Library.Word"
begin

text \<open>
  The PostgreSQL schema of \<open>internal/database/migrations\<close> as data: one record per table row,
  one list per table, the identity sequences, and the constraints a statement is checked
  against. A \<open>TEXT\<close> column that may be NULL is a \<open>string option\<close>, a \<open>JSONB\<close> column is a
  \<open>json\<close> value, a \<open>TIMESTAMPTZ\<close> an instant of whole microseconds.
\<close>

type_synonym row_id = int

section \<open>Time\<close>

text \<open>pgx sends a \<open>time.Time\<close> as whole microseconds since the epoch, rounded down.\<close>

definition pg_time :: "instant \<Rightarrow> instant" where
  "pg_time t = t div 1000 * 1000"

lemma pg_time_mono: "s \<le> t \<Longrightarrow> pg_time s \<le> pg_time t"
  by (simp add: pg_time_def zdiv_mono1)

lemma pg_time_le: "pg_time t \<le> t"
  by (simp add: pg_time_def)

lemma pg_time_idem [simp]: "pg_time (pg_time t) = pg_time t"
  by (simp add: pg_time_def)

text \<open>
  \<open>time.Unix(int64(v), 0)\<close>: the seconds are kept since the year 1, in an int64 that wraps.
\<close>

definition unix_to_internal :: int where
  "unix_to_internal = 62135596800"

definition go_unix :: "nat \<Rightarrow> instant" where
  "go_unix v = (sint (word_of_nat v + word_of_int unix_to_internal :: 64 word) - unix_to_internal) * 1000000000"

definition max_int64 :: nat where
  "max_int64 = 9223372036854775807"

section \<open>Rows\<close>

datatype run_status = Running | Succeeded | Failed | Skipped

datatype archive_state = Legacy | Pending | Archived | ArchiveFailed

text \<open>The columns \<open>ingestion_runs\<close> and \<open>gtfs_imports\<close> have in common.\<close>

record attempt_row =
  at_id :: row_id
  at_status :: run_status
  at_source_url :: string
  at_started :: instant
  at_completed :: "instant option"
  at_retrieved :: "instant option"
  at_content_type :: "string option"
  at_sha256 :: "string option"
  at_error :: "string option"
  at_skip_reason :: "string option"
  at_skip_code :: "string option"
  at_archive :: archive_state
  at_archive_id :: "row_id option"
  at_archive_created :: "bool option"
  at_archive_error :: "string option"
  at_failure_stage :: "string option"
  at_failure_code :: "string option"
  at_public_error :: "string option"

record run_row = attempt_row +
  ir_feed_timestamp :: "instant option"
  ir_http_status :: "int option"
  ir_payload_bytes :: "nat option"
  ir_entity_count :: "nat option"
  ir_alert_count :: "nat option"
  ir_applied :: bool

record import_row = attempt_row +
  gi_requested :: "instant option"
  gi_modified :: "instant option"
  gi_archive_bytes :: "nat option"
  gi_etag :: "string option"
  gi_last_modified :: "string option"
  gi_summary :: "summary option"
  gi_current :: bool

record archive_row =
  ra_id :: row_id
  ra_backend :: string
  ra_key :: string
  ra_sha256 :: string
  ra_bytes :: int
  ra_stored :: instant
  ra_etag :: "string option"
  ra_version :: "string option"

text \<open>The content columns of a snapshot and of a revision.\<close>

record alert_columns =
  ac_deleted :: bool
  ac_cause :: "string option"
  ac_effect :: "string option"
  ac_severity :: "string option"
  ac_header :: json
  ac_description :: json
  ac_url :: json
  ac_unknown_bytes :: int
  ac_unknown_hash :: "string option"

record period_row =
  pr_owner :: row_id
  pr_position :: nat
  pr_starts :: "instant option"
  pr_ends :: "instant option"

record entity_row =
  er_owner :: row_id
  er_position :: nat
  er_agency :: "string option"
  er_route :: "string option"
  er_route_type :: "int option"
  er_stop :: "string option"
  er_direction :: "nat option"
  er_trip :: "string option"
  er_trip_route :: "string option"
  er_trip_start_time :: "string option"
  er_trip_start_date :: "string option"
  er_trip_direction :: "nat option"
  er_trip_schedule :: "string option"

record snapshot_row =
  sn_id :: row_id
  sn_run :: row_id
  sn_entity :: string
  sn_columns :: alert_columns

record alert_row =
  sa_id :: row_id
  sa_source_url :: string
  sa_entity :: string
  sa_first_seen :: instant
  sa_last_seen :: instant
  sa_first_run :: row_id
  sa_last_run :: row_id
  sa_present :: bool
  sa_closed :: "instant option"
  sa_current :: "row_id option"

record revision_row =
  rv_id :: row_id
  rv_alert :: row_id
  rv_number :: int
  rv_sha256 :: string
  rv_columns :: alert_columns
  rv_first_seen :: instant
  rv_last_seen :: instant
  rv_closed :: "instant option"
  rv_opened_run :: row_id
  rv_closed_run :: "row_id option"

text \<open>The rows of the network: the import they came from and the parsed record.\<close>

record stop_row_db =
  sd_import :: row_id
  sd_stop :: stop

record route_row_db =
  rd_import :: row_id
  rd_route :: route

section \<open>The database\<close>

text \<open>The next value of each identity column; a rollback does not give values back.\<close>

record sequences =
  sq_run :: row_id
  sq_import :: row_id
  sq_archive :: row_id
  sq_snapshot :: row_id
  sq_alert :: row_id
  sq_revision :: row_id

record db =
  db_runs :: "run_row list"
  db_imports :: "import_row list"
  db_archives :: "archive_row list"
  db_snapshots :: "snapshot_row list"
  db_snapshot_periods :: "period_row list"
  db_snapshot_entities :: "entity_row list"
  db_alerts :: "alert_row list"
  db_revisions :: "revision_row list"
  db_revision_periods :: "period_row list"
  db_revision_entities :: "entity_row list"
  db_routes :: "route_row_db list"
  db_stops :: "stop_row_db list"
  db_route_stations :: "route_station list"
  db_seq :: sequences

definition empty_db :: db where
  "empty_db = \<lparr>db_runs = [], db_imports = [], db_archives = [], db_snapshots = [],
     db_snapshot_periods = [], db_snapshot_entities = [], db_alerts = [], db_revisions = [],
     db_revision_periods = [], db_revision_entities = [], db_routes = [], db_stops = [],
     db_route_stations = [],
     db_seq = \<lparr>sq_run = 1, sq_import = 1, sq_archive = 1, sq_snapshot = 1, sq_alert = 1, sq_revision = 1\<rparr>\<rparr>"

text \<open>
  The CHECK constraints of migration 00006 on an attempt: the archive link, a terminal attempt
  is archived, a skip code exactly on a skipped attempt, and the known failure stages and skip
  codes.
\<close>

definition failure_stages :: "string list" where
  "failure_stages = [''fetch'', ''archive'', ''decode'', ''parse'', ''persist'', ''commit'', ''cleanup'']"

definition attempt_ok :: "('a) attempt_row_scheme \<Rightarrow> bool" where
  "attempt_ok r \<longleftrightarrow>
     (case at_archive r of
        Archived \<Rightarrow> at_archive_id r \<noteq> None \<and> at_archive_error r = None
      | ArchiveFailed \<Rightarrow> at_archive_id r = None \<and> at_archive_created r = None \<and> at_archive_error r \<noteq> None
      | _ \<Rightarrow> at_archive_id r = None \<and> at_archive_created r = None \<and> at_archive_error r = None) \<and>
     (at_status r \<in> {Succeeded, Skipped} \<longrightarrow> at_archive r \<in> {Archived, Legacy}) \<and>
     (at_status r = Skipped \<longleftrightarrow> at_skip_code r \<noteq> None) \<and>
     (case at_skip_code r of None \<Rightarrow> True | Some c \<Rightarrow> c \<in> {''duplicate'', ''stale''}) \<and>
     (case at_failure_stage r of None \<Rightarrow> True | Some s \<Rightarrow> s \<in> set failure_stages)"

text \<open>Not a constraint, but kept by every operation: an attempt that has ended says when.\<close>

definition ended_ok :: "('a) attempt_row_scheme \<Rightarrow> bool" where
  "ended_ok r \<longleftrightarrow> (at_status r \<noteq> Running \<longrightarrow> at_completed r \<noteq> None)"

definition check_violation :: go_error where
  "check_violation = Errorf ''new row violates check constraint'' []"

definition unique_violation :: go_error where
  "unique_violation = Errorf ''duplicate key value violates unique constraint'' []"

definition foreign_key_violation :: go_error where
  "foreign_key_violation = Errorf ''violates foreign key constraint'' []"

definition err_no_rows :: go_error where
  "err_no_rows = Errorf ''sql: no rows in result set'' []"

end
