(* ===== verification/Tx.thy ===== *)
theory Tx
  imports Schema
begin

text \<open>
  Transactions of \<open>database/sql\<close>: a computation on a session that runs statements, stops at
  the first error, and is then rolled back; and the commit, whose error leaves open whether the
  server applied the transaction.

  \<^item> Every statement can fail: the session carries the errors the connection will return,
    one slot per statement (\<open>None\<close>, or the end of the list, for a statement that is executed).
    A statement that is executed can still fail on a constraint.
  \<^item> A transaction sees the database it began on; transactions that change alerts or the
    network hold an advisory lock until they end, so they are serial. \<open>now()\<close> is the
    time the transaction began.
  \<^item> Sequences are not rolled back.
\<close>

section \<open>Statements\<close>

record session =
  se_db :: db
  se_faults :: "go_error option list"

type_synonym 'a tx = "session \<Rightarrow> 'a result \<times> session"

definition ret :: "'a \<Rightarrow> 'a tx" where
  "ret x s = (Inr x, s)"

definition fail_tx :: "go_error \<Rightarrow> 'a tx" where
  "fail_tx e s = (Inl e, s)"

definition bind_tx :: "'a tx \<Rightarrow> ('a \<Rightarrow> 'b tx) \<Rightarrow> 'b tx" where
  "bind_tx m k s = (case m s of (Inl e, s') \<Rightarrow> (Inl e, s') | (Inr x, s') \<Rightarrow> k x s')"

text \<open>
  A statement with the code's wrapping of its error; \<open>f\<close> is what the server does with it. A
  failed statement changes no table.
\<close>

definition stmt :: "(go_error \<Rightarrow> go_error) \<Rightarrow> (db \<Rightarrow> 'a result \<times> db) \<Rightarrow> 'a tx" where
  "stmt wrap f s =
     (let faults = tl (se_faults s)
      in case se_faults s of
           Some e # _ \<Rightarrow> (Inl (wrap e), s\<lparr>se_faults := faults\<rparr>)
         | _ \<Rightarrow> (case f (se_db s) of
                   (Inl e, db) \<Rightarrow> (Inl (wrap e), s\<lparr>se_db := (se_db s)\<lparr>db_seq := db_seq db\<rparr>, se_faults := faults\<rparr>)
                 | (Inr x, db) \<Rightarrow> (Inr x, s\<lparr>se_db := db, se_faults := faults\<rparr>)))"

text \<open>A query: a statement that reads; no row is \<open>sql.ErrNoRows\<close> where the code needs one.\<close>

definition query :: "(go_error \<Rightarrow> go_error) \<Rightarrow> (db \<Rightarrow> 'a) \<Rightarrow> 'a tx" where
  "query wrap q = stmt wrap (\<lambda>db. (Inr (q db), db))"

definition query_row :: "(go_error \<Rightarrow> go_error) \<Rightarrow> (db \<Rightarrow> 'a option) \<Rightarrow> 'a tx" where
  "query_row wrap q = stmt wrap (\<lambda>db. (case q db of None \<Rightarrow> Inl err_no_rows | Some x \<Rightarrow> Inr x, db))"

definition lift_res :: "'a result \<Rightarrow> 'a tx" where
  "lift_res r s = (r, s)"

text \<open>A statement that cannot fail on the server.\<close>

definition update :: "(go_error \<Rightarrow> go_error) \<Rightarrow> (db \<Rightarrow> db) \<Rightarrow> unit tx" where
  "update wrap f = stmt wrap (\<lambda>db. (Inr (), f db))"

fun each_tx :: "('a \<Rightarrow> unit tx) \<Rightarrow> 'a list \<Rightarrow> unit tx" where
  "each_tx f [] = ret ()"
| "each_tx f (x # xs) = bind_tx (f x) (\<lambda>_. each_tx f xs)"

text \<open>\<open>requireOneRow\<close>\<close>

definition require_one_row :: "string \<Rightarrow> nat \<Rightarrow> unit tx" where
  "require_one_row operation rows =
     (if rows \<noteq> 1
      then fail_tx (Errorf ''%s: expected one running ingestion run, affected %d'' [AStr operation, AInt (int rows)])
      else ret ())"

subsection \<open>Inversion\<close>

lemma ret_Inr [ok_rules]: "ret x s = (Inr y, s') \<longleftrightarrow> y = x \<and> s' = s"
  by (auto simp: ret_def)

lemma fail_tx_Inr [ok_rules]: "fail_tx e s = (Inr y, s') \<longleftrightarrow> False"
  by (simp add: fail_tx_def)

lemma lift_res_Inr [ok_rules]: "lift_res r s = (Inr y, s') \<longleftrightarrow> r = Inr y \<and> s' = s"
  by (auto simp: lift_res_def)

lemma bind_tx_Inr [ok_rules]:
  "bind_tx m k s = (Inr y, s') \<longleftrightarrow> (\<exists>x s1. m s = (Inr x, s1) \<and> k x s1 = (Inr y, s'))"
  by (auto simp: bind_tx_def split: prod.splits sum.splits)

lemma stmt_Inr:
  "stmt wrap f s = (Inr y, s') \<Longrightarrow> f (se_db s) = (Inr y, se_db s')"
  by (auto simp: stmt_def Let_def split: list.splits option.splits prod.splits sum.splits)

lemma query_Inr: "query wrap q s = (Inr y, s') \<Longrightarrow> y = q (se_db s) \<and> se_db s' = se_db s"
  unfolding query_def by (drule stmt_Inr) auto

lemma query_row_Inr: "query_row wrap q s = (Inr y, s') \<Longrightarrow> q (se_db s) = Some y \<and> se_db s' = se_db s"
  unfolding query_row_def by (drule stmt_Inr) (auto split: option.splits)

lemma update_Inr: "update wrap f s = (Inr y, s') \<Longrightarrow> se_db s' = f (se_db s)"
  unfolding update_def by (drule stmt_Inr) auto

lemma require_one_row_Inr [ok_rules]:
  "require_one_row op n s = (Inr y, s') \<longleftrightarrow> n = 1 \<and> s' = s"
  by (auto simp: require_one_row_def ok_rules)

text \<open>The invariant rule of the loop: what every successful step keeps holds at the end.\<close>

lemma each_tx_invariant:
  assumes "each_tx f xs s = (Inr y, s')" and "P (se_db s)"
    and "\<And>x s s'. x \<in> set xs \<Longrightarrow> P (se_db s) \<Longrightarrow> f x s = (Inr (), s') \<Longrightarrow> P (se_db s')"
  shows "P (se_db s')"
  using assms by (induction xs arbitrary: s) (auto simp: ok_rules)

text \<open>A run without faults: how a computation is shown to succeed.\<close>

lemma stmt_quiet:
  "se_faults s = [] \<Longrightarrow> f (se_db s) = (Inr x, db) \<Longrightarrow> stmt wrap f s = (Inr x, s\<lparr>se_db := db\<rparr>)"
  by (simp add: stmt_def)

section \<open>Transactions\<close>

text \<open>
  What \<open>Commit\<close> returned. With an error, \<open>applied\<close> says whether the server committed
  nevertheless (the acknowledgement was lost). A single statement outside a transaction has
  the same three outcomes.
\<close>

datatype outcome = Done | Lost go_error bool

record tx_io =
  io_begin :: "go_error option"
  io_faults :: "go_error option list"
  io_commit :: outcome
  io_status :: "go_error option"
  io_now :: instant

definition quiet_io :: "instant \<Rightarrow> tx_io" where
  "quiet_io now = \<lparr>io_begin = None, io_faults = [], io_commit = Done, io_status = None, io_now = now\<rparr>"

text \<open>Rolled back: the tables as they were, the sequences as they are.\<close>

definition rollback :: "db \<Rightarrow> db \<Rightarrow> db" where
  "rollback db0 db = db0\<lparr>db_seq := db_seq db\<rparr>"

text \<open>
  \<open>tx.Commit()\<close> after the body: constraints that are deferred are checked first. The pair is
  the error and the state of the server.
\<close>

definition commit_tx :: "tx_io \<Rightarrow> (db \<Rightarrow> bool) \<Rightarrow> db \<Rightarrow> db \<Rightarrow> go_error option \<times> db" where
  "commit_tx io deferred_ok db0 db =
     (if \<not> deferred_ok db then (Some foreign_key_violation, rollback db0 db)
      else (case io_commit io of
              Done \<Rightarrow> (None, db)
            | Lost e applied \<Rightarrow> (Some e, if applied then db else rollback db0 db)))"

text \<open>A statement outside a transaction.\<close>

definition auto_commit :: "tx_io \<Rightarrow> (go_error \<Rightarrow> go_error) \<Rightarrow> (db \<Rightarrow> 'a result \<times> db) \<Rightarrow> db \<Rightarrow> 'a result \<times> db" where
  "auto_commit io wrap f db =
     (case f db of
        (Inl e, db') \<Rightarrow> (Inl (wrap e), rollback db db')
      | (Inr x, db') \<Rightarrow>
          (case io_commit io of
             Done \<Rightarrow> (Inr x, db')
           | Lost e applied \<Rightarrow> (Inl (wrap e), if applied then db' else rollback db db')))"

lemma rollback_tables [simp]:
  "db_runs (rollback db0 db) = db_runs db0" "db_imports (rollback db0 db) = db_imports db0"
  "db_archives (rollback db0 db) = db_archives db0" "db_snapshots (rollback db0 db) = db_snapshots db0"
  "db_snapshot_periods (rollback db0 db) = db_snapshot_periods db0"
  "db_snapshot_entities (rollback db0 db) = db_snapshot_entities db0"
  "db_alerts (rollback db0 db) = db_alerts db0" "db_revisions (rollback db0 db) = db_revisions db0"
  "db_revision_periods (rollback db0 db) = db_revision_periods db0"
  "db_revision_entities (rollback db0 db) = db_revision_entities db0"
  "db_routes (rollback db0 db) = db_routes db0" "db_stops (rollback db0 db) = db_stops db0"
  "db_route_stations (rollback db0 db) = db_route_stations db0"
  "db_seq (rollback db0 db) = db_seq db"
  by (simp_all add: rollback_def)

text \<open>The tables of two states agree.\<close>

definition same_tables :: "db \<Rightarrow> db \<Rightarrow> bool" where
  "same_tables db db' = (db'\<lparr>db_seq := db_seq db\<rparr> = db)"

lemma same_tables_rollback [simp]: "same_tables db0 (rollback db0 db)"
  by (simp add: same_tables_def rollback_def)

end
