(* ===== verification/AlertRepo.thy ===== *)
theory AlertRepo
  imports Tx
begin

text \<open>
  \<open>AlertRepository\<close> of \<open>internal/database/alerts.go\<close>: the runs of the alert worker, the
  snapshot of every feed and the reconciliation of alerts into revisions, statement by
  statement. Helpers of \<open>internal/database/database.go\<close> are here too.

  Parameters, in \<open>repo_env\<close>: SHA-256 in hexadecimal and the text of an error.
\<close>

record repo_env =
  sha256_hex :: "string \<Rightarrow> string"
  error_text :: "go_error \<Rightarrow> string"

section \<open>Helpers\<close>

definition skip_code :: "string \<Rightarrow> string" where
  "skip_code reason =
     (if reason = ''byte-identical to the latest applied payload'' \<or>
         reason = ''content hash matches the currently installed network''
      then ''duplicate'' else ''stale'')"

definition truncate_runes :: "string \<Rightarrow> nat \<Rightarrow> string" where
  "truncate_runes value limit =
     (if length (runes value) > limit then string_of_runes (take limit (runes value)) else value)"

definition max_stored_error_runes :: nat where "max_stored_error_runes = 8192"
definition max_public_error_runes :: nat where "max_public_error_runes = 512"

text \<open>\<open>observability.Failure\<close>\<close>

record failure =
  fl_stage :: string
  fl_code :: string
  fl_public :: string
  fl_err :: "go_error option"

definition failure_text :: "repo_env \<Rightarrow> failure \<Rightarrow> string" where
  "failure_text env f = (case fl_err f of Some e \<Rightarrow> error_text env e | None \<Rightarrow> fl_public f)"

definition failure_unwrap :: "failure \<Rightarrow> go_error option" where
  "failure_unwrap f = fl_err f"

text \<open>The conversion \<open>string([]rune(s))\<close> of the stored error, cut to the limit.\<close>

definition stored_message :: "repo_env \<Rightarrow> failure \<Rightarrow> string" where
  "stored_message env f = string_of_runes (take max_stored_error_runes (runes (failure_text env f)))"

definition timestamp_value :: "timestamp option \<Rightarrow> instant option result" where
  "timestamp_value value =
     (case value of
        None \<Rightarrow> Inr None
      | Some t \<Rightarrow>
          if ts_unix t > max_int64
          then Inl (Errorf ''Unix timestamp %d exceeds int64'' [AInt (int (ts_unix t))])
          else Inr (Some (go_unix (ts_unix t))))"

definition observation_time :: "timestamp option \<Rightarrow> instant \<Rightarrow> instant result" where
  "observation_time value fallback =
     (case value of
        None \<Rightarrow> Inr fallback
      | Some t \<Rightarrow>
          if ts_unix t > max_int64
          then Inl (Errorf ''feed Unix timestamp %d exceeds int64'' [AInt (int (ts_unix t))])
          else Inr (go_unix (ts_unix t)))"

record fetch_result =
  fr_body :: string
  fr_status :: int
  fr_content_type :: string
  fr_retrieved :: instant

section \<open>Runs\<close>

definition insert_run :: "string \<Rightarrow> instant \<Rightarrow> db \<Rightarrow> row_id result \<times> db" where
  "insert_run source_url now db =
     (let id = sq_run (db_seq db)
      in (Inr id, db\<lparr>db_runs := db_runs db @
            [\<lparr>at_id = id, at_status = Running, at_source_url = source_url, at_started = now,
              at_completed = None, at_retrieved = None, at_content_type = None, at_sha256 = None,
              at_error = None, at_skip_reason = None, at_skip_code = None, at_archive = Pending,
              at_archive_id = None, at_archive_created = None, at_archive_error = None,
              at_failure_stage = None, at_failure_code = None, at_public_error = None,
              ir_feed_timestamp = None, ir_http_status = None, ir_payload_bytes = None,
              ir_entity_count = None, ir_alert_count = None, ir_applied = False\<rparr>],
            db_seq := (db_seq db)\<lparr>sq_run := id + 1\<rparr>\<rparr>))"

definition start_alert_run :: "tx_io \<Rightarrow> string \<Rightarrow> db \<Rightarrow> row_id result \<times> db" where
  "start_alert_run io source_url db =
     auto_commit io (Wrapf ''start service-alert ingestion run: %w'' []) (insert_run source_url (io_now io)) db"

text \<open>An \<open>UPDATE ingestion_runs\<close> with the table's CHECK constraints; the rows affected.\<close>

definition update_runs :: "(run_row \<Rightarrow> bool) \<Rightarrow> (run_row \<Rightarrow> run_row) \<Rightarrow> db \<Rightarrow> nat result \<times> db" where
  "update_runs p f db =
     (let rows = upd_where p f (db_runs db)
      in if list_all attempt_ok rows then (Inr (affected p (db_runs db)), db\<lparr>db_runs := rows\<rparr>)
         else (Inl check_violation, db))"

definition fail_run_row ::
    "repo_env \<Rightarrow> fetch_result option \<Rightarrow> feed_summary option \<Rightarrow> failure \<Rightarrow> instant \<Rightarrow> run_row \<Rightarrow> run_row" where
  "fail_run_row env fetch summary f now r =
     r\<lparr>at_status := Failed, at_completed := Some now, at_error := Some (stored_message env f),
       at_retrieved := map_option (\<lambda>x. pg_time (fr_retrieved x)) fetch,
       ir_http_status := map_option fr_status fetch,
       at_content_type := (case fetch of None \<Rightarrow> None | Some x \<Rightarrow> nullable_string (fr_content_type x)),
       ir_payload_bytes := map_option (\<lambda>x. length (fr_body x)) fetch,
       at_sha256 := map_option (\<lambda>x. sha256_hex env (fr_body x)) fetch,
       ir_entity_count := map_option fe_entity_count summary,
       ir_alert_count := map_option fe_alert_count summary,
       at_failure_stage := Some (fl_stage f), at_failure_code := nullable_string (fl_code f),
       at_public_error := nullable_string (truncate_runes (fl_public f) max_public_error_runes),
       at_archive := (if at_archive r = Archived then Archived else ArchiveFailed),
       at_archive_error := (if at_archive r = Archived then None else Some (stored_message env f))\<rparr>"

definition fail_alert_run_with_failure ::
    "repo_env \<Rightarrow> tx_io \<Rightarrow> row_id \<Rightarrow> fetch_result option \<Rightarrow> feed_summary option \<Rightarrow> failure \<Rightarrow> db \<Rightarrow> unit result \<times> db" where
  "fail_alert_run_with_failure env io run_id fetch summary f db =
     (case auto_commit io (Wrapf ''mark service-alert ingestion run %d failed: %w'' [AInt run_id])
         (update_runs (\<lambda>r. at_id r = run_id \<and> at_status r = Running)
            (fail_run_row env fetch summary f (io_now io))) db of
        (Inl e, db') \<Rightarrow> (Inl e, db')
      | (Inr rows, db') \<Rightarrow>
          (fst (require_one_row ''mark service-alert ingestion run failed'' rows
              \<lparr>se_db = db', se_faults = []\<rparr>), db'))"

definition fail_alert_run ::
    "repo_env \<Rightarrow> tx_io \<Rightarrow> row_id \<Rightarrow> fetch_result option \<Rightarrow> feed_summary option \<Rightarrow> go_error \<Rightarrow> db \<Rightarrow> unit result \<times> db" where
  "fail_alert_run env io run_id fetch summary run_error db =
     fail_alert_run_with_failure env io run_id fetch summary
       \<lparr>fl_stage = (if fetch = None then ''fetch'' else ''persist''), fl_code = ''ingestion_failed'',
         fl_public = ''Service-alert ingestion failed'', fl_err = Some run_error\<rparr> db"

section \<open>The latest applied feed\<close>

record applied_feed =
  af_sha256 :: string
  af_observed :: instant
  af_retrieved :: instant

definition ingestion_run_source_url :: "row_id \<Rightarrow> string tx" where
  "ingestion_run_source_url run_id =
     query_row (Wrapf ''load source URL for ingestion run %d: %w'' [AInt run_id])
       (\<lambda>db. map_option at_source_url
          (find (\<lambda>r. at_id r = run_id \<and> at_status r = Running \<and> at_archive r = Archived) (db_runs db)))"

text \<open>
  \<open>COALESCE(feed_timestamp, retrieved_at)\<close>, and the key of the query's ordering: NULL is the
  greatest value, as PostgreSQL sorts it.
\<close>

definition run_observed :: "run_row \<Rightarrow> instant option" where
  "run_observed r = (case ir_feed_timestamp r of Some t \<Rightarrow> Some t | None \<Rightarrow> at_retrieved r)"

definition null_key :: "instant option \<Rightarrow> nat \<times> instant" where
  "null_key t = (case t of None \<Rightarrow> (1, 0) | Some t \<Rightarrow> (0, t))"

definition applied_key :: "run_row \<Rightarrow> (nat \<times> instant) \<times> (nat \<times> instant) \<times> row_id" where
  "applied_key r = (null_key (run_observed r), null_key (at_retrieved r), at_id r)"

text \<open>\<open>ORDER BY .. DESC LIMIT 1\<close>: the row of greatest key.\<close>

fun max_row :: "('r \<Rightarrow> 'k::linorder) \<Rightarrow> 'r list \<Rightarrow> 'r option" where
  "max_row k [] = None"
| "max_row k (r # rs) =
     (case max_row k rs of None \<Rightarrow> Some r | Some x \<Rightarrow> if k x \<le> k r then Some r else Some x)"

definition applied_runs :: "row_id \<Rightarrow> string \<Rightarrow> db \<Rightarrow> run_row list" where
  "applied_runs run_id source_url db =
     filter (\<lambda>r. at_id r \<noteq> run_id \<and> at_source_url r = source_url \<and>
       at_status r = Succeeded \<and> ir_applied r) (db_runs db)"

definition latest_applied_feed :: "row_id \<Rightarrow> string \<Rightarrow> applied_feed option tx" where
  "latest_applied_feed run_id source_url =
     stmt (Wrapf ''load latest applied service-alert feed: %w'' [])
       (\<lambda>db. (case max_row applied_key (applied_runs run_id source_url db) of
                None \<Rightarrow> Inr None
              | Some r \<Rightarrow>
                  (case (at_sha256 r, run_observed r, at_retrieved r) of
                     (Some h, Some o', Some t) \<Rightarrow>
                       Inr (Some \<lparr>af_sha256 = h, af_observed = o', af_retrieved = t\<rparr>)
                   | _ \<Rightarrow> Inl (Errorf ''sql: Scan error: converting NULL to %s is unsupported'' [])), db))"

section \<open>Skipped runs and the commit\<close>

definition feed_columns ::
    "instant \<Rightarrow> fetch_result \<Rightarrow> feed_summary \<Rightarrow> instant option \<Rightarrow> string \<Rightarrow> run_row \<Rightarrow> run_row" where
  "feed_columns now result summary feed_timestamp content_hash r =
     r\<lparr>at_completed := Some now, at_retrieved := Some (pg_time (fr_retrieved result)),
       ir_feed_timestamp := map_option pg_time feed_timestamp, ir_http_status := Some (fr_status result),
       at_content_type := nullable_string (fr_content_type result),
       ir_payload_bytes := Some (length (fr_body result)), at_sha256 := Some content_hash,
       ir_entity_count := Some (fe_entity_count summary), ir_alert_count := Some (fe_alert_count summary)\<rparr>"

definition running_archived :: "row_id \<Rightarrow> run_row \<Rightarrow> bool" where
  "running_archived run_id r = (at_id r = run_id \<and> at_status r = Running \<and> at_archive r = Archived)"

definition skipped_row ::
    "instant \<Rightarrow> fetch_result \<Rightarrow> feed_summary \<Rightarrow> instant option \<Rightarrow> string \<Rightarrow> string \<Rightarrow> run_row \<Rightarrow> run_row" where
  "skipped_row now result summary feed_timestamp content_hash reason r =
     (feed_columns now result summary feed_timestamp content_hash r)
       \<lparr>at_status := Skipped, at_skip_reason := Some reason, at_skip_code := Some (skip_code reason),
        at_error := None\<rparr>"

definition update_skipped_run ::
    "instant \<Rightarrow> row_id \<Rightarrow> fetch_result \<Rightarrow> feed_summary \<Rightarrow> instant option \<Rightarrow> string \<Rightarrow> string \<Rightarrow> unit tx" where
  "update_skipped_run now run_id result summary feed_timestamp content_hash reason =
     bind_tx (stmt (Wrapf ''skip duplicate service-alert ingestion run %d: %w'' [AInt run_id])
       (update_runs (running_archived run_id)
          (skipped_row now result summary feed_timestamp content_hash reason)))
     (require_one_row ''skip duplicate service-alert ingestion run'')"

definition run_status_of :: "row_id \<Rightarrow> db \<Rightarrow> run_status option" where
  "run_status_of run_id db = map_option at_status (find (\<lambda>r. at_id r = run_id) (db_runs db))"

text \<open>
  \<open>runStatus\<close>: the status of the run outside the transaction; the query fails with
  \<open>io_status\<close>, or without a row.
\<close>

definition run_status_query :: "tx_io \<Rightarrow> row_id \<Rightarrow> db \<Rightarrow> run_status result" where
  "run_status_query io run_id db =
     (case io_status io of
        Some e \<Rightarrow> Inl (Wrapf ''resolve commit outcome for ingestion run %d: %w'' [AInt run_id] e)
      | None \<Rightarrow>
          (case run_status_of run_id db of
             None \<Rightarrow> Inl (Wrapf ''resolve commit outcome for ingestion run %d: %w'' [AInt run_id] err_no_rows)
           | Some status \<Rightarrow> Inr status))"

definition commit_run :: "tx_io \<Rightarrow> row_id \<Rightarrow> run_status \<Rightarrow> db \<Rightarrow> db \<Rightarrow> unit result \<times> db" where
  "commit_run io run_id expected db0 db =
     (case commit_tx io (\<lambda>_. True) db0 db of
        (None, db') \<Rightarrow> (Inr (), db')
      | (Some e, db') \<Rightarrow>
          (case run_status_query io run_id db' of
             Inl se \<Rightarrow> (Inl (CommitOutcomeError e se), db')
           | Inr status \<Rightarrow>
               if status = expected then (Inr (), db')
               else (Inl (Wrapf ''commit service-alert snapshot transaction: %w'' [] e), db')))"

section \<open>Snapshots\<close>

definition marshal_translations :: "translation list \<Rightarrow> json" where
  "marshal_translations value = JArr (map json_translation value)"

definition columns_of :: "alert_summary \<Rightarrow> alert_columns" where
  "columns_of a = \<lparr>ac_deleted = al_deleted a, ac_cause = al_cause a, ac_effect = al_effect a,
     ac_severity = al_severity a, ac_header = marshal_translations (al_header a),
     ac_description = marshal_translations (al_description a), ac_url = marshal_translations (al_url a),
     ac_unknown_bytes = al_unknown_bytes a, ac_unknown_hash = nullable_string (al_unknown_hash a)\<rparr>"

definition entity_columns :: "row_id \<Rightarrow> nat \<Rightarrow> informed_entity \<Rightarrow> entity_row" where
  "entity_columns owner position e = \<lparr>er_owner = owner, er_position = position,
     er_agency = nullable_string (ie_agency e), er_route = nullable_string (ie_route e),
     er_route_type = ie_route_type e, er_stop = nullable_string (ie_stop e),
     er_direction = ie_direction e, er_trip = nullable_string (ie_trip e),
     er_trip_route = nullable_string (ie_trip_route e),
     er_trip_start_time = nullable_string (ie_trip_start_time e),
     er_trip_start_date = nullable_string (ie_trip_start_date e),
     er_trip_direction = ie_trip_direction e, er_trip_schedule = nullable_string (ie_trip_schedule e)\<rparr>"

text \<open>\<open>INSERT INTO service_alert_snapshots .. RETURNING id\<close> with the table's constraints.\<close>

definition insert_snapshot :: "row_id \<Rightarrow> alert_summary \<Rightarrow> db \<Rightarrow> row_id result \<times> db" where
  "insert_snapshot run_id alert db =
     (let id = sq_snapshot (db_seq db); db' = db\<lparr>db_seq := (db_seq db)\<lparr>sq_snapshot := id + 1\<rparr>\<rparr>
      in if al_unknown_bytes alert < 0 then (Inl check_violation, db')
         else if \<exists>r \<in> set (db_snapshots db). sn_run r = run_id \<and> sn_entity r = al_entity_id alert
         then (Inl unique_violation, db')
         else (Inr id, db'\<lparr>db_snapshots := db_snapshots db @
            [\<lparr>sn_id = id, sn_run = run_id, sn_entity = al_entity_id alert, sn_columns = columns_of alert\<rparr>]\<rparr>))"

text \<open>
  The loop over the active periods: both bounds are converted, then the row is inserted. The
  three functions wrap the errors, by position; \<open>add\<close> is the insertion into the child table.
\<close>

definition insert_period ::
    "(nat \<Rightarrow> go_error \<Rightarrow> go_error) \<Rightarrow> (nat \<Rightarrow> go_error \<Rightarrow> go_error) \<Rightarrow> (nat \<Rightarrow> go_error \<Rightarrow> go_error) \<Rightarrow>
     (period_row \<Rightarrow> db \<Rightarrow> db) \<Rightarrow> row_id \<Rightarrow> nat \<times> active_period \<Rightarrow> unit tx" where
  "insert_period wrap_start wrap_end wrap_insert add owner = (\<lambda>(position, period).
     case timestamp_value (ap_start period) of
       Inl e \<Rightarrow> fail_tx (wrap_start position e)
     | Inr starts \<Rightarrow>
     (case timestamp_value (ap_end period) of
       Inl e \<Rightarrow> fail_tx (wrap_end position e)
     | Inr ends \<Rightarrow>
         update (wrap_insert position)
           (add \<lparr>pr_owner = owner, pr_position = position, pr_starts = map_option pg_time starts,
              pr_ends = map_option pg_time ends\<rparr>)))"

definition add_snapshot_period :: "period_row \<Rightarrow> db \<Rightarrow> db" where
  "add_snapshot_period r db = db\<lparr>db_snapshot_periods := db_snapshot_periods db @ [r]\<rparr>"

definition add_snapshot_entity :: "entity_row \<Rightarrow> db \<Rightarrow> db" where
  "add_snapshot_entity r db = db\<lparr>db_snapshot_entities := db_snapshot_entities db @ [r]\<rparr>"

definition insert_alert_snapshot :: "row_id \<Rightarrow> alert_summary \<Rightarrow> row_id tx" where
  "insert_alert_snapshot run_id alert =
     (let entity = AStr (al_entity_id alert) in
      bind_tx (stmt (Wrapf ''insert service-alert snapshot %q: %w'' [entity]) (insert_snapshot run_id alert)) (\<lambda>snapshot_id.
      bind_tx (each_tx
         (insert_period
            (\<lambda>position. Wrapf ''convert start of active period %d for alert %q: %w'' [AInt (int position), entity])
            (\<lambda>position. Wrapf ''convert end of active period %d for alert %q: %w'' [AInt (int position), entity])
            (\<lambda>position. Wrapf ''insert active period %d for alert %q: %w'' [AInt (int position), entity])
            add_snapshot_period snapshot_id)
         (enumerate 0 (al_periods alert))) (\<lambda>_.
      bind_tx (each_tx
         (\<lambda>(position, e). update (Wrapf ''insert informed entity %d for alert %q: %w'' [AInt (int position), entity])
            (add_snapshot_entity (entity_columns snapshot_id position e)))
         (enumerate 0 (al_entities alert))) (\<lambda>_.
      ret snapshot_id))))"

section \<open>Revisions\<close>

definition insert_revision ::
    "row_id \<Rightarrow> int \<Rightarrow> row_id \<Rightarrow> instant \<Rightarrow> string \<Rightarrow> alert_summary \<Rightarrow> db \<Rightarrow> row_id result \<times> db" where
  "insert_revision alert_id number run_id observed_at content_hash alert db =
     (let id = sq_revision (db_seq db); db' = db\<lparr>db_seq := (db_seq db)\<lparr>sq_revision := id + 1\<rparr>\<rparr>
      in if al_unknown_bytes alert < 0 \<or> number \<le> 0 then (Inl check_violation, db')
         else if \<exists>r \<in> set (db_revisions db). rv_alert r = alert_id \<and> rv_number r = number
         then (Inl unique_violation, db')
         else (Inr id, db'\<lparr>db_revisions := db_revisions db @
            [\<lparr>rv_id = id, rv_alert = alert_id, rv_number = number, rv_sha256 = content_hash,
              rv_columns = columns_of alert, rv_first_seen = pg_time observed_at,
              rv_last_seen = pg_time observed_at, rv_closed = None, rv_opened_run = run_id,
              rv_closed_run = None\<rparr>]\<rparr>))"

definition add_revision_period :: "period_row \<Rightarrow> db \<Rightarrow> db" where
  "add_revision_period r db = db\<lparr>db_revision_periods := db_revision_periods db @ [r]\<rparr>"

definition add_revision_entity :: "entity_row \<Rightarrow> db \<Rightarrow> db" where
  "add_revision_entity r db = db\<lparr>db_revision_entities := db_revision_entities db @ [r]\<rparr>"

definition insert_alert_revision ::
    "row_id \<Rightarrow> int \<Rightarrow> row_id \<Rightarrow> instant \<Rightarrow> string \<Rightarrow> alert_summary \<Rightarrow> row_id tx" where
  "insert_alert_revision alert_id number run_id observed_at content_hash alert =
     (let entity = AStr (al_entity_id alert) in
      bind_tx (stmt (Wrapf ''insert revision %d for alert %q: %w'' [AInt number, entity])
         (insert_revision alert_id number run_id observed_at content_hash alert)) (\<lambda>revision_id.
      bind_tx (each_tx
         (insert_period
            (\<lambda>_. Wrapf ''convert revision active-period start for alert %q: %w'' [entity])
            (\<lambda>_. Wrapf ''convert revision active-period end for alert %q: %w'' [entity])
            (\<lambda>_. Wrapf ''insert revision active period for alert %q: %w'' [entity])
            add_revision_period revision_id)
         (enumerate 0 (al_periods alert))) (\<lambda>_.
      bind_tx (each_tx
         (\<lambda>(position, e). update (Wrapf ''insert revision informed entity for alert %q: %w'' [entity])
            (add_revision_entity (entity_columns revision_id position e)))
         (enumerate 0 (al_entities alert))) (\<lambda>_.
      ret revision_id))))"

section \<open>Reconciliation\<close>

definition find_alert :: "string \<Rightarrow> string \<Rightarrow> db \<Rightarrow> alert_row option" where
  "find_alert source_url entity_id db =
     find (\<lambda>a. sa_source_url a = source_url \<and> sa_entity a = entity_id) (db_alerts db)"

definition insert_alert :: "string \<Rightarrow> string \<Rightarrow> instant \<Rightarrow> row_id \<Rightarrow> db \<Rightarrow> row_id result \<times> db" where
  "insert_alert source_url entity_id observed_at run_id db =
     (let id = sq_alert (db_seq db); db' = db\<lparr>db_seq := (db_seq db)\<lparr>sq_alert := id + 1\<rparr>\<rparr>
      in if entity_id = [] then (Inl check_violation, db')
         else if find_alert source_url entity_id db \<noteq> None then (Inl unique_violation, db')
         else (Inr id, db'\<lparr>db_alerts := db_alerts db @
            [\<lparr>sa_id = id, sa_source_url = source_url, sa_entity = entity_id,
              sa_first_seen = pg_time observed_at, sa_last_seen = pg_time observed_at,
              sa_first_run = run_id, sa_last_run = run_id, sa_present = True, sa_closed = None,
              sa_current = None\<rparr>]\<rparr>))"

definition update_alerts :: "(alert_row \<Rightarrow> bool) \<Rightarrow> (alert_row \<Rightarrow> alert_row) \<Rightarrow> db \<Rightarrow> db" where
  "update_alerts p f db = db\<lparr>db_alerts := upd_where p f (db_alerts db)\<rparr>"

definition update_revisions :: "(revision_row \<Rightarrow> bool) \<Rightarrow> (revision_row \<Rightarrow> revision_row) \<Rightarrow> db \<Rightarrow> db" where
  "update_revisions p f db = db\<lparr>db_revisions := upd_where p f (db_revisions db)\<rparr>"

text \<open>\<open>SELECT COALESCE(max(revision_number), 0) + 1\<close>\<close>

definition next_revision :: "row_id \<Rightarrow> db \<Rightarrow> int" where
  "next_revision alert_id db =
     (case map rv_number (filter (\<lambda>r. rv_alert r = alert_id) (db_revisions db)) of
        [] \<Rightarrow> 1
      | n # ns \<Rightarrow> foldl max n ns + 1)"

definition revision_hash :: "row_id \<Rightarrow> db \<Rightarrow> string option" where
  "revision_hash revision_id db =
     map_option rv_sha256 (find (\<lambda>r. rv_id r = revision_id) (db_revisions db))"

text \<open>The three ways \<open>reconcileAlert\<close> ends: a new identity, an unchanged revision, a new revision.\<close>

definition new_identity ::
    "string \<Rightarrow> instant \<Rightarrow> row_id \<Rightarrow> string \<Rightarrow> alert_summary \<Rightarrow> unit tx" where
  "new_identity source_url observed_at run_id content_hash alert =
     (let entity = AStr (al_entity_id alert) in
      bind_tx (stmt (Wrapf ''insert service alert identity %q: %w'' [entity])
         (insert_alert source_url (al_entity_id alert) observed_at run_id)) (\<lambda>alert_id.
      bind_tx (insert_alert_revision alert_id 1 run_id observed_at content_hash alert) (\<lambda>revision_id.
      update (Wrapf ''set initial revision for alert %q: %w'' [entity])
        (update_alerts (\<lambda>a. sa_id a = alert_id) (\<lambda>a. a\<lparr>sa_current := Some revision_id\<rparr>)))))"

definition unchanged_revision :: "row_id \<Rightarrow> row_id \<Rightarrow> instant \<Rightarrow> row_id \<Rightarrow> string \<Rightarrow> unit tx" where
  "unchanged_revision alert_id current observed_at run_id entity_id =
     bind_tx (update (Wrapf ''update unchanged revision for alert %q: %w'' [AStr entity_id])
       (update_revisions (\<lambda>r. rv_id r = current) (\<lambda>r. r\<lparr>rv_last_seen := pg_time observed_at\<rparr>))) (\<lambda>_.
     update (Wrapf ''update observation for alert %q: %w'' [AStr entity_id])
       (update_alerts (\<lambda>a. sa_id a = alert_id)
          (\<lambda>a. a\<lparr>sa_last_seen := pg_time observed_at, sa_last_run := run_id, sa_closed := None\<rparr>)))"

definition next_revision_of ::
    "row_id \<Rightarrow> instant \<Rightarrow> row_id \<Rightarrow> string \<Rightarrow> alert_summary \<Rightarrow> unit tx" where
  "next_revision_of alert_id observed_at run_id content_hash alert =
     (let entity = AStr (al_entity_id alert) in
      bind_tx (query (Wrapf ''calculate next revision for alert %q: %w'' [entity]) (next_revision alert_id)) (\<lambda>number.
      bind_tx (insert_alert_revision alert_id number run_id observed_at content_hash alert) (\<lambda>revision_id.
      update (Wrapf ''activate new revision for alert %q: %w'' [entity])
        (update_alerts (\<lambda>a. sa_id a = alert_id)
           (\<lambda>a. a\<lparr>sa_last_seen := pg_time observed_at, sa_last_run := run_id, sa_present := True,
              sa_closed := None, sa_current := Some revision_id\<rparr>)))))"

definition reconcile_alert ::
    "repo_env \<Rightarrow> row_id \<Rightarrow> string \<Rightarrow> instant \<Rightarrow> alert_summary \<Rightarrow> unit tx" where
  "reconcile_alert env run_id source_url observed_at alert =
     (let entity = AStr (al_entity_id alert) in
      case hash_alert (sha256_hex env) alert of
        Inl e \<Rightarrow> fail_tx (Wrapf ''hash service alert %q: %w'' [entity] e)
      | Inr content_hash \<Rightarrow>
      bind_tx (query (Wrapf ''load service alert identity %q: %w'' [entity])
         (find_alert source_url (al_entity_id alert))) (\<lambda>found.
      case found of
        None \<Rightarrow> new_identity source_url observed_at run_id content_hash alert
      | Some a \<Rightarrow>
      (case sa_current a of
        None \<Rightarrow> fail_tx (Errorf ''service alert %q has no current revision'' [entity])
      | Some current \<Rightarrow>
          if sa_present a then
            bind_tx (query_row (Wrapf ''load current revision for alert %q: %w'' [entity])
              (revision_hash current)) (\<lambda>current_hash.
            if current_hash = content_hash
            then unchanged_revision (sa_id a) current observed_at run_id (al_entity_id alert)
            else bind_tx (update (Wrapf ''close changed revision for alert %q: %w'' [entity])
               (update_revisions (\<lambda>r. rv_id r = current \<and> rv_closed r = None)
                  (\<lambda>r. r\<lparr>rv_closed := Some (pg_time observed_at), rv_closed_run := Some run_id\<rparr>)))
              (\<lambda>_. next_revision_of (sa_id a) observed_at run_id content_hash alert))
          else next_revision_of (sa_id a) observed_at run_id content_hash alert)))"

text \<open>\<open>closeMissingAlerts\<close>: the two updates over the alerts of the source the feed does not list.\<close>

definition missing :: "string \<Rightarrow> string list \<Rightarrow> alert_row \<Rightarrow> bool" where
  "missing source_url present_ids a =
     (sa_source_url a = source_url \<and> sa_present a \<and> sa_entity a \<notin> set present_ids)"

definition close_missing_alerts :: "row_id \<Rightarrow> string \<Rightarrow> instant \<Rightarrow> string list \<Rightarrow> unit tx" where
  "close_missing_alerts run_id source_url observed_at present_ids =
     bind_tx (update (Wrapf ''close revisions missing from service-alert feed: %w'' [])
       (\<lambda>db. update_revisions
          (\<lambda>r. \<exists>a \<in> set (db_alerts db). sa_current a = Some (rv_id r) \<and> missing source_url present_ids a)
          (\<lambda>r. r\<lparr>rv_closed := Some (pg_time observed_at), rv_closed_run := Some run_id\<rparr>) db)) (\<lambda>_.
     update (Wrapf ''close alerts missing from service-alert feed: %w'' [])
       (update_alerts (missing source_url present_ids)
          (\<lambda>a. a\<lparr>sa_present := False, sa_closed := Some (pg_time observed_at)\<rparr>)))"

section \<open>CompleteAlertRun\<close>

definition reconcile_feed ::
    "repo_env \<Rightarrow> row_id \<Rightarrow> string \<Rightarrow> instant \<Rightarrow> alert_summary list \<Rightarrow> unit tx" where
  "reconcile_feed env run_id source_url observed_at alerts =
     bind_tx (each_tx (\<lambda>alert.
        bind_tx (insert_alert_snapshot run_id alert) (\<lambda>_.
        reconcile_alert env run_id source_url observed_at alert)) alerts) (\<lambda>_.
     close_missing_alerts run_id source_url observed_at (map al_entity_id alerts))"

definition applied_row ::
    "instant \<Rightarrow> fetch_result \<Rightarrow> feed_summary \<Rightarrow> instant option \<Rightarrow> string \<Rightarrow> run_row \<Rightarrow> run_row" where
  "applied_row now result summary feed_timestamp content_hash r =
     (feed_columns now result summary feed_timestamp content_hash r)
       \<lparr>at_status := Succeeded, at_skip_reason := None, at_skip_code := None, ir_applied := True,
        at_error := None, at_failure_stage := None, at_failure_code := None, at_public_error := None\<rparr>"

definition mark_succeeded ::
    "instant \<Rightarrow> row_id \<Rightarrow> fetch_result \<Rightarrow> feed_summary \<Rightarrow> instant option \<Rightarrow> string \<Rightarrow> unit tx" where
  "mark_succeeded now run_id result summary feed_timestamp content_hash =
     bind_tx (stmt (Wrapf ''complete service-alert ingestion run %d: %w'' [AInt run_id])
       (update_runs (running_archived run_id) (applied_row now result summary feed_timestamp content_hash)))
     (require_one_row ''complete service-alert ingestion run'')"

text \<open>The decision of the skip: the reason, when the feed is not to be applied.\<close>

definition skip_reason ::
    "applied_feed option \<Rightarrow> fetch_result \<Rightarrow> feed_summary \<Rightarrow> instant \<Rightarrow> string \<Rightarrow> string option" where
  "skip_reason latest result summary observed_at content_hash =
     (case latest of
        None \<Rightarrow> None
      | Some l \<Rightarrow>
          if af_observed l > observed_at \<or> (af_observed l = observed_at \<and> af_retrieved l > fr_retrieved result)
          then Some ''feed observation is older than the latest applied run''
          else if fe_timestamp summary \<noteq> None \<and> af_sha256 l = content_hash
          then Some ''byte-identical to the latest applied payload''
          else None)"

text \<open>The body of the transaction: whether the run was skipped, and the status it expects.\<close>

definition complete_body ::
    "repo_env \<Rightarrow> instant \<Rightarrow> row_id \<Rightarrow> fetch_result \<Rightarrow> feed_summary \<Rightarrow> instant option \<Rightarrow> string \<Rightarrow> instant \<Rightarrow> bool tx" where
  "complete_body env now run_id result summary feed_timestamp content_hash observed_at =
     bind_tx (update (Wrapf ''lock service-alert reconciliation: %w'' []) (\<lambda>db. db)) (\<lambda>_.
     bind_tx (ingestion_run_source_url run_id) (\<lambda>source_url.
     bind_tx (latest_applied_feed run_id source_url) (\<lambda>latest.
     case skip_reason latest result summary observed_at content_hash of
       Some reason \<Rightarrow>
         bind_tx (update_skipped_run now run_id result summary feed_timestamp content_hash reason)
           (\<lambda>_. ret True)
     | None \<Rightarrow>
         bind_tx (reconcile_feed env run_id source_url observed_at (fe_alerts summary)) (\<lambda>_.
         bind_tx (mark_succeeded now run_id result summary feed_timestamp content_hash) (\<lambda>_.
         ret False)))))"

definition complete_alert_run ::
    "repo_env \<Rightarrow> tx_io \<Rightarrow> row_id \<Rightarrow> fetch_result \<Rightarrow> feed_summary \<Rightarrow> db \<Rightarrow> bool result \<times> db" where
  "complete_alert_run env io run_id result summary db =
     (if fe_incrementality summary \<noteq> ''FULL_DATASET''
      then (Inl (Errorf ''service-alert feed incrementality %q is unsupported; FULL_DATASET is required''
              [AStr (fe_incrementality summary)]), db)
      else
     (case timestamp_value (fe_timestamp summary) of
        Inl e \<Rightarrow> (Inl (Wrapf ''convert feed timestamp: %w'' [] e), db)
      | Inr feed_timestamp \<Rightarrow>
     (case observation_time (fe_timestamp summary) (fr_retrieved result) of
        Inl e \<Rightarrow> (Inl e, db)
      | Inr observed_at \<Rightarrow>
     (case io_begin io of
        Some e \<Rightarrow> (Inl (Wrapf ''begin service-alert snapshot transaction: %w'' [] e), db)
      | None \<Rightarrow>
     (case complete_body env (io_now io) run_id result summary feed_timestamp
             (sha256_hex env (fr_body result)) observed_at \<lparr>se_db = db, se_faults = io_faults io\<rparr> of
        (Inl e, s) \<Rightarrow> (Inl e, rollback db (se_db s))
      | (Inr skipped, s) \<Rightarrow>
          (case commit_run io run_id (if skipped then Skipped else Succeeded) db (se_db s) of
             (Inl e, db') \<Rightarrow> (Inl e, db')
           | (Inr _, db') \<Rightarrow> (Inr skipped, db')))))))"

end
