(* ===== verification/AlertHistory.thy ===== *)
theory AlertHistory
  imports AlertRepo
begin

text \<open>
  What the alert tables mean, and that \<open>CompleteAlertRun\<close> implements it. The abstract state is
  a history: for every source and entity, the list of its revisions in time. One applied feed
  is one \<open>observe\<close> of every entity of the source. \<open>alerts_inv\<close> is the invariant of the tables,
  \<open>history\<close> the abstraction, and \<open>reconcile_feed_refines\<close> the refinement.
\<close>

section \<open>The specification\<close>

record revision_view =
  vw_sha256 :: string
  vw_columns :: alert_columns
  vw_first :: instant
  vw_last :: instant
  vw_closed :: "instant option"

text \<open>
  One observation of an entity at a time: absent (its open revision is closed), present with
  the content of the open revision (it is extended), present with another content (the open
  revision is closed and a new one opened), or present after an absence (a new one opened).
\<close>

definition is_open :: "revision_view list \<Rightarrow> bool" where
  "is_open h = (h \<noteq> [] \<and> vw_closed (last h) = None)"

definition close_last :: "instant \<Rightarrow> revision_view list \<Rightarrow> revision_view list" where
  "close_last at h = (if is_open h then butlast h @ [(last h)\<lparr>vw_closed := Some at\<rparr>] else h)"

definition observe ::
    "instant \<Rightarrow> (string \<times> alert_columns) option \<Rightarrow> revision_view list \<Rightarrow> revision_view list" where
  "observe at seen h =
     (case seen of
        None \<Rightarrow> close_last at h
      | Some (sha, cols) \<Rightarrow>
          if is_open h \<and> vw_sha256 (last h) = sha
          then butlast h @ [(last h)\<lparr>vw_last := at\<rparr>]
          else close_last at h @
            [\<lparr>vw_sha256 = sha, vw_columns = cols, vw_first = at, vw_last = at, vw_closed = None\<rparr>])"

text \<open>The abstraction.\<close>

definition view_of :: "revision_row \<Rightarrow> revision_view" where
  "view_of r = \<lparr>vw_sha256 = rv_sha256 r, vw_columns = rv_columns r, vw_first = rv_first_seen r,
     vw_last = rv_last_seen r, vw_closed = rv_closed r\<rparr>"

definition revisions_of :: "db \<Rightarrow> row_id \<Rightarrow> revision_row list" where
  "revisions_of db alert_id = filter (\<lambda>r. rv_alert r = alert_id) (db_revisions db)"

definition alert_key :: "alert_row \<Rightarrow> string \<times> string" where
  "alert_key a = (sa_source_url a, sa_entity a)"

definition history :: "db \<Rightarrow> string \<times> string \<Rightarrow> revision_view list" where
  "history db key =
     (case find_alert (fst key) (snd key) db of
        None \<Rightarrow> []
      | Some a \<Rightarrow> map view_of (revisions_of db (sa_id a)))"

section \<open>The invariant of the tables\<close>

text \<open>
  The revisions of an alert in the order they were inserted: numbered from 1, all closed but
  the last, which is the current one and is open exactly while the alert is present.
\<close>

definition timeline_ok :: "revision_row list \<Rightarrow> bool \<Rightarrow> row_id option \<Rightarrow> bool" where
  "timeline_ok revs present current \<longleftrightarrow>
     revs \<noteq> [] \<and> current = Some (rv_id (last revs)) \<and> (present \<longleftrightarrow> rv_closed (last revs) = None) \<and>
     (\<forall>r \<in> set (butlast revs). rv_closed r \<noteq> None) \<and> map rv_number revs = [1..int (length revs)]"

definition ids_ok :: "db \<Rightarrow> bool" where
  "ids_ok db \<longleftrightarrow>
     distinct (map sa_id (db_alerts db)) \<and> distinct (map alert_key (db_alerts db)) \<and>
     distinct (map rv_id (db_revisions db)) \<and>
     (\<forall>a \<in> set (db_alerts db). sa_id a < sq_alert (db_seq db) \<and> sa_entity a \<noteq> []) \<and>
     (\<forall>r \<in> set (db_revisions db). rv_id r < sq_revision (db_seq db) \<and>
        rv_alert r \<in> sa_id ` set (db_alerts db))"

definition alerts_inv :: "db \<Rightarrow> bool" where
  "alerts_inv db \<longleftrightarrow> ids_ok db \<and>
     (\<forall>a \<in> set (db_alerts db). timeline_ok (revisions_of db (sa_id a)) (sa_present a) (sa_current a))"

lemma ids_ok_rows:
  "ids_ok db \<Longrightarrow> a \<in> set (db_alerts db) \<Longrightarrow> sa_id a < sq_alert (db_seq db) \<and> sa_entity a \<noteq> []"
  "ids_ok db \<Longrightarrow> r \<in> set (db_revisions db) \<Longrightarrow> rv_alert r \<in> sa_id ` set (db_alerts db)"
  "ids_ok db \<Longrightarrow> r \<in> set (db_revisions db) \<Longrightarrow> rv_id r < sq_revision (db_seq db)"
  by (simp_all add: ids_ok_def)

subsection \<open>Lookup\<close>

lemma find_alert_eq: "find_alert src ent db = find (\<lambda>a. alert_key a = (src, ent)) (db_alerts db)"
  unfolding find_alert_def alert_key_def by simp

lemma find_alert_Some:
  "find_alert src ent db = Some a \<Longrightarrow> a \<in> set (db_alerts db) \<and> alert_key a = (src, ent)"
  by (auto simp: find_alert_eq dest: find_Some_mem)

lemma find_alert_mem:
  "ids_ok db \<Longrightarrow> a \<in> set (db_alerts db) \<Longrightarrow> find_alert (sa_source_url a) (sa_entity a) db = Some a"
  using find_key_unique [of alert_key "db_alerts db" a]
  by (simp add: ids_ok_def find_alert_def alert_key_def)

lemma history_mem:
  "ids_ok db \<Longrightarrow> a \<in> set (db_alerts db) \<Longrightarrow> history db (alert_key a) = map view_of (revisions_of db (sa_id a))"
  by (simp add: history_def alert_key_def find_alert_mem)

lemma history_none: "key \<notin> alert_key ` set (db_alerts db) \<Longrightarrow> history db key = []"
  by (cases key) (force simp: history_def split: option.split dest!: find_alert_Some)

lemma next_revision_eq:
  assumes "map rv_number (revisions_of db aid) = [1..int (length (revisions_of db aid))]"
  shows "next_revision aid db = int (length (revisions_of db aid)) + 1"
proof -
  have "foldl max n [n + 1..m] = m" if "n \<le> m" for n m :: int
    using that
  proof (induction "nat (m - n)" arbitrary: n)
    case 0
    then show ?case by simp
  next
    case (Suc k)
    then have "[n + 1..m] = (n + 1) # [n + 1 + 1..m]" by (subst upto.simps) simp
    moreover have "foldl max (n + 1) [n + 1 + 1..m] = m" using Suc.hyps by (intro Suc.hyps(1)) auto
    ultimately show ?case by (simp del: add.assoc)
  qed
  then have "foldl max 1 [1 + 1..m] = m" if "1 \<le> m" for m :: int using that by blast
  moreover have "[1..int (length (revisions_of db aid))] = 1 # [1 + 1..int (length (revisions_of db aid))]"
    if "revisions_of db aid \<noteq> []"
    using that by (subst upto.simps) (simp add: Suc_le_eq flip: length_greater_0_conv)
  ultimately show ?thesis
    using assms unfolding next_revision_def revisions_of_def [symmetric]
    by (cases "revisions_of db aid") auto
qed

section \<open>Two rules for a step\<close>

text \<open>A step that rewrites rows of the alerts and leaves the owners of revisions alone.\<close>

lemma alerts_inv_map:
  assumes inv: "alerts_inv db"
    and alerts: "db_alerts db' = map g (db_alerts db)"
    and keeps: "\<And>a. sa_id (g a) = sa_id a" "\<And>a. alert_key (g a) = alert_key a"
    and seq: "sq_alert (db_seq db) \<le> sq_alert (db_seq db')"
    and revs: "distinct (map rv_id (db_revisions db'))"
      "\<And>r. r \<in> set (db_revisions db') \<Longrightarrow> rv_id r < sq_revision (db_seq db') \<and> rv_alert r \<in> sa_id ` set (db_alerts db)"
    and timeline: "\<And>a. a \<in> set (db_alerts db) \<Longrightarrow>
      timeline_ok (revisions_of db' (sa_id a)) (sa_present (g a)) (sa_current (g a))"
  shows "alerts_inv db'"
    and "a \<in> set (db_alerts db) \<Longrightarrow> history db' (alert_key a) = map view_of (revisions_of db' (sa_id a))"
    and "key \<notin> alert_key ` set (db_alerts db) \<Longrightarrow> history db' key = history db key"
proof -
  have ent: "sa_entity (g a) = sa_entity a" for a using keeps(2) [of a] by (simp add: alert_key_def)
  have comps: "sa_id \<circ> g = sa_id" "alert_key \<circ> g = alert_key" using keeps by auto
  have ids: "ids_ok db'"
    using inv revs seq unfolding alerts_inv_def ids_ok_def alerts
    by (auto simp: comps image_image keeps ent)
  with timeline show "alerts_inv db'" by (auto simp: alerts_inv_def alerts keeps)
  show "history db' (alert_key a) = map view_of (revisions_of db' (sa_id a))" if "a \<in> set (db_alerts db)"
    using history_mem [OF ids, of "g a"] that by (simp add: alerts keeps)
  show "history db' key = history db key" if "key \<notin> alert_key ` set (db_alerts db)"
    using that by (simp add: history_none alerts image_image keeps)
qed

text \<open>A step that adds an alert with its first revision.\<close>

lemma alerts_inv_insert:
  assumes inv: "alerts_inv db"
    and alerts: "db_alerts db' = db_alerts db @ [a]" and revs: "db_revisions db' = db_revisions db @ [r]"
    and a: "sa_id a = sq_alert (db_seq db)" "alert_key a \<notin> alert_key ` set (db_alerts db)"
      "sa_entity a \<noteq> []" "sa_present a" "sa_current a = Some (rv_id r)"
    and r: "rv_id r = sq_revision (db_seq db)" "rv_alert r = sa_id a" "rv_number r = 1" "rv_closed r = None"
    and seq: "sq_alert (db_seq db') = sq_alert (db_seq db) + 1" "sq_revision (db_seq db') = sq_revision (db_seq db) + 1"
  shows "alerts_inv db'" and "history db' key = (if key = alert_key a then [view_of r] else history db key)"
proof -
  note I = inv [unfolded alerts_inv_def ids_ok_def]
  have fresh: "sa_id a \<notin> sa_id ` set (db_alerts db)" using I a(1) by auto
  have ids: "ids_ok db'"
    using I a r fresh unfolding ids_ok_def alerts revs by (fastforce simp: seq)
  have "rv_alert x \<noteq> sa_id a" if "x \<in> set (db_revisions db)" for x
    using ids_ok_rows(2) [of db x] inv fresh that by (auto simp: alerts_inv_def)
  then have none: "revisions_of db (sa_id a) = []"
    by (simp add: revisions_of_def filter_empty_conv)
  have new: "revisions_of db' (sa_id a) = [r]"
    using none r(2) by (simp add: revisions_of_def revs)
  have old: "revisions_of db' (sa_id b) = revisions_of db (sa_id b)" if "b \<in> set (db_alerts db)" for b
    using that fresh r(2) by (auto simp: revisions_of_def revs)
  show inv': "alerts_inv db'"
    using I ids new old a r by (auto simp: alerts_inv_def alerts timeline_ok_def)
  show "history db' key = (if key = alert_key a then [view_of r] else history db key)"
  proof (cases "key = alert_key a")
    case True
    with history_mem [OF ids, of a] new show ?thesis by (simp add: alerts)
  next
    case False
    show ?thesis
    proof (cases "key \<in> alert_key ` set (db_alerts db)")
      case True
      then obtain b where b: "b \<in> set (db_alerts db)" "key = alert_key b" by auto
      with history_mem [OF ids, of b] history_mem [of db b] old inv False show ?thesis
        by (simp add: alerts alerts_inv_def)
    next
      case no: False
      with False show ?thesis by (simp add: history_none alerts)
    qed
  qed
qed

section \<open>What the statements do to the alert tables\<close>

definition core :: "db \<Rightarrow> alert_row list \<times> revision_row list \<times> run_row list \<times> snapshot_row list \<times> sequences" where
  "core db = (db_alerts db, db_revisions db, db_runs db, db_snapshots db, db_seq db)"

lemma core_children [simp]:
  "core (add_snapshot_period r db) = core db" "core (add_snapshot_entity e db) = core db"
  "core (add_revision_period r db) = core db" "core (add_revision_entity e db) = core db"
  by (simp_all add: core_def add_snapshot_period_def add_snapshot_entity_def add_revision_period_def
      add_revision_entity_def)

lemma insert_period_core:
  assumes "insert_period ws we wi add owner p s = (Inr y, s')" and "\<And>r db. core (add r db) = core db"
  shows "core (se_db s') = core (se_db s)"
  using assms
  by (cases p) (auto simp: insert_period_def ok_rules split: sum.splits dest!: update_Inr)

lemma each_period_core:
  assumes "each_tx (insert_period ws we wi add owner) ps s = (Inr y, s')" and "\<And>r db. core (add r db) = core db"
  shows "core (se_db s') = core (se_db s)"
  by (rule each_tx_invariant [OF assms(1), where P = "\<lambda>db. core db = core (se_db s)"])
    (auto dest: insert_period_core [OF _ assms(2)])

lemma each_entity_core:
  assumes "each_tx (\<lambda>(position, e). update (w position) (add (f position e))) es s = (Inr y, s')"
    and "\<And>r db. core (add r db) = core db"
  shows "core (se_db s') = core (se_db s)"
  by (rule each_tx_invariant [OF assms(1), where P = "\<lambda>db. core db = core (se_db s)"])
    (auto simp: assms(2) dest!: update_Inr split: prod.splits)

lemma insert_alert_snapshot_effect:
  assumes "insert_alert_snapshot run_id alert s = (Inr k, s')"
  shows "\<exists>row. core (se_db s') = (db_alerts (se_db s), db_revisions (se_db s), db_runs (se_db s),
      db_snapshots (se_db s) @ [row], (db_seq (se_db s))\<lparr>sq_snapshot := sq_snapshot (db_seq (se_db s)) + 1\<rparr>) \<and>
    sn_run row = run_id \<and> sn_entity row = al_entity_id alert \<and> sn_columns row = columns_of alert \<and>
    (\<forall>r \<in> set (db_snapshots (se_db s)). \<not> (sn_run r = run_id \<and> sn_entity r = al_entity_id alert))"
proof -
  from assms obtain db1 where
    1: "insert_snapshot run_id alert (se_db s) = (Inr k, db1)" and 2: "core (se_db s') = core db1"
    unfolding insert_alert_snapshot_def Let_def bind_tx_Inr ret_Inr
    by (auto dest!: stmt_Inr each_period_core each_entity_core)
  from 1 have "core db1 = (db_alerts (se_db s), db_revisions (se_db s), db_runs (se_db s),
      db_snapshots (se_db s) @ [\<lparr>sn_id = k, sn_run = run_id, sn_entity = al_entity_id alert,
        sn_columns = columns_of alert\<rparr>], (db_seq (se_db s))\<lparr>sq_snapshot := sq_snapshot (db_seq (se_db s)) + 1\<rparr>) \<and>
      (\<forall>r \<in> set (db_snapshots (se_db s)). \<not> (sn_run r = run_id \<and> sn_entity r = al_entity_id alert))"
    by (auto simp: insert_snapshot_def Let_def core_def split: if_splits)
  with 2 show ?thesis by auto
qed

definition revision_for ::
    "row_id \<Rightarrow> row_id \<Rightarrow> int \<Rightarrow> row_id \<Rightarrow> instant \<Rightarrow> string \<Rightarrow> alert_summary \<Rightarrow> revision_row" where
  "revision_for k alert_id number run_id at sha alert =
     \<lparr>rv_id = k, rv_alert = alert_id, rv_number = number, rv_sha256 = sha, rv_columns = columns_of alert,
      rv_first_seen = pg_time at, rv_last_seen = pg_time at, rv_closed = None, rv_opened_run = run_id,
      rv_closed_run = None\<rparr>"

lemma insert_alert_revision_effect:
  assumes "insert_alert_revision alert_id number run_id at sha alert s = (Inr k, s')"
  shows "k = sq_revision (db_seq (se_db s)) \<and>
    core (se_db s') = (db_alerts (se_db s), db_revisions (se_db s) @ [revision_for k alert_id number run_id at sha alert],
      db_runs (se_db s), db_snapshots (se_db s), (db_seq (se_db s))\<lparr>sq_revision := k + 1\<rparr>)"
proof -
  from assms obtain db1 where
    1: "insert_revision alert_id number run_id at sha alert (se_db s) = (Inr k, db1)" and 2: "core (se_db s') = core db1"
    unfolding insert_alert_revision_def Let_def bind_tx_Inr ret_Inr
    by (auto dest!: stmt_Inr each_period_core each_entity_core)
  from 1 have "k = sq_revision (db_seq (se_db s))"
    and "core db1 = (db_alerts (se_db s), db_revisions (se_db s) @ [revision_for k alert_id number run_id at sha alert],
      db_runs (se_db s), db_snapshots (se_db s), (db_seq (se_db s))\<lparr>sq_revision := k + 1\<rparr>)"
    by (auto simp: insert_revision_def Let_def core_def revision_for_def split: if_splits)
  with 2 show ?thesis by auto
qed

section \<open>One alert\<close>

text \<open>What the observed alert contributes: the hash of its content and its columns.\<close>

definition seen_content :: "repo_env \<Rightarrow> alert_summary \<Rightarrow> string \<times> alert_columns" where
  "seen_content env alert = (sha256_hex env (hash_payload alert), columns_of alert)"

text \<open>Parts of the tables reconciliation never touches.\<close>

definition kept :: "db \<Rightarrow> run_row list \<times> snapshot_row list \<times> row_id" where
  "kept db = (db_runs db, db_snapshots db, sq_run (db_seq db))"

lemma new_identity_refines:
  assumes inv: "alerts_inv (se_db s)" and none: "find_alert src (al_entity_id alert) (se_db s) = None"
    and run: "new_identity src at run_id sha alert s = (Inr y, s')"
  shows "alerts_inv (se_db s') \<and> kept (se_db s') = kept (se_db s) \<and>
    history (se_db s') key = (if key = (src, al_entity_id alert)
      then observe (pg_time at) (Some (sha, columns_of alert)) (history (se_db s) key) else history (se_db s) key)"
proof -
  from run obtain k db1 s1 rid s2 where
    1: "insert_alert src (al_entity_id alert) at run_id (se_db s) = (Inr k, db1)" and db1: "se_db s1 = db1"
    and 2: "insert_alert_revision k 1 run_id at sha alert s1 = (Inr rid, s2)"
    and 3: "se_db s' = update_alerts (\<lambda>a. sa_id a = k) (\<lambda>a. a\<lparr>sa_current := Some rid\<rparr>) (se_db s2)"
    unfolding new_identity_def Let_def bind_tx_Inr by (auto dest!: stmt_Inr update_Inr)
  let ?db = "se_db s" and ?db' = "se_db s'"
  let ?a = "\<lparr>sa_id = k, sa_source_url = src, sa_entity = al_entity_id alert, sa_first_seen = pg_time at,
    sa_last_seen = pg_time at, sa_first_run = run_id, sa_last_run = run_id, sa_present = True,
    sa_closed = None, sa_current = Some rid\<rparr>"
  let ?r = "revision_for rid k 1 run_id at sha alert"
  from 1 have k: "k = sq_alert (db_seq ?db)" and ne: "al_entity_id alert \<noteq> []"
    and s1: "core db1 = (db_alerts ?db @ [?a\<lparr>sa_current := None\<rparr>], db_revisions ?db, db_runs ?db,
      db_snapshots ?db, (db_seq ?db)\<lparr>sq_alert := k + 1\<rparr>)"
    by (auto simp: insert_alert_def Let_def core_def split: if_splits)
  note eff = insert_alert_revision_effect [OF 2, unfolded db1]
  have old: "sa_id a \<noteq> k" if "a \<in> set (db_alerts ?db)" for a
    using ids_ok_rows(1) [of ?db a] inv that k by (auto simp: alerts_inv_def)
  have alerts: "db_alerts ?db' = db_alerts ?db @ [?a]"
    using eff s1 old by (auto simp: 3 update_alerts_def core_def intro: upd_where_none)
  have rest: "db_revisions ?db' = db_revisions ?db @ [?r]" "kept ?db' = kept ?db"
    "sq_alert (db_seq ?db') = sq_alert (db_seq ?db) + 1" "sq_revision (db_seq ?db') = sq_revision (db_seq ?db) + 1"
    "rid = sq_revision (db_seq ?db)"
    using eff s1 by (auto simp: 3 update_alerts_def core_def kept_def k)
  have fresh: "alert_key ?a \<notin> alert_key ` set (db_alerts ?db)"
    using none by (auto simp: find_alert_eq find_None_all alert_key_def)
  have "alerts_inv ?db'" "history ?db' key = (if key = alert_key ?a then [view_of ?r] else history ?db key)"
    by (rule alerts_inv_insert [OF inv alerts rest(1)];
        use fresh ne k rest(3-5) in \<open>simp add: revision_for_def\<close>)+
  moreover have "history ?db (src, al_entity_id alert) = []" using none by (simp add: history_def)
  ultimately show ?thesis
    using rest(2) by (auto simp: alert_key_def observe_def close_last_def is_open_def view_of_def revision_for_def)
qed

text \<open>Rewriting the current revision of one alert leaves all other revisions alone.\<close>

lemma revisions_of_last:
  assumes inv: "ids_ok db" and ne: "revisions_of db aid \<noteq> []"
    and r: "r = last (revisions_of db aid)" and P: "P r"
    and revs: "db_revisions db' = upd_where (\<lambda>x. rv_id x = rv_id r \<and> P x) f (db_revisions db)"
    and f: "\<And>x. rv_id (f x) = rv_id x" "\<And>x. rv_alert (f x) = rv_alert x"
  shows "revisions_of db' aid = butlast (revisions_of db aid) @ [f r]"
    and "b \<noteq> aid \<Longrightarrow> revisions_of db' b = revisions_of db b"
    and "map rv_id (db_revisions db') = map rv_id (db_revisions db)"
    and "map rv_alert (db_revisions db') = map rv_alert (db_revisions db)"
proof -
  let ?Q = "\<lambda>x. rv_id x = rv_id r \<and> P x"
  have flt: "revisions_of db' c = upd_where ?Q f (revisions_of db c)" for c
    unfolding revisions_of_def revs by (simp add: filter_upd_where f(2))
  have mem: "r \<in> set (db_revisions db)" "rv_alert r = aid"
    using last_in_set [OF ne] r by (auto simp: revisions_of_def)
  have dist: "distinct (map rv_id (revisions_of db aid))"
    using inv by (simp add: ids_ok_def revisions_of_def distinct_map_filter)
  have "revisions_of db aid = butlast (revisions_of db aid) @ [r]" using ne r by simp
  then have "rv_id r \<notin> rv_id ` set (butlast (revisions_of db aid))"
    using dist by (metis distinct_map_snoc)
  then have "rv_id x \<noteq> rv_id r" if "x \<in> set (butlast (revisions_of db aid))" for x
    using that by (metis image_eqI)
  then show "revisions_of db' aid = butlast (revisions_of db aid) @ [f r]"
    unfolding flt using upd_where_last [OF ne, of ?Q f] r P by auto
  show "revisions_of db' b = revisions_of db b" if "b \<noteq> aid"
    unfolding flt
  proof (rule upd_where_none)
    fix x assume "x \<in> set (revisions_of db b)"
    then have "x \<in> set (db_revisions db)" "rv_alert x = b" by (auto simp: revisions_of_def)
    with mem that inv show "\<not> ?Q x" by (metis distinct_map_eqD ids_ok_def)
  qed
  show "map rv_id (db_revisions db') = map rv_id (db_revisions db)"
    and "map rv_alert (db_revisions db') = map rv_alert (db_revisions db)"
    unfolding revs by (simp_all add: map_upd_where_keep f)
qed

lemma owners_of_maps:
  assumes "ids_ok db" and "map rv_id revs = map rv_id (db_revisions db)"
    and "map rv_alert revs = map rv_alert (db_revisions db)" and "r \<in> set revs"
  shows "rv_id r < sq_revision (db_seq db) \<and> rv_alert r \<in> sa_id ` set (db_alerts db)"
proof -
  have "rv_id r \<in> set (map rv_id (db_revisions db))" "rv_alert r \<in> set (map rv_alert (db_revisions db))"
    using assms(2-4) by (metis image_eqI image_set)+
  with assms(1) show ?thesis by (auto simp: ids_ok_def)
qed

text \<open>A step at one alert.\<close>

lemma alerts_inv_at:
  assumes inv: "alerts_inv db" and a: "a \<in> set (db_alerts db)"
    and alerts: "db_alerts db' = upd_where (\<lambda>x. sa_id x = sa_id a) f (db_alerts db)"
    and keeps: "\<And>x. sa_id (f x) = sa_id x" "\<And>x. alert_key (f x) = alert_key x"
    and seq: "sq_alert (db_seq db) \<le> sq_alert (db_seq db')"
    and revs: "distinct (map rv_id (db_revisions db'))"
      "\<And>r. r \<in> set (db_revisions db') \<Longrightarrow> rv_id r < sq_revision (db_seq db') \<and> rv_alert r \<in> sa_id ` set (db_alerts db)"
    and others: "\<And>b. b \<noteq> sa_id a \<Longrightarrow> revisions_of db' b = revisions_of db b"
    and timeline: "timeline_ok (revisions_of db' (sa_id a)) (sa_present (f a)) (sa_current (f a))"
  shows "alerts_inv db'"
    and "history db' key = (if key = alert_key a then map view_of (revisions_of db' (sa_id a)) else history db key)"
proof -
  let ?g = "\<lambda>x. if sa_id x = sa_id a then f x else x"
  have ids: "ids_ok db" using inv by (simp add: alerts_inv_def)
  have same: "x = a" if "x \<in> set (db_alerts db)" "sa_id x = sa_id a" for x
    using ids that a by (metis distinct_map_eqD ids_ok_def)
  have t: "timeline_ok (revisions_of db' (sa_id x)) (sa_present (?g x)) (sa_current (?g x))"
    if "x \<in> set (db_alerts db)" for x
    using that same [OF that] timeline others [of "sa_id x"] inv by (auto simp: alerts_inv_def)
  note M = alerts_inv_map [OF inv, of db' ?g, OF _ _ _ seq revs t, simplified, OF alerts [unfolded upd_where_def]]
  show "alerts_inv db'" by (rule M(1)) (auto simp: keeps)
  show "history db' key = (if key = alert_key a then map view_of (revisions_of db' (sa_id a)) else history db key)"
  proof (cases "key \<in> alert_key ` set (db_alerts db)")
    case True
    then obtain x where x: "x \<in> set (db_alerts db)" "key = alert_key x" by auto
    have "history db' (alert_key x) = map view_of (revisions_of db' (sa_id x))"
      by (rule M(2)) (auto simp: keeps x)
    moreover have "x = a" if "alert_key x = alert_key a"
      using ids that a x(1) by (metis distinct_map_eqD ids_ok_def)
    moreover have "sa_id x \<noteq> sa_id a" if "x \<noteq> a" using same x(1) that by blast
    ultimately show ?thesis using x others [of "sa_id x"] history_mem [OF ids x(1)] by (cases "x = a") auto
  next
    case False
    then have "history db' key = history db key" by (intro M(3)) (auto simp: keeps)
    with False a show ?thesis by auto
  qed
qed

text \<open>Replacing the last revision of a timeline by one with the same id and number.\<close>

lemma timeline_ok_snoc:
  "timeline_ok (h @ [r]) present current \<longleftrightarrow>
     current = Some (rv_id r) \<and> (present \<longleftrightarrow> rv_closed r = None) \<and> (\<forall>x \<in> set h. rv_closed x \<noteq> None) \<and>
     map rv_number h = [1..int (length h)] \<and> rv_number r = int (length h) + 1"
proof -
  have "[1..int (length h) + 1] = [1..int (length h)] @ [int (length h) + 1]"
    by (subst upto_rec2) auto
  then show ?thesis by (auto simp: timeline_ok_def add.commute)
qed

lemma timeline_snocE:
  assumes "timeline_ok revs present current"
  obtains h r where "revs = h @ [r]" and "timeline_ok (h @ [r]) present current"
  using assms by (metis append_butlast_last_id timeline_ok_def)

lemma timeline_closed:
  assumes "timeline_ok revs False current"
  shows "\<forall>x \<in> set revs. rv_closed x \<noteq> None"
proof -
  obtain h r where hr: "revs = h @ [r]" "timeline_ok (h @ [r]) False current"
    using assms by (rule timeline_snocE)
  then show ?thesis by (simp add: timeline_ok_snoc)
qed

lemma timeline_replace:
  assumes "timeline_ok revs present current" and "rv_id r = rv_id (last revs)"
    and "rv_number r = rv_number (last revs)" and "present' \<longleftrightarrow> rv_closed r = None" and "current' = current"
  shows "timeline_ok (butlast revs @ [r]) present' current'"
proof -
  obtain h x where hx: "revs = h @ [x]" "timeline_ok (h @ [x]) present current"
    using assms(1) by (rule timeline_snocE)
  show ?thesis
    using hx(2) assms(2-5) unfolding hx(1) by (simp add: timeline_ok_snoc)
qed

lemma unchanged_revision_refines:
  assumes inv: "alerts_inv (se_db s)" and a: "a \<in> set (db_alerts (se_db s))" "sa_present a"
    and cur: "sa_current a = Some current"
    and run: "unchanged_revision (sa_id a) current at run_id (sa_entity a) s = (Inr y, s')"
  shows "alerts_inv (se_db s') \<and> kept (se_db s') = kept (se_db s) \<and>
    history (se_db s') key = (if key = alert_key a
      then butlast (history (se_db s) key) @ [(last (history (se_db s) key))\<lparr>vw_last := pg_time at\<rparr>]
      else history (se_db s) key)"
proof -
  let ?db = "se_db s" and ?db' = "se_db s'"
  let ?R = "revisions_of ?db (sa_id a)"
  let ?f = "\<lambda>r. r\<lparr>rv_last_seen := pg_time at\<rparr>"
  let ?g = "\<lambda>a. a\<lparr>sa_last_seen := pg_time at, sa_last_run := run_id, sa_closed := None\<rparr>"
  have db': "?db' = update_alerts (\<lambda>x. sa_id x = sa_id a) ?g (update_revisions (\<lambda>r. rv_id r = current) ?f ?db)"
    using run by (auto simp: unchanged_revision_def bind_tx_Inr dest!: update_Inr)
  have ids: "ids_ok ?db" and tl: "timeline_ok ?R (sa_present a) (sa_current a)"
    using inv a by (auto simp: alerts_inv_def)
  then have ne: "?R \<noteq> []" and cur': "current = rv_id (last ?R)" using cur by (auto simp: timeline_ok_def)
  have revs: "db_revisions ?db' = upd_where (\<lambda>x. rv_id x = rv_id (last ?R) \<and> True) ?f (db_revisions ?db)"
    by (simp add: db' update_alerts_def update_revisions_def cur')
  note L = revisions_of_last [OF ids ne refl TrueI revs]
  have R': "revisions_of ?db' (sa_id a) = butlast ?R @ [?f (last ?R)]" by (rule L(1)) auto
  have others: "revisions_of ?db' b = revisions_of ?db b" if "b \<noteq> sa_id a" for b
    by (rule L(2)) (use that in auto)
  have maps: "map rv_id (db_revisions ?db') = map rv_id (db_revisions ?db)"
    "map rv_alert (db_revisions ?db') = map rv_alert (db_revisions ?db)"
    by (rule L(3); simp) (rule L(4); simp)
  have alerts: "db_alerts ?db' = upd_where (\<lambda>x. sa_id x = sa_id a) ?g (db_alerts ?db)"
    "db_seq ?db' = db_seq ?db"
    by (simp_all add: db' update_alerts_def update_revisions_def)
  have T: "timeline_ok (revisions_of ?db' (sa_id a)) (sa_present (?g a)) (sa_current (?g a))"
    unfolding R' by (rule timeline_replace [OF tl]) (use tl in \<open>auto simp: timeline_ok_def\<close>)
  have key: "alert_key (?g x) = alert_key x" for x by (simp add: alert_key_def)
  have dist: "distinct (map rv_id (db_revisions ?db'))" using ids by (simp add: ids_ok_def maps)
  note own = owners_of_maps [OF ids maps]
  note A = alerts_inv_at [OF inv a(1) alerts(1) _ key _ dist _ others T, simplified alerts(2), simplified]
  have "alerts_inv ?db'" using A(1) own by simp
  moreover have "history ?db' key = (if key = alert_key a then map view_of (revisions_of ?db' (sa_id a)) else history ?db key)"
    using A(2) own by simp
  moreover have "map view_of (revisions_of ?db' (sa_id a)) =
      butlast (history ?db (alert_key a)) @ [(last (history ?db (alert_key a)))\<lparr>vw_last := pg_time at\<rparr>]"
    using ne by (simp add: R' history_mem [OF ids a(1)] map_butlast last_map view_of_def)
  ultimately show ?thesis by (simp add: kept_def db' update_alerts_def update_revisions_def)
qed

lemma next_revision_refines:
  assumes inv: "alerts_inv db" and a: "a \<in> set (db_alerts db)"
    and same: "db_alerts (se_db s) = db_alerts db" "db_seq (se_db s) = db_seq db"
    and maps: "map rv_id (db_revisions (se_db s)) = map rv_id (db_revisions db)"
      "map rv_alert (db_revisions (se_db s)) = map rv_alert (db_revisions db)"
    and others: "\<And>b. b \<noteq> sa_id a \<Longrightarrow> revisions_of (se_db s) b = revisions_of db b"
    and closed: "timeline_ok (revisions_of (se_db s) (sa_id a)) False (sa_current a)"
    and run: "next_revision_of (sa_id a) at run_id sha alert s = (Inr y, s')"
  shows "alerts_inv (se_db s') \<and> kept (se_db s') = kept (se_db s) \<and>
    history (se_db s') key = (if key = alert_key a
      then map view_of (revisions_of (se_db s) (sa_id a)) @
        [\<lparr>vw_sha256 = sha, vw_columns = columns_of alert, vw_first = pg_time at, vw_last = pg_time at, vw_closed = None\<rparr>]
      else history db key)"
proof -
  let ?db = "se_db s" and ?db' = "se_db s'"
  let ?R = "revisions_of ?db (sa_id a)"
  from run obtain s1 k s2 where s1: "se_db s1 = ?db"
    and ins: "insert_alert_revision (sa_id a) (next_revision (sa_id a) ?db) run_id at sha alert s1 = (Inr k, s2)"
    and db': "?db' = update_alerts (\<lambda>x. sa_id x = sa_id a)
       (\<lambda>x. x\<lparr>sa_last_seen := pg_time at, sa_last_run := run_id, sa_present := True, sa_closed := None,
          sa_current := Some k\<rparr>) (se_db s2)" (is "_ = update_alerts _ ?g _")
    unfolding next_revision_of_def Let_def bind_tx_Inr by (auto dest!: query_Inr update_Inr)
  let ?n = "next_revision (sa_id a) ?db" and ?r = "revision_for k (sa_id a) (next_revision (sa_id a) ?db) run_id at sha alert"
  have ids: "ids_ok db" using inv by (simp add: alerts_inv_def)
  note eff = insert_alert_revision_effect [OF ins, unfolded s1 core_def, simplified]
  have n: "?n = int (length ?R) + 1" using closed by (intro next_revision_eq) (simp add: timeline_ok_def)
  have revs: "db_revisions ?db' = db_revisions ?db @ [?r]" "kept ?db' = kept ?db"
    and seq: "sq_alert (db_seq ?db') = sq_alert (db_seq db)" "sq_revision (db_seq ?db') = k + 1"
    and k: "k = sq_revision (db_seq db)"
    and alerts: "db_alerts ?db' = upd_where (\<lambda>x. sa_id x = sa_id a) ?g (db_alerts db)"
    using eff same by (auto simp: db' update_alerts_def kept_def)
  have R': "revisions_of ?db' (sa_id a) = ?R @ [?r]"
    by (simp add: revisions_of_def revs revision_for_def)
  have others': "revisions_of ?db' b = revisions_of db b" if "b \<noteq> sa_id a" for b
    using others [OF that] that by (simp add: revisions_of_def revs revision_for_def)
  have "\<forall>x \<in> set ?R. rv_closed x \<noteq> None"
    using closed by (rule timeline_closed)
  then have T: "timeline_ok (revisions_of ?db' (sa_id a)) (sa_present (?g a)) (sa_current (?g a))"
    using closed unfolding R' timeline_ok_snoc by (auto simp: timeline_ok_def revision_for_def n)
  have key: "alert_key (?g x) = alert_key x" for x by (simp add: alert_key_def)
  have own: "rv_id r < k \<and> rv_alert r \<in> sa_id ` set (db_alerts db)" if "r \<in> set (db_revisions ?db)" for r
    using owners_of_maps [OF ids maps that] k by simp
  have dist: "distinct (map rv_id (db_revisions ?db'))"
  proof -
    have "k \<notin> rv_id ` set (db_revisions db)" using ids_ok_rows(3) [OF ids] k by force
    then show ?thesis using ids by (simp add: revs ids_ok_def maps revision_for_def flip: image_set)
  qed
  have own': "rv_id r < sq_revision (db_seq ?db') \<and> rv_alert r \<in> sa_id ` set (db_alerts db)"
    if "r \<in> set (db_revisions ?db')" for r
    using own [of r] that a by (auto simp: revs seq revision_for_def)
  have "alerts_inv ?db'"
    by (rule alerts_inv_at(1) [OF inv a alerts _ key _ dist own' others' T]) (simp_all add: seq)
  moreover have "history ?db' key = (if key = alert_key a then map view_of (revisions_of ?db' (sa_id a)) else history db key)"
    by (rule alerts_inv_at(2) [OF inv a alerts _ key _ dist own' others' T]) (simp_all add: seq)
  ultimately show ?thesis
    using revs(2) by (simp add: R' view_of_def revision_for_def)
qed

lemma changed_revision_refines:
  assumes inv: "alerts_inv (se_db s)" and a: "a \<in> set (db_alerts (se_db s))" "sa_present a"
    and cur: "sa_current a = Some current"
    and close: "se_db s1 = update_revisions (\<lambda>r. rv_id r = current \<and> rv_closed r = None)
       (\<lambda>r. r\<lparr>rv_closed := Some (pg_time at), rv_closed_run := Some run_id\<rparr>) (se_db s)"
    and run: "next_revision_of (sa_id a) at run_id sha alert s1 = (Inr y, s')"
  shows "alerts_inv (se_db s') \<and> kept (se_db s') = kept (se_db s) \<and>
    history (se_db s') key = (if key = alert_key a
      then close_last (pg_time at) (history (se_db s) key) @
        [\<lparr>vw_sha256 = sha, vw_columns = columns_of alert, vw_first = pg_time at, vw_last = pg_time at, vw_closed = None\<rparr>]
      else history (se_db s) key)"
proof -
  let ?db = "se_db s" and ?db1 = "se_db s1"
  let ?R = "revisions_of ?db (sa_id a)"
  let ?f = "\<lambda>r. r\<lparr>rv_closed := Some (pg_time at), rv_closed_run := Some run_id\<rparr>"
  have ids: "ids_ok ?db" and tl: "timeline_ok ?R (sa_present a) (sa_current a)"
    using inv a by (auto simp: alerts_inv_def)
  then have ne: "?R \<noteq> []" and cur': "current = rv_id (last ?R)" and op: "rv_closed (last ?R) = None"
    using cur a by (auto simp: timeline_ok_def)
  have revs: "db_revisions ?db1 = upd_where (\<lambda>x. rv_id x = rv_id (last ?R) \<and> rv_closed x = None) ?f (db_revisions ?db)"
    by (simp add: close update_revisions_def cur')
  note L = revisions_of_last [OF ids ne refl op revs]
  have R1: "revisions_of ?db1 (sa_id a) = butlast ?R @ [?f (last ?R)]" by (rule L(1)) auto
  have "timeline_ok (revisions_of ?db1 (sa_id a)) False (sa_current a)"
    unfolding R1 by (rule timeline_replace [OF tl]) auto
  moreover have "revisions_of ?db1 b = revisions_of ?db b" if "b \<noteq> sa_id a" for b
    by (rule L(2)) (use that in auto)
  moreover have "map rv_id (db_revisions ?db1) = map rv_id (db_revisions ?db)" by (rule L(3)) auto
  moreover have "map rv_alert (db_revisions ?db1) = map rv_alert (db_revisions ?db)" by (rule L(4)) auto
  moreover have "db_alerts ?db1 = db_alerts ?db" "db_seq ?db1 = db_seq ?db" "kept ?db1 = kept ?db"
    by (simp_all add: close update_revisions_def kept_def)
  moreover have "map view_of (revisions_of ?db1 (sa_id a)) = close_last (pg_time at) (history ?db (alert_key a))"
    using ne op by (simp add: R1 history_mem [OF ids a(1)] close_last_def is_open_def map_butlast last_map view_of_def)
  ultimately show ?thesis using next_revision_refines [OF inv a(1) _ _ _ _ _ _ run] by auto
qed

text \<open>\<open>reconcileAlert\<close> is one observation of its entity, and of nothing else.\<close>

lemma reconcile_alert_refines:
  assumes inv: "alerts_inv (se_db s)" and run: "reconcile_alert env run_id src at alert s = (Inr y, s')"
  shows "alerts_inv (se_db s') \<and> kept (se_db s') = kept (se_db s) \<and>
    history (se_db s') key = (if key = (src, al_entity_id alert)
      then observe (pg_time at) (Some (seen_content env alert)) (history (se_db s) key)
      else history (se_db s) key)"
proof -
  let ?sha = "sha256_hex env (hash_payload alert)"
  from run have ub: "\<not> al_unknown_bytes alert > 0"
    by (auto simp: reconcile_alert_def hash_alert_def ok_rules Let_def split: if_splits)
  then have hash: "hash_alert (sha256_hex env) alert = Inr ?sha" by (simp add: hash_alert_def)
  from run obtain s1 where s1: "se_db s1 = se_db s"
    and rest: "(case find_alert src (al_entity_id alert) (se_db s) of
        None \<Rightarrow> new_identity src at run_id ?sha alert
      | Some a \<Rightarrow> (case sa_current a of
        None \<Rightarrow> fail_tx (Errorf ''service alert %q has no current revision'' [AStr (al_entity_id alert)])
      | Some current \<Rightarrow>
          if sa_present a then
            bind_tx (query_row (Wrapf ''load current revision for alert %q: %w'' [AStr (al_entity_id alert)])
              (revision_hash current)) (\<lambda>current_hash.
            if current_hash = ?sha
            then unchanged_revision (sa_id a) current at run_id (al_entity_id alert)
            else bind_tx (update (Wrapf ''close changed revision for alert %q: %w'' [AStr (al_entity_id alert)])
               (update_revisions (\<lambda>r. rv_id r = current \<and> rv_closed r = None)
                  (\<lambda>r. r\<lparr>rv_closed := Some (pg_time at), rv_closed_run := Some run_id\<rparr>)))
              (\<lambda>_. next_revision_of (sa_id a) at run_id ?sha alert))
          else next_revision_of (sa_id a) at run_id ?sha alert)) s1 = (Inr y, s')"
    unfolding reconcile_alert_def hash sum.case Let_def bind_tx_Inr by (auto dest!: query_Inr)
  show ?thesis
  proof (cases "find_alert src (al_entity_id alert) (se_db s)")
    case None
    with rest have "new_identity src at run_id ?sha alert s1 = (Inr y, s')" by simp
    from new_identity_refines [OF _ _ this] show ?thesis
      using inv None by (simp add: s1 seen_content_def)
  next
    case (Some a)
    note fa = find_alert_Some [OF Some]
    have ent: "sa_entity a = al_entity_id alert" "alert_key a = (src, al_entity_id alert)"
      using fa by (simp_all add: alert_key_def)
    have ids: "ids_ok (se_db s)" and tl: "timeline_ok (revisions_of (se_db s) (sa_id a)) (sa_present a) (sa_current a)"
      using inv fa by (auto simp: alerts_inv_def)
    let ?R = "revisions_of (se_db s) (sa_id a)"
    have ne: "?R \<noteq> []" and cur: "sa_current a = Some (rv_id (last ?R))"
      and op: "sa_present a \<longleftrightarrow> rv_closed (last ?R) = None" using tl by (auto simp: timeline_ok_def)
    have hist: "history (se_db s) (src, al_entity_id alert) = map view_of ?R"
      using history_mem [OF ids] fa by metis
    then have open_iff: "is_open (history (se_db s) (src, al_entity_id alert)) \<longleftrightarrow> sa_present a"
      using ne op by (simp add: is_open_def last_map view_of_def)
    have last: "vw_sha256 (last (history (se_db s) (src, al_entity_id alert))) = rv_sha256 (last ?R)"
      using ne hist by (simp add: last_map view_of_def)
    show ?thesis
    proof (cases "sa_present a")
      case False
      with rest Some cur have "next_revision_of (sa_id a) at run_id ?sha alert s1 = (Inr y, s')" by simp
      from next_revision_refines [OF inv conjunct1 [OF fa] _ _ _ _ _ _ this, of key] tl False open_iff hist
      show ?thesis by (auto simp: s1 ent observe_def seen_content_def close_last_def)
    next
      case True
      with rest Some cur obtain s2 cur_hash where
        q: "revision_hash (rv_id (last ?R)) (se_db s) = Some cur_hash" "se_db s2 = se_db s"
        and r: "(if cur_hash = ?sha then unchanged_revision (sa_id a) (rv_id (last ?R)) at run_id (al_entity_id alert)
            else bind_tx (update (Wrapf ''close changed revision for alert %q: %w'' [AStr (al_entity_id alert)])
               (update_revisions (\<lambda>r. rv_id r = rv_id (last ?R) \<and> rv_closed r = None)
                  (\<lambda>r. r\<lparr>rv_closed := Some (pg_time at), rv_closed_run := Some run_id\<rparr>)))
              (\<lambda>_. next_revision_of (sa_id a) at run_id ?sha alert)) s2 = (Inr y, s')"
        by (auto simp: bind_tx_Inr s1 dest!: query_row_Inr)
      have "last ?R \<in> set (db_revisions (se_db s))" using last_in_set [OF ne] by (simp add: revisions_of_def)
      then have sha: "cur_hash = rv_sha256 (last ?R)"
        using q(1) ids find_key_unique [of rv_id "db_revisions (se_db s)" "last ?R"]
        by (simp add: revision_hash_def ids_ok_def)
      show ?thesis
      proof (cases "cur_hash = ?sha")
        case same: True
        with r have "unchanged_revision (sa_id a) (rv_id (last ?R)) at run_id (sa_entity a) s2 = (Inr y, s')"
          by (simp add: ent)
        from unchanged_revision_refines [OF _ _ True cur this, of key] inv fa same sha True open_iff last
        show ?thesis by (simp add: q(2) ent observe_def seen_content_def)
      next
        case False
        with r obtain s3 where s3: "se_db s3 = update_revisions (\<lambda>r. rv_id r = rv_id (last ?R) \<and> rv_closed r = None)
            (\<lambda>r. r\<lparr>rv_closed := Some (pg_time at), rv_closed_run := Some run_id\<rparr>) (se_db s2)"
          and nx: "next_revision_of (sa_id a) at run_id ?sha alert s3 = (Inr y, s')"
          by (auto simp: bind_tx_Inr dest!: update_Inr)
        from changed_revision_refines [OF _ _ True cur s3 nx, of key] inv fa False sha True open_iff last
        show ?thesis by (simp add: q(2) ent observe_def seen_content_def)
      qed
    qed
  qed
qed

section \<open>The alerts the feed does not list\<close>

lemma present_open:
  assumes "alerts_inv db" and "a \<in> set (db_alerts db)"
  shows "is_open (history db (alert_key a)) \<longleftrightarrow> sa_present a"
    and "revisions_of db (sa_id a) \<noteq> []"
    and "sa_current a = Some (rv_id (last (revisions_of db (sa_id a))))"
  using assms history_mem [of db a]
  by (auto simp: alerts_inv_def timeline_ok_def is_open_def last_map view_of_def)

lemma current_owner:
  assumes inv: "alerts_inv db" and a: "a \<in> set (db_alerts db)" and b: "b \<in> set (db_alerts db)"
    and r: "r \<in> set (revisions_of db (sa_id a))" and cur: "sa_current b = Some (rv_id r)"
  shows "b = a" and "r = last (revisions_of db (sa_id a))"
proof -
  have ids: "ids_ok db" using inv by (simp add: alerts_inv_def)
  let ?l = "last (revisions_of db (sa_id b))"
  have "?l \<in> set (revisions_of db (sa_id b))" "rv_id ?l = rv_id r"
    using present_open(2,3) [OF inv b] cur by auto
  then have "?l \<in> set (db_revisions db)" "rv_alert ?l = sa_id b" by (auto simp: revisions_of_def)
  moreover have "r \<in> set (db_revisions db)" "rv_alert r = sa_id a" using r by (auto simp: revisions_of_def)
  ultimately have "?l = r" using ids \<open>rv_id ?l = rv_id r\<close> by (metis distinct_map_eqD ids_ok_def)
  with \<open>rv_alert ?l = sa_id b\<close> \<open>rv_alert r = sa_id a\<close> have "sa_id b = sa_id a" by simp
  with a b ids show "b = a" by (metis distinct_map_eqD ids_ok_def)
  with \<open>?l = r\<close> show "r = last (revisions_of db (sa_id a))" by simp
qed

lemma close_missing_refines:
  assumes inv: "alerts_inv (se_db s)" and run: "close_missing_alerts run_id src at ids s = (Inr y, s')"
  shows "alerts_inv (se_db s') \<and> kept (se_db s') = kept (se_db s) \<and>
    history (se_db s') key = (if fst key = src \<and> snd key \<notin> set ids
      then observe (pg_time at) None (history (se_db s) key) else history (se_db s) key)"
proof -
  let ?db = "se_db s" and ?db' = "se_db s'"
  let ?Q = "\<lambda>r. \<exists>a \<in> set (db_alerts ?db). sa_current a = Some (rv_id r) \<and> missing src ids a"
  let ?f = "\<lambda>r. r\<lparr>rv_closed := Some (pg_time at), rv_closed_run := Some run_id\<rparr>"
  let ?g = "\<lambda>a. if missing src ids a then a\<lparr>sa_present := False, sa_closed := Some (pg_time at)\<rparr> else a"
  let ?R = "\<lambda>a. revisions_of ?db (sa_id a)"
  have db': "?db' = update_alerts (missing src ids) (\<lambda>a. a\<lparr>sa_present := False, sa_closed := Some (pg_time at)\<rparr>)
      (update_revisions ?Q ?f ?db)"
    using run by (auto simp: close_missing_alerts_def bind_tx_Inr dest!: update_Inr)
  have ids: "ids_ok ?db" using inv by (simp add: alerts_inv_def)
  have alerts: "db_alerts ?db' = map ?g (db_alerts ?db)" and seq: "db_seq ?db' = db_seq ?db"
    and revs: "db_revisions ?db' = upd_where ?Q ?f (db_revisions ?db)" and kp: "kept ?db' = kept ?db"
    by (simp_all add: db' update_alerts_def update_revisions_def upd_where_def kept_def)
  have maps: "map rv_id (db_revisions ?db') = map rv_id (db_revisions ?db)"
    "map rv_alert (db_revisions ?db') = map rv_alert (db_revisions ?db)"
    unfolding revs by (simp_all add: map_upd_where_keep)
  have Q: "?Q r \<longleftrightarrow> missing src ids a \<and> r = last (?R a)"
    if "a \<in> set (db_alerts ?db)" "r \<in> set (?R a)" for a r
    using current_owner [OF inv that(1) _ that(2)] present_open(3) [OF inv that(1)] that by blast
  have R': "revisions_of ?db' (sa_id a) = (if missing src ids a then butlast (?R a) @ [?f (last (?R a))] else ?R a)"
    if a: "a \<in> set (db_alerts ?db)" for a
  proof -
    have flt: "revisions_of ?db' (sa_id a) = upd_where ?Q ?f (?R a)"
      unfolding revisions_of_def revs by (rule filter_upd_where) simp
    have dist: "distinct (?R a)"
      using ids by (simp add: ids_ok_def revisions_of_def distinct_map)
    have ne: "?R a \<noteq> []" by (rule present_open(2) [OF inv a])
    show ?thesis
    proof (cases "missing src ids a")
      case True
      have "\<not> ?Q r" if "r \<in> set (butlast (?R a))" for r
      proof -
        have "r \<noteq> last (?R a)" using dist ne that by (metis append_butlast_last_id distinct_map_snoc image_ident map_ident)
        with Q [OF a in_set_butlastD [OF that]] show ?thesis by simp
      qed
      moreover have "?Q (last (?R a))" using Q [OF a last_in_set [OF ne]] True by simp
      ultimately show ?thesis unfolding flt using True ne by (simp add: upd_where_last)
    next
      case False
      with Q [OF a] show ?thesis unfolding flt by (simp add: upd_where_none)
    qed
  qed
  have T: "timeline_ok (revisions_of ?db' (sa_id a)) (sa_present (?g a)) (sa_current (?g a))"
    if a: "a \<in> set (db_alerts ?db)" for a
    using inv a R' [OF a] by (auto simp: alerts_inv_def intro!: timeline_replace)
  have keep: "sa_id (?g a) = sa_id a" "alert_key (?g a) = alert_key a" for a by (auto simp: alert_key_def)
  have dist: "distinct (map rv_id (db_revisions ?db'))" using ids by (simp add: ids_ok_def maps)
  note own = owners_of_maps [OF ids maps]
  have own': "rv_id r < sq_revision (db_seq ?db') \<and> rv_alert r \<in> sa_id ` set (db_alerts ?db)"
    if "r \<in> set (db_revisions ?db')" for r using own that by (simp add: seq)
  note M = alerts_inv_map [OF inv alerts keep _ dist own' T]
  have "alerts_inv ?db'" by (rule M(1)) (simp_all add: seq)
  moreover have "history ?db' key = (if fst key = src \<and> snd key \<notin> set ids
      then observe (pg_time at) None (history ?db key) else history ?db key)"
  proof (cases "key \<in> alert_key ` set (db_alerts ?db)")
    case True
    then obtain a where a: "a \<in> set (db_alerts ?db)" "key = alert_key a" by auto
    have h: "history ?db' key = map view_of (revisions_of ?db' (sa_id a))"
      unfolding a(2) by (rule M(2)) (simp_all add: seq a(1))
    have miss: "missing src ids a \<longleftrightarrow> fst key = src \<and> snd key \<notin> set ids \<and> sa_present a"
      by (auto simp: missing_def a(2) alert_key_def)
    note P = present_open [OF inv a(1)]
    show ?thesis
    proof (cases "missing src ids a")
      case True
      with miss P(1) have "is_open (history ?db key)" by (simp add: a(2))
      with True h R' [OF a(1)] miss P(2) history_mem [OF ids a(1)] show ?thesis
        by (simp add: observe_def close_last_def a(2) map_butlast last_map view_of_def)
    next
      case False
      then have "history ?db' key = history ?db key"
        using h R' [OF a(1)] history_mem [OF ids a(1)] by (simp add: a(2))
      moreover have "\<not> is_open (history ?db key)" if "fst key = src \<and> snd key \<notin> set ids"
        using False miss that P(1) by (simp add: a(2))
      ultimately show ?thesis by (auto simp: observe_def close_last_def)
    qed
  next
    case False
    then have "history ?db' key = history ?db key" by (intro M(3)) (simp_all add: seq)
    with history_none [OF False] show ?thesis by (simp add: observe_def close_last_def is_open_def)
  qed
  ultimately show ?thesis using kp by simp
qed

section \<open>One feed\<close>

definition feed_content :: "repo_env \<Rightarrow> alert_summary list \<Rightarrow> (string \<times> string \<times> alert_columns) list" where
  "feed_content env alerts = map (\<lambda>a. (al_entity_id a, seen_content env a)) alerts"

text \<open>The specification of an applied feed: every entity of the source is observed once.\<close>

definition observe_feed ::
    "instant \<Rightarrow> string \<Rightarrow> (string \<times> string \<times> alert_columns) list \<Rightarrow>
     (string \<times> string \<Rightarrow> revision_view list) \<Rightarrow> string \<times> string \<Rightarrow> revision_view list" where
  "observe_feed at src content h key =
     (if fst key = src then observe at (map_of content (snd key)) (h key) else h key)"

lemma same_alert_tables:
  assumes "db_alerts db' = db_alerts db" and "db_revisions db' = db_revisions db"
    and "sq_alert (db_seq db') = sq_alert (db_seq db)" and "sq_revision (db_seq db') = sq_revision (db_seq db)"
  shows "alerts_inv db' = alerts_inv db" and "history db' = history db"
  using assms by (simp_all add: alerts_inv_def ids_ok_def revisions_of_def history_def find_alert_def fun_eq_iff
      cong: option.case_cong)

lemma each_alert_refines:
  assumes "alerts_inv (se_db s)"
    and "each_tx (\<lambda>alert. bind_tx (insert_alert_snapshot run_id alert) (\<lambda>_.
        reconcile_alert env run_id src at alert)) alerts s = (Inr y, s')"
  shows "alerts_inv (se_db s') \<and>
    (db_runs (se_db s') = db_runs (se_db s) \<and> sq_run (db_seq (se_db s')) = sq_run (db_seq (se_db s))) \<and>
    (\<exists>rows. db_snapshots (se_db s') = db_snapshots (se_db s) @ rows \<and>
       map (\<lambda>r. (sn_run r, sn_entity r, sn_columns r)) rows = map (\<lambda>a. (run_id, al_entity_id a, columns_of a)) alerts) \<and>
    distinct (map al_entity_id alerts) \<and>
    (\<forall>r \<in> set (db_snapshots (se_db s)). sn_run r = run_id \<longrightarrow> sn_entity r \<notin> al_entity_id ` set alerts) \<and>
    history (se_db s') key =
      (if fst key = src \<and> snd key \<in> al_entity_id ` set alerts
       then observe (pg_time at) (map_of (feed_content env alerts) (snd key)) (history (se_db s) key)
       else history (se_db s) key)"
  using assms
proof (induction alerts arbitrary: s)
  case Nil
  then show ?case by (simp add: ok_rules)
next
  case (Cons a alerts)
  from Cons.prems(2) obtain k s1 s2 where
    1: "insert_alert_snapshot run_id a s = (Inr k, s1)"
    and 2: "reconcile_alert env run_id src at a s1 = (Inr (), s2)"
    and 3: "each_tx (\<lambda>alert. bind_tx (insert_alert_snapshot run_id alert) (\<lambda>_.
        reconcile_alert env run_id src at alert)) alerts s2 = (Inr y, s')"
    by (auto simp: ok_rules)
  from insert_alert_snapshot_effect [OF 1] obtain row where
    sn: "db_snapshots (se_db s1) = db_snapshots (se_db s) @ [row]" "sn_run row = run_id"
      "sn_entity row = al_entity_id a" "sn_columns row = columns_of a"
    and fresh: "\<forall>r \<in> set (db_snapshots (se_db s)). \<not> (sn_run r = run_id \<and> sn_entity r = al_entity_id a)"
    and same: "db_alerts (se_db s1) = db_alerts (se_db s)" "db_revisions (se_db s1) = db_revisions (se_db s)"
      "sq_alert (db_seq (se_db s1)) = sq_alert (db_seq (se_db s))"
      "sq_revision (db_seq (se_db s1)) = sq_revision (db_seq (se_db s))" "db_runs (se_db s1) = db_runs (se_db s)"
      "sq_run (db_seq (se_db s1)) = sq_run (db_seq (se_db s))"
    by (auto simp: core_def)
  note T = same_alert_tables [OF same(1-4)]
  have inv1: "alerts_inv (se_db s1)" using Cons.prems(1) T(1) by simp
  note R = reconcile_alert_refines [OF inv1 2, of key]
  then have inv2: "alerts_inv (se_db s2)" by blast
  from R have kp: "db_runs (se_db s2) = db_runs (se_db s)" "db_snapshots (se_db s2) = db_snapshots (se_db s) @ [row]"
    "sq_run (db_seq (se_db s2)) = sq_run (db_seq (se_db s))"
    using sn same by (simp_all add: kept_def)
  have h2: "history (se_db s2) key = (if key = (src, al_entity_id a)
      then observe (pg_time at) (Some (seen_content env a)) (history (se_db s) key) else history (se_db s) key)"
    using R T(2) by simp
  note IH = Cons.IH [OF inv2 3]
  have nin: "al_entity_id a \<notin> al_entity_id ` set alerts"
    using IH kp(2) sn(2,3) by auto
  have "history (se_db s') key =
      (if fst key = src \<and> snd key \<in> al_entity_id ` set (a # alerts)
       then observe (pg_time at) (map_of (feed_content env (a # alerts)) (snd key)) (history (se_db s) key)
       else history (se_db s) key)"
    using conjunct2 [OF conjunct2 [OF conjunct2 [OF conjunct2 [OF conjunct2 [OF IH]]]]] h2 nin
    by (cases key) (auto simp: feed_content_def)
  moreover obtain rows where "db_snapshots (se_db s') = db_snapshots (se_db s2) @ rows"
    "map (\<lambda>r. (sn_run r, sn_entity r, sn_columns r)) rows = map (\<lambda>a. (run_id, al_entity_id a, columns_of a)) alerts"
    using IH by blast
  then have "db_snapshots (se_db s') = db_snapshots (se_db s) @ (row # rows) \<and>
      map (\<lambda>r. (sn_run r, sn_entity r, sn_columns r)) (row # rows) =
      map (\<lambda>a. (run_id, al_entity_id a, columns_of a)) (a # alerts)"
    using kp(2) sn by simp
  ultimately show ?case using IH kp nin fresh by auto
qed

lemma reconcile_feed_refines:
  assumes inv: "alerts_inv (se_db s)" and run: "reconcile_feed env run_id src at alerts s = (Inr y, s')"
  shows "alerts_inv (se_db s')"
    and "db_runs (se_db s') = db_runs (se_db s) \<and> sq_run (db_seq (se_db s')) = sq_run (db_seq (se_db s))"
    and "distinct (map al_entity_id alerts)"
    and "history (se_db s') = observe_feed (pg_time at) src (feed_content env alerts) (history (se_db s))"
    and "\<exists>rows. db_snapshots (se_db s') = db_snapshots (se_db s) @ rows \<and>
       map (\<lambda>r. (sn_run r, sn_entity r, sn_columns r)) rows = map (\<lambda>a. (run_id, al_entity_id a, columns_of a)) alerts"
proof -
  from run obtain s1 where
    1: "each_tx (\<lambda>alert. bind_tx (insert_alert_snapshot run_id alert) (\<lambda>_.
        reconcile_alert env run_id src at alert)) alerts s = (Inr (), s1)"
    and 2: "close_missing_alerts run_id src at (map al_entity_id alerts) s1 = (Inr y, s')"
    by (auto simp: reconcile_feed_def ok_rules)
  note E = each_alert_refines [OF inv 1]
  then have inv1: "alerts_inv (se_db s1)" by blast
  note C = close_missing_refines [OF inv1 2]
  show "alerts_inv (se_db s')" using C by blast
  show "db_runs (se_db s') = db_runs (se_db s) \<and> sq_run (db_seq (se_db s')) = sq_run (db_seq (se_db s))"
    using C E by (simp add: kept_def)
  show "distinct (map al_entity_id alerts)" using E by blast
  show "\<exists>rows. db_snapshots (se_db s') = db_snapshots (se_db s) @ rows \<and>
       map (\<lambda>r. (sn_run r, sn_entity r, sn_columns r)) rows = map (\<lambda>a. (run_id, al_entity_id a, columns_of a)) alerts"
    using C E by (simp add: kept_def)
  show "history (se_db s') = observe_feed (pg_time at) src (feed_content env alerts) (history (se_db s))"
  proof
    fix key
    have none: "map_of (feed_content env alerts) e = None \<longleftrightarrow> e \<notin> al_entity_id ` set alerts" for e
      by (auto simp: feed_content_def map_of_eq_None_iff image_image)
    have "history (se_db s1) key = (if fst key = src \<and> snd key \<in> al_entity_id ` set alerts
       then observe (pg_time at) (map_of (feed_content env alerts) (snd key)) (history (se_db s) key)
       else history (se_db s) key)" using E [of key] by blast
    with C [of key] none [of "snd key"]
    show "history (se_db s') key = observe_feed (pg_time at) src (feed_content env alerts) (history (se_db s)) key"
      by (auto simp: observe_feed_def)
  qed
qed

end
