(* ===== verification/AlertRuns.thy ===== *)
theory AlertRuns
  imports AlertHistory
begin

text \<open>
  \<open>CompleteAlertRun\<close> as a whole: what a call that returned did to the database, on every
  outcome of its commit, and the consequences for the histories (time never runs backwards,
  closed revisions are immutable, the open revisions are exactly the entities of the feed).
\<close>

section \<open>The runs\<close>

definition run_ok :: "run_row \<Rightarrow> bool" where
  "run_ok r \<longleftrightarrow> attempt_ok r \<and> ended_ok r \<and>
     (ir_applied r \<longrightarrow> at_status r = Succeeded \<and> at_retrieved r \<noteq> None \<and> at_sha256 r \<noteq> None)"

definition runs_inv :: "db \<Rightarrow> bool" where
  "runs_inv db \<longleftrightarrow> distinct (map at_id (db_runs db)) \<and>
     (\<forall>r \<in> set (db_runs db). at_id r < sq_run (db_seq db) \<and> run_ok r)"

text \<open>An \<open>UPDATE\<close> of a run that succeeded.\<close>

lemma update_runs_Inr:
  assumes "update_runs p f db = (Inr n, db')"
  shows "db' = db\<lparr>db_runs := upd_where p f (db_runs db)\<rparr>" and "n = affected p (db_runs db)"
    and "\<And>r. r \<in> set (upd_where p f (db_runs db)) \<Longrightarrow> attempt_ok r"
  using assms by (auto simp: update_runs_def Let_def list_all_iff split: if_splits)

lemma runs_inv_update:
  assumes "runs_inv db" and "update_runs p f db = (Inr n, db')" and "\<And>r. at_id (f r) = at_id r"
    and "\<And>r. r \<in> set (db_runs db) \<Longrightarrow> p r \<Longrightarrow> ir_applied (f r) \<Longrightarrow>
       at_status (f r) = Succeeded \<and> at_retrieved (f r) \<noteq> None \<and> at_sha256 (f r) \<noteq> None"
    and "\<And>r. r \<in> set (db_runs db) \<Longrightarrow> p r \<Longrightarrow> ended_ok (f r)"
  shows "runs_inv db'"
proof -
  note U = update_runs_Inr [OF assms(2)]
  have "at_id r < sq_run (db_seq db) \<and> run_ok r" if "r \<in> set (upd_where p f (db_runs db))" for r
    using U(3) [OF that] that assms(1,3,4,5) by (auto simp: set_upd_where runs_inv_def run_ok_def)
  then show ?thesis
    using assms(1,3) by (simp add: U(1) runs_inv_def map_upd_where_keep)
qed

lemma run_status_of_mem:
  "runs_inv db \<Longrightarrow> r \<in> set (db_runs db) \<Longrightarrow> run_status_of (at_id r) db = Some (at_status r)"
  using find_key_unique [of at_id "db_runs db" r] by (simp add: run_status_of_def runs_inv_def)

section \<open>Which feed is the latest\<close>

lemma max_row_greatest: "max_row k rs = Some r \<Longrightarrow> r \<in> set rs \<and> (\<forall>x \<in> set rs. k x \<le> k r)"
proof (induction rs arbitrary: r)
  case Nil
  then show ?case by simp
next
  case (Cons x rs)
  show ?case
  proof (cases "max_row k rs")
    case None
    then have "rs = []" by (cases rs) (auto split: option.splits if_splits)
    with Cons.prems show ?thesis by simp
  next
    case (Some y)
    with Cons.IH [OF Some] Cons.prems show ?thesis by (auto split: if_splits)
  qed
qed

lemma max_row_None: "max_row k rs = None \<longleftrightarrow> rs = []"
  by (cases rs) (auto split: option.splits)

lemma latest_applied_Inr:
  assumes "latest_applied_feed run_id src s = (Inr latest, s')" and "runs_inv (se_db s)"
  shows "se_db s' = se_db s"
    and "latest = None \<Longrightarrow> applied_runs run_id src (se_db s) = []"
    and "latest = Some l \<Longrightarrow> r \<in> set (applied_runs run_id src (se_db s)) \<Longrightarrow>
      \<exists>t. run_observed r = Some t \<and> t \<le> af_observed l"
    and "latest = Some l \<Longrightarrow> \<exists>r \<in> set (applied_runs run_id src (se_db s)).
      run_observed r = Some (af_observed l) \<and> at_retrieved r = Some (af_retrieved l) \<and> at_sha256 r = Some (af_sha256 l)"
proof -
  have obs: "\<exists>t. run_observed r = Some t" if "r \<in> set (applied_runs run_id src (se_db s))" for r
    using that assms(2) by (auto simp: applied_runs_def runs_inv_def run_ok_def run_observed_def split: option.splits)
  note L = stmt_Inr [OF assms(1) [unfolded latest_applied_feed_def]]
  show "se_db s' = se_db s" using L by simp
  show "latest = None \<Longrightarrow> applied_runs run_id src (se_db s) = []"
    using L by (auto simp: max_row_None split: option.splits)
  { assume "latest = Some l"
    with L obtain m where m: "max_row applied_key (applied_runs run_id src (se_db s)) = Some m"
      "run_observed m = Some (af_observed l)" "at_retrieved m = Some (af_retrieved l)" "at_sha256 m = Some (af_sha256 l)"
      by (auto split: option.splits)
    note G = max_row_greatest [OF m(1)]
    show "\<exists>r \<in> set (applied_runs run_id src (se_db s)).
      run_observed r = Some (af_observed l) \<and> at_retrieved r = Some (af_retrieved l) \<and> at_sha256 r = Some (af_sha256 l)"
      using G m by blast
    show "\<exists>t. run_observed r = Some t \<and> t \<le> af_observed l"
      if r: "r \<in> set (applied_runs run_id src (se_db s))"
      using obs [OF r] G r m(2) by (fastforce simp: applied_key_def null_key_def less_eq_prod_def) }
qed

section \<open>The body of the transaction\<close>

lemma source_url_Inr:
  assumes "ingestion_run_source_url run_id s = (Inr src, s')"
  shows "se_db s' = se_db s" and "\<exists>r \<in> set (db_runs (se_db s)). running_archived run_id r \<and> at_source_url r = src"
  using query_row_Inr [OF assms [unfolded ingestion_run_source_url_def]]
  by (auto dest!: find_Some_mem simp: running_archived_def)

text \<open>A run is marked in one row: the one that was running and archived.\<close>

lemma mark_run_Inr:
  assumes "bind_tx (stmt w (update_runs (running_archived run_id) f)) (require_one_row op) s = (Inr y, s')"
  shows "se_db s' = (se_db s)\<lparr>db_runs := upd_where (running_archived run_id) f (db_runs (se_db s))\<rparr>"
    and "update_runs (running_archived run_id) f (se_db s) = (Inr 1, se_db s')"
proof -
  from assms obtain n s1 where "update_runs (running_archived run_id) f (se_db s) = (Inr n, se_db s1)" "n = 1" "s' = s1"
    by (auto simp: ok_rules dest!: stmt_Inr)
  then show 2: "update_runs (running_archived run_id) f (se_db s) = (Inr 1, se_db s')" by simp
  show "se_db s' = (se_db s)\<lparr>db_runs := upd_where (running_archived run_id) f (db_runs (se_db s))\<rparr>"
    by (rule update_runs_Inr(1) [OF 2])
qed

text \<open>No applied feed of the source is newer than an observation that is not skipped.\<close>

definition not_older :: "row_id \<Rightarrow> string \<Rightarrow> instant \<Rightarrow> db \<Rightarrow> bool" where
  "not_older run_id src at db \<longleftrightarrow>
     (\<forall>r \<in> set (applied_runs run_id src db). \<exists>t. run_observed r = Some t \<and> t \<le> at)"

lemma skip_reason_None:
  assumes "skip_reason latest result summary at sha = None" and "latest_applied_feed run_id src s = (Inr latest, s')"
    and "runs_inv (se_db s)"
  shows "not_older run_id src at (se_db s)"
proof (cases latest)
  case None
  with latest_applied_Inr(2) [OF assms(2,3)] show ?thesis by (simp add: not_older_def)
next
  case (Some l)
  with assms(1) have "af_observed l \<le> at" by (auto simp: skip_reason_def split: if_splits)
  with latest_applied_Inr(3) [OF assms(2,3) Some] show ?thesis
    unfolding not_older_def by (meson order_trans)
qed

text \<open>What \<open>complete_body\<close> did when it returned.\<close>

lemma complete_body_skipped:
  assumes "complete_body env now run_id result summary ts sha at s = (Inr True, s')" and "runs_inv (se_db s)"
  shows "\<exists>r reason. r \<in> set (db_runs (se_db s)) \<and> running_archived run_id r \<and>
    (\<exists>x \<in> set (applied_runs run_id (at_source_url r) (se_db s)).
       (\<exists>t. run_observed x = Some t \<and> t \<ge> at \<and> reason = ''feed observation is older than the latest applied run'') \<or>
       (at_sha256 x = Some sha \<and> reason = ''byte-identical to the latest applied payload'')) \<and>
    se_db s' = (se_db s)\<lparr>db_runs := upd_where (running_archived run_id)
       (skipped_row now result summary ts sha reason) (db_runs (se_db s))\<rparr> \<and> runs_inv (se_db s')"
proof -
  from assms(1) obtain s0 src s1 latest s2 reason s3 where
    0: "se_db s0 = se_db s" and 1: "ingestion_run_source_url run_id s0 = (Inr src, s1)"
    and 2: "latest_applied_feed run_id src s1 = (Inr latest, s2)"
    and 3: "skip_reason latest result summary at sha = Some reason"
    and 4: "update_skipped_run now run_id result summary ts sha reason s2 = (Inr (), s3)" "s' = s3"
    unfolding complete_body_def bind_tx_Inr
    by (auto split: option.splits simp: ok_rules dest!: update_Inr)
  note S = source_url_Inr [OF 1]
  have db1: "se_db s1 = se_db s" using S 0 by simp
  have inv1: "runs_inv (se_db s1)" using assms(2) db1 by simp
  note L = latest_applied_Inr [OF 2 inv1]
  obtain l where l: "latest = Some l" using 3 by (auto simp: skip_reason_def split: option.splits)
  note M = mark_run_Inr [OF 4(1) [unfolded update_skipped_run_def]]
  have "runs_inv (se_db s3)"
    by (rule runs_inv_update [OF _ M(2)])
      (use inv1 L(1) in \<open>auto simp: skipped_row_def feed_columns_def running_archived_def runs_inv_def run_ok_def ended_ok_def\<close>)
  moreover from L(4) [OF l] obtain x where "x \<in> set (applied_runs run_id src (se_db s))"
    "run_observed x = Some (af_observed l)" "at_sha256 x = Some (af_sha256 l)" using db1 by auto
  moreover have "af_observed l \<ge> at \<and> reason = ''feed observation is older than the latest applied run'' \<or>
      af_sha256 l = sha \<and> reason = ''byte-identical to the latest applied payload''"
    using 3 l by (auto simp: skip_reason_def split: if_splits)
  ultimately show ?thesis using S M(1) 0 4(2) L(1) db1 by auto
qed

lemma complete_body_applied:
  assumes "complete_body env now run_id result summary ts sha at s = (Inr False, s')"
    and "runs_inv (se_db s)" and "alerts_inv (se_db s)"
  shows "\<exists>r. r \<in> set (db_runs (se_db s)) \<and> running_archived run_id r \<and>
    not_older run_id (at_source_url r) at (se_db s) \<and>
    distinct (map al_entity_id (fe_alerts summary)) \<and>
    db_runs (se_db s') = upd_where (running_archived run_id) (applied_row now result summary ts sha) (db_runs (se_db s)) \<and>
    history (se_db s') = observe_feed (pg_time at) (at_source_url r) (feed_content env (fe_alerts summary)) (history (se_db s)) \<and>
    runs_inv (se_db s') \<and> alerts_inv (se_db s')"
proof -
  from assms(1) obtain s0 src s1 latest s2 s3 s4 where
    0: "se_db s0 = se_db s" and 1: "ingestion_run_source_url run_id s0 = (Inr src, s1)"
    and 2: "latest_applied_feed run_id src s1 = (Inr latest, s2)"
    and 3: "skip_reason latest result summary at sha = None"
    and 4: "reconcile_feed env run_id src at (fe_alerts summary) s2 = (Inr (), s3)"
    and 5: "mark_succeeded now run_id result summary ts sha s3 = (Inr (), s4)" "s' = s4"
    unfolding complete_body_def bind_tx_Inr
    by (auto split: option.splits simp: ok_rules dest!: update_Inr)
  note S = source_url_Inr [OF 1]
  have db1: "se_db s1 = se_db s" using S 0 by simp
  have inv1: "runs_inv (se_db s1)" using assms(2) db1 by simp
  note L = latest_applied_Inr [OF 2 inv1]
  have db2: "se_db s2 = se_db s" using L(1) db1 by simp
  have "alerts_inv (se_db s2)" using assms(3) db2 by simp
  note R = reconcile_feed_refines [OF this 4]
  note M = mark_run_Inr [OF 5(1) [unfolded mark_succeeded_def]]
  note T = same_alert_tables [of "se_db s4" "se_db s3"]
  have "runs_inv (se_db s3)" using assms(2) R(2) by (simp add: runs_inv_def db2)
  then have "runs_inv (se_db s4)"
    by (rule runs_inv_update [OF _ M(2)])
      (auto simp: applied_row_def feed_columns_def ended_ok_def)
  moreover have "alerts_inv (se_db s4)" "history (se_db s4) = history (se_db s3)"
    using T R(1) M(1) by simp_all
  moreover have "not_older run_id src at (se_db s)" using skip_reason_None [OF 3 2 inv1] db1 by simp
  moreover obtain r where "r \<in> set (db_runs (se_db s))" "running_archived run_id r" "at_source_url r = src"
    using S(2) 0 by auto
  ultimately show ?thesis using R(2-4) M(1) 5(2) db2 by auto
qed

section \<open>The call\<close>

text \<open>After the body the run has the expected status; after a rollback it is still running.\<close>

lemma running_status:
  "runs_inv db \<Longrightarrow> r \<in> set (db_runs db) \<Longrightarrow> running_archived run_id r \<Longrightarrow> run_status_of run_id db = Some Running"
  using run_status_of_mem [of db r] by (simp add: running_archived_def)

lemma updated_status:
  assumes "runs_inv db'" and "db_runs db' = upd_where (running_archived run_id) f (db_runs db)"
    and "r \<in> set (db_runs db)" and "running_archived run_id r" and "\<And>r. at_id (f r) = at_id r \<and> at_status (f r) = st"
  shows "run_status_of run_id db' = Some st"
proof -
  have "f r \<in> set (db_runs db')" using assms(2-4) by (auto simp: set_upd_where)
  from run_status_of_mem [OF assms(1) this] show ?thesis
    using assms(4,5) by (simp add: running_archived_def)
qed

lemma complete_body_status:
  assumes "complete_body env now run_id result summary ts sha at \<lparr>se_db = db, se_faults = fs\<rparr> = (Inr skipped, s)"
    and "runs_inv db" and "alerts_inv db"
  shows "run_status_of run_id db = Some Running"
    and "run_status_of run_id (se_db s) = Some (if skipped then Skipped else Succeeded)"
proof -
  have "run_status_of run_id db = Some Running \<and>
      run_status_of run_id (se_db s) = Some (if skipped then Skipped else Succeeded)"
  proof (cases skipped)
    case True
    then show ?thesis
      using complete_body_skipped [of env now run_id result summary ts sha at _ s] assms
      by (fastforce dest: running_status updated_status [where st = Skipped and db = db]
          simp: skipped_row_def feed_columns_def)
  next
    case False
    then obtain r where r: "r \<in> set (db_runs db)" "running_archived run_id r"
      and u: "db_runs (se_db s) = upd_where (running_archived run_id) (applied_row now result summary ts sha) (db_runs db)"
        "runs_inv (se_db s)"
      using complete_body_applied [of env now run_id result summary ts sha at "\<lparr>se_db = db, se_faults = fs\<rparr>" s] assms
      by auto
    have "run_status_of run_id (se_db s) = Some Succeeded"
      by (rule updated_status [OF u(2,1) r]) (simp add: applied_row_def feed_columns_def)
    with False running_status [OF assms(2) r] show ?thesis by simp
  qed
  then show "run_status_of run_id db = Some Running"
    and "run_status_of run_id (se_db s) = Some (if skipped then Skipped else Succeeded)" by auto
qed

text \<open>A call that returned: the body ran to its end and the database is what it left.\<close>

lemma complete_alert_run_Inr:
  assumes "complete_alert_run env io run_id result summary db = (Inr skipped, db')"
    and "runs_inv db" and "alerts_inv db"
  obtains ts at s where "fe_incrementality summary = ''FULL_DATASET''"
    "timestamp_value (fe_timestamp summary) = Inr ts"
    "observation_time (fe_timestamp summary) (fr_retrieved result) = Inr at"
    "complete_body env (io_now io) run_id result summary ts (sha256_hex env (fr_body result)) at
       \<lparr>se_db = db, se_faults = io_faults io\<rparr> = (Inr skipped, s)" "db' = se_db s"
proof -
  from assms(1) obtain ts at s where 1: "fe_incrementality summary = ''FULL_DATASET''"
    "timestamp_value (fe_timestamp summary) = Inr ts"
    "observation_time (fe_timestamp summary) (fr_retrieved result) = Inr at"
    and body: "complete_body env (io_now io) run_id result summary ts (sha256_hex env (fr_body result)) at
       \<lparr>se_db = db, se_faults = io_faults io\<rparr> = (Inr skipped, s)"
    and cm: "commit_run io run_id (if skipped then Skipped else Succeeded) db (se_db s) = (Inr (), db')"
    unfolding complete_alert_run_def
    by (auto split: if_splits sum.splits option.splits prod.splits)
  note st = complete_body_status [OF body assms(2,3)]
  have "run_status_of run_id (rollback db (se_db s)) = Some Running"
    using st(1) by (simp add: run_status_of_def)
  then have "db' = se_db s"
    using cm by (auto simp: commit_run_def commit_tx_def run_status_query_def
        split: outcome.splits prod.splits option.splits if_splits)
  with that 1 body show thesis by blast
qed

text \<open>A call that failed: nothing is changed, unless the outcome of its commit is unknown.\<close>

lemma complete_alert_run_Inl:
  assumes "complete_alert_run env io run_id result summary db = (Inl e, db')"
    and "runs_inv db" and "alerts_inv db"
  shows "same_tables db db' \<or> (\<exists>c st. e = CommitOutcomeError c st)"
proof (rule ccontr)
  assume neg: "\<not> ?thesis"
  have refl: "same_tables db db" by (simp add: same_tables_def)
  have rb: "same_tables db (rollback db x)" for x by simp
  from assms(1) neg refl rb obtain ts at s skipped where
    body: "complete_body env (io_now io) run_id result summary ts (sha256_hex env (fr_body result)) at
       \<lparr>se_db = db, se_faults = io_faults io\<rparr> = (Inr skipped, s)"
    and cm: "commit_run io run_id (if skipped then Skipped else Succeeded) db (se_db s) = (Inl e, db')"
    unfolding complete_alert_run_def
    by (auto split: if_splits sum.splits option.splits prod.splits)
  note st = complete_body_status [OF body assms(2,3)]
  from cm neg show False
    using st(2) by (auto simp: commit_run_def commit_tx_def run_status_query_def
        split: outcome.splits prod.splits option.splits if_splits)
qed

text \<open>An applied feed, by the run it completed.\<close>

lemma complete_run_applied:
  assumes "complete_alert_run env io run_id result summary db = (Inr False, db')"
    and "runs_inv db" and "alerts_inv db"
  obtains r at where "r \<in> set (db_runs db)" "running_archived run_id r"
    "observation_time (fe_timestamp summary) (fr_retrieved result) = Inr at"
    "not_older run_id (at_source_url r) at db" "distinct (map al_entity_id (fe_alerts summary))"
    "history db' = observe_feed (pg_time at) (at_source_url r) (feed_content env (fe_alerts summary)) (history db)"
proof -
  from assms obtain ts at s where at: "observation_time (fe_timestamp summary) (fr_retrieved result) = Inr at"
    and body: "complete_body env (io_now io) run_id result summary ts (sha256_hex env (fr_body result)) at
       \<lparr>se_db = db, se_faults = io_faults io\<rparr> = (Inr False, s)" and db': "db' = se_db s"
    by (rule complete_alert_run_Inr)
  from complete_body_applied [OF body] assms(2,3) db' at that show thesis by auto
qed

end
