(* ===== verification/AlertTimeline.thy ===== *)
theory AlertTimeline
  imports AlertRuns
begin

text \<open>
  What an applied feed means for the histories: the open revisions are those of the entities
  in the feed, closed revisions never change, time never runs backwards, unchanged content
  opens no revision. The facts about \<open>observe\<close> are proved on the specification and carried to
  the tables by the refinement.
\<close>

section \<open>Observations\<close>

lemma is_open_observe: "is_open (observe at seen h) \<longleftrightarrow> seen \<noteq> None"
  by (auto simp: observe_def close_last_def is_open_def split: option.splits prod.splits)

lemma observe_nonempty: "seen \<noteq> None \<Longrightarrow> observe at seen h \<noteq> []"
  by (auto simp: observe_def split: option.splits prod.splits)

text \<open>The times of a history in the order they were recorded.\<close>

definition view_times :: "revision_view \<Rightarrow> instant list" where
  "view_times v = [vw_first v, vw_last v] @ (case vw_closed v of None \<Rightarrow> [] | Some t \<Rightarrow> [t])"

definition times :: "revision_view list \<Rightarrow> instant list" where
  "times h = concat (map view_times h)"

lemma times_simps [simp]: "times [] = []" "times (v # h) = view_times v @ times h" "times (g @ h) = times g @ times h"
  by (simp_all add: times_def)

lemma open_split: "is_open h \<Longrightarrow> h = butlast h @ [last h] \<and> vw_closed (last h) = None"
  by (auto simp: is_open_def)

lemma close_last_times:
  assumes "sorted (times h)" and "\<forall>t \<in> set (times h). t \<le> at"
  shows "sorted (times (close_last at h)) \<and> (\<forall>t \<in> set (times (close_last at h)). t \<le> at)"
proof (cases "is_open h")
  case True
  from open_split [OF True] obtain g v where "h = g @ [v]" "vw_closed v = None" by blast
  with True assms show ?thesis by (auto simp: close_last_def view_times_def sorted_append)
next
  case False
  with assms show ?thesis by (simp add: close_last_def)
qed

lemma observe_times:
  assumes "sorted (times h)" and "\<forall>t \<in> set (times h). t \<le> at"
  shows "sorted (times (observe at seen h)) \<and> (\<forall>t \<in> set (times (observe at seen h)). t \<le> at)"
proof (cases seen)
  case None
  with close_last_times [OF assms] show ?thesis by (simp add: observe_def)
next
  case (Some sc)
  obtain sha cols where sc: "sc = (sha, cols)" by fastforce
  show ?thesis
  proof (cases "is_open h \<and> vw_sha256 (last h) = sha")
    case True
    with open_split [of h] obtain g v where h: "h = g @ [v]" "vw_closed v = None" by blast
    with True Some sc have "observe at seen h = g @ [v\<lparr>vw_last := at\<rparr>]" by (simp add: observe_def)
    with assms h show ?thesis by (auto simp: view_times_def sorted_append)
  next
    case False
    with Some sc close_last_times [OF assms] show ?thesis
      by (auto simp: observe_def view_times_def sorted_append)
  qed
qed

text \<open>Revisions are only added at the end, and only an open one is changed.\<close>

definition extends :: "revision_view list \<Rightarrow> revision_view list \<Rightarrow> bool" where
  "extends h h' \<longleftrightarrow> length h \<le> length h' \<and>
     (\<forall>i < length h. vw_sha256 (h' ! i) = vw_sha256 (h ! i) \<and> vw_columns (h' ! i) = vw_columns (h ! i) \<and>
        vw_first (h' ! i) = vw_first (h ! i) \<and> (vw_closed (h ! i) \<noteq> None \<longrightarrow> h' ! i = h ! i))"

lemma extends_refl: "extends h h"
  by (simp add: extends_def)

lemma extends_trans: "extends g h \<Longrightarrow> extends h k \<Longrightarrow> extends g k"
  unfolding extends_def by (metis order_trans order_less_le_trans)

lemma extends_append: "extends h (h @ g)"
  by (simp add: extends_def nth_append)

lemma extends_last:
  assumes "is_open h" and "vw_sha256 v = vw_sha256 (last h)" and "vw_columns v = vw_columns (last h)"
    and "vw_first v = vw_first (last h)"
  shows "extends h (butlast h @ [v])"
proof -
  from open_split [OF assms(1)] obtain g w where "h = g @ [w]" "vw_closed w = None" by blast
  with assms show ?thesis by (auto simp: extends_def nth_append less_Suc_eq)
qed

lemma extends_close: "extends h (close_last at h)"
  using extends_last [of h "(last h)\<lparr>vw_closed := Some at\<rparr>"] by (simp add: close_last_def extends_refl)

lemma extends_observe: "extends h (observe at seen h)"
  using extends_last [of h "(last h)\<lparr>vw_last := at\<rparr>"] extends_close [of h at]
    extends_trans [OF extends_close extends_append]
  by (auto simp: observe_def split: option.splits prod.splits)

lemma extends_feed: "extends (h key) (observe_feed at src content h key)"
  by (simp add: observe_feed_def extends_observe extends_refl)

text \<open>The content of the open revision seen again.\<close>

lemma observe_unchanged:
  assumes "is_open h" and "vw_sha256 (last h) = sha"
  shows "observe at (Some (sha, cols)) h = butlast h @ [(last h)\<lparr>vw_last := at\<rparr>]"
  using assms by (simp add: observe_def)

lemma last_observed: "vw_sha256 (last (observe at (Some (sha, cols)) h)) = sha"
  by (simp add: observe_def)

section \<open>The open revisions of a source\<close>

definition open_entities :: "db \<Rightarrow> string \<Rightarrow> string set" where
  "open_entities db src = {e. is_open (history db (src, e))}"

lemma content_keys: "map_of (feed_content env alerts) e \<noteq> None \<longleftrightarrow> e \<in> set (map al_entity_id alerts)"
  by (force simp: feed_content_def map_of_eq_None_iff)

lemma open_after_feed:
  "history db' = observe_feed at src (feed_content env alerts) (history db) \<Longrightarrow>
   open_entities db' src = set (map al_entity_id alerts)"
  unfolding open_entities_def by (simp add: observe_feed_def is_open_observe content_keys del: set_map not_None_eq)

lemma open_elsewhere:
  "history db' = observe_feed at src content (history db) \<Longrightarrow> src' \<noteq> src \<Longrightarrow>
   open_entities db' src' = open_entities db src'"
  by (simp add: open_entities_def observe_feed_def)

section \<open>Time\<close>

text \<open>The runs whose feed was applied to a source.\<close>

definition applied_to :: "string \<Rightarrow> run_row \<Rightarrow> bool" where
  "applied_to src r \<longleftrightarrow> at_source_url r = src \<and> at_status r = Succeeded \<and> ir_applied r"

definition chronology_inv :: "db \<Rightarrow> bool" where
  "chronology_inv db \<longleftrightarrow>
     (\<forall>r \<in> set (db_runs db). ir_applied r \<longrightarrow> (\<exists>t. run_observed r = Some (pg_time t))) \<and>
     (\<forall>key. sorted (times (history db key)) \<and>
        (\<forall>t \<in> set (times (history db key)).
           \<exists>r \<in> set (db_runs db). applied_to (fst key) r \<and> (\<exists>u. run_observed r = Some u \<and> t \<le> u)))"

lemma chronology_invD:
  assumes "chronology_inv db"
  shows "r \<in> set (db_runs db) \<Longrightarrow> ir_applied r \<Longrightarrow> \<exists>t. run_observed r = Some (pg_time t)"
    and "sorted (times (history db key))"
    and "t \<in> set (times (history db key)) \<Longrightarrow>
      \<exists>r \<in> set (db_runs db). applied_to (fst key) r \<and> (\<exists>u. run_observed r = Some u \<and> t \<le> u)"
  using assms unfolding chronology_inv_def by blast+

text \<open>Runs change without being unapplied, histories stay: the chronology stays.\<close>

lemma chronology_inv_keep:
  assumes "chronology_inv db" and "history db' = history db"
    and "\<And>r. r \<in> set (db_runs db') \<Longrightarrow> ir_applied r \<Longrightarrow> r \<in> set (db_runs db)"
    and "\<And>r. r \<in> set (db_runs db) \<Longrightarrow> ir_applied r \<Longrightarrow> r \<in> set (db_runs db')"
  shows "chronology_inv db'"
  using assms unfolding chronology_inv_def applied_to_def by metis

lemma observed_feed_row:
  assumes "timestamp_value ts = Inr feed_ts" and "observation_time ts (fr_retrieved result) = Inr at"
  shows "run_observed (applied_row now result summary feed_ts sha r) = Some (pg_time at)"
  using assms
  by (auto simp: timestamp_value_def observation_time_def run_observed_def applied_row_def feed_columns_def
      split: option.splits if_splits)

lemma chronology_inv_applied:
  assumes inv: "chronology_inv db" and runs: "runs_inv db"
    and r: "r \<in> set (db_runs db)" "running_archived run_id r" and src: "src = at_source_url r"
    and old: "not_older run_id src at db"
    and runs': "db_runs db' = upd_where (running_archived run_id) f (db_runs db)"
    and f: "\<And>r. ir_applied (f r) \<and> at_status (f r) = Succeeded \<and> at_source_url (f r) = at_source_url r \<and>
      run_observed (f r) = Some (pg_time at)"
    and hist: "history db' = observe_feed (pg_time at) src content (history db)"
  shows "chronology_inv db'"
proof -
  have new: "f r \<in> set (db_runs db')" "applied_to src (f r)"
    using r f src by (auto simp: runs' set_upd_where applied_to_def)
  have not_run: "\<not> running_archived run_id x" if "ir_applied x" "x \<in> set (db_runs db)" for x
    using that runs by (auto simp: running_archived_def runs_inv_def run_ok_def)
  have stay: "x \<in> set (db_runs db')" if "x \<in> set (db_runs db)" "applied_to s x" for x s
    using that not_run by (force simp: runs' set_upd_where applied_to_def)
  have rowtimes: "\<exists>t. run_observed x = Some (pg_time t)" if "x \<in> set (db_runs db')" "ir_applied x" for x
    using that f chronology_invD(1) [OF inv] by (auto simp: runs' set_upd_where split: if_splits)
  have before: "t \<le> pg_time at" if t: "t \<in> set (times (history db key))" and "fst key = src" for t key
  proof -
    from chronology_invD(3) [OF inv t] that obtain x u where x: "x \<in> set (db_runs db)" "applied_to src x"
      "run_observed x = Some u" "t \<le> u" by auto
    then have "at_id x \<noteq> run_id"
      using r runs by (auto simp: applied_to_def running_archived_def runs_inv_def dest: distinct_map_eqD)
    with x have "x \<in> set (applied_runs run_id src db)" by (simp add: applied_runs_def applied_to_def)
    with old x have "u \<le> at" by (auto simp: not_older_def)
    moreover obtain v where "u = pg_time v" using chronology_invD(1) [OF inv] x by (force simp: applied_to_def)
    ultimately have "u \<le> pg_time at" using pg_time_mono pg_time_idem by metis
    with x show ?thesis by simp
  qed
  have key: "sorted (times (history db' key)) \<and> (\<forall>t \<in> set (times (history db' key)).
      \<exists>r \<in> set (db_runs db'). applied_to (fst key) r \<and> (\<exists>u. run_observed r = Some u \<and> t \<le> u))" for key
  proof (cases "fst key = src")
    case True
    have "sorted (times (history db' key)) \<and> (\<forall>t \<in> set (times (history db' key)). t \<le> pg_time at)"
      using observe_times [OF chronology_invD(2) [OF inv, of key]] before True
      by (simp add: hist observe_feed_def)
    with new f True show ?thesis by blast
  next
    case False
    then have "history db' key = history db key" by (simp add: hist observe_feed_def)
    with chronology_invD(2,3) [OF inv] stay show ?thesis by metis
  qed
  with rowtimes show ?thesis unfolding chronology_inv_def by blast
qed

end
