(* ===== verification/Storage.thy ===== *)
theory Storage
  imports GoStrings
begin

text \<open>
  \<open>internal/storage\<close>: object keys (\<open>key.go\<close>), the validation of keys and requests, and the
  metadata of a stored object (\<open>storage.go\<close>). The formatting of a time in UTC is written out:
  the civil date of a day number, and the layouts the keys use.
\<close>

section \<open>Hashes and keys\<close>

definition lower_hex :: "char \<Rightarrow> bool" where
  "lower_hex c = (is_digit c \<or> (97 \<le> ord c \<and> ord c \<le> 102))"

text \<open>The pattern \<open>^[0-9a-f]{64}$\<close>; in Go \<open>$\<close> is the end of the text.\<close>

definition hash_pattern :: "string \<Rightarrow> bool" where
  "hash_pattern s = (length s = 64 \<and> list_all lower_hex s)"

definition segment_error :: "string \<Rightarrow> go_error option" where
  "segment_error seg =
     (if seg = [] \<or> seg = ''.'' \<or> seg = ''..''
      then Some (Errorf ''storage key contains an invalid path segment'' [])
      else if list_ex (\<lambda>r. r < 32 \<or> r = 127) (runes seg)
      then Some (Errorf ''storage key contains a control character'' [])
      else None)"

fun segments_error :: "string list \<Rightarrow> go_error option" where
  "segments_error [] = None"
| "segments_error (seg # segs) =
     (case segment_error seg of Some e \<Rightarrow> Some e | None \<Rightarrow> segments_error segs)"

definition validate_key :: "string \<Rightarrow> go_error option" where
  "validate_key key =
     (if key = [] then Some (Errorf ''storage key is required'' [])
      else if has_prefix key ''/'' \<or> CHR 0x5C \<in> set key
      then Some (Errorf ''storage key must be a relative slash-separated path'' [])
      else segments_error (split_on CHR ''/'' key))"

section \<open>Objects\<close>

record storage_source =
  so_size :: nat
  so_open :: "string result"

record put_request =
  pq_key :: string
  pq_source :: "storage_source option"
  pq_size :: int
  pq_sha256 :: string
  pq_content_type :: string

record storage_object =
  ob_backend :: string
  ob_key :: string
  ob_size :: int
  ob_sha256 :: string
  ob_stored :: instant
  ob_etag :: string
  ob_version :: string
  ob_created :: "bool option"

definition validate_request :: "put_request \<Rightarrow> go_error option" where
  "validate_request q =
     (case validate_key (pq_key q) of
        Some e \<Rightarrow> Some e
      | None \<Rightarrow>
     (case pq_source q of
        None \<Rightarrow> Some (Errorf ''storage source is required'' [])
      | Some source \<Rightarrow>
          if pq_size q < 0 then Some (Errorf ''storage size must not be negative'' [])
          else if int (so_size source) \<noteq> pq_size q
          then Some (Errorf ''storage source size does not match expected size'' [])
          else if \<not> hash_pattern (pq_sha256 q)
          then Some (Errorf ''storage SHA256 must be 64 lowercase hexadecimal characters'' [])
          else None))"

definition new_object ::
    "string \<Rightarrow> put_request \<Rightarrow> instant \<Rightarrow> string \<Rightarrow> string \<Rightarrow> bool option \<Rightarrow> storage_object" where
  "new_object backend q stored_at etag version_id created =
     \<lparr>ob_backend = backend, ob_key = pq_key q, ob_size = pq_size q, ob_sha256 = pq_sha256 q,
      ob_stored = stored_at, ob_etag = etag, ob_version = version_id, ob_created = created\<rparr>"

section \<open>Times in keys\<close>

text \<open>\<open>time.Time\<close>'s zero value: the first instant of the year 1.\<close>

definition zero_time :: instant where
  "zero_time = - 62135596800 * 1000000000"

text \<open>
  Year, month and day of a day number counted from 1970-01-01, in the proleptic Gregorian
  calendar: years of 365 days from March, in eras of 400 years (146097 days).
\<close>

definition civil_of_day :: "int \<Rightarrow> int \<times> int \<times> int" where
  "civil_of_day z =
     (let z = z + 719468;
          era = z div 146097;
          doe = z mod 146097;
          yoe = (doe - doe div 1460 + doe div 36524 - doe div 146096) div 365;
          doy = doe - (365 * yoe + yoe div 4 - yoe div 100);
          mp = (5 * doy + 2) div 153;
          day = doy - (153 * mp + 2) div 5 + 1;
          month = (if mp < 10 then mp + 3 else mp - 9);
          year = yoe + era * 400 + (if month \<le> 2 then 1 else 0)
      in (year, month, day))"

text \<open>\<open>appendInt(x, width)\<close>: the sign, then decimal digits padded with zeros.\<close>

definition digit_char :: "nat \<Rightarrow> char" where
  "digit_char d = char_of (48 + d)"

fun decimal :: "nat \<Rightarrow> string" where
  "decimal n = (if n < 10 then [digit_char n] else decimal (n div 10) @ [digit_char (n mod 10)])"

declare decimal.simps [simp del]

definition pad_int :: "nat \<Rightarrow> int \<Rightarrow> string" where
  "pad_int w i =
     (let ds = decimal (nat \<bar>i\<bar>)
      in (if i < 0 then ''-'' else []) @ replicate (w - length ds) CHR ''0'' @ ds)"

record civil_time =
  ct_year :: int
  ct_month :: int
  ct_day :: int
  ct_hour :: int
  ct_minute :: int
  ct_second :: int
  ct_nano :: int

definition civil_time_of :: "instant \<Rightarrow> civil_time" where
  "civil_time_of t =
     (let secs = t div 1000000000; sod = secs mod 86400
      in case civil_of_day (secs div 86400) of
           (y, m, d) \<Rightarrow> \<lparr>ct_year = y, ct_month = m, ct_day = d, ct_hour = sod div 3600,
             ct_minute = sod div 60 mod 60, ct_second = sod mod 60, ct_nano = t mod 1000000000\<rparr>)"

text \<open>The layouts \<open>2006/01/02\<close>, \<open>2006/01/02/15\<close> and \<open>20060102T150405.000000000Z\<close>.\<close>

definition format_day :: "civil_time \<Rightarrow> string" where
  "format_day c = pad_int 4 (ct_year c) @ ''/'' @ pad_int 2 (ct_month c) @ ''/'' @ pad_int 2 (ct_day c)"

definition format_hour :: "civil_time \<Rightarrow> string" where
  "format_hour c = format_day c @ ''/'' @ pad_int 2 (ct_hour c)"

definition format_instant :: "civil_time \<Rightarrow> string" where
  "format_instant c = pad_int 4 (ct_year c) @ pad_int 2 (ct_month c) @ pad_int 2 (ct_day c) @ ''T'' @
     pad_int 2 (ct_hour c) @ pad_int 2 (ct_minute c) @ pad_int 2 (ct_second c) @ ''.'' @
     pad_int 9 (ct_nano c) @ ''Z''"

definition validate_key_inputs :: "instant \<Rightarrow> string \<Rightarrow> go_error option" where
  "validate_key_inputs retrieved_at sha256 =
     (if retrieved_at = zero_time then Some (Errorf ''retrieval time is required'' [])
      else if \<not> hash_pattern sha256 then Some (Errorf ''SHA256 must be 64 lowercase hexadecimal characters'' [])
      else None)"

definition service_alerts_key :: "instant \<Rightarrow> string \<Rightarrow> string result" where
  "service_alerts_key retrieved_at sha256 =
     (case validate_key_inputs retrieved_at sha256 of
        Some e \<Rightarrow> Inl e
      | None \<Rightarrow>
          let c = civil_time_of retrieved_at
          in Inr (''raw/service-alerts/'' @ format_hour c @ ''/'' @ format_instant c @ ''-'' @ sha256 @ ''.pb''))"

definition gtfs_key :: "instant \<Rightarrow> string \<Rightarrow> string result" where
  "gtfs_key retrieved_at sha256 =
     (case validate_key_inputs retrieved_at sha256 of
        Some e \<Rightarrow> Inl e
      | None \<Rightarrow>
          let c = civil_time_of retrieved_at
          in Inr (''raw/gtfs/'' @ format_day c @ ''/'' @ format_instant c @ ''-'' @ sha256 @ ''.zip''))"

section \<open>Valid keys stay below the root\<close>

text \<open>
  The promise of \<open>ValidateKey\<close>: a valid key is a relative path whose walk from the root never
  leaves it, visiting one named entry per segment.
\<close>

fun walk :: "nat \<Rightarrow> string list \<Rightarrow> nat option" where
  "walk depth [] = Some depth"
| "walk depth (seg # segs) =
     (if seg = ''..'' then (case depth of 0 \<Rightarrow> None | Suc d \<Rightarrow> walk d segs)
      else if seg = [] \<or> seg = ''.'' then walk depth segs
      else walk (Suc depth) segs)"

lemma segments_error_None:
  "segments_error segs = None \<longleftrightarrow> (\<forall>seg \<in> set segs. segment_error seg = None)"
  by (induction segs) (auto split: option.splits)

lemma walk_segments:
  "segments_error segs = None \<Longrightarrow> walk depth segs = Some (depth + length segs)"
  by (induction segs arbitrary: depth) (auto simp: segment_error_def split: option.splits if_splits)

lemma has_prefix_single: "has_prefix s [c] \<longleftrightarrow> s \<noteq> [] \<and> hd s = c"
  by (cases s) (auto simp: has_prefix_def)

lemma validate_key_None:
  "validate_key key = None \<longleftrightarrow> key \<noteq> [] \<and> hd key \<noteq> CHR ''/'' \<and> CHR 0x5C \<notin> set key \<and>
     segments_error (split_on CHR ''/'' key) = None"
  unfolding validate_key_def has_prefix_single by simp

lemma validate_key_walk:
  "validate_key key = None \<Longrightarrow> walk 0 (split_on CHR ''/'' key) = Some (length (split_on CHR ''/'' key))"
  using walk_segments [of "split_on CHR ''/'' key" 0] by (simp add: validate_key_None)

text \<open>Keys made of segments of plain characters.\<close>

definition plain :: "char \<Rightarrow> bool" where
  "plain c = (33 \<le> ord c \<and> ord c < 127 \<and> c \<noteq> CHR 0x5C \<and> c \<noteq> CHR ''/'')"

lemma runes_ascii: "list_all (\<lambda>c. ord c < 128) s \<Longrightarrow> runes s = map ord s"
  by (simp add: runes_def bytes_of_def runes_of_ascii list_all_iff comp_def)

lemma segment_plain:
  assumes "list_all plain seg" and "3 \<le> length seg \<or> (\<exists>c \<in> set seg. c \<noteq> CHR ''.'')" and "seg \<noteq> []"
  shows "segment_error seg = None"
proof -
  have "list_all (\<lambda>c. ord c < 128) seg"
    by (rule list.pred_mono_strong [OF assms(1)]) (simp add: plain_def)
  then have rs: "runes seg = map ord seg" by (rule runes_ascii)
  have "\<not> list_ex (\<lambda>r. r < 32 \<or> r = 127) (map ord seg)"
  proof
    assume "list_ex (\<lambda>r. r < 32 \<or> r = 127) (map ord seg)"
    then obtain c where c: "c \<in> set seg" "ord c < 32 \<or> ord c = 127" unfolding list_ex_iff by auto
    have "plain c" using assms(1) c(1) by (simp add: list_all_iff)
    then have "33 \<le> ord c" "ord c < 127" by (simp_all add: plain_def)
    with c(2) show False by linarith
  qed
  moreover have "seg \<noteq> ''.''" "seg \<noteq> ''..''" using assms(2) by auto
  ultimately show ?thesis using assms(3) by (simp add: segment_error_def rs)
qed

lemma split_on_append: "sep \<notin> set a \<Longrightarrow> split_on sep (a @ sep # b) = a # split_on sep b"
  by (induction a) auto

lemma split_on_single: "sep \<notin> set a \<Longrightarrow> split_on sep a = [a]"
  by (induction a) auto

lemma digit_char_ord: "d < 10 \<Longrightarrow> ord (digit_char d) = 48 + d"
  by (simp add: ord_def digit_char_def)

lemma decimal_digits: "decimal n \<noteq> [] \<and> list_all is_digit (decimal n)"
proof (induction n rule: decimal.induct)
  case (1 n)
  have "is_digit (digit_char d)" if "d < 10" for d using that by (simp add: is_digit_def digit_char_ord)
  with 1 show ?case by (subst (1 2) decimal.simps) simp
qed

definition number_char :: "char \<Rightarrow> bool" where
  "number_char c = (is_digit c \<or> c = CHR ''-'')"

lemma pad_int_chars: "pad_int w i \<noteq> [] \<and> list_all number_char (pad_int w i)"
  using decimal_digits [of "nat \<bar>i\<bar>"]
  by (auto simp: pad_int_def Let_def list_all_iff number_char_def is_digit_def ord_def)

lemma number_char_plain: "number_char c \<Longrightarrow> plain c \<and> c \<noteq> CHR ''.''"
  by (auto simp: number_char_def plain_def is_digit_def ord_def)

lemma pad_int_segment: "segment_error (pad_int w i) = None" "CHR ''/'' \<notin> set (pad_int w i)" "CHR 0x5C \<notin> set (pad_int w i)"
proof -
  note P = pad_int_chars [of w i]
  have pl: "list_all plain (pad_int w i)" using P number_char_plain by (auto simp: list_all_iff)
  obtain c cs where c: "pad_int w i = c # cs" using P by (cases "pad_int w i") auto
  then have "c \<noteq> CHR ''.''" using P number_char_plain by auto
  then show "segment_error (pad_int w i) = None" using pl c by (intro segment_plain) auto
  show "CHR ''/'' \<notin> set (pad_int w i)" "CHR 0x5C \<notin> set (pad_int w i)"
    using pl by (auto simp: list_all_iff plain_def)
qed

lemma hash_plain: "hash_pattern sha \<Longrightarrow> list_all plain sha \<and> length sha = 64"
  by (auto simp: hash_pattern_def list_all_iff lower_hex_def plain_def is_digit_def ord_def)

text \<open>The last segment of a key: the time, the hash, the extension.\<close>

lemma object_segment:
  assumes "hash_pattern sha" and "list_all plain ext"
  shows "segment_error (format_instant c @ ''-'' @ sha @ ext) = None"
    and "CHR ''/'' \<notin> set (format_instant c @ ''-'' @ sha @ ext)"
    and "CHR 0x5C \<notin> set (format_instant c @ ''-'' @ sha @ ext)"
proof -
  have "list_all plain (pad_int w i)" for w i
    using pad_int_chars [of w i] number_char_plain by (auto simp: list_all_iff)
  moreover have "list_all plain ''T''" "list_all plain ''.''" "list_all plain ''Z''" "list_all plain ''-''"
    by (simp_all add: plain_def ord_def)
  ultimately have pl: "list_all plain (format_instant c @ ''-'' @ sha @ ext)"
    using hash_plain [OF assms(1)] assms(2) by (simp add: format_instant_def)
  then show "segment_error (format_instant c @ ''-'' @ sha @ ext) = None"
    using hash_plain [OF assms(1)] by (intro segment_plain) auto
  from pl show "CHR ''/'' \<notin> set (format_instant c @ ''-'' @ sha @ ext)"
    "CHR 0x5C \<notin> set (format_instant c @ ''-'' @ sha @ ext)"
    by (auto simp: list_all_iff plain_def)
qed

lemma plain_words: "CHR ''/'' \<notin> set ''raw''" "CHR ''/'' \<notin> set ''service-alerts''" "CHR ''/'' \<notin> set ''gtfs''"
  by simp_all

lemma service_alerts_key_valid:
  assumes "service_alerts_key t sha = Inr key"
  shows "validate_key key = None"
proof -
  let ?c = "civil_time_of t"
  have hash: "hash_pattern sha"
    using assms by (auto simp: service_alerts_key_def validate_key_inputs_def split: if_splits option.splits)
  have key: "key = ''raw'' @ CHR ''/'' # ''service-alerts'' @ CHR ''/'' # pad_int 4 (ct_year ?c) @ CHR ''/'' #
      pad_int 2 (ct_month ?c) @ CHR ''/'' # pad_int 2 (ct_day ?c) @ CHR ''/'' # pad_int 2 (ct_hour ?c) @ CHR ''/'' #
      (format_instant ?c @ ''-'' @ sha @ ''.pb'')"
    using assms by (auto simp: service_alerts_key_def Let_def format_hour_def format_day_def
        split: if_splits option.splits)
  have ext: "list_all plain ''.pb''" by (simp add: plain_def ord_def)
  note O = object_segment [OF hash ext, of ?c]
  have "segment_error ''raw'' = None" "segment_error ''service-alerts'' = None"
    by (rule segment_plain; simp add: plain_def ord_def)+
  moreover have "split_on CHR ''/'' key = [''raw'', ''service-alerts'', pad_int 4 (ct_year ?c),
      pad_int 2 (ct_month ?c), pad_int 2 (ct_day ?c), pad_int 2 (ct_hour ?c), format_instant ?c @ ''-'' @ sha @ ''.pb'']"
    unfolding key by (simp only: plain_words split_on_append split_on_single [OF O(2)] pad_int_segment(2) not_False_eq_True)
  ultimately show ?thesis
    unfolding validate_key_None using O pad_int_segment
    by (simp add: segments_error_None) (simp add: key pad_int_segment)
qed

lemma gtfs_key_valid:
  assumes "gtfs_key t sha = Inr key"
  shows "validate_key key = None"
proof -
  let ?c = "civil_time_of t"
  have hash: "hash_pattern sha"
    using assms by (auto simp: gtfs_key_def validate_key_inputs_def split: if_splits option.splits)
  have key: "key = ''raw'' @ CHR ''/'' # ''gtfs'' @ CHR ''/'' # pad_int 4 (ct_year ?c) @ CHR ''/'' #
      pad_int 2 (ct_month ?c) @ CHR ''/'' # pad_int 2 (ct_day ?c) @ CHR ''/'' #
      (format_instant ?c @ ''-'' @ sha @ ''.zip'')"
    using assms by (auto simp: gtfs_key_def Let_def format_day_def split: if_splits option.splits)
  have ext: "list_all plain ''.zip''" by (simp add: plain_def ord_def)
  note O = object_segment [OF hash ext, of ?c]
  have "segment_error ''raw'' = None" "segment_error ''gtfs'' = None"
    by (rule segment_plain; simp add: plain_def ord_def)+
  moreover have "split_on CHR ''/'' key = [''raw'', ''gtfs'', pad_int 4 (ct_year ?c),
      pad_int 2 (ct_month ?c), pad_int 2 (ct_day ?c), format_instant ?c @ ''-'' @ sha @ ''.zip'']"
    unfolding key by (simp only: plain_words split_on_append split_on_single [OF O(2)] pad_int_segment(2) not_False_eq_True)
  ultimately show ?thesis
    unfolding validate_key_None using O pad_int_segment
    by (simp add: segments_error_None) (simp add: key pad_int_segment)
qed

end
