(* ===== verification/Archive.thy ===== *)
theory Archive
  imports AlertRepo Storage
begin

text \<open>
  \<open>internal/database/archive.go\<close>: a stored object is recorded once per backend and key, linked
  to a running attempt of either attempt table, and a commit whose outcome is unknown is
  resolved by reading the link back. The attempt table is a parameter: \<open>attempt_table\<close> reads
  and writes the common columns of \<open>ingestion_runs\<close> or of \<open>gtfs_imports\<close>.
\<close>

record 'r attempt_table =
  tb_name :: string
  tb_rows :: "db \<Rightarrow> 'r list"
  tb_set :: "'r list \<Rightarrow> db \<Rightarrow> db"

definition runs_table :: "run_row attempt_table" where
  "runs_table = \<lparr>tb_name = ''ingestion_runs'', tb_rows = db_runs, tb_set = (\<lambda>rs db. db\<lparr>db_runs := rs\<rparr>)\<rparr>"

definition imports_table :: "import_row attempt_table" where
  "imports_table = \<lparr>tb_name = ''gtfs_imports'', tb_rows = db_imports, tb_set = (\<lambda>rs db. db\<lparr>db_imports := rs\<rparr>)\<rparr>"

text \<open>
  \<open>INSERT .. ON CONFLICT (backend, object_key) DO UPDATE .. RETURNING\<close>: a new row, or the row
  that is there, unchanged.
\<close>

definition upsert_archive :: "storage_object \<Rightarrow> db \<Rightarrow> archive_row result \<times> db" where
  "upsert_archive obj db =
     (let id = sq_archive (db_seq db); db' = db\<lparr>db_seq := (db_seq db)\<lparr>sq_archive := id + 1\<rparr>\<rparr>
      in case find (\<lambda>a. ra_backend a = ob_backend obj \<and> ra_key a = ob_key obj) (db_archives db) of
           Some a \<Rightarrow> (Inr a, db')
         | None \<Rightarrow>
             (let a = \<lparr>ra_id = id, ra_backend = ob_backend obj, ra_key = ob_key obj,
                   ra_sha256 = ob_sha256 obj, ra_bytes = ob_size obj, ra_stored = pg_time (ob_stored obj),
                   ra_etag = nullable_string (ob_etag obj), ra_version = nullable_string (ob_version obj)\<rparr>
              in (Inr a, db'\<lparr>db_archives := db_archives db @ [a]\<rparr>)))"

definition version_string :: "string option \<Rightarrow> string" where
  "version_string v = (case v of None \<Rightarrow> [] | Some s \<Rightarrow> s)"

definition link_row :: "row_id \<Rightarrow> bool option \<Rightarrow> 'a attempt_row_scheme \<Rightarrow> 'a attempt_row_scheme" where
  "link_row archive_id created r =
     r\<lparr>at_archive := Archived, at_archive_id := Some archive_id, at_archive_created := created,
       at_archive_error := None\<rparr>"

definition link_archive ::
    "('a attempt_row_scheme) attempt_table \<Rightarrow> row_id \<Rightarrow> row_id \<Rightarrow> bool option \<Rightarrow> db \<Rightarrow> nat result \<times> db" where
  "link_archive table attempt_id archive_id created db =
     (let p = (\<lambda>r. at_id r = attempt_id \<and> at_status r = Running \<and> at_archive r = Pending);
          rows = upd_where p (link_row archive_id created) (tb_rows table db)
      in if list_all attempt_ok rows then (Inr (affected p (tb_rows table db)), tb_set table rows db)
         else (Inl check_violation, db))"

text \<open>No row was linked: the attempt must be linked to this archive already.\<close>

definition check_link :: "('a attempt_row_scheme) attempt_table \<Rightarrow> row_id \<Rightarrow> row_id \<Rightarrow> nat \<Rightarrow> unit tx" where
  "check_link table attempt_id archive_id rows =
     (if rows = 0
      then bind_tx (query_row (Wrapf ''load archive attempt %d: %w'' [AInt attempt_id])
              (\<lambda>db. find (\<lambda>r. at_id r = attempt_id) (tb_rows table db))) (\<lambda>r.
           if at_archive r \<noteq> Archived \<or> at_archive_id r \<noteq> Some archive_id
           then fail_tx (Errorf ''link raw archive to attempt %d: attempt is not matching running archive'' [AInt attempt_id])
           else ret ())
      else ret ())"

definition archive_body ::
    "('a attempt_row_scheme) attempt_table \<Rightarrow> row_id \<Rightarrow> storage_object \<Rightarrow> unit tx" where
  "archive_body table attempt_id obj =
     bind_tx (stmt (Wrapf ''insert raw archive: %w'' []) (upsert_archive obj)) (\<lambda>a.
     if ra_sha256 a \<noteq> ob_sha256 obj \<or> ra_bytes a \<noteq> ob_size obj \<or> version_string (ra_version a) \<noteq> ob_version obj
     then fail_tx (Wrapf ''record raw archive: %w'' [] ErrConflict)
     else
     bind_tx (stmt (Wrapf ''link raw archive to attempt %d: %w'' [AInt attempt_id])
        (link_archive table attempt_id (ra_id a) (ob_created obj))) (\<lambda>rows.
     check_link table attempt_id (ra_id a) rows))"

text \<open>\<open>resolveArchiveCommit\<close>: the attempt with its archive, read after the commit failed.\<close>

definition resolve_archive_commit ::
    "tx_io \<Rightarrow> ('a attempt_row_scheme) attempt_table \<Rightarrow> row_id \<Rightarrow> storage_object \<Rightarrow> db \<Rightarrow> bool result" where
  "resolve_archive_commit io table attempt_id obj db =
     (case io_status io of
        Some e \<Rightarrow> Inl (Wrapf ''resolve raw archive commit for attempt %d: %w'' [AInt attempt_id] e)
      | None \<Rightarrow>
     (case find (\<lambda>r. at_id r = attempt_id) (tb_rows table db) of
        None \<Rightarrow> Inl (Wrapf ''resolve raw archive commit for attempt %d: %w'' [AInt attempt_id] err_no_rows)
      | Some r \<Rightarrow>
          if at_archive r \<noteq> Archived then Inr False
          else (case find (\<lambda>a. at_archive_id r = Some (ra_id a)) (db_archives db) of
                  None \<Rightarrow> Inr False
                | Some a \<Rightarrow> Inr (ra_backend a = ob_backend obj \<and> ra_key a = ob_key obj \<and>
                    ra_sha256 a = ob_sha256 obj \<and> ra_bytes a = ob_size obj \<and>
                    version_string (ra_version a) = ob_version obj))))"

definition commit_archive ::
    "('a attempt_row_scheme) attempt_table \<Rightarrow> tx_io \<Rightarrow> row_id \<Rightarrow> storage_object \<Rightarrow> db \<Rightarrow> db \<Rightarrow> unit result \<times> db" where
  "commit_archive table io attempt_id obj db0 db =
     (case commit_tx io (\<lambda>_. True) db0 db of
        (None, db') \<Rightarrow> (Inr (), db')
      | (Some e, db') \<Rightarrow>
          (let commit_err = Wrapf ''commit raw archive record: %w'' [] e
           in case resolve_archive_commit io table attempt_id obj db' of
                Inl re \<Rightarrow> (Inl (CommitOutcomeError commit_err re), db')
              | Inr committed \<Rightarrow> (if committed then Inr () else Inl commit_err, db')))"

definition record_archive ::
    "('a attempt_row_scheme) attempt_table \<Rightarrow> tx_io \<Rightarrow> row_id \<Rightarrow> storage_object \<Rightarrow> db \<Rightarrow> unit result \<times> db" where
  "record_archive table io attempt_id obj db =
     (if ob_backend obj = [] \<or> ob_key obj = [] \<or> ob_size obj < 0 \<or> ob_stored obj = zero_time \<or>
         \<not> hash_pattern (ob_sha256 obj)
      then (Inl (Errorf ''record raw archive: invalid storage object metadata'' []), db)
      else
     (case validate_key (ob_key obj) of
        Some e \<Rightarrow> (Inl (Wrapf ''record raw archive: invalid object key: %w'' [] e), db)
      | None \<Rightarrow>
     (case io_begin io of
        Some e \<Rightarrow> (Inl (Wrapf ''begin raw archive record: %w'' [] e), db)
      | None \<Rightarrow>
     (case archive_body table attempt_id obj \<lparr>se_db = db, se_faults = io_faults io\<rparr> of
        (Inl e, s) \<Rightarrow> (Inl e, rollback db (se_db s))
      | (Inr _, s) \<Rightarrow> commit_archive table io attempt_id obj db (se_db s)))))"

definition record_alert_archive :: "tx_io \<Rightarrow> row_id \<Rightarrow> storage_object \<Rightarrow> db \<Rightarrow> unit result \<times> db" where
  "record_alert_archive = record_archive runs_table"

definition record_gtfs_archive :: "tx_io \<Rightarrow> row_id \<Rightarrow> storage_object \<Rightarrow> db \<Rightarrow> unit result \<times> db" where
  "record_gtfs_archive = record_archive imports_table"

section \<open>What a recorded archive is\<close>

definition archives_inv :: "db \<Rightarrow> bool" where
  "archives_inv db \<longleftrightarrow> distinct (map ra_id (db_archives db)) \<and>
     distinct (map (\<lambda>a. (ra_backend a, ra_key a)) (db_archives db)) \<and>
     (\<forall>a \<in> set (db_archives db). ra_id a < sq_archive (db_seq db))"

text \<open>The attempt is archived, by the row that describes the object.\<close>

definition archived_as :: "('a attempt_row_scheme) attempt_table \<Rightarrow> row_id \<Rightarrow> storage_object \<Rightarrow> db \<Rightarrow> bool" where
  "archived_as table attempt_id obj db \<longleftrightarrow>
     (\<exists>r \<in> set (tb_rows table db). \<exists>a \<in> set (db_archives db).
        at_id r = attempt_id \<and> at_archive r = Archived \<and> at_archive_id r = Some (ra_id a) \<and>
        ra_backend a = ob_backend obj \<and> ra_key a = ob_key obj \<and> ra_sha256 a = ob_sha256 obj \<and>
        ra_bytes a = ob_size obj \<and> version_string (ra_version a) = ob_version obj)"

lemma upsert_archive_Inr:
  assumes "upsert_archive obj db = (Inr a, db')" and "archives_inv db"
  shows "a \<in> set (db_archives db')" and "ra_backend a = ob_backend obj" and "ra_key a = ob_key obj"
    and "archives_inv db'" and "set (db_archives db) \<subseteq> set (db_archives db')"
    and "db' = db\<lparr>db_archives := db_archives db', db_seq := (db_seq db)\<lparr>sq_archive := sq_archive (db_seq db) + 1\<rparr>\<rparr>"
proof -
  have fresh: "sq_archive (db_seq db) \<notin> ra_id ` set (db_archives db)"
    using assms(2) by (auto simp: archives_inv_def)
  have *: "a \<in> set (db_archives db') \<and> ra_backend a = ob_backend obj \<and> ra_key a = ob_key obj \<and>
    archives_inv db' \<and> set (db_archives db) \<subseteq> set (db_archives db') \<and>
    db' = db\<lparr>db_archives := db_archives db', db_seq := (db_seq db)\<lparr>sq_archive := sq_archive (db_seq db) + 1\<rparr>\<rparr>"
  proof (cases "find (\<lambda>a. ra_backend a = ob_backend obj \<and> ra_key a = ob_key obj) (db_archives db)")
    case None
    then have "(ob_backend obj, ob_key obj) \<notin> (\<lambda>a. (ra_backend a, ra_key a)) ` set (db_archives db)"
      by (auto simp: find_None_all)
    with assms None fresh show ?thesis
      by (force simp: upsert_archive_def Let_def archives_inv_def)
  next
    case (Some b)
    with assms find_Some_mem [OF Some] show ?thesis
      by (force simp: upsert_archive_def Let_def archives_inv_def)
  qed
  then show "a \<in> set (db_archives db')" "ra_backend a = ob_backend obj" "ra_key a = ob_key obj"
    "archives_inv db'" "set (db_archives db) \<subseteq> set (db_archives db')"
    "db' = db\<lparr>db_archives := db_archives db', db_seq := (db_seq db)\<lparr>sq_archive := sq_archive (db_seq db) + 1\<rparr>\<rparr>"
    by blast+
qed

text \<open>
  The two attempt tables, as \<open>recordArchive\<close> sees them: a client of any table whose rows can be
  read back after they are set, and which the archives do not depend on.
\<close>

locale attempt_store =
  fixes table :: "('a attempt_row_scheme) attempt_table"
  assumes rows_set: "tb_rows table (tb_set table rs db) = rs"
    and archives_set: "db_archives (tb_set table rs db) = db_archives db"
    and seq_set: "db_seq (tb_set table rs db) = db_seq db"
    and rows_archive: "tb_rows table (db\<lparr>db_archives := as, db_seq := sq\<rparr>) = tb_rows table db"
    and rows_rollback: "tb_rows table (rollback db db') = tb_rows table db"
begin

text \<open>What the body did when it returned: the attempt is archived as the object says.\<close>

lemma archive_body_Inr:
  assumes run: "archive_body table attempt_id obj s = (Inr (), s')"
    and arch: "archives_inv (se_db s)"
  shows "archived_as table attempt_id obj (se_db s')" and "archives_inv (se_db s')"
    and "set (db_archives (se_db s)) \<subseteq> set (db_archives (se_db s'))"
    and "\<exists>id \<in> ra_id ` set (db_archives (se_db s')).
      tb_rows table (se_db s') = upd_where (\<lambda>r. at_id r = attempt_id \<and> at_status r = Running \<and> at_archive r = Pending)
        (link_row id (ob_created obj)) (tb_rows table (se_db s)) \<and> list_all attempt_ok (tb_rows table (se_db s'))"
proof -
  from run obtain a s1 rows s2 where
    q1: "stmt (Wrapf ''insert raw archive: %w'' []) (upsert_archive obj) s = (Inr a, s1)"
    and ok: "ra_sha256 a = ob_sha256 obj" "ra_bytes a = ob_size obj" "version_string (ra_version a) = ob_version obj"
    and q2: "stmt (Wrapf ''link raw archive to attempt %d: %w'' [AInt attempt_id])
       (link_archive table attempt_id (ra_id a) (ob_created obj)) s1 = (Inr rows, s2)"
    and 3: "check_link table attempt_id (ra_id a) rows s2 = (Inr (), s')"
    unfolding archive_body_def bind_tx_Inr by (auto simp: ok_rules split: if_splits)
  let ?db1 = "se_db s1" and ?db2 = "se_db s2"
  note 1 = stmt_Inr [OF q1] and 2 = stmt_Inr [OF q2]
  note U = upsert_archive_Inr [OF 1 arch]
  let ?p = "\<lambda>r. at_id r = attempt_id \<and> at_status r = Running \<and> at_archive r = Pending"
  let ?f = "link_row (ra_id a) (ob_created obj)"
  from 2 have rows: "rows = affected ?p (tb_rows table ?db1)"
    and db2: "?db2 = tb_set table (upd_where ?p ?f (tb_rows table ?db1)) ?db1"
    and valid: "list_all attempt_ok (upd_where ?p ?f (tb_rows table ?db1))"
    by (auto simp: link_archive_def Let_def split: if_splits)
  have rows1: "tb_rows table ?db1 = tb_rows table (se_db s)"
    by (subst U(6)) (rule rows_archive)
  have db': "se_db s' = ?db2"
    using 3 by (auto simp: check_link_def ok_rules split: if_splits dest!: query_row_Inr)
  have archs: "db_archives (se_db s') = db_archives ?db1" "db_seq (se_db s') = db_seq ?db1"
    by (simp_all add: db' db2 archives_set seq_set)
  have linked: "\<exists>r \<in> set (tb_rows table (se_db s')). at_id r = attempt_id \<and> at_archive r = Archived \<and> at_archive_id r = Some (ra_id a)"
  proof (cases "rows = 0")
    case True
    with 3 obtain r where f: "find (\<lambda>r. at_id r = attempt_id) (tb_rows table ?db2) = Some r"
      and "at_archive r = Archived" "at_archive_id r = Some (ra_id a)"
      by (auto simp: check_link_def ok_rules split: if_splits dest!: query_row_Inr)
    with find_Some_mem [OF f] show ?thesis unfolding db' by blast
  next
    case False
    with affected_pos_iff [of ?p "tb_rows table ?db1"] obtain r
      where r: "r \<in> set (tb_rows table ?db1)" "?p r" unfolding rows by blast
    have "(if ?p r then ?f r else r) \<in> set (tb_rows table ?db2)"
      unfolding db2 rows_set set_upd_where by (rule imageI) (rule r(1))
    with r(2) have "?f r \<in> set (tb_rows table ?db2)" by simp
    with r(2) show ?thesis unfolding db' by (intro bexI [of _ "?f r"]) (simp_all add: link_row_def)
  qed
  then obtain r where "r \<in> set (tb_rows table (se_db s'))" "at_id r = attempt_id" "at_archive r = Archived"
    "at_archive_id r = Some (ra_id a)" by blast
  with U(1-3) ok show "archived_as table attempt_id obj (se_db s')"
    unfolding archived_as_def archs by (intro bexI [of _ r] bexI [of _ a]) simp_all
  show "archives_inv (se_db s')" using U(4) by (simp add: archives_inv_def archs)
  show "set (db_archives (se_db s)) \<subseteq> set (db_archives (se_db s'))" using U(5) archs by simp
  have "tb_rows table (se_db s') = upd_where ?p ?f (tb_rows table (se_db s))"
    using rows1 by (simp add: db' db2 rows_set)
  moreover have "list_all attempt_ok (tb_rows table (se_db s'))"
    using valid by (simp add: db' db2 rows_set)
  ultimately show "\<exists>id \<in> ra_id ` set (db_archives (se_db s')).
      tb_rows table (se_db s') = upd_where ?p (link_row id (ob_created obj)) (tb_rows table (se_db s)) \<and>
      list_all attempt_ok (tb_rows table (se_db s'))"
    using U(1) archs by auto
qed

text \<open>
  \<open>recordArchive\<close> returned without an error: the attempt is archived as the object says, also
  when the commit reported an error.
\<close>

lemma record_archive_ok:
  assumes "record_archive table io attempt_id obj db = (Inr (), db')" and "archives_inv db"
  shows "archived_as table attempt_id obj db'"
proof -
  from assms(1) obtain s where body: "archive_body table attempt_id obj \<lparr>se_db = db, se_faults = io_faults io\<rparr> = (Inr (), s)"
    and cm: "commit_archive table io attempt_id obj db (se_db s) = (Inr (), db')"
    unfolding record_archive_def by (auto split: if_splits option.splits prod.splits sum.splits)
  note B = archive_body_Inr [OF body]
  show ?thesis
  proof (cases "db' = se_db s")
    case True
    with B(1) assms(2) show ?thesis by simp
  next
    case False
    with cm have "resolve_archive_commit io table attempt_id obj db' = Inr True"
      by (auto simp: commit_archive_def commit_tx_def Let_def split: outcome.splits prod.splits sum.splits if_splits)
    then obtain r a where f: "find (\<lambda>r. at_id r = attempt_id) (tb_rows table db') = Some r"
      "find (\<lambda>a. at_archive_id r = Some (ra_id a)) (db_archives db') = Some a"
      and "at_archive r = Archived" "ra_backend a = ob_backend obj" "ra_key a = ob_key obj" "ra_sha256 a = ob_sha256 obj"
      "ra_bytes a = ob_size obj" "version_string (ra_version a) = ob_version obj"
      by (auto simp: resolve_archive_commit_def split: option.splits if_splits)
    with find_Some_mem [OF f(1)] find_Some_mem [OF f(2)] show ?thesis unfolding archived_as_def by blast
  qed
qed

text \<open>What the body leaves alone, and what a call can end in.\<close>

lemma archive_body_keeps:
  assumes run: "archive_body table attempt_id obj s = (Inr (), s')" and arch: "archives_inv (se_db s)"
    and upsert: "\<And>db as k. g (db\<lparr>db_archives := as, db_seq := (db_seq db)\<lparr>sq_archive := k\<rparr>\<rparr>) = g db"
    and set: "\<And>rs db. g (tb_set table rs db) = g db"
  shows "g (se_db s') = g (se_db s)"
proof -
  from run obtain a s1 rows s2 where
    q1: "stmt (Wrapf ''insert raw archive: %w'' []) (upsert_archive obj) s = (Inr a, s1)"
    and q2: "stmt (Wrapf ''link raw archive to attempt %d: %w'' [AInt attempt_id])
       (link_archive table attempt_id (ra_id a) (ob_created obj)) s1 = (Inr rows, s2)"
    and 3: "check_link table attempt_id (ra_id a) rows s2 = (Inr (), s')"
    unfolding archive_body_def bind_tx_Inr by (auto simp: ok_rules split: if_splits)
  have "g (se_db s1) = g (se_db s)"
    by (subst upsert_archive_Inr(6) [OF stmt_Inr [OF q1] arch]) (rule upsert)
  moreover have "\<exists>rs. tb_set table rs (se_db s1) = se_db s2"
    using stmt_Inr [OF q2] by (auto simp: link_archive_def Let_def split: if_splits)
  then have "g (se_db s2) = g (se_db s1)" using set by metis
  moreover have "se_db s' = se_db s2"
    using 3 by (auto simp: check_link_def ok_rules split: if_splits dest!: query_row_Inr)
  ultimately show ?thesis by simp
qed

lemma record_archive_cases:
  assumes "record_archive table io attempt_id obj db = (r, db')"
  shows "db' = db \<or>
    (\<exists>res s. archive_body table attempt_id obj \<lparr>se_db = db, se_faults = io_faults io\<rparr> = (res, s) \<and>
       (db' = rollback db (se_db s) \<or> res = Inr () \<and> db' = se_db s))"
proof -
  obtain res s where body: "archive_body table attempt_id obj \<lparr>se_db = db, se_faults = io_faults io\<rparr> = (res, s)"
    by fastforce
  with assms have "db' = db \<or> db' = rollback db (se_db s) \<or> res = Inr () \<and> db' = se_db s"
    by (auto simp: record_archive_def commit_archive_def commit_tx_def Let_def
        split: if_splits option.splits sum.splits prod.splits outcome.splits)
  with body show ?thesis by blast
qed

end

interpretation alert_attempts: attempt_store runs_table
  by unfold_locales (simp_all add: runs_table_def rollback_def)

interpretation gtfs_attempts: attempt_store imports_table
  by unfold_locales (simp_all add: imports_table_def rollback_def)

end
