(* ===== verification/TxRelation.thy ===== *)
theory TxRelation
  imports Archive
begin

text \<open>
  What every transaction obeys, also when it fails half-way: a relation between the state
  before and after, as a locale with one rule per combinator of \<open>Tx\<close>. It is interpreted on the
  growth of the identity sequences, which a rollback keeps, and on the tables a transaction
  leaves alone.
\<close>

section \<open>The rules\<close>

definition obeys :: "(db \<Rightarrow> db \<Rightarrow> bool) \<Rightarrow> 'a tx \<Rightarrow> bool" where
  "obeys R m \<longleftrightarrow> (\<forall>s. R (se_db s) (se_db (snd (m s))))"

text \<open>A statement on the server.\<close>

definition serves :: "(db \<Rightarrow> db \<Rightarrow> bool) \<Rightarrow> (db \<Rightarrow> 'a \<times> db) \<Rightarrow> bool" where
  "serves R f \<longleftrightarrow> (\<forall>db. R db (snd (f db)))"

lemma obeysD: "obeys R m \<Longrightarrow> m s = (r, s') \<Longrightarrow> R (se_db s) (se_db s')"
  unfolding obeys_def by (metis snd_conv)

lemma obeysI: "(\<And>s r s'. m s = (r, s') \<Longrightarrow> R (se_db s) (se_db s')) \<Longrightarrow> obeys R m"
  unfolding obeys_def by (metis surjective_pairing)

lemma servesD: "serves R f \<Longrightarrow> f db = (r, db') \<Longrightarrow> R db db'"
  unfolding serves_def by (metis snd_conv)

locale tx_relation =
  fixes R :: "db \<Rightarrow> db \<Rightarrow> bool"
  assumes refl: "R db db"
    and trans: "R db1 db2 \<Longrightarrow> R db2 db3 \<Longrightarrow> R db1 db3"
    and seq: "R db db1 \<Longrightarrow> R db (db\<lparr>db_seq := db_seq db1\<rparr>)"
begin

lemma obeys_basic: "obeys R (ret x)" "obeys R (fail_tx e)" "obeys R (lift_res r)"
  by (simp_all add: obeys_def ret_def fail_tx_def lift_res_def refl)

lemma obeys_require: "obeys R (require_one_row op n)"
  by (simp add: require_one_row_def obeys_basic)

lemma obeys_bind:
  assumes "obeys R m" and "\<And>x. obeys R (k x)"
  shows "obeys R (bind_tx m k)"
proof (rule obeysI)
  fix s r s' assume run: "bind_tx m k s = (r, s')"
  obtain r1 s1 where m: "m s = (r1, s1)" by fastforce
  show "R (se_db s) (se_db s')"
    using run m obeysD [OF assms(1) m] trans obeysD [OF assms(2)]
    by (cases r1) (auto simp: bind_tx_def)
qed

lemma obeys_stmt: "serves R f \<Longrightarrow> obeys R (stmt w f)"
proof (rule obeysI)
  fix s r s' assume g: "serves R f" and run: "stmt w f s = (r, s')"
  obtain r1 d1 where f: "f (se_db s) = (r1, d1)" by fastforce
  show "R (se_db s) (se_db s')"
    using run f servesD [OF g f] seq refl
    by (auto simp: stmt_def Let_def split: list.splits option.splits sum.splits)
qed

lemma obeys_update: "(\<And>db. R db (f db)) \<Longrightarrow> obeys R (update w f)"
  unfolding update_def by (rule obeys_stmt) (simp add: serves_def)

lemma obeys_query: "obeys R (query w q)" "obeys R (query_row w q')"
  unfolding query_def query_row_def by (rule obeys_stmt, simp add: serves_def refl)+

lemma obeys_each: "(\<And>x. obeys R (f x)) \<Longrightarrow> obeys R (each_tx f xs)"
  by (induction xs) (auto intro: obeys_basic obeys_bind)

lemma obeys_case:
  "obeys R a \<Longrightarrow> (\<And>x. obeys R (b x)) \<Longrightarrow> obeys R (case_option a b o')"
  "(\<And>e. obeys R (c e)) \<Longrightarrow> (\<And>x. obeys R (d x)) \<Longrightarrow> obeys R (case_sum c d r)"
  "(\<And>x y. obeys R (g x y)) \<Longrightarrow> obeys R (case_prod g p)"
  "obeys R m \<Longrightarrow> obeys R m' \<Longrightarrow> obeys R (if t then m else m')"
  by (simp_all split: option.split sum.split prod.split)

lemmas rules = obeys_basic obeys_require obeys_bind obeys_stmt obeys_update
  obeys_query obeys_each obeys_case

subsection \<open>The transactions of the alert repository\<close>

lemma obeys_period:
  "(\<And>r db. R db (add r db)) \<Longrightarrow> obeys R (insert_period ws we wi add owner p)"
  unfolding insert_period_def by (intro rules) simp_all

lemma obeys_complete_body:
  assumes runs: "\<And>p f. serves R (update_runs p f)"
    and inserts: "\<And>alert. serves R (insert_snapshot run_id alert)"
      "\<And>a n sha alert. serves R (insert_revision a n run_id at sha alert)"
      "\<And>src e. serves R (insert_alert src e at run_id)"
    and children: "\<And>r db. R db (add_snapshot_period r db)" "\<And>e db. R db (add_snapshot_entity e db)"
      "\<And>r db. R db (add_revision_period r db)" "\<And>e db. R db (add_revision_entity e db)"
    and updates: "\<And>p f db. R db (update_alerts p f db)" "\<And>q g db. (\<And>r. rv_columns (g r) = rv_columns r) \<Longrightarrow> R db (update_revisions q g db)"
  shows "obeys R (complete_body env now run_id result summary ts sha at)"
proof -
  have latest: "obeys R (latest_applied_feed run_id src)" for src
    unfolding latest_applied_feed_def by (rule obeys_stmt) (simp add: serves_def refl)
  note stmts = runs inserts children updates
  have snap: "obeys R (insert_alert_snapshot run_id alert)" for alert
    unfolding insert_alert_snapshot_def Let_def by (intro rules obeys_period stmts)
  have rev: "obeys R (insert_alert_revision a n run_id at sha alert)" for a n sha alert
    unfolding insert_alert_revision_def Let_def by (intro rules obeys_period stmts)
  have rec: "obeys R (reconcile_alert env run_id src at alert)" for src alert
    unfolding reconcile_alert_def new_identity_def unchanged_revision_def next_revision_of_def Let_def
    by (intro rules rev stmts) simp_all
  show ?thesis
    unfolding complete_body_def ingestion_run_source_url_def update_skipped_run_def reconcile_feed_def
      close_missing_alerts_def mark_succeeded_def
    by (intro rules latest snap rec stmts refl) simp_all
qed

end

section \<open>Sequences grow\<close>

definition seq_le :: "sequences \<Rightarrow> sequences \<Rightarrow> bool" where
  "seq_le s t \<longleftrightarrow> sq_run s \<le> sq_run t \<and> sq_import s \<le> sq_import t \<and> sq_archive s \<le> sq_archive t \<and>
     sq_snapshot s \<le> sq_snapshot t \<and> sq_alert s \<le> sq_alert t \<and> sq_revision s \<le> sq_revision t"

lemma seq_le_refl [simp]: "seq_le s s"
  by (simp add: seq_le_def)

abbreviation (input) grows :: "db \<Rightarrow> db \<Rightarrow> bool" where
  "grows db db' \<equiv> seq_le (db_seq db) (db_seq db')"

interpretation growing: tx_relation grows
  by unfold_locales (auto simp: seq_le_def)

lemma serves_grows:
  "serves grows (update_runs p f)" "serves grows (insert_run src now)"
  "serves grows (insert_snapshot run_id alert)" "serves grows (insert_revision a n run_id at sha alert)"
  "serves grows (insert_alert src e at run_id)" "serves grows (upsert_archive obj)"
  by (simp_all add: serves_def update_runs_def insert_run_def insert_snapshot_def insert_revision_def
      insert_alert_def upsert_archive_def Let_def seq_le_def split: option.split)

lemma complete_body_grows: "obeys grows (complete_body env now run_id result summary ts sha at)"
  by (rule growing.obeys_complete_body)
    (simp_all add: serves_grows add_snapshot_period_def add_snapshot_entity_def add_revision_period_def
      add_revision_entity_def update_alerts_def update_revisions_def)

section \<open>Tables that stay\<close>

interpretation same_archives: tx_relation "\<lambda>db db'. db_archives db' = db_archives db"
  by unfold_locales auto

lemma complete_body_archives:
  "obeys (\<lambda>db db'. db_archives db' = db_archives db) (complete_body env now run_id result summary ts sha at)"
  by (rule same_archives.obeys_complete_body)
    (simp_all add: serves_def update_runs_def insert_snapshot_def insert_revision_def insert_alert_def Let_def
      add_snapshot_period_def add_snapshot_entity_def add_revision_period_def
      add_revision_entity_def update_alerts_def update_revisions_def)

section \<open>What a call leaves\<close>

text \<open>The database after a statement of its own transaction: executed, or rolled back.\<close>

lemma auto_commit_cases:
  assumes "auto_commit io w f db = (r, db')"
  shows "(\<exists>x. f db = (Inr x, db')) \<or> (\<exists>db1. snd (f db) = db1 \<and> db' = rollback db db1)"
  using assms by (auto simp: auto_commit_def split: prod.splits sum.splits outcome.splits if_splits)

lemma auto_commit_Inr: "auto_commit io w f db = (Inr x, db') \<Longrightarrow> f db = (Inr x, db')"
  by (auto simp: auto_commit_def split: prod.splits sum.splits outcome.splits)

end
