(* ===== verification/AlertLife.thy ===== *)
theory AlertLife
  imports AlertTimeline TxRelation
begin

text \<open>
  The life of the alert tables: every operation of \<open>AlertRepository\<close>, with any outcome of its
  statements and of its commit, is one step. The invariants hold in every reachable state, and
  no step loses evidence: terminal runs, archive links, archives and revisions are kept.
\<close>

section \<open>The steps\<close>

inductive alert_step :: "repo_env \<Rightarrow> db \<Rightarrow> db \<Rightarrow> bool" for env :: repo_env where
  start: "start_alert_run io src db = (r, db') \<Longrightarrow> alert_step env db db'"
| record_raw: "record_alert_archive io run_id obj db = (r, db') \<Longrightarrow> alert_step env db db'"
| fail: "fail_alert_run_with_failure env io run_id fetch summary f db = (r, db') \<Longrightarrow> alert_step env db db'"
| complete: "complete_alert_run env io run_id result summary db = (r, db') \<Longrightarrow> alert_step env db db'"

section \<open>The invariant\<close>

definition links_inv :: "db \<Rightarrow> bool" where
  "links_inv db \<longleftrightarrow> (\<forall>r \<in> set (db_runs db). \<forall>id. at_archive_id r = Some id \<longrightarrow> id \<in> ra_id ` set (db_archives db))"

definition db_inv :: "db \<Rightarrow> bool" where
  "db_inv db \<longleftrightarrow> runs_inv db \<and> alerts_inv db \<and> chronology_inv db \<and> archives_inv db \<and> links_inv db"

lemma history_tables:
  "db_alerts db' = db_alerts db \<Longrightarrow> db_revisions db' = db_revisions db \<Longrightarrow> history db' = history db"
  by (simp add: history_def revisions_of_def find_alert_def fun_eq_iff cong: option.case_cong)

lemma alerts_inv_tables:
  "db_alerts db' = db_alerts db \<Longrightarrow> db_revisions db' = db_revisions db \<Longrightarrow>
   seq_le (db_seq db) (db_seq db') \<Longrightarrow> alerts_inv db \<Longrightarrow> alerts_inv db'"
  by (fastforce simp: alerts_inv_def ids_ok_def revisions_of_def seq_le_def)

lemma chronology_inv_tables:
  "db_runs db' = db_runs db \<Longrightarrow> db_alerts db' = db_alerts db \<Longrightarrow> db_revisions db' = db_revisions db \<Longrightarrow>
   chronology_inv db \<Longrightarrow> chronology_inv db'"
  by (rule chronology_inv_keep) (auto intro: history_tables)

lemma db_inv_rollback:
  assumes "db_inv db" and "seq_le (db_seq db) (db_seq db1)"
  shows "db_inv (rollback db db1)"
proof -
  have "runs_inv (rollback db db1)" "archives_inv (rollback db db1)" "links_inv (rollback db db1)"
    using assms by (fastforce simp: db_inv_def runs_inv_def archives_inv_def links_inv_def seq_le_def)+
  moreover have "alerts_inv (rollback db db1)"
    by (rule alerts_inv_tables [where db = db]) (use assms in \<open>simp_all add: db_inv_def\<close>)
  moreover have "chronology_inv (rollback db db1)"
    by (rule chronology_inv_tables [where db = db]) (use assms in \<open>simp_all add: db_inv_def\<close>)
  ultimately show ?thesis by (simp add: db_inv_def)
qed

section \<open>What is kept\<close>

definition run_advances :: "run_row \<Rightarrow> run_row \<Rightarrow> bool" where
  "run_advances r r' \<longleftrightarrow> at_id r' = at_id r \<and> at_source_url r' = at_source_url r \<and> at_started r' = at_started r \<and>
     (at_status r \<noteq> Running \<longrightarrow> r' = r) \<and>
     (at_archive r = Archived \<longrightarrow> at_archive r' = Archived \<and> at_archive_id r' = at_archive_id r)"

definition advances :: "db \<Rightarrow> db \<Rightarrow> bool" where
  "advances db db' \<longleftrightarrow> (\<forall>r \<in> set (db_runs db). \<exists>r' \<in> set (db_runs db'). run_advances r r') \<and>
     set (db_archives db) \<subseteq> set (db_archives db') \<and> (\<forall>key. extends (history db key) (history db' key))"

lemma run_advances_refl: "run_advances r r"
  by (simp add: run_advances_def)

lemma run_advances_trans: "run_advances r s \<Longrightarrow> run_advances s t \<Longrightarrow> run_advances r t"
  unfolding run_advances_def by metis

lemma advances_refl: "advances db db"
  by (auto simp: advances_def extends_refl intro: run_advances_refl)

lemma advances_trans:
  assumes "advances a b" and "advances b c"
  shows "advances a c"
proof -
  have "\<exists>r' \<in> set (db_runs c). run_advances r r'" if "r \<in> set (db_runs a)" for r
    using that assms run_advances_trans unfolding advances_def by meson
  then show ?thesis using assms extends_trans unfolding advances_def by blast
qed

lemma advances_tables:
  "db_runs db' = db_runs db \<Longrightarrow> db_archives db' = db_archives db \<Longrightarrow> db_alerts db' = db_alerts db \<Longrightarrow>
   db_revisions db' = db_revisions db \<Longrightarrow> advances db db'"
  by (auto simp: advances_def extends_refl history_tables [of db' db] intro: run_advances_refl)

lemma advances_rollback: "advances db (rollback db db1)"
  by (rule advances_tables) simp_all

text \<open>A statement that is its own transaction.\<close>

lemma auto_commit_step:
  assumes "auto_commit io w f db = (r, db')" and "db_inv db" and "serves grows f"
    and "\<And>x db1. f db = (Inr x, db1) \<Longrightarrow> db_inv db1 \<and> advances db db1"
  shows "db_inv db' \<and> advances db db'"
  using auto_commit_cases [OF assms(1)]
proof (elim disjE exE conjE)
  fix x assume "f db = (Inr x, db')"
  then show ?thesis by (rule assms(4))
next
  fix db1 assume "snd (f db) = db1" "db' = rollback db db1"
  moreover have "seq_le (db_seq db) (db_seq (snd (f db)))" using assms(3) by (simp add: serves_def)
  ultimately show ?thesis using db_inv_rollback [OF assms(2)] advances_rollback by simp
qed

text \<open>Running runs are updated.\<close>

lemma runs_advance:
  assumes "db_runs db' = upd_where p f (db_runs db)" and "\<And>r. p r \<Longrightarrow> run_advances r (f r)"
  shows "\<forall>r \<in> set (db_runs db). \<exists>r' \<in> set (db_runs db'). run_advances r r'"
proof
  fix r assume r: "r \<in> set (db_runs db)"
  have "(if p r then f r else r) \<in> set (db_runs db')" unfolding assms(1) set_upd_where by (rule imageI [OF r])
  moreover have "run_advances r (if p r then f r else r)" using assms(2) run_advances_refl by simp
  ultimately show "\<exists>r' \<in> set (db_runs db'). run_advances r r'" by blast
qed

lemma keep_chronology_upd:
  assumes inv: "chronology_inv db" "runs_inv db" and runs: "db_runs db' = upd_where p f (db_runs db)"
    and p: "\<And>r. p r \<Longrightarrow> at_status r = Running" and f: "\<And>r. ir_applied (f r) = ir_applied r"
    and h: "history db' = history db"
  shows "chronology_inv db'"
proof (rule chronology_inv_keep [OF inv(1) h])
  have no: "\<not> p r" if "r \<in> set (db_runs db)" "ir_applied r" for r
    using that p inv(2) by (auto simp: runs_inv_def run_ok_def)
  show "r \<in> set (db_runs db)" if "r \<in> set (db_runs db')" "ir_applied r" for r
    using that no f by (auto simp: runs set_upd_where split: if_splits)
  show "r \<in> set (db_runs db')" if "r \<in> set (db_runs db)" "ir_applied r" for r
    using that no by (force simp: runs set_upd_where)
qed

section \<open>Starting and failing a run\<close>

lemma insert_run_step:
  assumes "insert_run src now db = (Inr k, db')" and "db_inv db"
  shows "db_inv db' \<and> advances db db'"
proof -
  from assms(1) have k: "k = sq_run (db_seq db)"
    and same: "db_archives db' = db_archives db" "db_alerts db' = db_alerts db" "db_revisions db' = db_revisions db"
      "db_seq db' = (db_seq db)\<lparr>sq_run := k + 1\<rparr>"
    and new: "\<exists>r. db_runs db' = db_runs db @ [r] \<and> at_id r = k \<and> at_status r = Running \<and> at_archive_id r = None \<and>
      attempt_ok r \<and> ended_ok r \<and> \<not> ir_applied r"
    by (auto simp: insert_run_def Let_def attempt_ok_def ended_ok_def)
  from new obtain r where r: "db_runs db' = db_runs db @ [r]" "at_id r = k" "at_archive_id r = None"
    "attempt_ok r" "ended_ok r" "\<not> ir_applied r" by blast
  have I: "runs_inv db" "alerts_inv db" "chronology_inv db" "archives_inv db" "links_inv db"
    using assms(2) by (simp_all add: db_inv_def)
  have "runs_inv db'" using I(1) r by (fastforce simp: runs_inv_def run_ok_def same(4) k)
  moreover have "alerts_inv db'"
    by (rule alerts_inv_tables [OF same(2,3) _ I(2)]) (simp add: same(4) seq_le_def k)
  moreover have "chronology_inv db'"
    by (rule chronology_inv_keep [OF I(3) history_tables [OF same(2,3)]]) (use r in auto)
  moreover have "archives_inv db'" "links_inv db'"
    using I(4,5) r by (auto simp: archives_inv_def links_inv_def same)
  moreover have "advances db db'"
    using r run_advances_refl by (auto simp: advances_def same extends_refl history_tables [OF same(2,3)])
  ultimately show ?thesis by (simp add: db_inv_def)
qed

lemma start_step:
  assumes "start_alert_run io src db = (r, db')" and "db_inv db"
  shows "db_inv db' \<and> advances db db'"
  using assms(1) unfolding start_alert_run_def
  by (rule auto_commit_step [OF _ assms(2) serves_grows(2)]) (rule insert_run_step [OF _ assms(2)])

text \<open>An update of running runs that keeps the archive link and applies nothing.\<close>

lemma update_runs_step:
  assumes upd: "update_runs p f db = (Inr n, db')" and inv: "db_inv db"
    and p: "\<And>r. p r \<Longrightarrow> at_status r = Running"
    and f: "\<And>r. ir_applied (f r) = ir_applied r" "\<And>r. at_archive_id (f r) = at_archive_id r"
    and adv: "\<And>r. p r \<Longrightarrow> run_advances r (f r)"
    and id: "\<And>r. at_id (f r) = at_id r" and ended: "\<And>r. p r \<Longrightarrow> ended_ok (f r)"
  shows "db_inv db' \<and> advances db db'"
proof -
  note U = update_runs_Inr [OF upd]
  have I: "runs_inv db" "alerts_inv db" "chronology_inv db" "archives_inv db" "links_inv db"
    using inv by (simp_all add: db_inv_def)
  have h: "history db' = history db" by (rule history_tables) (simp_all add: U(1))
  have "runs_inv db'"
    by (rule runs_inv_update [OF I(1) upd id]) (use I(1) p f ended in \<open>auto simp: runs_inv_def run_ok_def\<close>)
  moreover have "alerts_inv db'" by (rule alerts_inv_tables [OF _ _ _ I(2)]) (simp_all add: U(1))
  moreover have "chronology_inv db'"
    by (rule keep_chronology_upd [OF I(3,1) _ p f(1) h]) (simp_all add: U(1))
  moreover have "archives_inv db'" "links_inv db'"
    using I(4,5) f(2) by (auto simp: archives_inv_def links_inv_def U(1) set_upd_where split: if_splits)
  moreover have "advances db db'"
    unfolding advances_def h
    by (intro conjI runs_advance [OF _ adv]) (simp_all add: U(1) extends_refl)
  ultimately show ?thesis by (simp add: db_inv_def)
qed

lemma fail_step:
  assumes "fail_alert_run_with_failure env io run_id fetch summary f db = (r, db')" and inv: "db_inv db"
  shows "db_inv db' \<and> advances db db'"
proof -
  let ?p = "\<lambda>r. at_id r = run_id \<and> at_status r = Running"
  let ?f = "fail_run_row env fetch summary f (io_now io)"
  let ?w = "Wrapf ''mark service-alert ingestion run %d failed: %w'' [AInt run_id]"
  obtain r1 where a: "auto_commit io ?w (update_runs ?p ?f) db = (r1, db')"
    using assms(1) by (auto simp: fail_alert_run_with_failure_def split: prod.splits sum.splits)
  show ?thesis
  proof (rule auto_commit_step [OF a inv serves_grows(1)])
    fix n db1 assume upd: "update_runs ?p ?f db = (Inr n, db1)"
    show "db_inv db1 \<and> advances db db1"
      by (rule update_runs_step [OF upd inv]) (simp_all add: fail_run_row_def run_advances_def ended_ok_def)
  qed
qed

section \<open>Recording an archive\<close>

context attempt_store
begin

lemma archive_body_grows: "obeys grows (archive_body table attempt_id obj)"
proof -
  have "serves grows (link_archive table attempt_id k created)" for k created
    by (simp add: serves_def link_archive_def Let_def seq_set)
  then show ?thesis unfolding archive_body_def check_link_def by (intro growing.rules serves_grows)
qed

end

lemma link_row_step:
  assumes inv: "db_inv db" and body: "archive_body runs_table run_id obj \<lparr>se_db = db, se_faults = fs\<rparr> = (Inr (), s)"
  shows "db_inv (se_db s) \<and> advances db (se_db s)"
proof -
  let ?db = "se_db s"
  let ?p = "\<lambda>r. at_id r = run_id \<and> at_status r = Running \<and> at_archive r = Pending"
  have I: "runs_inv db" "alerts_inv db" "chronology_inv db" "archives_inv db" "links_inv db"
    using inv by (simp_all add: db_inv_def)
  have arch: "archives_inv (se_db \<lparr>se_db = db, se_faults = fs\<rparr>)" using I(4) by simp
  note B = alert_attempts.archive_body_Inr [OF body arch]
  note K = alert_attempts.archive_body_keeps [OF body arch]
  have seq: "seq_le (db_seq db) (db_seq ?db)"
    using obeysD [OF alert_attempts.archive_body_grows body] by simp
  have same: "db_alerts ?db = db_alerts db" "db_revisions ?db = db_revisions db"
    using K [of db_alerts] K [of db_revisions] by (simp_all add: runs_table_def)
  note h = history_tables [OF this]
  from B(4) obtain k where k: "k \<in> ra_id ` set (db_archives ?db)"
    and "tb_rows runs_table ?db = upd_where ?p (link_row k (ob_created obj))
        (tb_rows runs_table (se_db \<lparr>se_db = db, se_faults = fs\<rparr>)) \<and> list_all attempt_ok (tb_rows runs_table ?db)"
    by (rule bexE)
  then have runs: "db_runs ?db = upd_where ?p (link_row k (ob_created obj)) (db_runs db)"
    and valid: "list_all attempt_ok (db_runs ?db)"
    unfolding runs_table_def attempt_table.simps session.simps by blast+
  let ?f = "link_row k (ob_created obj)"
  have upd: "update_runs ?p ?f db = (Inr (affected ?p (db_runs db)), db\<lparr>db_runs := db_runs ?db\<rparr>)"
    using valid by (simp add: update_runs_def Let_def runs)
  have "runs_inv (db\<lparr>db_runs := db_runs ?db\<rparr>)"
    by (rule runs_inv_update [OF I(1) upd]) (use I(1) in \<open>auto simp: runs_inv_def run_ok_def link_row_def ended_ok_def\<close>)
  with seq have "runs_inv ?db" by (fastforce simp: runs_inv_def seq_le_def)
  moreover have "alerts_inv ?db" by (rule alerts_inv_tables [OF same seq I(2)])
  moreover have "chronology_inv ?db"
    by (rule keep_chronology_upd [OF I(3,1) runs _ _ h]) (simp_all add: link_row_def)
  moreover have "archives_inv ?db" by (rule B(2))
  moreover have "links_inv ?db"
  proof -
    have "\<forall>r \<in> set (db_runs db). \<forall>id. at_archive_id r = Some id \<longrightarrow> id \<in> ra_id ` set (db_archives ?db)"
      using I(5) image_mono [OF B(3), of ra_id] by (fastforce simp: links_inv_def)
    moreover have "at_archive_id (link_row k (ob_created obj) r) = Some k" for r :: run_row
      by (simp add: link_row_def)
    ultimately show ?thesis using k unfolding links_inv_def runs set_upd_where ball_simps(9) by simp
  qed
  moreover have "advances db ?db"
    unfolding advances_def h
    by (intro conjI runs_advance [OF runs]) (use B(3) in \<open>simp_all add: run_advances_def link_row_def extends_refl\<close>)
  ultimately show ?thesis by (simp add: db_inv_def)
qed

lemma record_step:
  assumes "record_alert_archive io run_id obj db = (r, db')" and inv: "db_inv db"
  shows "db_inv db' \<and> advances db db'"
  using alert_attempts.record_archive_cases [OF assms(1) [unfolded record_alert_archive_def]]
proof (elim disjE exE conjE)
  assume "db' = db"
  with inv advances_refl show ?thesis by simp
next
  fix res s
  assume body: "archive_body runs_table run_id obj \<lparr>se_db = db, se_faults = io_faults io\<rparr> = (res, s)"
    and "db' = rollback db (se_db s)"
  with obeysD [OF alert_attempts.archive_body_grows body] db_inv_rollback [OF inv] advances_rollback
  show ?thesis by simp
next
  fix res s
  assume "archive_body runs_table run_id obj \<lparr>se_db = db, se_faults = io_faults io\<rparr> = (res, s)"
    and "res = Inr ()" "db' = se_db s"
  with link_row_step [OF inv] show ?thesis by blast
qed

section \<open>Completing a run\<close>

lemma complete_alert_run_cases:
  assumes "complete_alert_run env io run_id result summary db = (r, db')"
  obtains "db' = db"
  | ts at res s where "timestamp_value (fe_timestamp summary) = Inr ts"
      "observation_time (fe_timestamp summary) (fr_retrieved result) = Inr at"
      "complete_body env (io_now io) run_id result summary ts (sha256_hex env (fr_body result)) at
         \<lparr>se_db = db, se_faults = io_faults io\<rparr> = (res, s)"
      "db' = rollback db (se_db s) \<or> (\<exists>skipped. res = Inr skipped) \<and> db' = se_db s"
proof (cases "db' = db")
  case True
  then show thesis by (rule that(1))
next
  case False
  with assms obtain ts at where ts: "timestamp_value (fe_timestamp summary) = Inr ts"
      "observation_time (fe_timestamp summary) (fr_retrieved result) = Inr at"
    and "fe_incrementality summary = ''FULL_DATASET''" "io_begin io = None"
    unfolding complete_alert_run_def by (auto split: if_splits sum.splits option.splits)
  moreover obtain res s where body: "complete_body env (io_now io) run_id result summary ts (sha256_hex env (fr_body result)) at
         \<lparr>se_db = db, se_faults = io_faults io\<rparr> = (res, s)" by fastforce
  ultimately have "db' = rollback db (se_db s) \<or> (\<exists>skipped. res = Inr skipped) \<and> db' = se_db s"
    using assms by (auto simp: complete_alert_run_def commit_run_def commit_tx_def
        split: sum.splits prod.splits outcome.splits if_splits)
  with ts body show thesis by (rule that(2))
qed

lemma complete_body_True:
  assumes body: "complete_body env now run_id result summary ts sha at \<lparr>se_db = db, se_faults = fs\<rparr> = (Inr True, s)"
    and inv: "db_inv db"
  shows "db_inv (se_db s) \<and> advances db (se_db s)"
proof -
  have I: "runs_inv db" "alerts_inv db" "chronology_inv db" "archives_inv db" "links_inv db"
    using inv by (simp_all add: db_inv_def)
  obtain reason where db': "se_db s = db\<lparr>db_runs := upd_where (running_archived run_id)
       (skipped_row now result summary ts sha reason) (db_runs db)\<rparr>" and "runs_inv (se_db s)"
    using complete_body_skipped [OF body] I(1) by auto
  let ?f = "skipped_row now result summary ts sha reason"
  have h: "history (se_db s) = history db" by (rule history_tables) (simp_all add: db')
  have "alerts_inv (se_db s)" by (rule alerts_inv_tables [OF _ _ _ I(2)]) (simp_all add: db')
  moreover have "chronology_inv (se_db s)"
    by (rule keep_chronology_upd [OF I(3,1) _ _ _ h, of "running_archived run_id" ?f])
      (simp_all add: db' running_archived_def skipped_row_def feed_columns_def)
  moreover have "archives_inv (se_db s)" "links_inv (se_db s)"
    using I(4,5) by (auto simp: archives_inv_def links_inv_def db' set_upd_where skipped_row_def feed_columns_def split: if_splits)
  moreover have "advances db (se_db s)"
    unfolding advances_def h
    by (intro conjI runs_advance [where p = "running_archived run_id" and f = ?f])
      (simp_all add: db' extends_refl run_advances_def running_archived_def skipped_row_def feed_columns_def)
  ultimately show ?thesis using \<open>runs_inv (se_db s)\<close> by (simp add: db_inv_def)
qed

lemma complete_body_False:
  assumes body: "complete_body env now run_id result summary ts sha at \<lparr>se_db = db, se_faults = fs\<rparr> = (Inr False, s)"
    and ts: "timestamp_value (fe_timestamp summary) = Inr ts"
      "observation_time (fe_timestamp summary) (fr_retrieved result) = Inr at"
    and inv: "db_inv db"
  shows "db_inv (se_db s) \<and> advances db (se_db s)"
proof -
  have I: "runs_inv db" "alerts_inv db" "chronology_inv db" "archives_inv db" "links_inv db"
    using inv by (simp_all add: db_inv_def)
  let ?f = "applied_row now result summary ts sha"
  obtain r where r: "r \<in> set (db_runs db)" "running_archived run_id r" and old: "not_older run_id (at_source_url r) at db"
    and runs: "db_runs (se_db s) = upd_where (running_archived run_id) ?f (db_runs db)"
    and h: "history (se_db s) = observe_feed (pg_time at) (at_source_url r) (feed_content env (fe_alerts summary)) (history db)"
    and inv': "runs_inv (se_db s)" "alerts_inv (se_db s)"
    using complete_body_applied [OF body] I by auto
  have arch: "db_archives (se_db s) = db_archives db"
    using obeysD [OF complete_body_archives body] by simp
  have "chronology_inv (se_db s)"
  proof (rule chronology_inv_applied [OF I(3,1) r refl old runs _ h])
    show "ir_applied (?f r) \<and> at_status (?f r) = Succeeded \<and> at_source_url (?f r) = at_source_url r \<and>
      run_observed (?f r) = Some (pg_time at)" for r
      using observed_feed_row [OF ts] by (simp add: applied_row_def feed_columns_def)
  qed
  moreover have "archives_inv (se_db s)" 
    using I(4) obeysD [OF complete_body_grows body] by (fastforce simp: archives_inv_def arch seq_le_def)
  moreover have "links_inv (se_db s)"
    using I(5) by (auto simp: links_inv_def arch runs set_upd_where applied_row_def feed_columns_def split: if_splits)
  moreover have "advances db (se_db s)"
    unfolding advances_def h arch
    by (intro conjI runs_advance [OF runs])
      (simp_all add: extends_feed run_advances_def running_archived_def applied_row_def feed_columns_def)
  ultimately show ?thesis using inv' by (simp add: db_inv_def)
qed

lemma complete_step:
  assumes run: "complete_alert_run env io run_id result summary db = (r, db')" and inv: "db_inv db"
  shows "db_inv db' \<and> advances db db'"
  using run
proof (rule complete_alert_run_cases)
  assume "db' = db"
  with inv advances_refl show ?thesis by simp
next
  fix ts at res s
  assume ts: "timestamp_value (fe_timestamp summary) = Inr ts"
      "observation_time (fe_timestamp summary) (fr_retrieved result) = Inr at"
    and body: "complete_body env (io_now io) run_id result summary ts (sha256_hex env (fr_body result)) at
         \<lparr>se_db = db, se_faults = io_faults io\<rparr> = (res, s)"
    and out: "db' = rollback db (se_db s) \<or> (\<exists>skipped. res = Inr skipped) \<and> db' = se_db s"
  have g: "seq_le (db_seq db) (db_seq (se_db s))" using obeysD [OF complete_body_grows body] by simp
  from out show ?thesis
  proof (elim disjE conjE exE)
    assume "db' = rollback db (se_db s)"
    with db_inv_rollback [OF inv g] advances_rollback show ?thesis by simp
  next
    fix skipped assume "res = Inr skipped" "db' = se_db s"
    with body ts inv complete_body_True complete_body_False show ?thesis by (cases skipped) simp_all
  qed
qed

section \<open>Reachable states\<close>

lemma alert_step_inv: "alert_step env db db' \<Longrightarrow> db_inv db \<Longrightarrow> db_inv db' \<and> advances db db'"
  by (induction rule: alert_step.induct) (rule start_step record_step fail_step complete_step; assumption)+

lemma db_inv_empty: "db_inv empty_db"
  by (simp add: db_inv_def empty_db_def runs_inv_def alerts_inv_def ids_ok_def chronology_inv_def
      archives_inv_def links_inv_def history_def find_alert_def)

lemma alert_steps_inv:
  assumes "(alert_step env)\<^sup>*\<^sup>* db db'" and "db_inv db"
  shows "db_inv db' \<and> advances db db'"
  using assms
proof (induction rule: rtranclp_induct)
  case base
  then show ?case by (simp add: advances_refl)
next
  case (step db1 db2)
  then show ?case using alert_step_inv [OF step.hyps(2)] advances_trans by blast
qed

end
