(* ===== verification/Samples.thy ===== *)
theory Samples
  imports AlertLife GtfsArchive
begin

text \<open>
  Concrete inputs on which the properties are applied: an environment, a feed with one alert,
  and the database as the operations themselves leave it.
\<close>

definition sample_env :: repo_env where
  "sample_env = \<lparr>sha256_hex = (\<lambda>s. s), error_text = (\<lambda>_. ''error'')\<rparr>"

definition sample_hash :: string where
  "sample_hash = replicate 64 CHR ''0''"

definition sample_object :: storage_object where
  "sample_object = \<lparr>ob_backend = ''local'', ob_key = ''raw/a'', ob_size = 3, ob_sha256 = sample_hash,
     ob_stored = 5000, ob_etag = [], ob_version = [], ob_created = Some True\<rparr>"

definition sample_alert :: "string \<Rightarrow> string \<Rightarrow> alert_summary" where
  "sample_alert entity text = \<lparr>al_entity_id = entity, al_deleted = False, al_cause = None, al_effect = None,
     al_severity = None, al_header = [\<lparr>tr_text = text, tr_language = ''en''\<rparr>], al_description = [], al_url = [],
     al_periods = [], al_entities = [], al_unknown_bytes = 0, al_unknown_hash = []\<rparr>"

definition sample_feed :: "alert_summary list \<Rightarrow> feed_summary" where
  "sample_feed alerts = \<lparr>fe_version = ''2.0'', fe_incrementality = ''FULL_DATASET'', fe_timestamp = None,
     fe_entity_count = length alerts, fe_alert_count = length alerts, fe_non_alert_count = 0,
     fe_unknown_bytes = 0, fe_alerts = alerts\<rparr>"

definition sample_fetch :: "string \<Rightarrow> instant \<Rightarrow> fetch_result" where
  "sample_fetch body at = \<lparr>fr_body = body, fr_status = 200, fr_content_type = ''x'', fr_retrieved = at\<rparr>"

text \<open>A run that was started and archived: the next call completes it.\<close>

definition sample_started :: "db \<Rightarrow> db" where
  "sample_started db =
     (let id = sq_run (db_seq db)
      in snd (record_alert_archive (quiet_io 2000) id sample_object (snd (start_alert_run (quiet_io 1000) ''src'' db))))"

definition sample_ready :: db where
  "sample_ready = sample_started empty_db"

text \<open>One applied feed, and a second run ready to be completed.\<close>

definition sample_applied :: db where
  "sample_applied = snd (complete_alert_run sample_env (quiet_io 9000) 1 (sample_fetch ''f1'' 10000)
     (sample_feed [sample_alert ''a'' ''x'']) sample_ready)"

definition sample_second :: db where
  "sample_second = sample_started sample_applied"

section \<open>They are reachable\<close>

lemma sample_started_steps: "(alert_step env)\<^sup>*\<^sup>* db (sample_started db)"
proof -
  define mid where "mid = snd (start_alert_run (quiet_io 1000) ''src'' db)"
  have "alert_step env db mid"
    by (rule alert_step.start [where r = "fst (start_alert_run (quiet_io 1000) ''src'' db)"]) (simp add: mid_def)
  moreover have "alert_step env mid (sample_started db)"
    by (rule alert_step.record_raw [where r = "fst (record_alert_archive (quiet_io 2000) (sq_run (db_seq db)) sample_object mid)"])
      (simp add: sample_started_def Let_def mid_def)
  ultimately show ?thesis by (blast intro: converse_rtranclp_into_rtranclp)
qed

lemma sample_ready_reachable: "(alert_step sample_env)\<^sup>*\<^sup>* empty_db sample_ready"
  unfolding sample_ready_def by (rule sample_started_steps)

lemma sample_applied_step: "alert_step sample_env sample_ready sample_applied"
  by (rule alert_step.complete [where r = "fst (complete_alert_run sample_env (quiet_io 9000) 1
      (sample_fetch ''f1'' 10000) (sample_feed [sample_alert ''a'' ''x'']) sample_ready)"])
    (simp add: sample_applied_def)

lemma sample_second_reachable: "(alert_step sample_env)\<^sup>*\<^sup>* empty_db sample_second"
  using sample_ready_reachable sample_applied_step sample_started_steps [of sample_env sample_applied]
  unfolding sample_second_def by (meson rtranclp.rtrancl_into_rtrancl rtranclp_trans)

lemma sample_inv: "db_inv sample_ready" "db_inv sample_second"
  using alert_steps_inv [OF sample_ready_reachable db_inv_empty]
    alert_steps_inv [OF sample_second_reachable db_inv_empty] by simp_all

lemma sample_invs: "runs_inv sample_ready" "alerts_inv sample_ready" "archives_inv sample_ready"
  "runs_inv sample_second" "alerts_inv sample_second"
  using sample_inv by (simp_all add: db_inv_def)

section \<open>Their values\<close>

lemmas tx_eval = update_def stmt_def query_row_def query_def bind_tx_def ret_def fail_tx_def require_one_row_def quiet_io_def
  commit_tx_def auto_commit_def rollback_def Let_def upd_where_def affected_def pg_time_def

lemmas sample_eval = sample_feed_def sample_fetch_def sample_alert_def sample_object_def

lemmas complete_eval = complete_alert_run_def complete_body_def timestamp_value_def observation_time_def
  ingestion_run_source_url_def latest_applied_feed_def applied_runs_def skip_reason_def applied_key_def
  null_key_def run_observed_def reconcile_feed_def insert_alert_snapshot_def insert_snapshot_def reconcile_alert_def
  hash_alert_def new_identity_def insert_alert_def find_alert_def insert_alert_revision_def insert_revision_def
  revision_hash_def unchanged_revision_def next_revision_of_def next_revision_def update_alerts_def update_revisions_def
  mark_succeeded_def update_runs_def update_skipped_run_def skipped_row_def commit_run_def applied_row_def
  feed_columns_def running_archived_def attempt_ok_def close_missing_alerts_def missing_def run_status_query_def run_status_of_def

lemmas complete_evals = complete_eval tx_eval sample_eval

text \<open>A running, archived run, as \<open>start\<close> and \<open>recordArchive\<close> leave it.\<close>

definition sample_run :: "row_id \<Rightarrow> run_row" where
  "sample_run k = \<lparr>at_id = k, at_status = Running, at_source_url = ''src'', at_started = 1000,
     at_completed = None, at_retrieved = None, at_content_type = None, at_sha256 = None, at_error = None,
     at_skip_reason = None, at_skip_code = None, at_archive = Archived, at_archive_id = Some 1,
     at_archive_created = Some True, at_archive_error = None, at_failure_stage = None, at_failure_code = None,
     at_public_error = None, ir_feed_timestamp = None, ir_http_status = None, ir_payload_bytes = None,
     ir_entity_count = None, ir_alert_count = None, ir_applied = False\<rparr>"

definition sample_archive :: archive_row where
  "sample_archive = \<lparr>ra_id = 1, ra_backend = ''local'', ra_key = ''raw/a'', ra_sha256 = sample_hash,
     ra_bytes = 3, ra_stored = 5000, ra_etag = None, ra_version = None\<rparr>"

lemma sample_hash_ok: "hash_pattern sample_hash"
  by (simp add: hash_pattern_def sample_hash_def list_all_iff lower_hex_def is_digit_def ord_def)

lemma sample_key_ok: "validate_key ''raw/a'' = None"
  by code_simp

lemma sample_ready_eq: "sample_ready = empty_db\<lparr>db_runs := [sample_run 1], db_archives := [sample_archive],
    db_seq := \<lparr>sq_run = 2, sq_import = 1, sq_archive = 2, sq_snapshot = 1, sq_alert = 1, sq_revision = 1\<rparr>\<rparr>"
  unfolding sample_ready_def sample_started_def
  by (simp add: empty_db_def start_alert_run_def insert_run_def record_alert_archive_def record_archive_def
      sample_hash_ok sample_key_ok archive_body_def runs_table_def upsert_archive_def link_archive_def check_link_def
      link_row_def commit_archive_def attempt_ok_def version_string_def nullable_string_def zero_time_def
      sample_run_def sample_archive_def sample_eval tx_eval)

text \<open>After the first feed: its run, its snapshot, its alert and the first revision.\<close>

definition sample_done :: run_row where
  "sample_done = (sample_run 1)\<lparr>at_status := Succeeded, at_completed := Some 9000, at_retrieved := Some 10000,
     at_content_type := Some ''x'', at_sha256 := Some ''f1'', ir_http_status := Some 200, ir_payload_bytes := Some 2,
     ir_entity_count := Some 1, ir_alert_count := Some 1, ir_applied := True\<rparr>"

definition sample_snapshot :: snapshot_row where
  "sample_snapshot = \<lparr>sn_id = 1, sn_run = 1, sn_entity = ''a'', sn_columns = columns_of (sample_alert ''a'' ''x'')\<rparr>"

definition sample_alert_row :: alert_row where
  "sample_alert_row = \<lparr>sa_id = 1, sa_source_url = ''src'', sa_entity = ''a'', sa_first_seen = 10000,
     sa_last_seen = 10000, sa_first_run = 1, sa_last_run = 1, sa_present = True, sa_closed = None, sa_current = Some 1\<rparr>"

definition sample_revision :: revision_row where
  "sample_revision = \<lparr>rv_id = 1, rv_alert = 1, rv_number = 1, rv_sha256 = hash_payload (sample_alert ''a'' ''x''),
     rv_columns = columns_of (sample_alert ''a'' ''x''), rv_first_seen = 10000, rv_last_seen = 10000,
     rv_closed = None, rv_opened_run = 1, rv_closed_run = None\<rparr>"

lemma sample_sha: "sha256_hex sample_env s = s"
  by (simp add: sample_env_def)

lemma sample_applied_eq: "sample_applied = empty_db\<lparr>db_runs := [sample_done], db_archives := [sample_archive],
    db_snapshots := [sample_snapshot], db_alerts := [sample_alert_row], db_revisions := [sample_revision],
    db_seq := \<lparr>sq_run = 2, sq_import = 1, sq_archive = 2, sq_snapshot = 2, sq_alert = 2, sq_revision = 2\<rparr>\<rparr>"
  unfolding sample_applied_def
  by (simp add: sample_ready_eq empty_db_def sample_run_def sample_done_def sample_snapshot_def sample_alert_row_def
      sample_revision_def sample_sha nullable_string_def complete_evals)

lemma sample_second_eq: "sample_second = sample_applied\<lparr>db_runs := [sample_done, sample_run 2],
    db_seq := \<lparr>sq_run = 3, sq_import = 1, sq_archive = 3, sq_snapshot = 2, sq_alert = 2, sq_revision = 2\<rparr>\<rparr>"
  unfolding sample_second_def sample_started_def
  by (simp add: sample_applied_eq empty_db_def start_alert_run_def insert_run_def record_alert_archive_def
      record_archive_def sample_hash_ok sample_key_ok archive_body_def runs_table_def upsert_archive_def
      link_archive_def check_link_def link_row_def commit_archive_def attempt_ok_def version_string_def
      nullable_string_def zero_time_def sample_done_def sample_run_def sample_archive_def sample_eval tx_eval)

lemmas sample_values = sample_second_eq sample_applied_eq empty_db_def sample_done_def sample_run_def
  sample_snapshot_def sample_alert_row_def sample_revision_def sample_sha

end
