(* ===== verification/AlertProperties.thy ===== *)
theory AlertProperties
  imports Samples
begin

text \<open>
  The promises of the alert repository, each with a concrete application.
\<close>

section \<open>An applied feed\<close>

text \<open>C1: \<open>CompleteAlertRun\<close> returned and did not skip: the call implements the specification
  \<open>observe_feed\<close>. The history of every entity of the source is the old history with one
  observation, at the time of the feed to the microsecond, of the content the feed lists for
  it, or of its absence; the histories of other sources are the same.\<close>

theorem applied_feed_is_observed:
  assumes "complete_alert_run env io run_id result summary db = (Inr False, db')"
    and "runs_inv db" and "alerts_inv db"
  shows "\<exists>r at. r \<in> set (db_runs db) \<and> running_archived run_id r \<and>
    observation_time (fe_timestamp summary) (fr_retrieved result) = Inr at \<and>
    history db' = observe_feed (pg_time at) (at_source_url r) (feed_content env (fe_alerts summary)) (history db)"
  using assms by (rule complete_run_applied) blast

theorem applied_feed_is_observed_witness:
  "\<exists>db'. complete_alert_run sample_env (quiet_io 9000) 1 (sample_fetch ''f1'' 10000)
      (sample_feed [sample_alert ''a'' ''x'']) sample_ready = (Inr False, db') \<and>
    history db' = observe_feed 10000 ''src'' (feed_content sample_env [sample_alert ''a'' ''x'']) (history sample_ready)"
proof -
  obtain db' where run: "complete_alert_run sample_env (quiet_io 9000) 1 (sample_fetch ''f1'' 10000)
      (sample_feed [sample_alert ''a'' ''x'']) sample_ready = (Inr False, db')"
    by (simp add: sample_ready_eq empty_db_def sample_run_def complete_evals)
  from applied_feed_is_observed [OF run sample_invs(1,2)] run show ?thesis
    by (auto simp: sample_ready_eq sample_run_def observation_time_def sample_eval pg_time_def)
qed

text \<open>C5: after an applied feed the open revisions of its source are exactly the entities it
  lists, each listed once, and no other source is affected.\<close>

theorem open_revisions_are_the_feed:
  assumes "complete_alert_run env io run_id result summary db = (Inr False, db')"
    and "runs_inv db" and "alerts_inv db"
  shows "\<exists>r \<in> set (db_runs db). at_id r = run_id \<and>
    open_entities db' (at_source_url r) = al_entity_id ` set (fe_alerts summary) \<and>
    distinct (map al_entity_id (fe_alerts summary)) \<and>
    (\<forall>src. src \<noteq> at_source_url r \<longrightarrow> open_entities db' src = open_entities db src)"
proof -
  from assms obtain r at where r: "r \<in> set (db_runs db)" "running_archived run_id r"
    and d: "distinct (map al_entity_id (fe_alerts summary))"
    and h: "history db' = observe_feed (pg_time at) (at_source_url r) (feed_content env (fe_alerts summary)) (history db)"
    by (rule complete_run_applied)
  from r d open_after_feed [OF h] open_elsewhere [OF h] show ?thesis
    by (auto simp: running_archived_def)
qed

theorem open_revisions_are_the_feed_witness:
  "\<exists>db'. complete_alert_run sample_env (quiet_io 9000) 1 (sample_fetch ''f1'' 10000)
      (sample_feed [sample_alert ''a'' ''x'']) sample_ready = (Inr False, db') \<and>
    open_entities db' ''src'' = {''a''}"
proof -
  obtain db' where run: "complete_alert_run sample_env (quiet_io 9000) 1 (sample_fetch ''f1'' 10000)
      (sample_feed [sample_alert ''a'' ''x'']) sample_ready = (Inr False, db')"
    by (simp add: sample_ready_eq empty_db_def sample_run_def complete_evals)
  from open_revisions_are_the_feed [OF run sample_invs(1,2)] run show ?thesis
    by (auto simp: sample_ready_eq sample_run_def sample_eval)
qed

section \<open>Unchanged content\<close>

text \<open>An alert that is open and comes again with the same content, its translations,
  periods and entities in any order, opens no revision: the open revision is seen again.\<close>

theorem unchanged_alert_keeps_its_revision:
  assumes "complete_alert_run env io run_id result summary db = (Inr False, db')"
    and "runs_inv db" and "alerts_inv db"
    and "a \<in> set (fe_alerts summary)" and "same_content a b"
  shows "\<exists>r at. r \<in> set (db_runs db) \<and> at_id r = run_id \<and>
    observation_time (fe_timestamp summary) (fr_retrieved result) = Inr at \<and>
    (let h = history db (at_source_url r, al_entity_id a)
     in is_open h \<and> vw_sha256 (last h) = sha256_hex env (hash_payload b) \<longrightarrow>
        history db' (at_source_url r, al_entity_id a) = butlast h @ [(last h)\<lparr>vw_last := pg_time at\<rparr>])"
proof -
  from assms(1-3) obtain r at where r: "r \<in> set (db_runs db)" "running_archived run_id r"
    "observation_time (fe_timestamp summary) (fr_retrieved result) = Inr at"
    and d: "distinct (map al_entity_id (fe_alerts summary))"
    and h: "history db' = observe_feed (pg_time at) (at_source_url r) (feed_content env (fe_alerts summary)) (history db)"
    by (rule complete_run_applied)
  have "map_of (feed_content env (fe_alerts summary)) (al_entity_id a) = Some (seen_content env a)"
    using assms(4) d by (intro map_of_is_SomeI) (auto simp: feed_content_def comp_def)
  then have "history db' (at_source_url r, al_entity_id a) = observe (pg_time at)
      (Some (sha256_hex env (hash_payload b), columns_of a)) (history db (at_source_url r, al_entity_id a))"
    using hash_payload_order [OF assms(5)] by (simp add: h observe_feed_def seen_content_def)
  with r observe_unchanged show ?thesis unfolding Let_def by (auto simp: running_archived_def)
qed

theorem unchanged_alert_keeps_its_revision_witness:
  "\<exists>db'. complete_alert_run sample_env (quiet_io 9000) 2 (sample_fetch ''f2'' 20000)
      (sample_feed [sample_alert ''a'' ''x'']) sample_second = (Inr False, db') \<and>
    length (history db' (''src'', ''a'')) = 1"
proof -
  let ?a = "sample_alert ''a'' ''x''" and ?key = "(''src'', ''a'')"
  obtain db' where run: "complete_alert_run sample_env (quiet_io 9000) 2 (sample_fetch ''f2'' 20000)
      (sample_feed [?a]) sample_second = (Inr False, db')"
    by (simp add: sample_values complete_evals)
  obtain v where h: "history sample_second ?key = [v]" "vw_closed v = None"
    "vw_sha256 v = sha256_hex sample_env (hash_payload ?a)"
    by (simp add: sample_values history_def find_alert_def revisions_of_def view_of_def)
  have "?a \<in> set (fe_alerts (sample_feed [?a]))" "same_content ?a ?a"
    by (simp_all add: sample_feed_def same_content_def)
  from unchanged_alert_keeps_its_revision [OF run sample_invs(4,5) this] h run show ?thesis
    by (auto simp: sample_values Let_def is_open_def sample_alert_def)
qed

section \<open>Skipped feeds\<close>

text \<open>\<open>CompleteAlertRun\<close> skips only for a feed of the same source that was applied and was
  observed no earlier, or has the same bytes; it then changes the row of its run and nothing
  else.\<close>

theorem skipped_feed_changes_only_its_run:
  assumes "complete_alert_run env io run_id result summary db = (Inr True, db')"
    and "runs_inv db" and "alerts_inv db"
  shows "\<exists>r \<in> set (db_runs db). running_archived run_id r \<and>
    (\<exists>x \<in> set (applied_runs run_id (at_source_url r) db). \<exists>at reason ts.
       observation_time (fe_timestamp summary) (fr_retrieved result) = Inr at \<and>
       timestamp_value (fe_timestamp summary) = Inr ts \<and>
       ((\<exists>t. run_observed x = Some t \<and> t \<ge> at \<and> reason = ''feed observation is older than the latest applied run'') \<or>
        (at_sha256 x = Some (sha256_hex env (fr_body result)) \<and> reason = ''byte-identical to the latest applied payload'')) \<and>
       db' = db\<lparr>db_runs := upd_where (running_archived run_id)
         (skipped_row (io_now io) result summary ts (sha256_hex env (fr_body result)) reason) (db_runs db)\<rparr>)"
proof -
  from assms obtain ts at s where at: "observation_time (fe_timestamp summary) (fr_retrieved result) = Inr at"
    "timestamp_value (fe_timestamp summary) = Inr ts"
    and body: "complete_body env (io_now io) run_id result summary ts (sha256_hex env (fr_body result)) at
       \<lparr>se_db = db, se_faults = io_faults io\<rparr> = (Inr True, s)" and db': "db' = se_db s"
    by (rule complete_alert_run_Inr)
  from complete_body_skipped [OF body] assms(2) at show ?thesis unfolding db' session.simps by blast
qed

theorem skipped_feed_changes_only_its_run_witness:
  "\<exists>db'. complete_alert_run sample_env (quiet_io 9000) 2 (sample_fetch ''f2'' 5000)
      (sample_feed [sample_alert ''a'' ''x'']) sample_second = (Inr True, db') \<and> db_alerts db' = db_alerts sample_second"
proof -
  obtain db' where run: "complete_alert_run sample_env (quiet_io 9000) 2 (sample_fetch ''f2'' 5000)
      (sample_feed [sample_alert ''a'' ''x'']) sample_second = (Inr True, db')"
    by (simp add: sample_values skip_code_def complete_evals)
  from skipped_feed_changes_only_its_run [OF run sample_invs(4,5)] run show ?thesis by auto
qed

section \<open>Failures\<close>

text \<open>C21: when \<open>CompleteAlertRun\<close> returns an error no table has changed, unless the error says
  that the outcome of the commit is unknown.\<close>

theorem failed_completion_changes_nothing:
  assumes "complete_alert_run env io run_id result summary db = (Inl e, db')"
    and "runs_inv db" and "alerts_inv db"
  shows "same_tables db db' \<or> (\<exists>c st. e = CommitOutcomeError c st)"
  using assms by (rule complete_alert_run_Inl)

text \<open>The third statement of the transaction fails.\<close>

theorem failed_completion_changes_nothing_witness:
  "\<exists>e db'. complete_alert_run sample_env ((quiet_io 9000)\<lparr>io_faults := [None, None, Some err_no_rows]\<rparr>) 1
      (sample_fetch ''f1'' 10000) (sample_feed [sample_alert ''a'' ''x'']) sample_ready = (Inl e, db') \<and>
    same_tables sample_ready db'"
proof -
  obtain e db' where run: "complete_alert_run sample_env ((quiet_io 9000)\<lparr>io_faults := [None, None, Some err_no_rows]\<rparr>) 1
      (sample_fetch ''f1'' 10000) (sample_feed [sample_alert ''a'' ''x'']) sample_ready = (Inl e, db')"
    and "\<And>c st. e \<noteq> CommitOutcomeError c st"
    by (simp add: sample_ready_eq empty_db_def sample_run_def complete_evals)
  with failed_completion_changes_nothing [OF run sample_invs(1,2)] show ?thesis by auto
qed

text \<open>C22: an acknowledgement of the commit that is lost, when the status can be read back, makes
  no difference: the call returns what it returns without the fault, in the same state.\<close>

theorem lost_acknowledgement_is_resolved:
  assumes "io_commit io = Lost e True" and "io_status io = None" and "runs_inv db" and "alerts_inv db"
  shows "complete_alert_run env io run_id result summary db =
    complete_alert_run env (io\<lparr>io_commit := Done\<rparr>) run_id result summary db"
proof -
  have commit: "commit_run io run_id (if skipped then Skipped else Succeeded) db (se_db s) =
      commit_run (io\<lparr>io_commit := Done\<rparr>) run_id (if skipped then Skipped else Succeeded) db (se_db s)"
    if "complete_body env (io_now io) run_id result summary ts (sha256_hex env (fr_body result)) at
      \<lparr>se_db = db, se_faults = io_faults io\<rparr> = (Inr skipped, s)" for ts at skipped s
    using complete_body_status(2) [OF that assms(3,4)] assms(1,2)
    by (simp add: commit_run_def commit_tx_def run_status_query_def)
  show ?thesis
    unfolding complete_alert_run_def tx_io.simps
    by (auto simp: commit simp del: if_split split: sum.splits option.splits prod.splits)
qed

theorem lost_acknowledgement_is_resolved_witness:
  "complete_alert_run sample_env ((quiet_io 9000)\<lparr>io_commit := Lost err_no_rows True\<rparr>) 1 (sample_fetch ''f1'' 10000)
     (sample_feed [sample_alert ''a'' ''x'']) sample_ready =
   complete_alert_run sample_env (quiet_io 9000) 1 (sample_fetch ''f1'' 10000)
     (sample_feed [sample_alert ''a'' ''x'']) sample_ready"
  using lost_acknowledgement_is_resolved [of "(quiet_io 9000)\<lparr>io_commit := Lost err_no_rows True\<rparr>" err_no_rows
      sample_ready sample_env 1 "sample_fetch ''f1'' 10000" "sample_feed [sample_alert ''a'' ''x'']"] sample_invs
  by (simp add: quiet_io_def)

section \<open>All histories\<close>

text \<open>C2: every state the alert repository can reach, whatever its statements and commits
  returned, satisfies the invariants of the tables: runs, alerts with numbered revisions of
  which the last is current, times in order, one archive per backend and key, no dangling
  archive link.\<close>

theorem reachable_databases_are_consistent:
  assumes "(alert_step env)\<^sup>*\<^sup>* empty_db db"
  shows "db_inv db"
  using alert_steps_inv [OF assms db_inv_empty] by simp

theorem reachable_databases_are_consistent_witness: "db_inv sample_second"
  by (rule reachable_databases_are_consistent [OF sample_second_reachable])

text \<open>C3: no operation loses evidence. Between two reachable states every terminal run is the
  same, an archive link stays, archives stay, every revision keeps its number, content and
  first time, and closed revisions do not change.\<close>

theorem evidence_is_never_lost:
  assumes "(alert_step env)\<^sup>*\<^sup>* empty_db db" and "(alert_step env)\<^sup>*\<^sup>* db db'"
  shows "advances db db'"
  using alert_steps_inv [OF assms(2)] alert_steps_inv [OF assms(1) db_inv_empty] by simp

theorem evidence_is_never_lost_witness: "advances sample_ready sample_applied"
  by (rule evidence_is_never_lost [OF sample_ready_reachable]) (rule r_into_rtranclp, rule sample_applied_step)

text \<open>C20: in every reachable state the recorded times of every alert are in order: a revision is
  last seen no earlier than first, closed no earlier than last seen, and the next one starts
  no earlier. An observation older than an applied one is never recorded.\<close>

theorem histories_run_forward:
  assumes "(alert_step env)\<^sup>*\<^sup>* empty_db db"
  shows "sorted (times (history db key))"
  using alert_steps_inv [OF assms db_inv_empty] chronology_invD(2) by (simp add: db_inv_def)

theorem histories_run_forward_witness: "sorted (times (history sample_second (''src'', ''a'')))"
  by (rule histories_run_forward [OF sample_second_reachable])

end
