(* ===== verification/RecordProperties.thy ===== *)
theory RecordProperties
  imports Samples
begin

text \<open>
  The promises about what is recorded: content hashes, stored error texts, object keys and
  archives.
\<close>

section \<open>Hashes of content\<close>

text \<open>C23: the payload \<open>HashAlert\<close> digests stands for the content: two alerts of valid strings
  have the same payload exactly when their fields agree and their translations, periods and
  entities agree up to order. The entity id does not count.\<close>

theorem hash_payload_is_the_content:
  assumes "alert_valid a" and "alert_valid b"
  shows "hash_payload a = hash_payload b \<longleftrightarrow> same_content a b"
  using assms by (rule hash_payload_content)

lemma sample_alert_valid: "alert_valid (sample_alert e ''x'')" "alert_valid (sample_alert e ''y'')"
  by (simp_all add: alert_valid_def sample_alert_def translation_valid_def valid_ascii ord_def)

theorem hash_payload_is_the_content_witness:
  "hash_payload (sample_alert ''a'' ''x'') = hash_payload (sample_alert ''b'' ''x'') \<and>
   hash_payload (sample_alert ''a'' ''x'') \<noteq> hash_payload (sample_alert ''a'' ''y'')"
  using hash_payload_is_the_content [OF sample_alert_valid(1) sample_alert_valid(1)]
    hash_payload_is_the_content [OF sample_alert_valid(1) sample_alert_valid(2)]
  by (simp add: same_content_def sample_alert_def)

text \<open>On values of valid UTF-8 strings the encoding of \<open>json.Marshal\<close> loses nothing.\<close>

theorem marshal_determines_the_value:
  assumes "json_valid v" and "json_valid w" and "marshal v = marshal w"
  shows "v = w"
  using assms by (rule marshal_inj)

theorem marshal_determines_the_value_witness:
  "marshal (json_translation \<lparr>tr_text = ''x'', tr_language = ''en''\<rparr>) \<noteq>
   marshal (json_translation \<lparr>tr_text = ''en'', tr_language = ''x''\<rparr>)"
proof
  assume eq: "marshal (json_translation \<lparr>tr_text = ''x'', tr_language = ''en''\<rparr>) =
    marshal (json_translation \<lparr>tr_text = ''en'', tr_language = ''x''\<rparr>)"
  have "json_translation \<lparr>tr_text = ''x'', tr_language = ''en''\<rparr> = json_translation \<lparr>tr_text = ''en'', tr_language = ''x''\<rparr>"
    by (rule marshal_determines_the_value [OF _ _ eq]) (simp_all add: json_translation_def omit_str_def valid_ascii ord_def)
  then show False by (simp add: json_translation_def omit_str_def)
qed

section \<open>Stored error texts\<close>

lemma scalar_prefix: "list_all scalar (take n (runes s))"
  using runes_scalar [of s] by (auto simp: list_all_iff dest: in_set_takeD)

lemma runes_stored: "runes (stored_message env f) = take max_stored_error_runes (runes (failure_text env f))"
  by (simp add: stored_message_def runes_string_of_runes scalar_prefix)

text \<open>the stored text of a failure is valid UTF-8 of at most 8192 runes, it starts with the
  runes of the text, and it is the text when that is valid and short enough.\<close>

theorem stored_message_is_bounded:
  "rune_count (stored_message env f) \<le> 8192 \<and> valid_utf8 (stored_message env f) \<and>
   (valid_utf8 (failure_text env f) \<and> rune_count (failure_text env f) \<le> 8192 \<longrightarrow> stored_message env f = failure_text env f)"
proof (intro conjI impI)
  show "rune_count (stored_message env f) \<le> 8192"
    by (simp add: rune_count_def runes_stored max_stored_error_runes_def)
  show "valid_utf8 (stored_message env f)"
    using scalar_prefix [of max_stored_error_runes "failure_text env f"]
    by (simp add: stored_message_def valid_utf8_def bytes_string_of_runes runes_of_concat_encode list_all_iff)
  assume "valid_utf8 (failure_text env f) \<and> rune_count (failure_text env f) \<le> 8192"
  then show "stored_message env f = failure_text env f"
    by (simp add: stored_message_def max_stored_error_runes_def rune_count_def string_of_runes_runes)
qed

theorem stored_message_is_bounded_witness:
  "stored_message sample_env \<lparr>fl_stage = ''fetch'', fl_code = [], fl_public = ''p'', fl_err = None\<rparr> = ''p''"
  using stored_message_is_bounded [of sample_env "\<lparr>fl_stage = ''fetch'', fl_code = [], fl_public = ''p'', fl_err = None\<rparr>"]
  by (simp add: failure_text_def valid_ascii ord_def rune_count_def runes_def bytes_of_def runes_of_ascii)

section \<open>Object keys\<close>

text \<open>C29: a key that \<open>ValidateKey\<close> accepts names an object below the root: walking its segments
  never leaves the root and goes down once per segment.\<close>

theorem valid_keys_stay_below_the_root:
  assumes "validate_key key = None"
  shows "walk 0 (split_on CHR ''/'' key) = Some (length (split_on CHR ''/'' key))"
  using assms by (rule validate_key_walk)

theorem valid_keys_stay_below_the_root_witness: "walk 0 (split_on CHR ''/'' ''raw/a'') = Some 2"
  using valid_keys_stay_below_the_root [OF sample_key_ok] by simp

text \<open>C30: every key the program makes for a payload, for any time and hash it accepts, is one
  \<open>ValidateKey\<close> accepts.\<close>

theorem made_keys_are_valid:
  assumes "service_alerts_key t sha = Inr key \<or> gtfs_key t sha = Inr key"
  shows "validate_key key = None"
  using assms service_alerts_key_valid gtfs_key_valid by blast

theorem made_keys_are_valid_witness:
  "\<exists>key. service_alerts_key 0 sample_hash = Inr key \<and> validate_key key = None"
proof -
  obtain key where "service_alerts_key 0 sample_hash = Inr key"
    by (simp add: service_alerts_key_def validate_key_inputs_def zero_time_def sample_hash_ok Let_def)
  with made_keys_are_valid [of 0 sample_hash key] show ?thesis by blast
qed

section \<open>Archives\<close>

text \<open>when \<open>RecordAlertArchive\<close> or \<open>RecordGTFSArchive\<close> returns without an error, also after
  an error of the commit, the attempt is archived by a row with the backend, key, hash, size
  and version of the stored object.\<close>

theorem recorded_archives_are_linked:
  assumes "archives_inv db"
  shows "(record_alert_archive io k obj db = (Inr (), db') \<longrightarrow> archived_as runs_table k obj db') \<and>
    (record_gtfs_archive io k obj db = (Inr (), db') \<longrightarrow> archived_as imports_table k obj db')"
  using alert_attempts.record_archive_ok [OF _ assms] gtfs_attempts.record_archive_ok [OF _ assms]
  by (simp add: record_alert_archive_def record_gtfs_archive_def)

theorem recorded_archives_are_linked_witness: "archived_as runs_table 1 sample_object sample_ready"
proof -
  let ?db = "snd (start_alert_run (quiet_io 1000) ''src'' empty_db)"
  have "fst (record_alert_archive (quiet_io 2000) 1 sample_object ?db) = Inr ()"
    by (simp add: empty_db_def start_alert_run_def insert_run_def record_alert_archive_def record_archive_def
        sample_hash_ok sample_key_ok archive_body_def runs_table_def upsert_archive_def link_archive_def check_link_def
        link_row_def commit_archive_def attempt_ok_def version_string_def nullable_string_def zero_time_def sample_eval tx_eval)
  moreover have "snd (record_alert_archive (quiet_io 2000) 1 sample_object ?db) = sample_ready"
    by (simp add: sample_ready_def sample_started_def empty_db_def)
  ultimately have run: "record_alert_archive (quiet_io 2000) 1 sample_object ?db = (Inr (), sample_ready)"
    by (simp add: prod_eq_iff)
  have "db_archives ?db = []"
    by (simp add: start_alert_run_def insert_run_def empty_db_def tx_eval)
  then have "archives_inv ?db" by (simp add: archives_inv_def)
  with run recorded_archives_are_linked [of ?db] show ?thesis by blast
qed

text \<open>An object whose key is recorded with other content is refused, and no table changes.\<close>

theorem conflicting_archives_are_refused:
  assumes "record_alert_archive io k obj db = (r, db')"
    and "a \<in> set (db_archives db)" and "ra_backend a = ob_backend obj" and "ra_key a = ob_key obj"
    and "ra_sha256 a \<noteq> ob_sha256 obj \<or> ra_bytes a \<noteq> ob_size obj" and "archives_inv db"
  shows "\<exists>e. r = Inl e \<and> same_tables db db'"
proof -
  have "find (\<lambda>a. ra_backend a = ob_backend obj \<and> ra_key a = ob_key obj) (db_archives db) = Some a"
    using find_key_unique [of "\<lambda>a. (ra_backend a, ra_key a)" "db_archives db" a] assms(2-4,6)
    by (simp add: archives_inv_def)
  then have up: "fst (upsert_archive obj db) = Inr a" by (simp add: upsert_archive_def Let_def)
  have "\<exists>e s. archive_body runs_table k obj \<lparr>se_db = db, se_faults = io_faults io\<rparr> = (Inl e, s)"
  proof (cases "stmt (Wrapf ''insert raw archive: %w'' []) (upsert_archive obj) \<lparr>se_db = db, se_faults = io_faults io\<rparr>")
    case (Pair x s1)
    show ?thesis
    proof (cases x)
      case (Inl e)
      with Pair show ?thesis by (simp add: archive_body_def bind_tx_def)
    next
      case (Inr b)
      with stmt_Inr [OF Pair [unfolded Inr]] up have "b = a" by simp
      with Pair Inr assms(5) show ?thesis by (auto simp: archive_body_def bind_tx_def fail_tx_def)
    qed
  qed
  then obtain e s where "archive_body runs_table k obj \<lparr>se_db = db, se_faults = io_faults io\<rparr> = (Inl e, s)" by blast
  moreover have "same_tables db db" by (simp add: same_tables_def)
  ultimately show ?thesis
    using assms(1) by (auto simp: record_alert_archive_def record_archive_def split: if_splits option.splits)
qed

theorem conflicting_archives_are_refused_witness:
  "\<exists>e db'. record_alert_archive (quiet_io 0) 1 (sample_object\<lparr>ob_size := 4\<rparr>) sample_ready = (Inl e, db') \<and>
     same_tables sample_ready db'"
proof -
  obtain r db' where run: "record_alert_archive (quiet_io 0) 1 (sample_object\<lparr>ob_size := 4\<rparr>) sample_ready = (r, db')"
    by fastforce
  have "sample_archive \<in> set (db_archives sample_ready)" by (simp add: sample_ready_eq)
  from conflicting_archives_are_refused [OF run this _ _ _ sample_invs(3)] run show ?thesis
    by (auto simp: sample_archive_def sample_object_def)
qed

end
