(* ===== verification/GtfsRepo.thy ===== *)
theory GtfsRepo
  imports TxRelation
begin

text \<open>
  \<open>GTFSRepository\<close> of \<open>internal/database/gtfs.go\<close>: the imports of the network, statement by
  statement, with the constraints of migration 00003. A column that may be NULL and holds the
  result of \<open>nullableString\<close> keeps the empty string for NULL in the row of the network.
\<close>

section \<open>Downloads\<close>

record download =
  dl_path :: string
  dl_source_url :: string
  dl_requested :: instant
  dl_retrieved :: instant
  dl_content_type :: string
  dl_etag :: string
  dl_last_modified :: string
  dl_modified :: "instant option"
  dl_sha256 :: string
  dl_size :: nat

section \<open>The table of imports\<close>

text \<open>\<open>INTEGER\<close> columns, and \<open>CHAR(6)\<close>: blanks at the end do not count and fill the column.\<close>

definition int4 :: "int \<Rightarrow> bool" where
  "int4 i \<longleftrightarrow> - 2147483648 \<le> i \<and> i \<le> 2147483647"

definition trim_blanks :: "string \<Rightarrow> string" where
  "trim_blanks s = rev (dropWhile (\<lambda>c. c = CHR '' '') (rev s))"

definition fits_char :: "nat \<Rightarrow> string \<Rightarrow> bool" where
  "fits_char n s = (rune_count (trim_blanks s) \<le> n)"

definition fill_char :: "nat \<Rightarrow> string \<Rightarrow> string" where
  "fill_char n s = (if s = [] then [] else trim_blanks s @ replicate (n - rune_count (trim_blanks s)) CHR '' '')"

definition out_of_range :: go_error where
  "out_of_range = Errorf ''integer out of range'' []"

definition value_too_long :: go_error where
  "value_too_long = Errorf ''value too long for type character(6)'' []"

definition summary_ok :: "summary \<Rightarrow> bool" where
  "summary_ok s \<longleftrightarrow> list_all (\<lambda>n. int4 (int n))
     [sm_routes s, sm_stops s, sm_stations s, sm_trips s, sm_stop_times s, sm_route_stations s, sm_skipped_stop_times s]"

definition import_ok :: "import_row \<Rightarrow> bool" where
  "import_ok r \<longleftrightarrow> attempt_ok r \<and> (gi_current r \<longrightarrow> at_status r = Succeeded)"

text \<open>An \<open>UPDATE gtfs_imports\<close>: CHECK constraints, the unique index on \<open>is_current\<close>, the rows affected.\<close>

definition update_imports :: "(import_row \<Rightarrow> bool) \<Rightarrow> (import_row \<Rightarrow> import_row) \<Rightarrow> db \<Rightarrow> nat result \<times> db" where
  "update_imports p f db =
     (let rows = upd_where p f (db_imports db)
      in if \<not> list_all import_ok rows then (Inl check_violation, db)
         else if length (filter gi_current rows) > 1 then (Inl unique_violation, db)
         else if \<not> list_all (\<lambda>r. pred_option summary_ok (gi_summary r)) rows then (Inl out_of_range, db)
         else (Inr (affected p (db_imports db)), db\<lparr>db_imports := rows\<rparr>))"

definition insert_import :: "string \<Rightarrow> instant \<Rightarrow> db \<Rightarrow> row_id result \<times> db" where
  "insert_import source_url now db =
     (let k = sq_import (db_seq db)
      in (Inr k, db\<lparr>db_imports := db_imports db @
            [\<lparr>at_id = k, at_status = Running, at_source_url = source_url, at_started = now,
              at_completed = None, at_retrieved = None, at_content_type = None, at_sha256 = None,
              at_error = None, at_skip_reason = None, at_skip_code = None, at_archive = Pending,
              at_archive_id = None, at_archive_created = None, at_archive_error = None,
              at_failure_stage = None, at_failure_code = None, at_public_error = None,
              gi_requested = None, gi_modified = None, gi_archive_bytes = None, gi_etag = None,
              gi_last_modified = None, gi_summary = None, gi_current = False\<rparr>],
            db_seq := (db_seq db)\<lparr>sq_import := k + 1\<rparr>\<rparr>))"

definition start_import :: "tx_io \<Rightarrow> string \<Rightarrow> db \<Rightarrow> row_id result \<times> db" where
  "start_import io source_url db =
     auto_commit io (Wrapf ''start GTFS import: %w'' []) (insert_import source_url (io_now io)) db"

text \<open>The columns that describe a download.\<close>

definition download_columns :: "instant \<Rightarrow> download \<Rightarrow> import_row \<Rightarrow> import_row" where
  "download_columns now d r =
     r\<lparr>at_completed := Some now, gi_requested := Some (pg_time (dl_requested d)),
       at_retrieved := Some (pg_time (dl_retrieved d)), gi_modified := map_option pg_time (dl_modified d),
       at_sha256 := Some (dl_sha256 d), gi_archive_bytes := Some (dl_size d),
       gi_etag := nullable_string (dl_etag d), gi_last_modified := nullable_string (dl_last_modified d),
       at_content_type := nullable_string (dl_content_type d)\<rparr>"

section \<open>Failing an import\<close>

definition fail_import_row :: "repo_env \<Rightarrow> download option \<Rightarrow> failure \<Rightarrow> instant \<Rightarrow> import_row \<Rightarrow> import_row" where
  "fail_import_row env d f now r =
     (case d of
        Some d \<Rightarrow> download_columns now d r
      | None \<Rightarrow> r\<lparr>at_completed := Some now, gi_requested := None, at_retrieved := None, gi_modified := None,
          at_sha256 := None, gi_archive_bytes := None, gi_etag := None, gi_last_modified := None,
          at_content_type := None\<rparr>)
     \<lparr>at_status := Failed, at_error := Some (stored_message env f),
      at_failure_stage := Some (fl_stage f), at_failure_code := nullable_string (fl_code f),
      at_public_error := nullable_string (truncate_runes (fl_public f) max_public_error_runes),
      at_archive := (if at_archive r = Archived then Archived else ArchiveFailed),
      at_archive_error := (if at_archive r = Archived then None else Some (stored_message env f))\<rparr>"

definition fail_import_with_failure ::
    "repo_env \<Rightarrow> tx_io \<Rightarrow> row_id \<Rightarrow> download option \<Rightarrow> failure \<Rightarrow> db \<Rightarrow> unit result \<times> db" where
  "fail_import_with_failure env io import_id d f db =
     (case auto_commit io (Wrapf ''mark GTFS import %d failed: %w'' [AInt import_id])
         (update_imports (\<lambda>r. at_id r = import_id \<and> at_status r = Running)
            (fail_import_row env d f (io_now io))) db of
        (Inl e, db') \<Rightarrow> (Inl e, db')
      | (Inr rows, db') \<Rightarrow>
          (fst (require_one_row ''mark GTFS import failed'' rows \<lparr>se_db = db', se_faults = []\<rparr>), db'))"

definition fail_import :: "repo_env \<Rightarrow> tx_io \<Rightarrow> row_id \<Rightarrow> download option \<Rightarrow> go_error \<Rightarrow> db \<Rightarrow> unit result \<times> db" where
  "fail_import env io import_id d import_error db =
     fail_import_with_failure env io import_id d
       \<lparr>fl_stage = (if d = None then ''fetch'' else ''persist''), fl_code = ''ingestion_failed'',
         fl_public = ''GTFS ingestion failed'', fl_err = Some import_error\<rparr> db"

section \<open>Skipping\<close>

record current_import =
  ci_sha256 :: string
  ci_requested :: instant
  ci_retrieved :: instant
  ci_modified :: "instant option"

definition load_current_import :: "current_import option tx" where
  "load_current_import =
     stmt (Wrapf ''load current GTFS import: %w'' [])
       (\<lambda>db. (case find gi_current (db_imports db) of
                None \<Rightarrow> Inr None
              | Some r \<Rightarrow>
                  (case (at_sha256 r, gi_requested r, at_retrieved r) of
                     (Some h, Some q, Some t) \<Rightarrow>
                       Inr (Some \<lparr>ci_sha256 = h, ci_requested = q, ci_retrieved = t, ci_modified = gi_modified r\<rparr>)
                   | _ \<Rightarrow> Inl (Errorf ''sql: Scan error: converting NULL to %s is unsupported'' [])), db))"

definition skip_gtfs_reason :: "current_import option \<Rightarrow> download \<Rightarrow> string" where
  "skip_gtfs_reason current d =
     (case current of
        None \<Rightarrow> []
      | Some c \<Rightarrow>
          let same = (if ci_sha256 c = dl_sha256 d then ''content hash matches the currently installed network'' else [])
          in (case (ci_modified c, dl_modified d) of
                (Some m, Some m') \<Rightarrow>
                  if m' < m then ''source archive is older than the currently installed network''
                  else if m' = m \<and> dl_requested d < ci_requested c
                  then ''archive request is older than the currently installed network''
                  else same
              | _ \<Rightarrow>
                  if dl_requested d < ci_requested c
                  then ''archive request is older than the currently installed network''
                  else same))"

definition import_running :: "row_id \<Rightarrow> import_row \<Rightarrow> bool" where
  "import_running import_id r = (at_id r = import_id \<and> at_status r = Running \<and> at_archive r = Archived)"

definition skipped_import_row :: "instant \<Rightarrow> download \<Rightarrow> string \<Rightarrow> import_row \<Rightarrow> import_row" where
  "skipped_import_row now d reason r =
     (download_columns now d r)
       \<lparr>at_status := Skipped, at_skip_reason := Some reason, at_skip_code := Some (skip_code reason), at_error := None\<rparr>"

definition mark_gtfs_skipped :: "instant \<Rightarrow> row_id \<Rightarrow> download \<Rightarrow> string \<Rightarrow> unit tx" where
  "mark_gtfs_skipped now import_id d reason =
     bind_tx (stmt (Wrapf ''skip duplicate GTFS import %d: %w'' [AInt import_id])
       (update_imports (import_running import_id) (skipped_import_row now d reason)))
     (require_one_row ''skip duplicate GTFS import'')"

section \<open>The network tables\<close>

definition route_columns :: "route \<Rightarrow> route" where
  "route_columns r = r\<lparr>rt_color := fill_char 6 (rt_color r), rt_text_color := fill_char 6 (rt_text_color r)\<rparr>"

definition insert_route :: "row_id \<Rightarrow> route \<Rightarrow> db \<Rightarrow> unit result \<times> db" where
  "insert_route import_id r db =
     (if \<not> int4 (rt_type r) then (Inl out_of_range, db)
      else if \<not> fits_char 6 (rt_color r) \<or> \<not> fits_char 6 (rt_text_color r) then (Inl value_too_long, db)
      else if \<exists>x \<in> set (db_routes db). rt_id (rd_route x) = rt_id r then (Inl unique_violation, db)
      else if import_id \<notin> at_id ` set (db_imports db) then (Inl foreign_key_violation, db)
      else (Inr (), db\<lparr>db_routes := db_routes db @ [\<lparr>rd_import = import_id, rd_route = route_columns r\<rparr>]\<rparr>))"

definition insert_routes :: "row_id \<Rightarrow> route list \<Rightarrow> unit tx" where
  "insert_routes import_id routes =
     bind_tx (update (Wrapf ''prepare route import: %w'' []) (\<lambda>db. db)) (\<lambda>_.
     each_tx (\<lambda>r. stmt (Wrapf ''insert route %q: %w'' [AStr (rt_id r)]) (insert_route import_id r)) routes)"

text \<open>The CHECK constraints of \<open>stops\<close>.\<close>

definition stop_check :: "stop \<Rightarrow> bool" where
  "stop_check x \<longleftrightarrow> 0 \<le> st_location_type x \<and> st_location_type x \<le> 4 \<and>
     (st_location_type x = 1 \<and> st_parent x = [] \<or> st_location_type x = 0 \<or>
      st_location_type x \<in> {2, 3, 4} \<and> st_parent x \<noteq> [])"

definition insert_stop :: "row_id \<Rightarrow> stop \<Rightarrow> db \<Rightarrow> unit result \<times> db" where
  "insert_stop import_id x db =
     (if \<not> int4 (st_location_type x) \<or> \<not> pred_option int4 (st_wheelchair x) then (Inl out_of_range, db)
      else if \<not> stop_check x then (Inl check_violation, db)
      else if \<exists>y \<in> set (db_stops db). st_id (sd_stop y) = st_id x then (Inl unique_violation, db)
      else if import_id \<notin> at_id ` set (db_imports db) then (Inl foreign_key_violation, db)
      else (Inr (), db\<lparr>db_stops := db_stops db @ [\<lparr>sd_import = import_id, sd_stop = x\<rparr>]\<rparr>))"

definition insert_stops :: "row_id \<Rightarrow> stop list \<Rightarrow> unit tx" where
  "insert_stops import_id stops =
     bind_tx (update (Wrapf ''prepare stop import: %w'' []) (\<lambda>db. db)) (\<lambda>_.
     each_tx (\<lambda>x. stmt (Wrapf ''insert stop %q: %w'' [AStr (st_id x)]) (insert_stop import_id x)) stops)"

definition insert_route_station :: "route_station \<Rightarrow> db \<Rightarrow> unit result \<times> db" where
  "insert_route_station r db =
     (if r \<in> set (db_route_stations db) then (Inl unique_violation, db)
      else if \<not> (\<exists>x \<in> set (db_routes db). rt_id (rd_route x) = rs_route r) \<or>
         \<not> (\<exists>y \<in> set (db_stops db). st_id (sd_stop y) = rs_station r \<and> st_location_type (sd_stop y) = 1)
      then (Inl foreign_key_violation, db)
      else (Inr (), db\<lparr>db_route_stations := db_route_stations db @ [r]\<rparr>))"

definition insert_route_stations :: "route_station list \<Rightarrow> unit tx" where
  "insert_route_stations relations =
     bind_tx (update (Wrapf ''prepare route-station import: %w'' []) (\<lambda>db. db)) (\<lambda>_.
     each_tx (\<lambda>r. stmt (Wrapf ''insert route-station %q/%q: %w'' [AStr (rs_route r), AStr (rs_station r)])
       (insert_route_station r)) relations)"

text \<open>The deferred foreign key of \<open>stops\<close>: the parent has the location type the row expects.\<close>

definition parent_fk :: "stop list \<Rightarrow> stop \<Rightarrow> bool" where
  "parent_fk stops x \<longleftrightarrow> st_parent x = [] \<or>
     (\<exists>y \<in> set stops. st_id y = st_parent x \<and> st_location_type y = (if st_location_type x = 4 then 0 else 1))"

definition deferred_ok :: "db \<Rightarrow> bool" where
  "deferred_ok db \<longleftrightarrow> list_all (parent_fk (map sd_stop (db_stops db))) (map sd_stop (db_stops db))"

text \<open>The three deletions; a cascade finds nothing left.\<close>

definition clear_network :: "unit tx" where
  "clear_network =
     (let w = Wrapf ''clear current GTFS network: %w'' [] in
      bind_tx (update w (\<lambda>db. db\<lparr>db_route_stations := []\<rparr>)) (\<lambda>_.
      bind_tx (update w (\<lambda>db. db\<lparr>db_stops := []\<rparr>)) (\<lambda>_.
      update w (\<lambda>db. db\<lparr>db_routes := []\<rparr>))))"

section \<open>Completing an import\<close>

definition import_status_of :: "row_id \<Rightarrow> db \<Rightarrow> run_status option" where
  "import_status_of import_id db = map_option at_status (find (\<lambda>r. at_id r = import_id) (db_imports db))"

text \<open>\<open>commitGTFS\<close>: after an error the status is read outside the transaction.\<close>

definition commit_gtfs :: "tx_io \<Rightarrow> row_id \<Rightarrow> run_status \<Rightarrow> db \<Rightarrow> db \<Rightarrow> unit result \<times> db" where
  "commit_gtfs io import_id expected db0 db =
     (case commit_tx io deferred_ok db0 db of
        (None, db') \<Rightarrow> (Inr (), db')
      | (Some e, db') \<Rightarrow>
          (case (io_status io, import_status_of import_id db') of
             (Some se, _) \<Rightarrow> (Inl (CommitOutcomeError e se), db')
           | (None, None) \<Rightarrow> (Inl (CommitOutcomeError e err_no_rows), db')
           | (None, Some status) \<Rightarrow>
               if status = expected then (Inr (), db')
               else (Inl (Wrapf ''commit GTFS import transaction: %w'' [] e), db')))"

definition installed_row :: "instant \<Rightarrow> download \<Rightarrow> summary \<Rightarrow> import_row \<Rightarrow> import_row" where
  "installed_row now d summary r =
     (download_columns now d r)
       \<lparr>at_status := Succeeded, gi_summary := Some summary, gi_current := True, at_skip_reason := None,
        at_skip_code := None, at_error := None, at_failure_stage := None, at_failure_code := None,
        at_public_error := None\<rparr>"

text \<open>The network is replaced: what \<open>CompleteImport\<close> does when it does not skip.\<close>

definition install_network :: "instant \<Rightarrow> row_id \<Rightarrow> download \<Rightarrow> dataset \<Rightarrow> unit tx" where
  "install_network now import_id d dataset =
     bind_tx clear_network (\<lambda>_.
     bind_tx (insert_routes import_id (ds_routes dataset)) (\<lambda>_.
     bind_tx (insert_stops import_id (ds_stops dataset)) (\<lambda>_.
     bind_tx (insert_route_stations (ds_route_stations dataset)) (\<lambda>_.
     bind_tx (stmt (Wrapf ''clear current GTFS import marker: %w'' [])
       (update_imports gi_current (\<lambda>r. r\<lparr>gi_current := False\<rparr>))) (\<lambda>_.
     bind_tx (stmt (Wrapf ''complete GTFS import %d: %w'' [AInt import_id])
       (update_imports (import_running import_id) (installed_row now d (ds_summary dataset))))
     (require_one_row ''complete GTFS import''))))))"

text \<open>
  The transactions of \<open>SkipIfImported\<close> and \<open>CompleteImport\<close>: the lock, the current import, the
  decision. The result says whether the import is skipped; \<open>SkipIfImported\<close> leaves the
  transaction without a commit when there is no reason.
\<close>

definition skip_body :: "instant \<Rightarrow> row_id \<Rightarrow> download \<Rightarrow> bool tx" where
  "skip_body now import_id d =
     bind_tx (update (Wrapf ''lock GTFS duplicate check: %w'' []) (\<lambda>db. db)) (\<lambda>_.
     bind_tx load_current_import (\<lambda>current.
     let reason = skip_gtfs_reason current d
     in if reason = [] then ret False
        else bind_tx (mark_gtfs_skipped now import_id d reason) (\<lambda>_. ret True)))"

definition import_body :: "instant \<Rightarrow> row_id \<Rightarrow> download \<Rightarrow> dataset \<Rightarrow> bool tx" where
  "import_body now import_id d dataset =
     bind_tx (update (Wrapf ''lock GTFS import: %w'' []) (\<lambda>db. db)) (\<lambda>_.
     bind_tx load_current_import (\<lambda>current.
     let reason = skip_gtfs_reason current d
     in if reason \<noteq> [] then bind_tx (mark_gtfs_skipped now import_id d reason) (\<lambda>_. ret True)
        else bind_tx (install_network now import_id d dataset) (\<lambda>_. ret False)))"

definition skip_if_imported :: "tx_io \<Rightarrow> row_id \<Rightarrow> download \<Rightarrow> db \<Rightarrow> bool result \<times> db" where
  "skip_if_imported io import_id d db =
     (case io_begin io of
        Some e \<Rightarrow> (Inl (Wrapf ''begin GTFS duplicate check: %w'' [] e), db)
      | None \<Rightarrow>
     (case skip_body (io_now io) import_id d \<lparr>se_db = db, se_faults = io_faults io\<rparr> of
        (Inl e, s) \<Rightarrow> (Inl e, rollback db (se_db s))
      | (Inr False, s) \<Rightarrow> (Inr False, rollback db (se_db s))
      | (Inr True, s) \<Rightarrow>
          (case commit_gtfs io import_id Skipped db (se_db s) of
             (Inl e, db') \<Rightarrow> (Inl e, db')
           | (Inr _, db') \<Rightarrow> (Inr True, db'))))"

definition complete_import :: "tx_io \<Rightarrow> row_id \<Rightarrow> download \<Rightarrow> dataset \<Rightarrow> db \<Rightarrow> bool result \<times> db" where
  "complete_import io import_id d dataset db =
     (case io_begin io of
        Some e \<Rightarrow> (Inl (Wrapf ''begin GTFS import transaction: %w'' [] e), db)
      | None \<Rightarrow>
     (case import_body (io_now io) import_id d dataset \<lparr>se_db = db, se_faults = io_faults io\<rparr> of
        (Inl e, s) \<Rightarrow> (Inl e, rollback db (se_db s))
      | (Inr skipped, s) \<Rightarrow>
          (case commit_gtfs io import_id (if skipped then Skipped else Succeeded) db (se_db s) of
             (Inl e, db') \<Rightarrow> (Inl e, db')
           | (Inr _, db') \<Rightarrow> (Inr skipped, db'))))"

section \<open>Reading the network\<close>

definition current_summary :: "go_error option \<Rightarrow> db \<Rightarrow> summary result" where
  "current_summary fault db =
     (case fault of
        Some e \<Rightarrow> Inl (Wrapf ''load current GTFS summary: %w'' [] e)
      | None \<Rightarrow>
          (case find gi_current (db_imports db) of
             None \<Rightarrow> Inl (Wrapf ''load current GTFS summary: %w'' [] err_no_rows)
           | Some r \<Rightarrow>
               (case gi_summary r of
                  None \<Rightarrow> Inl (Errorf ''load current GTFS summary: sql: Scan error: converting NULL'' [])
                | Some s \<Rightarrow> Inr s)))"

record coverage =
  cv_realtime_routes :: nat
  cv_matched_routes :: nat
  cv_unmatched_routes :: "string list"
  cv_realtime_stops :: nat
  cv_matched_stops :: nat
  cv_unmatched_stops :: "string list"

text \<open>The entities of the current revisions of the alerts that are present.\<close>

definition current_entities :: "db \<Rightarrow> entity_row list" where
  "current_entities db =
     concat (map (\<lambda>a. filter (\<lambda>e. sa_current a = Some (er_owner e)) (db_revision_entities db))
       (filter sa_present (db_alerts db)))"

definition distinct_sorted :: "string list \<Rightarrow> string list" where
  "distinct_sorted xs = sort (remdups xs)"

definition realtime_routes :: "db \<Rightarrow> string list" where
  "realtime_routes db = distinct_sorted
     (List.map_filter er_route (current_entities db) @ List.map_filter er_trip_route (current_entities db))"

definition realtime_stops :: "db \<Rightarrow> string list" where
  "realtime_stops db = distinct_sorted (List.map_filter er_stop (current_entities db))"

text \<open>\<open>Coverage\<close>: four queries, each of which can fail.\<close>

definition coverage_of :: "go_error option list \<Rightarrow> db \<Rightarrow> coverage result" where
  "coverage_of faults db =
     (let routes = map (\<lambda>x. rt_id (rd_route x)) (db_routes db);
          stops = map (\<lambda>y. st_id (sd_stop y)) (db_stops db);
          body =
            bind_tx (query (Wrapf ''calculate realtime route coverage: %w'' []) (\<lambda>db.
              (length (realtime_routes db), length (filter (\<lambda>k. k \<in> set routes) (realtime_routes db))))) (\<lambda>(rn, rm).
            bind_tx (query (Wrapf ''calculate realtime stop coverage: %w'' []) (\<lambda>db.
              (length (realtime_stops db), length (filter (\<lambda>k. k \<in> set stops) (realtime_stops db))))) (\<lambda>(sn, sm).
            bind_tx (query (Wrapf ''query unmatched realtime routes: %w'' []) (\<lambda>db.
              filter (\<lambda>k. k \<notin> set routes) (realtime_routes db))) (\<lambda>ru.
            bind_tx (query (Wrapf ''query unmatched realtime stops: %w'' []) (\<lambda>db.
              filter (\<lambda>k. k \<notin> set stops) (realtime_stops db))) (\<lambda>su.
            ret \<lparr>cv_realtime_routes = rn, cv_matched_routes = rm, cv_unmatched_routes = ru,
              cv_realtime_stops = sn, cv_matched_stops = sm, cv_unmatched_stops = su\<rparr>))))
      in fst (body \<lparr>se_db = db, se_faults = faults\<rparr>))"

end
