(* ===== verification/GtfsNetwork.thy ===== *)
theory GtfsNetwork
  imports GtfsRepo GtfsArchive
begin

text \<open>
  What the imports do to the network tables: a completed import replaces the whole network by
  its dataset or changes nothing, a network the parser accepted satisfies every constraint of
  the schema, and a reached state has one current import that owns every row.
\<close>

section \<open>Rows of a dataset\<close>

definition route_of :: "row_id \<Rightarrow> route \<Rightarrow> route_row_db" where
  "route_of k r = \<lparr>rd_import = k, rd_route = route_columns r\<rparr>"

definition stop_of :: "row_id \<Rightarrow> stop \<Rightarrow> stop_row_db" where
  "stop_of k x = \<lparr>sd_import = k, sd_stop = x\<rparr>"

abbreviation route_id :: "route_row_db \<Rightarrow> string" where "route_id x \<equiv> rt_id (rd_route x)"
abbreviation stop_id :: "stop_row_db \<Rightarrow> string" where "stop_id y \<equiv> st_id (sd_stop y)"

lemma route_of_simps [simp]: "rd_import (route_of k r) = k" "route_id (route_of k r) = rt_id r"
  by (simp_all add: route_of_def route_columns_def)

lemma stop_of_simps [simp]: "sd_import (stop_of k x) = k" "sd_stop (stop_of k x) = x"
  by (simp_all add: stop_of_def)

section \<open>The insertions\<close>

text \<open>
  A loop of insertions into one table, as all three are: \<open>add\<close> is what an accepted statement
  does, its keys are fresh, and \<open>P\<close> is a condition on other tables.
\<close>

lemma each_insert:
  assumes "each_tx (\<lambda>x. stmt (w x) (f x)) xs s = (Inr y, s')"
    and "\<And>x db db'. f x db = (Inr (), db') \<Longrightarrow> db' = add x db \<and> key x \<notin> set (keys db) \<and> P x db"
    and "\<And>x db. keys (add x db) = keys db @ [key x]" and "\<And>x z db. P x (add z db) = P x db"
  shows "se_db s' = fold add xs (se_db s) \<and> (\<forall>x \<in> set xs. P x (se_db s)) \<and>
    (distinct (keys (se_db s)) \<longrightarrow> distinct (keys (se_db s) @ map key xs))"
  using assms(1)
proof (induction xs arbitrary: s)
  case Nil
  then show ?case by (simp add: ok_rules)
next
  case (Cons x xs)
  then obtain s1 where 1: "f x (se_db s) = (Inr (), se_db s1)"
    and 2: "each_tx (\<lambda>x. stmt (w x) (f x)) xs s1 = (Inr y, s')"
    by (auto simp: ok_rules dest: stmt_Inr)
  note A = assms(2) [OF 1] and I = Cons.IH [OF 2]
  have "distinct (keys (se_db s) @ map key (x # xs))" if "distinct (keys (se_db s))"
  proof -
    have "distinct (keys (se_db s1))" using A that assms(3) by simp
    with I have "distinct (keys (se_db s1) @ map key xs)" by blast
    then show ?thesis using A assms(3) by simp
  qed
  then show ?case using A I assms(4) by auto
qed

lemma fold_routes:
  "fold (\<lambda>x db. db\<lparr>db_routes := db_routes db @ [g x]\<rparr>) xs db = db\<lparr>db_routes := db_routes db @ map g xs\<rparr>"
  by (induction xs arbitrary: db) simp_all

lemma fold_stops:
  "fold (\<lambda>x db. db\<lparr>db_stops := db_stops db @ [g x]\<rparr>) xs db = db\<lparr>db_stops := db_stops db @ map g xs\<rparr>"
  by (induction xs arbitrary: db) simp_all

lemma fold_route_stations:
  "fold (\<lambda>x db. db\<lparr>db_route_stations := db_route_stations db @ [x]\<rparr>) xs db =
     db\<lparr>db_route_stations := db_route_stations db @ xs\<rparr>"
  by (induction xs arbitrary: db) simp_all

lemmas fold_rows = fold_routes fold_stops fold_route_stations

lemma insert_routes_Inr:
  assumes "insert_routes k routes s = (Inr y, s')"
  shows "se_db s' = (se_db s)\<lparr>db_routes := db_routes (se_db s) @ map (route_of k) routes\<rparr>"
    and "distinct (map route_id (db_routes (se_db s))) \<Longrightarrow> distinct (map route_id (db_routes (se_db s)) @ map rt_id routes)"
proof -
  from assms obtain s1 where s1: "se_db s1 = se_db s"
    and each: "each_tx (\<lambda>r. stmt (Wrapf ''insert route %q: %w'' [AStr (rt_id r)]) (insert_route k r)) routes s1 = (Inr y, s')"
    by (auto simp: insert_routes_def ok_rules dest!: update_Inr)
  have "se_db s' = fold (\<lambda>r db. db\<lparr>db_routes := db_routes db @ [route_of k r]\<rparr>) routes (se_db s1) \<and> (\<forall>r \<in> set routes. True) \<and>
      (distinct (map route_id (db_routes (se_db s1))) \<longrightarrow> distinct (map route_id (db_routes (se_db s1)) @ map rt_id routes))"
    by (rule each_insert [OF each]) (auto simp: insert_route_def route_of_def route_columns_def split: if_splits)
  then show "se_db s' = (se_db s)\<lparr>db_routes := db_routes (se_db s) @ map (route_of k) routes\<rparr>"
    "distinct (map route_id (db_routes (se_db s))) \<Longrightarrow> distinct (map route_id (db_routes (se_db s)) @ map rt_id routes)"
    unfolding s1 fold_rows by blast+
qed

lemma insert_routes_fit:
  assumes "insert_routes k routes s = (Inr y, s')" and "r \<in> set routes"
  shows "int4 (rt_type r) \<and> fits_char 6 (rt_color r) \<and> fits_char 6 (rt_text_color r)"
proof -
  from assms obtain s1 where
    each: "each_tx (\<lambda>r. stmt (Wrapf ''insert route %q: %w'' [AStr (rt_id r)]) (insert_route k r)) routes s1 = (Inr y, s')"
    by (auto simp: insert_routes_def ok_rules dest!: update_Inr)
  have "\<forall>r \<in> set routes. int4 (rt_type r) \<and> fits_char 6 (rt_color r) \<and> fits_char 6 (rt_text_color r)"
    by (rule each_insert [OF each, where add = "\<lambda>r db. db\<lparr>db_routes := db_routes db @ [route_of k r]\<rparr>"
          and keys = "\<lambda>db. map route_id (db_routes db)" and key = rt_id,
          THEN conjunct2, THEN conjunct1])
      (auto simp: insert_route_def route_of_def route_columns_def split: if_splits)
  with assms(2) show ?thesis by blast
qed

lemma insert_stops_Inr:
  assumes "insert_stops k stops s = (Inr y, s')"
  shows "se_db s' = (se_db s)\<lparr>db_stops := db_stops (se_db s) @ map (stop_of k) stops\<rparr>"
    and "distinct (map stop_id (db_stops (se_db s))) \<Longrightarrow> distinct (map stop_id (db_stops (se_db s)) @ map st_id stops)"
    and "\<forall>x \<in> set stops. stop_check x"
proof -
  from assms obtain s1 where s1: "se_db s1 = se_db s"
    and each: "each_tx (\<lambda>x. stmt (Wrapf ''insert stop %q: %w'' [AStr (st_id x)]) (insert_stop k x)) stops s1 = (Inr y, s')"
    by (auto simp: insert_stops_def ok_rules dest!: update_Inr)
  have "se_db s' = fold (\<lambda>x db. db\<lparr>db_stops := db_stops db @ [stop_of k x]\<rparr>) stops (se_db s1) \<and> (\<forall>x \<in> set stops. stop_check x) \<and>
      (distinct (map stop_id (db_stops (se_db s1))) \<longrightarrow> distinct (map stop_id (db_stops (se_db s1)) @ map st_id stops))"
    by (rule each_insert [OF each]) (auto simp: insert_stop_def stop_of_def split: if_splits)
  then show "se_db s' = (se_db s)\<lparr>db_stops := db_stops (se_db s) @ map (stop_of k) stops\<rparr>"
    "distinct (map stop_id (db_stops (se_db s))) \<Longrightarrow> distinct (map stop_id (db_stops (se_db s)) @ map st_id stops)"
    "\<forall>x \<in> set stops. stop_check x"
    unfolding s1 fold_rows by blast+
qed

lemma insert_stops_fit:
  assumes "insert_stops k stops s = (Inr y, s')" and "x \<in> set stops"
  shows "pred_option int4 (st_wheelchair x)"
proof -
  from assms obtain s1 where
    each: "each_tx (\<lambda>x. stmt (Wrapf ''insert stop %q: %w'' [AStr (st_id x)]) (insert_stop k x)) stops s1 = (Inr y, s')"
    by (auto simp: insert_stops_def ok_rules dest!: update_Inr)
  have "\<forall>x \<in> set stops. pred_option int4 (st_wheelchair x)"
    by (rule each_insert [OF each, where add = "\<lambda>x db. db\<lparr>db_stops := db_stops db @ [stop_of k x]\<rparr>"
          and keys = "\<lambda>db. map stop_id (db_stops db)" and key = st_id,
          THEN conjunct2, THEN conjunct1])
      (auto simp: insert_stop_def stop_of_def split: if_splits)
  with assms(2) show ?thesis by blast
qed

text \<open>The foreign keys of a relation.\<close>

definition relation_fk :: "db \<Rightarrow> route_station \<Rightarrow> bool" where
  "relation_fk db r \<longleftrightarrow> (\<exists>x \<in> set (db_routes db). route_id x = rs_route r) \<and>
     (\<exists>y \<in> set (db_stops db). stop_id y = rs_station r \<and> st_location_type (sd_stop y) = 1)"

lemma insert_route_stations_Inr:
  assumes "insert_route_stations rels s = (Inr y, s')"
  shows "se_db s' = (se_db s)\<lparr>db_route_stations := db_route_stations (se_db s) @ rels\<rparr>"
    and "\<forall>r \<in> set rels. relation_fk (se_db s) r"
    and "distinct (db_route_stations (se_db s)) \<Longrightarrow> distinct (db_route_stations (se_db s) @ rels)"
proof -
  from assms obtain s1 where s1: "se_db s1 = se_db s"
    and each: "each_tx (\<lambda>r. stmt (Wrapf ''insert route-station %q/%q: %w'' [AStr (rs_route r), AStr (rs_station r)])
       (insert_route_station r)) rels s1 = (Inr y, s')"
    by (auto simp: insert_route_stations_def ok_rules dest!: update_Inr)
  have "se_db s' = fold (\<lambda>r db. db\<lparr>db_route_stations := db_route_stations db @ [r]\<rparr>) rels (se_db s1) \<and>
      (\<forall>r \<in> set rels. relation_fk (se_db s1) r) \<and>
      (distinct (db_route_stations (se_db s1)) \<longrightarrow> distinct (db_route_stations (se_db s1) @ map (\<lambda>r. r) rels))"
    by (rule each_insert [OF each]) (auto simp: insert_route_station_def relation_fk_def split: if_splits)
  then show "se_db s' = (se_db s)\<lparr>db_route_stations := db_route_stations (se_db s) @ rels\<rparr>"
    "\<forall>r \<in> set rels. relation_fk (se_db s) r"
    "distinct (db_route_stations (se_db s)) \<Longrightarrow> distinct (db_route_stations (se_db s) @ rels)"
    unfolding s1 fold_rows list.map_ident by blast+
qed

lemma clear_network_Inr:
  "clear_network s = (Inr y, s') \<Longrightarrow>
   se_db s' = (se_db s)\<lparr>db_route_stations := [], db_stops := [], db_routes := []\<rparr>"
  by (auto simp: clear_network_def Let_def ok_rules dest!: update_Inr)

lemma update_imports_Inr:
  assumes "update_imports p f db = (Inr n, db')"
  shows "db' = db\<lparr>db_imports := upd_where p f (db_imports db)\<rparr>" and "n = affected p (db_imports db)"
    and "list_all import_ok (upd_where p f (db_imports db))"
    and "length (filter gi_current (upd_where p f (db_imports db))) \<le> 1"
    and "list_all (\<lambda>r. pred_option summary_ok (gi_summary r)) (upd_where p f (db_imports db))"
  using assms by (auto simp: update_imports_def Let_def split: if_splits)

section \<open>An installed network\<close>

definition installed :: "instant \<Rightarrow> row_id \<Rightarrow> download \<Rightarrow> dataset \<Rightarrow> db \<Rightarrow> db \<Rightarrow> bool" where
  "installed now k d ds db db' \<longleftrightarrow>
     db' = db\<lparr>db_routes := map (route_of k) (ds_routes ds), db_stops := map (stop_of k) (ds_stops ds),
       db_route_stations := ds_route_stations ds,
       db_imports := upd_where (import_running k) (installed_row now d (ds_summary ds))
         (upd_where gi_current (\<lambda>r. r\<lparr>gi_current := False\<rparr>) (db_imports db))\<rparr> \<and>
     affected (import_running k) (db_imports db) = 1 \<and>
     distinct (map rt_id (ds_routes ds)) \<and> distinct (map st_id (ds_stops ds)) \<and>
     distinct (ds_route_stations ds) \<and> (\<forall>x \<in> set (ds_stops ds). stop_check x) \<and> (\<forall>r \<in> set (ds_route_stations ds). relation_fk db' r) \<and>
     list_all import_ok (db_imports db') \<and> list_all (\<lambda>r. pred_option summary_ok (gi_summary r)) (db_imports db')"

lemma affected_upd_where_keep:
  "(\<And>r. p (f r) = p r) \<Longrightarrow> affected p (upd_where q f rs) = affected p rs"
  by (induction rs) (auto simp: affected_def upd_where_def)

lemma install_network_Inr:
  assumes "install_network now k d ds s = (Inr y, s')"
  shows "installed now k d ds (se_db s) (se_db s')"
proof -
  from assms obtain s1 s2 s3 s4 s5 n where
    1: "clear_network s = (Inr (), s1)" and 2: "insert_routes k (ds_routes ds) s1 = (Inr (), s2)"
    and 3: "insert_stops k (ds_stops ds) s2 = (Inr (), s3)"
    and 4: "insert_route_stations (ds_route_stations ds) s3 = (Inr (), s4)"
    and q5: "stmt (Wrapf ''clear current GTFS import marker: %w'' [])
       (update_imports gi_current (\<lambda>r. r\<lparr>gi_current := False\<rparr>)) s4 = (Inr n, s5)"
    and q6: "stmt (Wrapf ''complete GTFS import %d: %w'' [AInt k])
       (update_imports (import_running k) (installed_row now d (ds_summary ds))) s5 = (Inr 1, s')"
    unfolding install_network_def by (simp add: ok_rules) blast
  note 5 = stmt_Inr [OF q5] and 6 = stmt_Inr [OF q6]
  note A = clear_network_Inr [OF 1] and R = insert_routes_Inr [OF 2] and S = insert_stops_Inr [OF 3]
    and T = insert_route_stations_Inr [OF 4] and U = update_imports_Inr [OF 5] and V = update_imports_Inr [OF 6]
  have running: "import_running k (r\<lparr>gi_current := False\<rparr>) = import_running k r" for r
    by (simp add: import_running_def)
  have "affected (import_running k) (db_imports (se_db s)) = 1"
    using V(2) by (simp add: U(1) T(1) S(1) R(1) A affected_upd_where_keep [where p = "import_running k"] running)
  moreover have "list_all import_ok (db_imports (se_db s'))"
    using V(1,3) by simp
  moreover have "list_all (\<lambda>r. pred_option summary_ok (gi_summary r)) (db_imports (se_db s'))"
    using V(1,5) by simp
  moreover have "se_db s' = (se_db s)\<lparr>db_routes := map (route_of k) (ds_routes ds), db_stops := map (stop_of k) (ds_stops ds),
       db_route_stations := ds_route_stations ds,
       db_imports := upd_where (import_running k) (installed_row now d (ds_summary ds))
         (upd_where gi_current (\<lambda>r. r\<lparr>gi_current := False\<rparr>) (db_imports (se_db s)))\<rparr>"
    by (simp add: V(1) U(1) T(1) S(1) R(1) A)
  moreover have "distinct (map rt_id (ds_routes ds))" "distinct (map st_id (ds_stops ds))" "distinct (ds_route_stations ds)"
    "\<forall>x \<in> set (ds_stops ds). stop_check x"
    using R(2) S(2,3) T(3) by (simp_all add: A R(1) S(1))
  moreover have "relation_fk (se_db s') r" if "r \<in> set (ds_route_stations ds)" for r
    using T(2) that by (simp add: V(1) U(1) T(1) relation_fk_def)
  ultimately show ?thesis unfolding installed_def by blast
qed

text \<open>What the columns require beyond the checks of the parser: a statement that succeeds found it true.\<close>

definition columns_fit :: "dataset \<Rightarrow> bool" where
  "columns_fit d \<longleftrightarrow>
     (\<forall>r \<in> set (ds_routes d). int4 (rt_type r) \<and> fits_char 6 (rt_color r) \<and> fits_char 6 (rt_text_color r)) \<and>
     (\<forall>x \<in> set (ds_stops d). pred_option int4 (st_wheelchair x))"

lemma install_network_fit:
  "install_network now k d ds s = (Inr y, s') \<Longrightarrow> columns_fit ds"
  unfolding install_network_def columns_fit_def
  by (auto simp: ok_rules dest: insert_routes_fit insert_stops_fit)

section \<open>The invariants\<close>

definition imports_inv :: "db \<Rightarrow> bool" where
  "imports_inv db \<longleftrightarrow> distinct (map at_id (db_imports db)) \<and> length (filter gi_current (db_imports db)) \<le> 1 \<and>
     (\<forall>r \<in> set (db_imports db). at_id r < sq_import (db_seq db) \<and> import_ok r \<and> ended_ok r \<and> pred_option summary_ok (gi_summary r) \<and>
        (gi_current r \<longrightarrow> at_sha256 r \<noteq> None \<and> gi_requested r \<noteq> None \<and> at_retrieved r \<noteq> None \<and> gi_summary r \<noteq> None))"

text \<open>The network is closed and belongs to the current import.\<close>

definition network_inv :: "db \<Rightarrow> bool" where
  "network_inv db \<longleftrightarrow>
     distinct (map route_id (db_routes db)) \<and> distinct (map stop_id (db_stops db)) \<and>
     distinct (db_route_stations db) \<and> (\<forall>r \<in> set (db_route_stations db). relation_fk db r) \<and>
     deferred_ok db \<and> (\<forall>y \<in> set (db_stops db). stop_check (sd_stop y)) \<and>
     (\<forall>k \<in> rd_import ` set (db_routes db) \<union> sd_import ` set (db_stops db).
        \<exists>r \<in> set (db_imports db). gi_current r \<and> at_id r = k)"

lemma import_status_of_mem:
  "imports_inv db \<Longrightarrow> r \<in> set (db_imports db) \<Longrightarrow> import_status_of (at_id r) db = Some (at_status r)"
  using find_key_unique [of at_id "db_imports db" r] by (simp add: import_status_of_def imports_inv_def)

lemma only_current:
  assumes "length (filter gi_current rs) \<le> 1" and "r \<in> set rs" "gi_current r" "x \<in> set rs" "gi_current x"
  shows "x = r"
proof -
  have r: "r \<in> set (filter gi_current rs)" and x: "x \<in> set (filter gi_current rs)" using assms by simp_all
  from assms(1) have "card (set (filter gi_current rs)) \<le> 1" by (meson card_length order_trans)
  with r x show ?thesis by (metis List.finite_set card_le_Suc0_iff_eq One_nat_def)
qed

text \<open>An \<open>UPDATE\<close> that keeps ids and installs nothing.\<close>

lemma imports_inv_update:
  assumes inv: "imports_inv db" and upd: "update_imports p f db = (Inr n, db')" and id: "\<And>r. at_id (f r) = at_id r"
    and cur: "\<And>r. r \<in> set (db_imports db) \<Longrightarrow> p r \<Longrightarrow> gi_current (f r) \<Longrightarrow>
      at_sha256 (f r) \<noteq> None \<and> gi_requested (f r) \<noteq> None \<and> at_retrieved (f r) \<noteq> None \<and> gi_summary (f r) \<noteq> None"
    and ended: "\<And>r. r \<in> set (db_imports db) \<Longrightarrow> p r \<Longrightarrow> ended_ok (f r)"
  shows "imports_inv db'"
proof -
  note U = update_imports_Inr [OF upd]
  have "at_id r < sq_import (db_seq db) \<and> import_ok r \<and> ended_ok r \<and> pred_option summary_ok (gi_summary r) \<and>
      (gi_current r \<longrightarrow> at_sha256 r \<noteq> None \<and> gi_requested r \<noteq> None \<and> at_retrieved r \<noteq> None \<and> gi_summary r \<noteq> None)"
    if "r \<in> set (upd_where p f (db_imports db))" for r
    using U(3,5) inv that id cur ended by (auto simp: list_all_iff set_upd_where imports_inv_def)
  then show ?thesis using inv U(4) id by (simp add: U(1) imports_inv_def map_upd_where_keep)
qed

section \<open>The bodies\<close>

lemma mark_import_Inr:
  assumes "bind_tx (stmt w (update_imports (import_running k) f)) (require_one_row op) s = (Inr y, s')"
  shows "update_imports (import_running k) f (se_db s) = (Inr 1, se_db s')"
  using assms by (auto simp: ok_rules dest!: stmt_Inr)

lemma affected_oneD: "affected p rs = 1 \<Longrightarrow> \<exists>r \<in> set rs. p r"
  by (rule affected_one_ex)

text \<open>The current import as the decision sees it.\<close>

definition current_of :: "db \<Rightarrow> current_import option" where
  "current_of db = map_option (\<lambda>r. \<lparr>ci_sha256 = the (at_sha256 r), ci_requested = the (gi_requested r),
     ci_retrieved = the (at_retrieved r), ci_modified = gi_modified r\<rparr>) (find gi_current (db_imports db))"

lemma load_current_Inr:
  assumes "load_current_import s = (Inr c, s')"
  shows "se_db s' = se_db s" and "c = current_of (se_db s)"
  using stmt_Inr [OF assms [unfolded load_current_import_def]]
  by (auto simp: current_of_def split: option.splits)

lemma skip_marked:
  assumes "update_imports (import_running k) (skipped_import_row now d reason) (se_db s) = (Inr 1, se_db s')"
  shows "se_db s' = (se_db s)\<lparr>db_imports := upd_where (import_running k) (skipped_import_row now d reason) (db_imports (se_db s))\<rparr>"
    and "\<exists>r \<in> set (db_imports (se_db s)). import_running k r"
    and "imports_inv (se_db s) \<Longrightarrow> imports_inv (se_db s')"
proof -
  note U = update_imports_Inr [OF assms]
  show "se_db s' = (se_db s)\<lparr>db_imports := upd_where (import_running k) (skipped_import_row now d reason) (db_imports (se_db s))\<rparr>"
    by (rule U(1))
  show "\<exists>r \<in> set (db_imports (se_db s)). import_running k r" using affected_one_ex U(2) by metis
  show "imports_inv (se_db s')" if "imports_inv (se_db s)"
    by (rule imports_inv_update [OF that assms]) (use that in \<open>auto simp: skipped_import_row_def download_columns_def
        import_running_def imports_inv_def import_ok_def ended_ok_def\<close>)
qed

lemma import_body_True:
  assumes "import_body now k d ds s = (Inr True, s')"
  obtains reason where "reason = skip_gtfs_reason (current_of (se_db s)) d" "reason \<noteq> []"
    "update_imports (import_running k) (skipped_import_row now d reason) (se_db s) = (Inr 1, se_db s')"
proof -
  from assms obtain s0 c s1 where 0: "se_db s0 = se_db s" and 1: "load_current_import s0 = (Inr c, s1)"
    and 2: "skip_gtfs_reason c d \<noteq> []" "mark_gtfs_skipped now k d (skip_gtfs_reason c d) s1 = (Inr (), s')"
    by (auto simp: import_body_def Let_def ok_rules split: if_splits dest!: update_Inr)
  note L = load_current_Inr [OF 1] and M = mark_import_Inr [OF 2(2) [unfolded mark_gtfs_skipped_def]]
  show thesis by (rule that [OF refl]) (use L M 2(1) 0 in simp_all)
qed

lemma skip_body_True:
  assumes "skip_body now k d s = (Inr True, s')"
  obtains reason where "reason = skip_gtfs_reason (current_of (se_db s)) d" "reason \<noteq> []"
    "update_imports (import_running k) (skipped_import_row now d reason) (se_db s) = (Inr 1, se_db s')"
proof -
  from assms obtain s0 c s1 where 0: "se_db s0 = se_db s" and 1: "load_current_import s0 = (Inr c, s1)"
    and 2: "skip_gtfs_reason c d \<noteq> []" "mark_gtfs_skipped now k d (skip_gtfs_reason c d) s1 = (Inr (), s')"
    by (auto simp: skip_body_def Let_def ok_rules split: if_splits dest!: update_Inr)
  note L = load_current_Inr [OF 1] and M = mark_import_Inr [OF 2(2) [unfolded mark_gtfs_skipped_def]]
  show thesis by (rule that [OF refl]) (use L M 2(1) 0 in simp_all)
qed

lemma import_body_False:
  assumes "import_body now k d ds s = (Inr False, s')"
  shows "installed now k d ds (se_db s) (se_db s')" and "skip_gtfs_reason (current_of (se_db s)) d = []"
proof -
  from assms obtain s0 c s1 where 0: "se_db s0 = se_db s" and 1: "load_current_import s0 = (Inr c, s1)"
    and 2: "skip_gtfs_reason c d = []" "install_network now k d ds s1 = (Inr (), s')"
    by (auto simp: import_body_def Let_def ok_rules split: if_splits dest!: update_Inr)
  note L = load_current_Inr [OF 1] and I = install_network_Inr [OF 2(2)]
  show "installed now k d ds (se_db s) (se_db s')" "skip_gtfs_reason (current_of (se_db s)) d = []"
    using L I 2(1) 0 by simp_all
qed

lemma import_body_fit:
  "import_body now k d ds s = (Inr False, s') \<Longrightarrow> columns_fit ds"
  by (auto simp: import_body_def Let_def ok_rules split: if_splits dest!: install_network_fit)

lemma installed_imports:
  assumes ins: "installed now k d ds db db'" and inv: "imports_inv db"
  shows "imports_inv db'" and "\<exists>r \<in> set (db_imports db'). at_id r = k \<and> gi_current r \<and> at_status r = Succeeded \<and> gi_summary r = Some (ds_summary ds)"
    and "\<exists>r \<in> set (db_imports db). import_running k r"
proof -
  let ?off = "upd_where gi_current (\<lambda>r. r\<lparr>gi_current := False\<rparr>) (db_imports db)"
  have im: "db_imports db' = upd_where (import_running k) (installed_row now d (ds_summary ds)) ?off"
    and one: "affected (import_running k) (db_imports db) = 1" and ok: "list_all import_ok (db_imports db')" "list_all (\<lambda>r. pred_option summary_ok (gi_summary r)) (db_imports db')"
    and seq: "db_seq db' = db_seq db"
    using ins by (auto simp: installed_def)
  have off: "\<not> gi_current r" if "r \<in> set ?off" for r using that by (auto simp: set_upd_where)
  show run: "\<exists>r \<in> set (db_imports db). import_running k r" by (rule affected_one_ex [OF one])
  then obtain r where r: "r \<in> set (db_imports db)" "import_running k r" by blast
  then have nc: "\<not> gi_current r" using inv by (auto simp: imports_inv_def import_ok_def import_running_def)
  then have r': "r \<in> set ?off" using r(1) by (force simp: set_upd_where)
  have ids: "map at_id (db_imports db') = map at_id (db_imports db)"
    unfolding im by (simp add: map_upd_where_keep installed_row_def download_columns_def)
  have new: "gi_current x \<Longrightarrow> at_id x = k \<and> at_sha256 x \<noteq> None \<and> gi_requested x \<noteq> None \<and> at_retrieved x \<noteq> None \<and> gi_summary x \<noteq> None"
    if "x \<in> set (db_imports db')" for x
    using that off by (auto simp: im set_upd_where [of "import_running k"] installed_row_def download_columns_def
        import_running_def split: if_splits)
  have "distinct (map at_id (db_imports db'))" using inv by (simp add: ids imports_inv_def)
  moreover from this have "length (filter gi_current (db_imports db')) \<le> 1"
  proof -
    have "distinct (map at_id (filter gi_current (db_imports db')))"
      using \<open>distinct (map at_id (db_imports db'))\<close> by (rule distinct_map_filter)
    moreover have "set (map at_id (filter gi_current (db_imports db'))) \<subseteq> {k}" using new by auto
    ultimately have "length (map at_id (filter gi_current (db_imports db'))) \<le> card {k}"
      by (metis card_mono distinct_card finite.emptyI finite.insertI)
    then show ?thesis by simp
  qed
  moreover have "at_id x < sq_import (db_seq db')" if "x \<in> set (db_imports db')" for x
  proof -
    have "at_id x \<in> set (map at_id (db_imports db'))" using that by simp
    then show ?thesis using inv unfolding ids by (auto simp: imports_inv_def seq)
  qed
  moreover have "ended_ok x" if "x \<in> set (db_imports db')" for x
    using that inv by (auto simp: im set_upd_where ended_ok_def installed_row_def download_columns_def imports_inv_def)
  ultimately show "imports_inv db'" using ok new by (auto simp: imports_inv_def list_all_iff)
  have "installed_row now d (ds_summary ds) r \<in> set (db_imports db')"
    unfolding im set_upd_where [of "import_running k"] using r' r(2) by (auto intro!: image_eqI [of _ _ r])
  then show "\<exists>r \<in> set (db_imports db'). at_id r = k \<and> gi_current r \<and> at_status r = Succeeded \<and> gi_summary r = Some (ds_summary ds)"
    using r(2) by (intro bexI [of _ "installed_row now d (ds_summary ds) r"])
      (simp_all add: installed_row_def download_columns_def import_running_def)
qed

end
