(* ===== verification/GtfsLife.thy ===== *)
theory GtfsLife
  imports GtfsNetwork AlertLife
begin

text \<open>
  The life of the network tables: every operation of \<open>GTFSRepository\<close> that writes, with any
  outcome of its statements and of its commit, is one step. In every reached state one import
  at most is current, the network belongs to it and is closed under its foreign keys, and the
  tables of the alerts are those the imports began with.
\<close>

section \<open>The network\<close>

lemma relation_fk_tables:
  "db_routes db' = db_routes db \<Longrightarrow> db_stops db' = db_stops db \<Longrightarrow> relation_fk db' r = relation_fk db r"
  by (simp add: relation_fk_def)

lemma deferred_ok_tables: "db_stops db' = db_stops db \<Longrightarrow> deferred_ok db' = deferred_ok db"
  by (simp add: deferred_ok_def)

lemma network_inv_tables:
  assumes "network_inv db" and t: "db_routes db' = db_routes db" "db_stops db' = db_stops db"
      "db_route_stations db' = db_route_stations db"
    and cur: "\<And>r. r \<in> set (db_imports db) \<Longrightarrow> gi_current r \<Longrightarrow> \<exists>r' \<in> set (db_imports db'). gi_current r' \<and> at_id r' = at_id r"
  shows "network_inv db'"
proof -
  have "\<exists>r' \<in> set (db_imports db'). gi_current r' \<and> at_id r' = k"
    if k: "k \<in> rd_import ` set (db_routes db') \<union> sd_import ` set (db_stops db')" for k
  proof -
    have "\<forall>k \<in> rd_import ` set (db_routes db) \<union> sd_import ` set (db_stops db). \<exists>r \<in> set (db_imports db). gi_current r \<and> at_id r = k"
      using assms(1) by (simp add: network_inv_def)
    with k obtain r where "r \<in> set (db_imports db)" "gi_current r" "at_id r = k" unfolding t by blast
    with cur [of r] show ?thesis by auto
  qed
  then show ?thesis
    using assms(1) unfolding network_inv_def t relation_fk_tables [OF t(1,2)] deferred_ok_tables [OF t(2)] by blast
qed

lemma installed_network:
  assumes ins: "installed now k d ds db db'" and inv: "imports_inv db" and fk: "deferred_ok db'"
  shows "network_inv db'"
proof -
  have t: "db_routes db' = map (route_of k) (ds_routes ds)" "db_stops db' = map (stop_of k) (ds_stops ds)"
    "db_route_stations db' = ds_route_stations ds"
    using ins by (auto simp: installed_def)
  obtain r where "r \<in> set (db_imports db')" "at_id r = k" "gi_current r"
    using installed_imports(2) [OF ins inv] by blast
  then show ?thesis
    using ins fk by (auto simp: network_inv_def t installed_def comp_def)
qed

section \<open>The tables of the alerts\<close>

text \<open>Nothing outside \<open>gtfs_imports\<close> and the network changes.\<close>

definition same_alerts :: "db \<Rightarrow> db \<Rightarrow> bool" where
  "same_alerts db db' \<longleftrightarrow>
     db'\<lparr>db_imports := db_imports db, db_routes := db_routes db, db_stops := db_stops db,
       db_route_stations := db_route_stations db\<rparr> = db"

interpretation alerts_kept: tx_relation same_alerts
proof unfold_locales
  show "same_alerts db1 db3" if "same_alerts db1 db2" "same_alerts db2 db3" for db1 db2 db3
    using that by (cases db1; cases db2; cases db3) (auto simp: same_alerts_def)
  show "same_alerts db (db\<lparr>db_seq := db_seq db1\<rparr>)" if "same_alerts db db1" for db db1
    using that by (cases db; cases db1) (auto simp: same_alerts_def)
qed (simp add: same_alerts_def)

lemma serves_same_alerts:
  "serves same_alerts (update_imports p f)" "serves same_alerts (insert_route k r)"
  "serves same_alerts (insert_stop k x)" "serves same_alerts (insert_route_station rel)"
  by (simp_all add: serves_def same_alerts_def update_imports_def insert_route_def insert_stop_def
      insert_route_station_def Let_def)

lemma load_current_same: "obeys same_alerts load_current_import"
  unfolding load_current_import_def
  by (intro alerts_kept.rules) (simp add: serves_def same_alerts_def)

lemma mark_skipped_same: "obeys same_alerts (mark_gtfs_skipped now k d reason)"
  unfolding mark_gtfs_skipped_def by (intro alerts_kept.rules serves_same_alerts)

lemma install_same: "obeys same_alerts (install_network now k d ds)"
  unfolding install_network_def clear_network_def insert_routes_def insert_stops_def insert_route_stations_def Let_def
  by (intro alerts_kept.rules serves_same_alerts) (simp_all add: same_alerts_def)

lemma import_body_same: "obeys same_alerts (import_body now k d ds)"
  unfolding import_body_def Let_def
  by (intro alerts_kept.rules load_current_same mark_skipped_same install_same) (simp add: same_alerts_def)

lemma skip_body_same: "obeys same_alerts (skip_body now k d)"
  unfolding skip_body_def Let_def
  by (intro alerts_kept.rules load_current_same mark_skipped_same) (simp add: same_alerts_def)

lemma same_alerts_seq: "same_alerts db db' \<Longrightarrow> db_seq db' = db_seq db"
  by (cases db; cases db') (simp add: same_alerts_def)

section \<open>What a call leaves\<close>

text \<open>The database as it was, or the state of a transaction that was committed.\<close>

definition committed_import :: "tx_io \<Rightarrow> row_id \<Rightarrow> download \<Rightarrow> dataset \<Rightarrow> db \<Rightarrow> bool \<Rightarrow> db \<Rightarrow> bool" where
  "committed_import io k d ds db skipped db' \<longleftrightarrow>
     (\<exists>s. import_body (io_now io) k d ds \<lparr>se_db = db, se_faults = io_faults io\<rparr> = (Inr skipped, s) \<and>
       db' = se_db s \<and> deferred_ok db')"

lemma rollback_same_alerts: "same_alerts db db' \<Longrightarrow> rollback db db' = db"
  by (simp add: rollback_def same_alerts_seq)

lemma complete_import_cases:
  assumes "complete_import io k d ds db = (r, db')"
  shows "db' = db \<or> (\<exists>skipped. committed_import io k d ds db skipped db')"
proof (cases "db' = db")
  case False
  obtain res s where body: "import_body (io_now io) k d ds \<lparr>se_db = db, se_faults = io_faults io\<rparr> = (res, s)" by fastforce
  have "rollback db (se_db s) = db"
    using obeysD [OF import_body_same body] by (simp add: rollback_same_alerts)
  with False assms body show ?thesis
    by (auto simp: complete_import_def commit_gtfs_def commit_tx_def committed_import_def
        split: sum.splits prod.splits option.splits outcome.splits if_splits)
qed simp

lemma skip_if_imported_cases:
  assumes "skip_if_imported io k d db = (r, db')"
  shows "db' = db \<or> (\<exists>s. skip_body (io_now io) k d \<lparr>se_db = db, se_faults = io_faults io\<rparr> = (Inr True, s) \<and> db' = se_db s)"
proof (cases "db' = db")
  case False
  obtain res s where body: "skip_body (io_now io) k d \<lparr>se_db = db, se_faults = io_faults io\<rparr> = (res, s)" by fastforce
  have "rollback db (se_db s) = db"
    using obeysD [OF skip_body_same body] by (simp add: rollback_same_alerts)
  with False assms body show ?thesis
    by (auto simp: skip_if_imported_def commit_gtfs_def commit_tx_def
        split: sum.splits prod.splits option.splits outcome.splits if_splits bool.splits)
qed simp

section \<open>The steps\<close>

inductive gtfs_step :: "repo_env \<Rightarrow> db \<Rightarrow> db \<Rightarrow> bool" for env :: repo_env where
  start: "start_import io src db = (r, db') \<Longrightarrow> gtfs_step env db db'"
| record_raw: "record_gtfs_archive io k obj db = (r, db') \<Longrightarrow> gtfs_step env db db'"
| fail: "fail_import_with_failure env io k d f db = (r, db') \<Longrightarrow> gtfs_step env db db'"
| skip: "skip_if_imported io k d db = (b, db') \<Longrightarrow> gtfs_step env db db'"
| complete: "complete_import io k d ds db = (b, db') \<Longrightarrow> gtfs_step env db db'"

definition gtfs_inv :: "db \<Rightarrow> bool" where
  "gtfs_inv db \<longleftrightarrow> imports_inv db \<and> network_inv db \<and> archives_inv db"

text \<open>Imports that ended stay as they are, but for the mark of the current one.\<close>

definition but_mark :: "import_row \<Rightarrow> import_row \<Rightarrow> bool" where
  "but_mark r r' \<longleftrightarrow> r'\<lparr>gi_current := gi_current r\<rparr> = r"

definition import_advances :: "import_row \<Rightarrow> import_row \<Rightarrow> bool" where
  "import_advances r r' \<longleftrightarrow> at_id r' = at_id r \<and> at_source_url r' = at_source_url r \<and> at_started r' = at_started r \<and>
     (at_status r \<noteq> Running \<longrightarrow> but_mark r r') \<and>
     (at_archive r = Archived \<longrightarrow> at_archive r' = Archived \<and> at_archive_id r' = at_archive_id r)"

definition imports_advance :: "db \<Rightarrow> db \<Rightarrow> bool" where
  "imports_advance db db' \<longleftrightarrow> set (db_archives db) \<subseteq> set (db_archives db') \<and>
     (\<forall>r \<in> set (db_imports db). \<exists>r' \<in> set (db_imports db'). import_advances r r')"

lemma but_mark_trans: "but_mark r s \<Longrightarrow> but_mark s t \<Longrightarrow> but_mark r t"
proof -
  assume s: "but_mark r s" and t: "but_mark s t"
  have "t\<lparr>gi_current := gi_current r\<rparr> = (t\<lparr>gi_current := gi_current s\<rparr>)\<lparr>gi_current := gi_current r\<rparr>" by simp
  also have "\<dots> = r" using s t unfolding but_mark_def by simp
  finally show ?thesis by (simp add: but_mark_def)
qed

lemma but_mark_status: "but_mark r s \<Longrightarrow> at_status s = at_status r"
proof -
  assume "but_mark r s"
  then have "at_status (s\<lparr>gi_current := gi_current r\<rparr>) = at_status r" by (simp only: but_mark_def)
  then show ?thesis by simp
qed

lemma import_advances_refl: "import_advances r r"
  by (simp add: import_advances_def but_mark_def)

lemma import_advances_trans: "import_advances r s \<Longrightarrow> import_advances s t \<Longrightarrow> import_advances r t"
proof -
  assume a: "import_advances r s" and b: "import_advances s t"
  have "but_mark r t" if "at_status r \<noteq> Running"
    by (rule but_mark_trans [where s = s]) (use a b that but_mark_status [of r s] in \<open>simp_all add: import_advances_def\<close>)
  with a b show ?thesis by (simp add: import_advances_def)
qed

lemma imports_advance_refl: "imports_advance db db"
  by (auto simp: imports_advance_def intro: import_advances_refl)

lemma imports_advance_trans:
  assumes "imports_advance a b" and "imports_advance b c"
  shows "imports_advance a c"
proof -
  have "\<exists>r' \<in> set (db_imports c). import_advances r r'" if "r \<in> set (db_imports a)" for r
    using that assms import_advances_trans unfolding imports_advance_def by meson
  then show ?thesis using assms unfolding imports_advance_def by blast
qed

lemma imports_advance_upd:
  assumes "db_imports db' = upd_where p f (db_imports db)" and "\<And>r. p r \<Longrightarrow> import_advances r (f r)"
    and "db_archives db' = db_archives db"
  shows "imports_advance db db'"
proof -
  have "\<exists>r' \<in> set (db_imports db'). import_advances r r'" if r: "r \<in> set (db_imports db)" for r
  proof -
    have "(if p r then f r else r) \<in> set (db_imports db')" unfolding assms(1) set_upd_where by (rule imageI [OF r])
    moreover have "import_advances r (if p r then f r else r)" using assms(2) import_advances_refl by simp
    ultimately show ?thesis by blast
  qed
  then show ?thesis by (simp add: imports_advance_def assms(3))
qed

text \<open>A state with the tables of another and larger sequences.\<close>

lemma gtfs_inv_rollback:
  assumes "gtfs_inv db" and "seq_le (db_seq db) (db_seq db1)"
  shows "gtfs_inv (rollback db db1)" and "imports_advance db (rollback db db1)"
proof -
  have "imports_inv (rollback db db1)" "archives_inv (rollback db db1)"
    using assms by (fastforce simp: gtfs_inv_def imports_inv_def archives_inv_def seq_le_def)+
  moreover have "network_inv (rollback db db1)"
    by (rule network_inv_tables [where db = db]) (use assms in \<open>auto simp: gtfs_inv_def\<close>)
  ultimately show "gtfs_inv (rollback db db1)" by (simp add: gtfs_inv_def)
  show "imports_advance db (rollback db db1)"
    by (auto simp: imports_advance_def intro: import_advances_refl)
qed

lemma auto_commit_import:
  assumes "auto_commit io w f db = (r, db')" and "gtfs_inv db" and "serves grows f"
    and "\<And>x db1. f db = (Inr x, db1) \<Longrightarrow> gtfs_inv db1 \<and> imports_advance db db1"
  shows "gtfs_inv db' \<and> imports_advance db db'"
  using auto_commit_cases [OF assms(1)]
proof (elim disjE exE conjE)
  fix x assume "f db = (Inr x, db')"
  then show ?thesis by (rule assms(4))
next
  fix db1 assume "snd (f db) = db1" "db' = rollback db db1"
  moreover have "seq_le (db_seq db) (db_seq (snd (f db)))" using assms(3) by (simp add: serves_def)
  ultimately show ?thesis using gtfs_inv_rollback [OF assms(2)] by simp
qed

lemma start_import_step:
  assumes "start_import io src db = (r, db')" and inv: "gtfs_inv db"
  shows "gtfs_inv db' \<and> imports_advance db db'"
  using assms(1) unfolding start_import_def
proof (rule auto_commit_import [OF _ inv])
  show "serves grows (insert_import src (io_now io))"
    by (simp add: serves_def insert_import_def Let_def seq_le_def)
  fix k db1 assume ins: "insert_import src (io_now io) db = (Inr k, db1)"
  have k: "k = sq_import (db_seq db)" using ins by (simp add: insert_import_def Let_def)
  have "\<exists>x. db1 = db\<lparr>db_imports := db_imports db @ [x], db_seq := (db_seq db)\<lparr>sq_import := k + 1\<rparr>\<rparr> \<and>
      at_id x = k \<and> \<not> gi_current x \<and> import_ok x \<and> ended_ok x \<and> gi_summary x = None"
    unfolding ins [unfolded insert_import_def Let_def, simplified, THEN conjunct2, symmetric] k
    by (rule exI, rule conjI, rule refl) (simp add: import_ok_def attempt_ok_def ended_ok_def)
  then obtain x where x: "db1 = db\<lparr>db_imports := db_imports db @ [x], db_seq := (db_seq db)\<lparr>sq_import := k + 1\<rparr>\<rparr>"
    and new: "at_id x = k" "\<not> gi_current x" "import_ok x" "ended_ok x" "gi_summary x = None" by blast
  have "imports_inv db1" using inv new k by (fastforce simp: gtfs_inv_def imports_inv_def x)
  moreover have "network_inv db1"
    by (rule network_inv_tables [where db = db]) (use inv in \<open>auto simp: gtfs_inv_def x\<close>)
  moreover have "archives_inv db1" using inv by (simp add: gtfs_inv_def archives_inv_def x)
  moreover have "imports_advance db db1" by (auto simp: imports_advance_def x intro: import_advances_refl)
  ultimately show "gtfs_inv db1 \<and> imports_advance db db1" by (simp add: gtfs_inv_def)
qed

text \<open>An update of running imports that installs nothing.\<close>

lemma update_imports_step:
  assumes upd: "update_imports p f db = (Inr n, db')" and inv: "gtfs_inv db"
    and p: "\<And>r. p r \<Longrightarrow> at_status r = Running" and f: "\<And>r. p r \<Longrightarrow> gi_current (f r) = gi_current r"
    and adv: "\<And>r. p r \<Longrightarrow> import_advances r (f r)" and id: "\<And>r. at_id (f r) = at_id r"
    and ended: "\<And>r. p r \<Longrightarrow> ended_ok (f r)"
  shows "gtfs_inv db' \<and> imports_advance db db'"
proof -
  note U = update_imports_Inr [OF upd]
  have I: "imports_inv db" "network_inv db" "archives_inv db" using inv by (simp_all add: gtfs_inv_def)
  have no: "\<not> p r" if "r \<in> set (db_imports db)" "gi_current r" for r
    using that p I(1) by (auto simp: imports_inv_def import_ok_def)
  have "imports_inv db'"
    by (rule imports_inv_update [OF I(1) upd id]) (use no f ended in auto)
  moreover have "network_inv db'"
  proof (rule network_inv_tables [OF I(2)])
    fix r assume "r \<in> set (db_imports db)" "gi_current r"
    with no have "r \<in> set (db_imports db')" by (force simp: U(1) set_upd_where)
    with \<open>gi_current r\<close> show "\<exists>r' \<in> set (db_imports db'). gi_current r' \<and> at_id r' = at_id r" by blast
  qed (simp_all add: U(1))
  moreover have "archives_inv db'" using I(3) by (simp add: archives_inv_def U(1))
  moreover have "imports_advance db db'" by (rule imports_advance_upd [OF _ adv]) (simp_all add: U(1))
  ultimately show ?thesis by (simp add: gtfs_inv_def)
qed

lemma fail_import_step:
  assumes "fail_import_with_failure env io k d f db = (r, db')" and inv: "gtfs_inv db"
  shows "gtfs_inv db' \<and> imports_advance db db'"
proof -
  let ?p = "\<lambda>r. at_id r = k \<and> at_status r = Running"
  let ?f = "fail_import_row env d f (io_now io)"
  obtain r1 where a: "auto_commit io (Wrapf ''mark GTFS import %d failed: %w'' [AInt k]) (update_imports ?p ?f) db = (r1, db')"
    using assms(1) by (auto simp: fail_import_with_failure_def split: prod.splits sum.splits)
  show ?thesis
  proof (rule auto_commit_import [OF a inv])
    show "serves grows (update_imports ?p ?f)" by (simp add: serves_def update_imports_def Let_def)
    show "gtfs_inv db1 \<and> imports_advance db db1" if "update_imports ?p ?f db = (Inr n, db1)" for n db1
      by (rule update_imports_step [OF that inv])
        (simp_all add: fail_import_row_def import_advances_def download_columns_def ended_ok_def split: option.split)
  qed
qed

lemma skip_import_step:
  assumes "skip_if_imported io k d db = (r, db')" and inv: "gtfs_inv db"
  shows "gtfs_inv db' \<and> imports_advance db db'"
  using skip_if_imported_cases [OF assms(1)]
proof (elim disjE exE conjE)
  assume "db' = db"
  with inv imports_advance_refl show ?thesis by simp
next
  fix s assume "skip_body (io_now io) k d \<lparr>se_db = db, se_faults = io_faults io\<rparr> = (Inr True, s)" "db' = se_db s"
  then obtain reason where "update_imports (import_running k) (skipped_import_row (io_now io) d reason) db = (Inr 1, db')"
    by (auto elim: skip_body_True)
  then show ?thesis
    by (rule update_imports_step [OF _ inv])
      (simp_all add: skipped_import_row_def import_advances_def download_columns_def import_running_def ended_ok_def)
qed

section \<open>Completing an import\<close>

lemma installed_advance:
  assumes ins: "installed now k d ds db db'"
  shows "imports_advance db db'"
proof -
  let ?off = "upd_where gi_current (\<lambda>r. r\<lparr>gi_current := False\<rparr>) (db_imports db)"
  have im: "db_imports db' = upd_where (import_running k) (installed_row now d (ds_summary ds)) ?off"
    and arch: "db_archives db' = db_archives db"
    using ins by (auto simp: installed_def)
  have "imports_advance db (db\<lparr>db_imports := ?off\<rparr>)"
    by (rule imports_advance_upd [where p = gi_current and f = "\<lambda>r. r\<lparr>gi_current := False\<rparr>"])
      (simp_all add: import_advances_def but_mark_def)
  moreover have "imports_advance (db\<lparr>db_imports := ?off\<rparr>) db'"
    by (rule imports_advance_upd [where p = "import_running k" and f = "installed_row now d (ds_summary ds)"])
      (simp_all add: im arch import_advances_def import_running_def installed_row_def download_columns_def)
  ultimately show ?thesis by (rule imports_advance_trans)
qed

lemma committed_import_inv:
  assumes com: "committed_import io k d ds db skipped db'" and inv: "gtfs_inv db"
  shows "gtfs_inv db' \<and> imports_advance db db'"
proof -
  obtain s where body: "import_body (io_now io) k d ds \<lparr>se_db = db, se_faults = io_faults io\<rparr> = (Inr skipped, s)"
    and db': "db' = se_db s" "deferred_ok db'"
    using com by (auto simp: committed_import_def)
  show ?thesis
  proof (cases skipped)
    case True
    with body obtain reason where "update_imports (import_running k) (skipped_import_row (io_now io) d reason) db = (Inr 1, db')"
      unfolding db'(1) by (auto elim: import_body_True)
    then show ?thesis
      by (rule update_imports_step [OF _ inv])
        (simp_all add: skipped_import_row_def import_advances_def download_columns_def import_running_def ended_ok_def)
  next
    case False
    with body have ins: "installed (io_now io) k d ds db db'"
      unfolding db'(1) using import_body_False(1) [of "io_now io" k d ds "\<lparr>se_db = db, se_faults = io_faults io\<rparr>" s] by simp
    have I: "imports_inv db" using inv by (simp add: gtfs_inv_def)
    have "archives_inv db'" using inv ins by (auto simp: gtfs_inv_def archives_inv_def installed_def)
    then show ?thesis
      using installed_imports(1) [OF ins I] installed_network [OF ins I db'(2)] installed_advance [OF ins]
      by (simp add: gtfs_inv_def)
  qed
qed

lemma complete_import_step:
  "complete_import io k d ds db = (r, db') \<Longrightarrow> gtfs_inv db \<Longrightarrow> gtfs_inv db' \<and> imports_advance db db'"
  using complete_import_cases [of io k d ds db r db'] committed_import_inv imports_advance_refl by blast

section \<open>Recording an archive\<close>

lemma link_import_step:
  assumes inv: "gtfs_inv db" and body: "archive_body imports_table k obj \<lparr>se_db = db, se_faults = fs\<rparr> = (Inr (), s)"
  shows "gtfs_inv (se_db s) \<and> imports_advance db (se_db s)"
proof -
  let ?db = "se_db s"
  let ?p = "\<lambda>r. at_id r = k \<and> at_status r = Running \<and> at_archive r = Pending"
  have I: "imports_inv db" "network_inv db" "archives_inv db" using inv by (simp_all add: gtfs_inv_def)
  have arch: "archives_inv (se_db \<lparr>se_db = db, se_faults = fs\<rparr>)" using I(3) by simp
  note B = gtfs_attempts.archive_body_Inr [OF body arch]
  note K = gtfs_attempts.archive_body_keeps [OF body arch]
  have seq: "seq_le (db_seq db) (db_seq ?db)"
    using obeysD [OF gtfs_attempts.archive_body_grows body] by simp
  have same: "db_routes ?db = db_routes db" "db_stops ?db = db_stops db" "db_route_stations ?db = db_route_stations db"
    using K [of db_routes] K [of db_stops] K [of db_route_stations] by (simp_all add: imports_table_def)
  from B(4) obtain j where "j \<in> ra_id ` set (db_archives ?db)"
    and "tb_rows imports_table ?db = upd_where ?p (link_row j (ob_created obj))
        (tb_rows imports_table (se_db \<lparr>se_db = db, se_faults = fs\<rparr>)) \<and> list_all attempt_ok (tb_rows imports_table ?db)"
    by (rule bexE)
  then have rows: "db_imports ?db = upd_where ?p (link_row j (ob_created obj)) (db_imports db)"
    and valid: "list_all attempt_ok (db_imports ?db)"
    unfolding imports_table_def attempt_table.simps session.simps by blast+
  let ?f = "link_row j (ob_created obj) :: import_row \<Rightarrow> import_row"
  have keep: "at_id (?f r) = at_id r" "gi_current (?f r) = gi_current r" "gi_summary (?f r) = gi_summary r" "at_status (?f r) = at_status r"
      "at_completed (?f r) = at_completed r" for r :: import_row
    by (simp_all add: link_row_def)
  have no: "\<not> ?p r" if "r \<in> set (db_imports db)" "gi_current r" for r
    using that I(1) by (auto simp: imports_inv_def import_ok_def)
  have one: "filter gi_current (db_imports ?db) = filter gi_current (db_imports db)"
  proof -
    have "filter gi_current (db_imports ?db) = upd_where ?p ?f (filter gi_current (db_imports db))"
      using filter_upd_where [of gi_current ?f True ?p "db_imports db"] by (simp add: rows keep)
    also have "\<dots> = filter gi_current (db_imports db)" by (rule upd_where_none) (use no in auto)
    finally show ?thesis .
  qed
  have "imports_inv ?db"
  proof -
    have "at_id r < sq_import (db_seq ?db) \<and> import_ok r \<and> ended_ok r \<and> pred_option summary_ok (gi_summary r) \<and>
        (gi_current r \<longrightarrow> at_sha256 r \<noteq> None \<and> gi_requested r \<noteq> None \<and> at_retrieved r \<noteq> None \<and> gi_summary r \<noteq> None)"
      if r: "r \<in> set (db_imports ?db)" for r
    proof -
      obtain x where x: "x \<in> set (db_imports db)" "r = (if ?p x then ?f x else x)"
        using r unfolding rows set_upd_where by blast
      have "at_id x < sq_import (db_seq db)" "import_ok x" "ended_ok x" "pred_option summary_ok (gi_summary x)" using I(1) x(1) by (simp_all add: imports_inv_def)
      moreover have "attempt_ok r" using valid r by (simp add: list_all_iff)
      ultimately show ?thesis
        using x I(1) seq no [OF x(1)] by (auto simp: keep import_ok_def imports_inv_def seq_le_def ended_ok_def)
    qed
    moreover have "map at_id (db_imports ?db) = map at_id (db_imports db)"
      unfolding rows by (rule map_upd_where_keep) (rule keep(1))
    ultimately show ?thesis using I(1) by (simp add: imports_inv_def one)
  qed
  moreover have "network_inv ?db"
  proof (rule network_inv_tables [OF I(2) same])
    fix r assume "r \<in> set (db_imports db)" "gi_current r"
    then have "r \<in> set (filter gi_current (db_imports ?db))" by (simp add: one)
    then show "\<exists>r' \<in> set (db_imports ?db). gi_current r' \<and> at_id r' = at_id r" by auto
  qed
  moreover have "archives_inv ?db" by (rule B(2))
  moreover have "\<exists>r' \<in> set (db_imports ?db). import_advances r r'" if r: "r \<in> set (db_imports db)" for r
  proof -
    have "(if ?p r then ?f r else r) \<in> set (db_imports ?db)" unfolding rows set_upd_where by (rule imageI [OF r])
    moreover have "import_advances r (if ?p r then ?f r else r)"
      using import_advances_refl by (simp add: import_advances_def link_row_def)
    ultimately show ?thesis by blast
  qed
  ultimately show ?thesis using B(3) by (simp add: gtfs_inv_def imports_advance_def)
qed

lemma record_import_step:
  assumes "record_gtfs_archive io k obj db = (r, db')" and inv: "gtfs_inv db"
  shows "gtfs_inv db' \<and> imports_advance db db'"
  using gtfs_attempts.record_archive_cases [OF assms(1) [unfolded record_gtfs_archive_def]]
proof (elim disjE exE conjE)
  assume "db' = db"
  with inv imports_advance_refl show ?thesis by simp
next
  fix res s
  assume body: "archive_body imports_table k obj \<lparr>se_db = db, se_faults = io_faults io\<rparr> = (res, s)"
    and "db' = rollback db (se_db s)"
  with obeysD [OF gtfs_attempts.archive_body_grows body] gtfs_inv_rollback [OF inv]
  show ?thesis by simp
next
  fix res s
  assume "archive_body imports_table k obj \<lparr>se_db = db, se_faults = io_faults io\<rparr> = (res, s)"
    and "res = Inr ()" "db' = se_db s"
  with link_import_step [OF inv] show ?thesis by blast
qed

section \<open>Reachable states\<close>

lemma gtfs_step_inv: "gtfs_step env db db' \<Longrightarrow> gtfs_inv db \<Longrightarrow> gtfs_inv db' \<and> imports_advance db db'"
  by (induction rule: gtfs_step.induct)
    (rule start_import_step record_import_step fail_import_step skip_import_step complete_import_step; assumption)+

lemma gtfs_inv_empty: "gtfs_inv empty_db"
  by (simp add: gtfs_inv_def empty_db_def imports_inv_def network_inv_def deferred_ok_def archives_inv_def)

lemma gtfs_steps_inv:
  assumes "(gtfs_step env)\<^sup>*\<^sup>* db db'" and "gtfs_inv db"
  shows "gtfs_inv db' \<and> imports_advance db db'"
  using assms
proof (induction rule: rtranclp_induct)
  case base
  then show ?case by (simp add: imports_advance_refl)
next
  case (step db1 db2)
  then show ?case using gtfs_step_inv [OF step.hyps(2)] imports_advance_trans by blast
qed

end
