(* ===== verification/GtfsOutcome.thy ===== *)
theory GtfsOutcome
  imports GtfsLife
begin

text \<open>
  What a caller of \<open>SkipIfImported\<close> and \<open>CompleteImport\<close> can conclude from the result: which
  transaction was committed, that an error changed nothing unless it says that the outcome is
  unknown, and that a network the parser accepted is installed when nothing fails.
\<close>

section \<open>The status decides\<close>

lemma import_body_status:
  assumes body: "import_body now k d ds \<lparr>se_db = db, se_faults = fs\<rparr> = (Inr skipped, s)" and inv: "imports_inv db"
  shows "import_status_of k db = Some Running"
    and "import_status_of k (se_db s) = Some (if skipped then Skipped else Succeeded)"
proof -
  have "import_status_of k db = Some Running \<and> import_status_of k (se_db s) = Some (if skipped then Skipped else Succeeded)"
  proof (cases skipped)
    case True
    with body obtain reason where upd: "update_imports (import_running k) (skipped_import_row now d reason) db = (Inr 1, se_db s)"
      by (auto elim: import_body_True)
    then have m: "update_imports (import_running k) (skipped_import_row now d reason)
        (se_db \<lparr>se_db = db, se_faults = fs\<rparr>) = (Inr 1, se_db s)" by simp
    obtain r where r: "r \<in> set (db_imports db)" "import_running k r" using skip_marked(2) [OF m] by auto
    have "skipped_import_row now d reason r \<in> set (db_imports (se_db s))"
      using skip_marked(1) [OF m] r by (auto simp: set_upd_where intro!: image_eqI [of _ _ r])
    moreover have "imports_inv (se_db s)" using skip_marked(3) [OF m] inv by simp
    ultimately show ?thesis
      using import_status_of_mem [OF inv r(1)] import_status_of_mem [of "se_db s" "skipped_import_row now d reason r"] r(2) True
      by (simp add: import_running_def skipped_import_row_def download_columns_def)
  next
    case False
    with body have ins: "installed now k d ds db (se_db s)"
      using import_body_False(1) [of now k d ds "\<lparr>se_db = db, se_faults = fs\<rparr>" s] by simp
    obtain r where r: "r \<in> set (db_imports db)" "import_running k r" using installed_imports(3) [OF ins inv] by blast
    obtain x where x: "x \<in> set (db_imports (se_db s))" "at_id x = k" "at_status x = Succeeded"
      using installed_imports(2) [OF ins inv] by blast
    show ?thesis
      using import_status_of_mem [OF inv r(1)] import_status_of_mem [OF installed_imports(1) [OF ins inv] x(1)] r(2) x False
      by (simp add: import_running_def)
  qed
  then show "import_status_of k db = Some Running"
    "import_status_of k (se_db s) = Some (if skipped then Skipped else Succeeded)" by simp_all
qed

lemma skip_body_status:
  assumes body: "skip_body now k d \<lparr>se_db = db, se_faults = fs\<rparr> = (Inr True, s)" and inv: "imports_inv db"
  shows "import_status_of k db = Some Running" and "import_status_of k (se_db s) = Some Skipped"
proof -
  obtain reason where m: "update_imports (import_running k) (skipped_import_row now d reason)
        (se_db \<lparr>se_db = db, se_faults = fs\<rparr>) = (Inr 1, se_db s)"
    using body by (auto elim: skip_body_True)
  obtain r where r: "r \<in> set (db_imports db)" "import_running k r" using skip_marked(2) [OF m] by auto
  have x: "skipped_import_row now d reason r \<in> set (db_imports (se_db s))"
    using skip_marked(1) [OF m] r by (auto simp: set_upd_where intro!: image_eqI [of _ _ r])
  have "imports_inv (se_db s)" using skip_marked(3) [OF m] inv by simp
  then show "import_status_of k db = Some Running" "import_status_of k (se_db s) = Some Skipped"
    using import_status_of_mem [OF inv r(1)] import_status_of_mem [OF _ x] r(2)
    by (simp_all add: import_running_def skipped_import_row_def download_columns_def)
qed

text \<open>\<open>commitGTFS\<close> for a transaction that moves the import from running to a final status.\<close>

lemma commit_gtfs_resolves:
  assumes "commit_gtfs io k expected db0 db = (r, db')" and "import_status_of k (rollback db0 db) = Some Running"
    and "import_status_of k db = Some expected" and "expected \<noteq> Running"
  shows "r = Inr () \<and> db' = db \<and> deferred_ok db \<or>
    (\<exists>e. r = Inl e \<and> (db' = rollback db0 db \<or> (\<exists>c st. e = CommitOutcomeError c st) \<and> db' = db \<and> deferred_ok db))"
  using assms by (auto simp: commit_gtfs_def commit_tx_def split: outcome.splits prod.splits option.splits if_splits)

lemma complete_import_result:
  assumes run: "complete_import io k d ds db = (r, db')" and inv: "imports_inv db"
  shows "(\<exists>skipped. r = Inr skipped \<and> committed_import io k d ds db skipped db') \<or>
    (\<exists>e. r = Inl e \<and> (db' = db \<or> (\<exists>c st. e = CommitOutcomeError c st)))"
proof -
  obtain res s where body: "import_body (io_now io) k d ds \<lparr>se_db = db, se_faults = io_faults io\<rparr> = (res, s)" by fastforce
  have rb: "rollback db (se_db s) = db"
    using obeysD [OF import_body_same body] by (simp add: rollback_same_alerts)
  show ?thesis
  proof (cases "\<exists>skipped. res = Inr skipped \<and> io_begin io = None")
    case False
    then consider e where "io_begin io = Some e" | e where "io_begin io = None" "res = Inl e" by (cases res) auto
    then have "\<exists>e. r = Inl e \<and> db' = db"
      by cases (use run body rb in \<open>auto simp add: complete_import_def\<close>)
    then show ?thesis by blast
  next
    case True
    then obtain skipped where res: "res = Inr skipped" and b: "io_begin io = None" by blast
    obtain r1 where cm: "commit_gtfs io k (if skipped then Skipped else Succeeded) db (se_db s) = (r1, db')"
      and r: "r = (case r1 of Inl e \<Rightarrow> Inl e | Inr _ \<Rightarrow> Inr skipped)"
      using run body b unfolding complete_import_def res by (auto split: prod.splits sum.splits)
    note st = import_body_status [OF body [unfolded res] inv]
    have "(if skipped then Skipped else Succeeded) \<noteq> Running" by simp
    from commit_gtfs_resolves [OF cm _ st(2) this] st(1)
    have "r1 = Inr () \<and> db' = se_db s \<and> deferred_ok (se_db s) \<or>
      (\<exists>e. r1 = Inl e \<and> (db' = db \<or> (\<exists>c st. e = CommitOutcomeError c st)))" unfolding rb by blast
    then show ?thesis
    proof (elim disjE exE conjE)
      assume "r1 = Inr ()" "db' = se_db s" "deferred_ok (se_db s)"
      with body res r show ?thesis unfolding committed_import_def by simp
    next
      fix e assume "r1 = Inl e" "db' = db"
      with r show ?thesis by simp
    next
      fix e c st assume "r1 = Inl e" "e = CommitOutcomeError c st"
      with r show ?thesis by simp
    qed
  qed
qed

lemma skip_if_imported_result:
  assumes run: "skip_if_imported io k d db = (r, db')" and inv: "imports_inv db"
  shows "(\<exists>s. r = Inr True \<and> skip_body (io_now io) k d \<lparr>se_db = db, se_faults = io_faults io\<rparr> = (Inr True, s) \<and> db' = se_db s) \<or>
    (r = Inr False \<and> db' = db \<and> skip_gtfs_reason (current_of db) d = []) \<or>
    (\<exists>e. r = Inl e \<and> (db' = db \<or> (\<exists>c st. e = CommitOutcomeError c st)))"
proof -
  obtain res s where body: "skip_body (io_now io) k d \<lparr>se_db = db, se_faults = io_faults io\<rparr> = (res, s)" by fastforce
  have rb: "rollback db (se_db s) = db"
    using obeysD [OF skip_body_same body] by (simp add: rollback_same_alerts)
  have no: "skip_gtfs_reason (current_of db) d = []" if "res = Inr False"
  proof -
    from body that obtain s0 c s1 where "se_db s0 = db" "load_current_import s0 = (Inr c, s1)" "skip_gtfs_reason c d = []"
      by (auto simp: skip_body_def Let_def ok_rules split: if_splits dest!: update_Inr)
    with load_current_Inr(2) show ?thesis by metis
  qed
  show ?thesis
  proof (cases "res = Inr True \<and> io_begin io = None")
    case False
    show ?thesis
    proof (cases "io_begin io")
      case (Some e)
      with run show ?thesis by (auto simp: skip_if_imported_def)
    next
      case None
      with False consider e where "res = Inl e" | "res = Inr False" by (cases res) auto
      then show ?thesis
      proof cases
        case 1
        with run body rb None show ?thesis by (auto simp: skip_if_imported_def)
      next
        case 2
        with run body rb None no show ?thesis by (auto simp: skip_if_imported_def)
      qed
    qed
  next
    case True
    then have res: "res = Inr True" and b: "io_begin io = None" by blast+
    obtain r1 where cm: "commit_gtfs io k Skipped db (se_db s) = (r1, db')"
      and r: "r = (case r1 of Inl e \<Rightarrow> Inl e | Inr _ \<Rightarrow> Inr True)"
      using run body b unfolding skip_if_imported_def res by (auto split: prod.splits sum.splits)
    note st = skip_body_status [OF body [unfolded res] inv]
    from commit_gtfs_resolves [OF cm _ st(2)] st(1) show ?thesis
      unfolding rb using body res r by auto
  qed
qed

section \<open>A network the parser accepted is installed\<close>

text \<open>What the columns require.\<close>

definition storable :: "dataset \<Rightarrow> bool" where
  "storable d \<longleftrightarrow> columns_fit d \<and> summary_ok (ds_summary d)"

text \<open>A loop of insertions without faults.\<close>

lemma each_quiet:
  assumes "se_faults s = []"
    and "\<And>ys x zs. xs = ys @ x # zs \<Longrightarrow> f x (fold add ys (se_db s)) = (Inr (), add x (fold add ys (se_db s)))"
  shows "each_tx (\<lambda>x. stmt (w x) (f x)) xs s = (Inr (), s\<lparr>se_db := fold add xs (se_db s)\<rparr>)"
  using assms
proof (induction xs arbitrary: s)
  case Nil
  then show ?case by (simp add: ret_def)
next
  case (Cons x xs)
  from Cons.prems(2) [of "[]" x xs] have f: "f x (se_db s) = (Inr (), add x (se_db s))" by simp
  let ?s = "s\<lparr>se_db := add x (se_db s)\<rparr>"
  have "each_tx (\<lambda>x. stmt (w x) (f x)) xs ?s = (Inr (), ?s\<lparr>se_db := fold add xs (se_db ?s)\<rparr>)"
  proof (rule Cons.IH)
    fix ys z zs assume "xs = ys @ z # zs"
    with Cons.prems(2) [of "x # ys" z zs]
    show "f z (fold add ys (se_db ?s)) = (Inr (), add z (fold add ys (se_db ?s)))" by simp
  qed (use Cons.prems(1) in simp)
  with stmt_quiet [where f = "f x" and s = s, OF Cons.prems(1) f] show ?case by (simp add: bind_tx_def)
qed

lemma bind_quiet: "m s = (Inr x, s1) \<Longrightarrow> bind_tx m k s = k x s1"
  by (simp add: bind_tx_def)

lemma update_quiet: "se_faults s = [] \<Longrightarrow> update w f s = (Inr (), s\<lparr>se_db := f (se_db s)\<rparr>)"
  by (simp add: update_def stmt_quiet)

lemma insert_routes_quiet:
  assumes "se_faults s = []" and "db_routes (se_db s) = []" and "k \<in> at_id ` set (db_imports (se_db s))"
    and "distinct (map rt_id rs)" and "\<And>r. r \<in> set rs \<Longrightarrow> int4 (rt_type r) \<and> fits_char 6 (rt_color r) \<and> fits_char 6 (rt_text_color r)"
  shows "insert_routes k rs s = (Inr (), s\<lparr>se_db := (se_db s)\<lparr>db_routes := map (route_of k) rs\<rparr>\<rparr>)"
proof -
  let ?add = "\<lambda>r db. db\<lparr>db_routes := db_routes db @ [route_of k r]\<rparr>"
  have "each_tx (\<lambda>r. stmt (Wrapf ''insert route %q: %w'' [AStr (rt_id r)]) (insert_route k r)) rs s =
      (Inr (), s\<lparr>se_db := fold ?add rs (se_db s)\<rparr>)"
    by (rule each_quiet [OF assms(1)]) (use assms(2-) in \<open>auto simp: insert_route_def fold_rows route_of_def route_columns_def image_iff\<close>)
  then show ?thesis using assms(1,2) by (simp add: insert_routes_def bind_tx_def update_quiet fold_rows)
qed

lemma insert_stops_quiet:
  assumes "se_faults s = []" and "db_stops (se_db s) = []" and "k \<in> at_id ` set (db_imports (se_db s))"
    and "distinct (map st_id xs)" and "\<And>x. x \<in> set xs \<Longrightarrow> stop_check x \<and> pred_option int4 (st_wheelchair x)"
  shows "insert_stops k xs s = (Inr (), s\<lparr>se_db := (se_db s)\<lparr>db_stops := map (stop_of k) xs\<rparr>\<rparr>)"
proof -
  let ?add = "\<lambda>x db. db\<lparr>db_stops := db_stops db @ [stop_of k x]\<rparr>"
  have small: "int4 (st_location_type x)" if "x \<in> set xs" for x
    using assms(5) [OF that] by (simp add: stop_check_def int4_def)
  have "each_tx (\<lambda>x. stmt (Wrapf ''insert stop %q: %w'' [AStr (st_id x)]) (insert_stop k x)) xs s =
      (Inr (), s\<lparr>se_db := fold ?add xs (se_db s)\<rparr>)"
    by (rule each_quiet [OF assms(1)]) (use assms(2-) small in \<open>auto simp: insert_stop_def fold_rows stop_of_def image_iff\<close>)
  then show ?thesis using assms(1,2) by (simp add: insert_stops_def bind_tx_def update_quiet fold_rows)
qed

lemma insert_route_stations_quiet:
  assumes "se_faults s = []" and "db_route_stations (se_db s) = []"
    and "distinct rels" and "\<And>r. r \<in> set rels \<Longrightarrow> relation_fk (se_db s) r"
  shows "insert_route_stations rels s = (Inr (), s\<lparr>se_db := (se_db s)\<lparr>db_route_stations := rels\<rparr>\<rparr>)"
proof -
  let ?add = "\<lambda>r db. db\<lparr>db_route_stations := db_route_stations db @ [r]\<rparr>"
  have "each_tx (\<lambda>r. stmt (Wrapf ''insert route-station %q/%q: %w'' [AStr (rs_route r), AStr (rs_station r)])
      (insert_route_station r)) rels s = (Inr (), s\<lparr>se_db := fold ?add rels (se_db s)\<rparr>)"
    by (rule each_quiet [OF assms(1)]) (use assms(2-) in \<open>auto simp: insert_route_station_def fold_rows relation_fk_def\<close>)
  then show ?thesis using assms(1,2) by (simp add: insert_route_stations_def bind_tx_def update_quiet fold_rows)
qed

text \<open>The markers.\<close>

lemma update_imports_quiet:
  assumes "list_all import_ok (upd_where p f (db_imports db))" and "length (filter gi_current (upd_where p f (db_imports db))) \<le> 1"
    and "list_all (\<lambda>r. pred_option summary_ok (gi_summary r)) (upd_where p f (db_imports db))"
  shows "update_imports p f db = (Inr (affected p (db_imports db)), db\<lparr>db_imports := upd_where p f (db_imports db)\<rparr>)"
  using assms by (simp add: update_imports_def Let_def)

lemma list_all_upd_where:
  "(\<And>r. r \<in> set rs \<Longrightarrow> P (if p r then f r else r)) \<Longrightarrow> list_all P (upd_where p f rs)"
  unfolding list_all_iff set_upd_where by blast

lemma clear_mark_ok: "import_ok r \<Longrightarrow> import_ok (r\<lparr>gi_current := False\<rparr>)"
  by (simp add: import_ok_def attempt_ok_def cong: archive_state.case_cong option.case_cong)

lemma installed_row_ok: "import_ok r \<Longrightarrow> import_running k r \<Longrightarrow> import_ok (installed_row now d sm r)"
  by (simp add: import_ok_def attempt_ok_def import_running_def installed_row_def download_columns_def)

lemma none_current: "filter gi_current (upd_where gi_current (\<lambda>r. r\<lparr>gi_current := False\<rparr>) rs) = []"
  by (induction rs) auto

lemma new_current:
  "filter gi_current rs = [] \<Longrightarrow> (\<And>r. gi_current (f r)) \<Longrightarrow> length (filter gi_current (upd_where p f rs)) = affected p rs"
  by (induction rs) (auto simp: affected_def split: if_splits)

lemma running_unique:
  assumes "imports_inv db" and "r \<in> set (db_imports db)" and "import_running k r"
  shows "affected (import_running k) (db_imports db) = 1"
proof -
  have "affected (\<lambda>r. at_id r = k \<and> at_status r = Running \<and> at_archive r = Archived) (db_imports db) \<le> 1"
    by (rule affected_key_unique) (use assms(1) in \<open>simp add: imports_inv_def\<close>)
  moreover have "affected (import_running k) (db_imports db) \<noteq> 0" using assms(2,3) affected_pos_iff by metis
  ultimately show ?thesis unfolding import_running_def by simp
qed

lemma mark_quiet:
  assumes "se_faults s = []" and "update_imports p f (se_db s) = (Inr 1, db')"
  shows "bind_tx (stmt w (update_imports p f)) (require_one_row op) s = (Inr (), s\<lparr>se_db := db'\<rparr>)"
  by (simp add: bind_tx_def stmt_quiet [where f = "update_imports p f", OF assms] require_one_row_def ret_def)

lemma sorted_key_distinct: "sorted_wrt (\<lambda>a b. key a < (key b :: 'k :: linorder)) xs \<Longrightarrow> distinct xs"
  by (induction xs) auto

lemma relations_distinct: "network_ok d \<Longrightarrow> distinct (ds_route_stations d)"
  by (rule sorted_key_distinct [of relation_key]) (simp add: network_ok_def)

lemma accepted_stop_check: "network_ok d \<Longrightarrow> x \<in> set (ds_stops d) \<Longrightarrow> stop_check x"
proof -
  assume d: "network_ok d" and x: "x \<in> set (ds_stops d)"
  then have ok: "stop_ok x" "parent_rule (ds_stops d) x" and ids: "\<And>y. y \<in> set (ds_stops d) \<Longrightarrow> st_id y \<noteq> []"
    by (auto simp: network_ok_def stops_table_def stop_ok_def)
  have "st_parent x \<noteq> []" if "has_parent_of_type (ds_stops d) x t" for t
    using that ids unfolding has_parent_of_type_def by metis
  moreover have "st_location_type x \<in> {0, 1, 2, 3, 4}" using ok(1) by (auto simp: stop_ok_def)
  ultimately show ?thesis using ok(2) by (auto simp: stop_check_def parent_rule_def split: if_splits)
qed

lemma accepted_deferred:
  assumes "network_ok d" and "db_stops db = map (stop_of k) (ds_stops d)"
  shows "deferred_ok db"
proof -
  have stops: "map sd_stop (db_stops db) = ds_stops d" by (simp add: assms(2) comp_def)
  have "parent_fk (ds_stops d) x" if "x \<in> set (ds_stops d)" for x
  proof -
    have "parent_rule (ds_stops d) x" "stop_ok x" using assms(1) that by (simp_all add: network_ok_def stops_table_def)
    then show ?thesis by (auto simp: parent_rule_def parent_fk_def has_parent_of_type_def split: if_splits)
  qed
  then show ?thesis unfolding deferred_ok_def stops by (simp add: list_all_iff)
qed

lemma install_quiet:
  assumes q: "se_faults s = []" and inv: "imports_inv (se_db s)" and r: "r \<in> set (db_imports (se_db s))" "import_running k r"
    and d: "network_ok ds" "storable ds"
  shows "\<exists>s'. install_network now k d ds s = (Inr (), s') \<and> db_stops (se_db s') = map (stop_of k) (ds_stops ds)"
proof -
  let ?off = "upd_where gi_current (\<lambda>r. r\<lparr>gi_current := False\<rparr>) (db_imports (se_db s))"
  let ?new = "installed_row now d (ds_summary ds)"
  let ?db1 = "(se_db s)\<lparr>db_route_stations := [], db_stops := [], db_routes := []\<rparr>"
  let ?db2 = "?db1\<lparr>db_routes := map (route_of k) (ds_routes ds)\<rparr>"
  let ?db3 = "?db2\<lparr>db_stops := map (stop_of k) (ds_stops ds)\<rparr>"
  let ?db4 = "?db3\<lparr>db_route_stations := ds_route_stations ds\<rparr>"
  let ?db5 = "?db4\<lparr>db_imports := ?off\<rparr>"
  have mem: "k \<in> at_id ` set (db_imports (se_db s))" using r by (auto simp: import_running_def)
  have 1: "clear_network s = (Inr (), s\<lparr>se_db := ?db1\<rparr>)"
    by (simp add: clear_network_def Let_def bind_tx_def update_quiet q)
  have 2: "insert_routes k (ds_routes ds) (s\<lparr>se_db := ?db1\<rparr>) = (Inr (), s\<lparr>se_db := ?db2\<rparr>)"
    using insert_routes_quiet [of "s\<lparr>se_db := ?db1\<rparr>" k "ds_routes ds"] q mem d
    by (simp add: network_ok_def storable_def columns_fit_def)
  have 3: "insert_stops k (ds_stops ds) (s\<lparr>se_db := ?db2\<rparr>) = (Inr (), s\<lparr>se_db := ?db3\<rparr>)"
    using insert_stops_quiet [of "s\<lparr>se_db := ?db2\<rparr>" k "ds_stops ds"] q mem d accepted_stop_check [OF d(1)]
    by (simp add: network_ok_def storable_def columns_fit_def stops_table_def)
  have "relation_fk ?db3 x" if "x \<in> set (ds_route_stations ds)" for x
    using d(1) that by (fastforce simp: network_ok_def relation_fk_def)
  then have 4: "insert_route_stations (ds_route_stations ds) (s\<lparr>se_db := ?db3\<rparr>) = (Inr (), s\<lparr>se_db := ?db4\<rparr>)"
    using insert_route_stations_quiet [of "s\<lparr>se_db := ?db3\<rparr>" "ds_route_stations ds"] q relations_distinct [OF d(1)] by simp
  have ok: "import_ok x" "pred_option summary_ok (gi_summary x)" if "x \<in> set (db_imports (se_db s))" for x
    using inv that by (simp_all add: imports_inv_def)
  have off: "import_ok x \<and> pred_option summary_ok (gi_summary x)" if "x \<in> set ?off" for x
  proof -
    have "\<exists>y \<in> set (db_imports (se_db s)). x = (if gi_current y then y\<lparr>gi_current := False\<rparr> else y)"
      using that unfolding set_upd_where image_iff .
    then obtain y where "y \<in> set (db_imports (se_db s))" "x = (if gi_current y then y\<lparr>gi_current := False\<rparr> else y)" ..
    with ok [of y] clear_mark_ok [of y] show ?thesis by simp
  qed
  have "update_imports gi_current (\<lambda>r. r\<lparr>gi_current := False\<rparr>) ?db4 = (Inr (affected gi_current (db_imports ?db4)), ?db5)"
    using update_imports_quiet [of gi_current "\<lambda>r. r\<lparr>gi_current := False\<rparr>" ?db4] off
    by (simp add: list_all_iff none_current)
  then have 5: "stmt w (update_imports gi_current (\<lambda>r. r\<lparr>gi_current := False\<rparr>)) (s\<lparr>se_db := ?db4\<rparr>) =
      (Inr (affected gi_current (db_imports ?db4)), s\<lparr>se_db := ?db5\<rparr>)" for w
    using stmt_quiet [of "s\<lparr>se_db := ?db4\<rparr>"] q by simp
  have one: "affected (import_running k) ?off = 1"
    using running_unique [OF inv r] by (simp add: affected_upd_where_keep import_running_def)
  have "length (filter gi_current (upd_where (import_running k) ?new ?off)) \<le> 1"
    using new_current [OF none_current, of ?new] one by (simp add: installed_row_def)
  moreover have "list_all import_ok (upd_where (import_running k) ?new ?off)"
    by (rule list_all_upd_where) (simp add: off installed_row_ok)
  moreover have "list_all (\<lambda>r. pred_option summary_ok (gi_summary r)) (upd_where (import_running k) ?new ?off)"
    by (rule list_all_upd_where) (use off d(2) in \<open>simp add: installed_row_def storable_def\<close>)
  ultimately have "update_imports (import_running k) ?new ?db5 = (Inr 1, ?db5\<lparr>db_imports := upd_where (import_running k) ?new ?off\<rparr>)"
    using update_imports_quiet [of "import_running k" ?new ?db5] one by simp
  then have 6: "bind_tx (stmt w (update_imports (import_running k) ?new)) (require_one_row op) (s\<lparr>se_db := ?db5\<rparr>) =
      (Inr (), s\<lparr>se_db := ?db5\<lparr>db_imports := upd_where (import_running k) ?new ?off\<rparr>\<rparr>)" for w op
    using mark_quiet [of "s\<lparr>se_db := ?db5\<rparr>"] q by simp
  show ?thesis
    unfolding install_network_def bind_quiet [of clear_network s, OF 1]
      bind_quiet [of "insert_routes k (ds_routes ds)" "s\<lparr>se_db := ?db1\<rparr>", OF 2]
      bind_quiet [of "insert_stops k (ds_stops ds)" "s\<lparr>se_db := ?db2\<rparr>", OF 3]
      bind_quiet [of "insert_route_stations (ds_route_stations ds)" "s\<lparr>se_db := ?db3\<rparr>", OF 4]
      bind_quiet [of "stmt w (update_imports gi_current (\<lambda>r. r\<lparr>gi_current := False\<rparr>))" "s\<lparr>se_db := ?db4\<rparr>" for w, OF 5] 6
    by simp
qed

lemma mark_skipped_quiet:
  assumes q: "se_faults s = []" and inv: "imports_inv (se_db s)" and r: "r \<in> set (db_imports (se_db s))" "import_running k r"
    and reason: "skip_code reason \<in> {''duplicate'', ''stale''}"
  shows "\<exists>s'. mark_gtfs_skipped now k d reason s = (Inr (), s') \<and> db_stops (se_db s') = db_stops (se_db s)"
proof -
  let ?f = "skipped_import_row now d reason" and ?db = "se_db s"
  have same: "gi_current (?f x) = gi_current x" "gi_summary (?f x) = gi_summary x" for x
    by (simp_all add: skipped_import_row_def download_columns_def)
  have ok: "import_ok x" "pred_option summary_ok (gi_summary x)" if "x \<in> set (db_imports ?db)" for x
    using inv that by (simp_all add: imports_inv_def)
  have "import_ok (?f x)" if "import_ok x" "import_running k x" for x
    using that reason by (simp add: import_ok_def attempt_ok_def import_running_def skipped_import_row_def download_columns_def)
  then have "list_all import_ok (upd_where (import_running k) ?f (db_imports ?db))"
    using ok by (intro list_all_upd_where) simp
  moreover have "length (filter gi_current (upd_where (import_running k) ?f (db_imports ?db))) \<le> 1"
  proof -
    have "length (map gi_current (filter gi_current (upd_where (import_running k) ?f (db_imports ?db)))) =
        length (filter (\<lambda>b. b) (map gi_current (upd_where (import_running k) ?f (db_imports ?db))))"
      by (simp add: filter_map comp_def)
    also have "map gi_current (upd_where (import_running k) ?f (db_imports ?db)) = map gi_current (db_imports ?db)"
      by (rule map_upd_where_keep) (rule same)
    finally show ?thesis using inv by (simp add: imports_inv_def filter_map comp_def)
  qed
  moreover have "list_all (\<lambda>r. pred_option summary_ok (gi_summary r)) (upd_where (import_running k) ?f (db_imports ?db))"
    using ok by (intro list_all_upd_where) (simp add: same)
  ultimately have "update_imports (import_running k) ?f ?db = (Inr 1, ?db\<lparr>db_imports := upd_where (import_running k) ?f (db_imports ?db)\<rparr>)"
    using update_imports_quiet running_unique [OF inv r] by metis
  from mark_quiet [OF q this] show ?thesis unfolding mark_gtfs_skipped_def by simp
qed

lemma load_current_quiet:
  assumes q: "se_faults s = []" and inv: "imports_inv (se_db s)"
  shows "load_current_import s = (Inr (current_of (se_db s)), s)"
proof (cases "find gi_current (db_imports (se_db s))")
  case None
  with q show ?thesis by (simp add: load_current_import_def current_of_def stmt_def)
next
  case (Some r)
  with find_Some_mem [OF Some] inv have "at_sha256 r \<noteq> None \<and> gi_requested r \<noteq> None \<and> at_retrieved r \<noteq> None"
    by (simp add: imports_inv_def)
  with q Some show ?thesis by (auto simp: load_current_import_def current_of_def stmt_def)
qed

lemma skip_codes: "skip_code (skip_gtfs_reason c d) \<in> {''duplicate'', ''stale''}"
  by (auto simp: skip_code_def)

lemma import_body_quiet:
  assumes inv: "imports_inv db"
  shows "import_body now k d ds \<lparr>se_db = db, se_faults = []\<rparr> =
    (let reason = skip_gtfs_reason (current_of db) d
     in if reason \<noteq> [] then bind_tx (mark_gtfs_skipped now k d reason) (\<lambda>_. ret True) \<lparr>se_db = db, se_faults = []\<rparr>
        else bind_tx (install_network now k d ds) (\<lambda>_. ret False) \<lparr>se_db = db, se_faults = []\<rparr>)"
proof -
  let ?s = "\<lparr>se_db = db, se_faults = []\<rparr>"
  have 1: "update w (\<lambda>db. db) ?s = (Inr (), ?s)" for w by (simp add: update_quiet)
  have 2: "load_current_import ?s = (Inr (current_of db), ?s)" using load_current_quiet [of ?s] inv by simp
  show ?thesis
    unfolding import_body_def bind_quiet [of "update w (\<lambda>db. db)" ?s for w, OF 1]
      bind_quiet [of load_current_import ?s, OF 2] Let_def by simp
qed

text \<open>Without faults \<open>CompleteImport\<close> skips, installs what the parser accepted, or refuses it for a
  column that is too narrow.\<close>

lemma complete_import_skips:
  assumes inv: "imports_inv db" and r: "r \<in> set (db_imports db)" "import_running k r" and fk: "deferred_ok db"
    and reason: "skip_gtfs_reason (current_of db) d \<noteq> []"
  shows "\<exists>db'. complete_import (quiet_io now) k d ds db = (Inr True, db')"
proof -
  let ?s = "\<lparr>se_db = db, se_faults = []\<rparr>" and ?reason = "skip_gtfs_reason (current_of db) d"
  obtain s' where m: "mark_gtfs_skipped now k d ?reason ?s = (Inr (), s')" "db_stops (se_db s') = db_stops db"
    using mark_skipped_quiet [OF _ _ _ r(2) skip_codes, of ?s now d "current_of db" d] inv r(1) by auto
  have "deferred_ok (se_db s')" using fk m(2) by (simp add: deferred_ok_def)
  moreover have "import_body now k d ds ?s = (Inr True, s')"
    using reason m(1) by (simp add: import_body_quiet [OF inv] Let_def bind_quiet ret_def)
  ultimately show ?thesis by (simp add: complete_import_def quiet_io_def commit_gtfs_def commit_tx_def)
qed

lemma complete_import_installs:
  assumes inv: "imports_inv db" and r: "r \<in> set (db_imports db)" "import_running k r"
    and d: "network_ok ds" "storable ds" and reason: "skip_gtfs_reason (current_of db) d = []"
  shows "\<exists>db'. complete_import (quiet_io now) k d ds db = (Inr False, db')"
proof -
  let ?s = "\<lparr>se_db = db, se_faults = []\<rparr>"
  obtain s' where i: "install_network now k d ds ?s = (Inr (), s')" "db_stops (se_db s') = map (stop_of k) (ds_stops ds)"
    using install_quiet [of ?s r k ds now d] inv r d by auto
  have "deferred_ok (se_db s')" using d(1) i(2) by (rule accepted_deferred)
  moreover have "import_body now k d ds ?s = (Inr False, s')"
    using reason i(1) by (simp add: import_body_quiet [OF inv] Let_def bind_quiet ret_def)
  ultimately show ?thesis by (simp add: complete_import_def quiet_io_def commit_gtfs_def commit_tx_def)
qed

lemma complete_import_refuses:
  assumes inv: "imports_inv db" and wide: "\<not> columns_fit ds" and reason: "skip_gtfs_reason (current_of db) d = []"
  shows "\<exists>e. complete_import (quiet_io now) k d ds db = (Inl e, db)"
proof -
  let ?s = "\<lparr>se_db = db, se_faults = []\<rparr>"
  obtain x s' where b: "import_body now k d ds ?s = (x, s')" by fastforce
  have rb: "rollback db (se_db s') = db" using obeysD [OF import_body_same b] by (simp add: rollback_same_alerts)
  have "x \<noteq> Inr False" using import_body_fit b wide by blast
  moreover have "x \<noteq> Inr True"
  proof
    assume "x = Inr True"
    then show False using import_body_True [OF b [unfolded \<open>x = Inr True\<close>]] reason by simp
  qed
  ultimately obtain e where "x = Inl e" by (cases x) auto
  with b rb show ?thesis by (simp add: complete_import_def quiet_io_def)
qed

lemma complete_import_quiet:
  assumes inv: "imports_inv db" and r: "r \<in> set (db_imports db)" "import_running k r"
    and d: "network_ok ds" "storable ds" and fk: "deferred_ok db"
  shows "\<exists>db'. complete_import (quiet_io now) k d ds db = (Inr (skip_gtfs_reason (current_of db) d \<noteq> []), db')"
  using complete_import_skips [OF inv r fk] complete_import_installs [OF inv r d]
  by (cases "skip_gtfs_reason (current_of db) d = []") simp_all

end
