(* ===== verification/NetworkProperties.thy ===== *)
theory NetworkProperties
  imports GtfsOutcome GtfsProperties Samples
begin

text \<open>
  The promises of \<open>GTFSRepository\<close>, each with a concrete application: the network of the sample
  archive is installed, and a second import is ready to be completed.
\<close>

section \<open>Sample imports\<close>

definition import_started :: "db \<Rightarrow> db" where
  "import_started db =
     (let k = sq_import (db_seq db)
      in snd (record_gtfs_archive (quiet_io 2000) k sample_object (snd (start_import (quiet_io 1000) ''gtfs'' db))))"

definition sample_download :: "string \<Rightarrow> instant \<Rightarrow> download" where
  "sample_download hash at = \<lparr>dl_path = ''z'', dl_source_url = ''gtfs'', dl_requested = at, dl_retrieved = at,
     dl_content_type = [], dl_etag = [], dl_last_modified = [], dl_modified = Some at, dl_sha256 = hash, dl_size = 3\<rparr>"

definition network_ready :: db where "network_ready = import_started empty_db"

definition network_installed :: db where
  "network_installed = snd (complete_import (quiet_io 9000) 1 (sample_download ''h1'' 10000) sample_dataset network_ready)"

definition network_second :: db where "network_second = import_started network_installed"

lemma import_started_steps: "(gtfs_step env)\<^sup>*\<^sup>* db (import_started db)"
proof -
  define mid where "mid = snd (start_import (quiet_io 1000) ''gtfs'' db)"
  have "gtfs_step env db mid"
    by (rule gtfs_step.start [where r = "fst (start_import (quiet_io 1000) ''gtfs'' db)"]) (simp add: mid_def)
  moreover have "gtfs_step env mid (import_started db)"
    by (rule gtfs_step.record_raw [where r = "fst (record_gtfs_archive (quiet_io 2000) (sq_import (db_seq db)) sample_object mid)"])
      (simp add: import_started_def Let_def mid_def)
  ultimately show ?thesis by (blast intro: converse_rtranclp_into_rtranclp)
qed

lemma network_ready_reachable: "(gtfs_step env)\<^sup>*\<^sup>* empty_db network_ready"
  unfolding network_ready_def by (rule import_started_steps)

lemma network_installed_step: "gtfs_step env network_ready network_installed"
  by (rule gtfs_step.complete [where b = "fst (complete_import (quiet_io 9000) 1 (sample_download ''h1'' 10000)
      sample_dataset network_ready)"]) (simp add: network_installed_def)

lemma network_second_reachable: "(gtfs_step env)\<^sup>*\<^sup>* empty_db network_second"
  using network_ready_reachable network_installed_step import_started_steps [of env network_installed]
  unfolding network_second_def by (meson rtranclp.rtrancl_into_rtrancl rtranclp_trans)

lemma network_invs: "gtfs_inv network_ready" "gtfs_inv network_second"
  using gtfs_steps_inv [OF network_ready_reachable gtfs_inv_empty]
    gtfs_steps_inv [OF network_second_reachable gtfs_inv_empty] by simp_all

definition sample_import :: "row_id \<Rightarrow> import_row" where
  "sample_import k = \<lparr>at_id = k, at_status = Running, at_source_url = ''gtfs'', at_started = 1000,
     at_completed = None, at_retrieved = None, at_content_type = None, at_sha256 = None, at_error = None,
     at_skip_reason = None, at_skip_code = None, at_archive = Archived, at_archive_id = Some 1,
     at_archive_created = Some True, at_archive_error = None, at_failure_stage = None, at_failure_code = None,
     at_public_error = None, gi_requested = None, gi_modified = None, gi_archive_bytes = None, gi_etag = None,
     gi_last_modified = None, gi_summary = None, gi_current = False\<rparr>"

lemma network_ready_eq: "network_ready = empty_db\<lparr>db_imports := [sample_import 1], db_archives := [sample_archive],
    db_seq := \<lparr>sq_run = 1, sq_import = 2, sq_archive = 2, sq_snapshot = 1, sq_alert = 1, sq_revision = 1\<rparr>\<rparr>"
  unfolding network_ready_def import_started_def
  by (simp add: empty_db_def start_import_def insert_import_def record_gtfs_archive_def record_archive_def
      sample_hash_ok sample_key_ok archive_body_def imports_table_def upsert_archive_def link_archive_def check_link_def
      link_row_def commit_archive_def attempt_ok_def version_string_def nullable_string_def zero_time_def
      sample_import_def sample_archive_def sample_eval tx_eval)

lemma runes_nil: "runes [] = []"
  by code_simp

lemma sample_storable: "storable sample_dataset"
  by (simp add: storable_def columns_fit_def sample_dataset_def sample_stops_def sample_stop_def int4_def fits_char_def trim_blanks_def
      rune_count_def summary_ok_def runes_nil)

section \<open>Completing an import\<close>

lemma upd_where_id:
  assumes "distinct (map at_id rs)" and "x \<in> set rs" "import_running k x" "\<not> gi_current x"
    and g: "\<And>r. import_running k (g r) = import_running k r"
  shows "upd_where (import_running k) f (upd_where gi_current g rs) =
    map (\<lambda>r. if at_id r = k then f r else if gi_current r then g r else r) rs"
proof -
  have "import_running k r \<longleftrightarrow> r = x" "at_id r = k \<longleftrightarrow> r = x" if "r \<in> set rs" for r
    using that assms by (auto simp: import_running_def distinct_map inj_on_def)
  then show ?thesis using assms(4) unfolding upd_where_def by (auto simp: comp_def g)
qed

text \<open>C6: when \<open>CompleteImport\<close> returns that the network was not skipped, the database is the old one
  with four tables written: the routes, stops and relations of the dataset, each row with the
  import's id, and the imports, where only the row of this import has new columns and only the
  mark of the current import is taken from the others. The import was running with its archive
  stored; it is now the one current import. All foreign keys hold, and no other table or
  sequence of the database differs.\<close>

theorem import_replaces_the_network:
  assumes "complete_import io k d ds db = (Inr False, db')" and "gtfs_inv db"
  shows "db' = db\<lparr>
      db_routes := map (\<lambda>r. \<lparr>rd_import = k, rd_route = route_columns r\<rparr>) (ds_routes ds),
      db_stops := map (\<lambda>x. \<lparr>sd_import = k, sd_stop = x\<rparr>) (ds_stops ds),
      db_route_stations := ds_route_stations ds,
      db_imports := map (\<lambda>r.
        if at_id r = k
        then r\<lparr>at_status := Succeeded, at_completed := Some (io_now io),
          at_retrieved := Some (pg_time (dl_retrieved d)), at_content_type := nullable_string (dl_content_type d),
          at_sha256 := Some (dl_sha256 d), at_error := None, at_skip_reason := None, at_skip_code := None,
          at_failure_stage := None, at_failure_code := None, at_public_error := None,
          gi_requested := Some (pg_time (dl_requested d)), gi_modified := map_option pg_time (dl_modified d),
          gi_archive_bytes := Some (dl_size d), gi_etag := nullable_string (dl_etag d),
          gi_last_modified := nullable_string (dl_last_modified d),
          gi_summary := Some (ds_summary ds), gi_current := True\<rparr>
        else r\<lparr>gi_current := False\<rparr>) (db_imports db)\<rparr> \<and>
    (\<exists>r \<in> set (db_imports db). at_id r = k \<and> at_status r = Running \<and> at_archive r = Archived) \<and>
    (\<exists>r. filter gi_current (db_imports db') = [r] \<and> at_id r = k \<and> at_status r = Succeeded \<and>
       gi_summary r = Some (ds_summary ds)) \<and>
    network_inv db' \<and> same_alerts db db'" (is "db' = ?db' \<and> _")
proof -
  have I: "imports_inv db" using assms(2) by (simp add: gtfs_inv_def)
  from complete_import_result [OF assms(1) I] have com: "committed_import io k d ds db False db'" by auto
  then obtain s where body: "import_body (io_now io) k d ds \<lparr>se_db = db, se_faults = io_faults io\<rparr> = (Inr False, s)"
    and db': "db' = se_db s" by (auto simp: committed_import_def)
  have ins: "installed (io_now io) k d ds db db'"
    using import_body_False(1) [OF body] by (simp add: db')
  have same: "same_alerts db db'" using obeysD [OF import_body_same body] by (simp add: db')
  have inv': "gtfs_inv db'" using committed_import_inv [OF com assms(2)] ..
  obtain x where x: "x \<in> set (db_imports db)" "import_running k x" using installed_imports(3) [OF ins I] by blast
  then have nc: "\<not> gi_current x" using I by (auto simp: imports_inv_def import_ok_def import_running_def)
  have dist: "distinct (map at_id (db_imports db))" using I by (simp add: imports_inv_def)
  have off: "(if gi_current r then r\<lparr>gi_current := False\<rparr> else r) = r\<lparr>gi_current := False\<rparr>" for r :: import_row by simp
  have keep: "import_running k (r\<lparr>gi_current := False\<rparr>) = import_running k r" for r by (simp add: import_running_def)
  have "db' = db\<lparr>db_routes := map (route_of k) (ds_routes ds), db_stops := map (stop_of k) (ds_stops ds),
      db_route_stations := ds_route_stations ds, db_imports := map (\<lambda>r. if at_id r = k
        then installed_row (io_now io) d (ds_summary ds) r else r\<lparr>gi_current := False\<rparr>) (db_imports db)\<rparr>"
    using ins by (simp only: installed_def upd_where_id [OF dist x nc keep] off)
  also have "\<dots> = ?db'"
    by (simp add: installed_row_def download_columns_def route_of_def [abs_def] stop_of_def [abs_def])
  finally have "db' = ?db'" .
  moreover obtain r where r: "r \<in> set (db_imports db')" "at_id r = k" "gi_current r" "at_status r = Succeeded"
    "gi_summary r = Some (ds_summary ds)"
    using installed_imports(2) [OF ins I] by blast
  have one: "length (filter gi_current (db_imports db')) \<le> 1"
    using inv' by (simp_all add: gtfs_inv_def imports_inv_def)
  have "r \<in> set (filter gi_current (db_imports db'))" using r by simp
  with one have "filter gi_current (db_imports db') = [r]" by (cases "filter gi_current (db_imports db')") auto
  ultimately show ?thesis
    using inv' same r x by (auto simp: gtfs_inv_def import_running_def)
qed

lemma sample_network_ok: "network_ok sample_dataset"
  using parse_archive_Inr [OF sample_parse] parse_metro_network(1) [OF sample_fair] by blast

lemma first_import: "complete_import (quiet_io 9000) 1 (sample_download ''h1'' 10000) sample_dataset network_ready =
    (Inr False, network_installed)"
proof -
  have run: "sample_import 1 \<in> set (db_imports network_ready)" "import_running 1 (sample_import 1)"
    by (simp_all add: network_ready_eq sample_import_def import_running_def)
  have "imports_inv network_ready" "deferred_ok network_ready"
    using network_invs(1) by (simp_all add: gtfs_inv_def network_inv_def)
  from complete_import_quiet [OF this(1) run sample_network_ok sample_storable this(2), of 9000 "sample_download ''h1'' 10000"]
  have "fst (complete_import (quiet_io 9000) 1 (sample_download ''h1'' 10000) sample_dataset network_ready) = Inr False"
    by (auto simp: current_of_def network_ready_eq sample_import_def skip_gtfs_reason_def empty_db_def)
  then show ?thesis unfolding network_installed_def by (metis prod.collapse)
qed

theorem import_replaces_the_network_witness:
  "map sd_stop (db_stops network_installed) = ds_stops sample_dataset \<and>
   length (filter gi_current (db_imports network_installed)) = 1"
proof -
  note R = import_replaces_the_network [OF first_import network_invs(1)]
  have "map sd_stop (db_stops network_installed) = ds_stops sample_dataset"
    using arg_cong [OF R [THEN conjunct1], of db_stops] by (simp add: comp_def)
  moreover obtain r where "filter gi_current (db_imports network_installed) = [r]"
    using R [THEN conjunct2, THEN conjunct2, THEN conjunct1] by blast
  ultimately show ?thesis by simp
qed

text \<open>When \<open>CompleteImport\<close> or \<open>SkipIfImported\<close> returns an error nothing has changed, not even a
  sequence, unless the error says that the outcome of the commit is unknown.\<close>

theorem failed_import_changes_nothing:
  assumes "imports_inv db"
    and "complete_import io k d ds db = (Inl e, db') \<or> skip_if_imported io k d db = (Inl e, db')"
  shows "db' = db \<or> (\<exists>c st. e = CommitOutcomeError c st)"
  using assms(2)
proof
  assume "complete_import io k d ds db = (Inl e, db')"
  from complete_import_result [OF this assms(1)] show ?thesis by auto
next
  assume "skip_if_imported io k d db = (Inl e, db')"
  from skip_if_imported_result [OF this assms(1)] show ?thesis by auto
qed

text \<open>The first statement, the lock, fails.\<close>

theorem failed_import_changes_nothing_witness:
  "snd (complete_import ((quiet_io 9000)\<lparr>io_faults := [Some err_no_rows]\<rparr>) 1 (sample_download ''h1'' 10000)
     sample_dataset network_ready) = network_ready"
proof -
  let ?io = "(quiet_io 9000)\<lparr>io_faults := [Some err_no_rows]\<rparr>" and ?e = "Wrapf ''lock GTFS import: %w'' [] err_no_rows"
  obtain db' where run: "complete_import ?io 1 (sample_download ''h1'' 10000) sample_dataset network_ready = (Inl ?e, db')"
    by (simp add: complete_import_def import_body_def bind_tx_def update_def stmt_def quiet_io_def Let_def)
  have "imports_inv network_ready" using network_invs(1) by (simp add: gtfs_inv_def)
  from failed_import_changes_nothing [OF this disjI1 [OF run]] run show ?thesis by simp
qed

section \<open>Skipping\<close>

text \<open>C26: the installed network never goes back: an archive that replaces the current one has
  another content hash and a modification time that is not older; with equal or unknown times
  it was not requested earlier.\<close>

theorem network_never_goes_back:
  assumes "complete_import io k d ds db = (Inr False, db')" and "imports_inv db" and "current_of db = Some c"
  shows "ci_sha256 c \<noteq> dl_sha256 d \<and>
    (case (ci_modified c, dl_modified d) of
       (Some m, Some m') \<Rightarrow> m < m' \<or> m = m' \<and> ci_requested c \<le> dl_requested d
     | _ \<Rightarrow> ci_requested c \<le> dl_requested d)"
proof -
  from complete_import_result [OF assms(1,2)] obtain s where
    body: "import_body (io_now io) k d ds \<lparr>se_db = db, se_faults = io_faults io\<rparr> = (Inr False, s)"
    by (auto simp: committed_import_def)
  have "skip_gtfs_reason (Some c) d = []" using import_body_False(2) [OF body] assms(3) by simp
  then show ?thesis
    by (auto simp: skip_gtfs_reason_def Let_def not_less split: option.splits if_splits)
qed

text \<open>The second import, after the first was installed.\<close>

definition sample_installed :: import_row where
  "sample_installed = installed_row 9000 (sample_download ''h1'' 10000) (ds_summary sample_dataset) (sample_import 1)"

lemma network_installed_eq: "network_installed = network_ready\<lparr>db_imports := [sample_installed],
    db_routes := map (route_of 1) (ds_routes sample_dataset), db_stops := map (stop_of 1) (ds_stops sample_dataset),
    db_route_stations := ds_route_stations sample_dataset\<rparr>"
proof -
  have I: "imports_inv network_ready" using network_invs(1) by (simp add: gtfs_inv_def)
  from complete_import_result [OF first_import I] obtain s where
    body: "import_body 9000 1 (sample_download ''h1'' 10000) sample_dataset
      \<lparr>se_db = network_ready, se_faults = io_faults (quiet_io 9000)\<rparr> = (Inr False, s)" and "network_installed = se_db s"
    by (auto simp: committed_import_def quiet_io_def)
  then have "installed 9000 1 (sample_download ''h1'' 10000) sample_dataset network_ready network_installed"
    using import_body_False(1) [OF body] by simp
  then have "network_installed = network_ready\<lparr>db_routes := map (route_of 1) (ds_routes sample_dataset),
      db_stops := map (stop_of 1) (ds_stops sample_dataset), db_route_stations := ds_route_stations sample_dataset,
      db_imports := upd_where (import_running 1) (installed_row 9000 (sample_download ''h1'' 10000) (ds_summary sample_dataset))
        (upd_where gi_current (\<lambda>r. r\<lparr>gi_current := False\<rparr>) (db_imports network_ready))\<rparr>"
    by (simp add: installed_def)
  then show ?thesis
    by (simp add: network_ready_eq empty_db_def upd_where_def sample_import_def import_running_def sample_installed_def)
qed

lemma network_second_imports: "db_imports network_second = [sample_installed, sample_import 2]"
  unfolding network_second_def import_started_def
  by (simp add: network_installed_eq network_ready_eq empty_db_def start_import_def insert_import_def record_gtfs_archive_def
      record_archive_def sample_hash_ok sample_key_ok archive_body_def imports_table_def upsert_archive_def
      link_archive_def check_link_def link_row_def commit_archive_def attempt_ok_def version_string_def
      nullable_string_def zero_time_def sample_installed_def installed_row_def download_columns_def sample_import_def
      sample_archive_def sample_eval tx_eval)

lemma run_second: "sample_import 2 \<in> set (db_imports network_second)" "import_running 2 (sample_import 2)"
  "\<exists>c. current_of network_second = Some c \<and> ci_modified c = Some 10000 \<and> ci_requested c = 10000 \<and> ci_sha256 c = ''h1''"
  by (simp_all add: network_second_imports import_running_def sample_import_def current_of_def sample_installed_def
      installed_row_def download_columns_def sample_download_def pg_time_def)

lemma second_import: "\<exists>db'. complete_import (quiet_io 9000) 2 (sample_download ''h2'' 20000) sample_dataset network_second = (Inr False, db')"
proof -
  have "imports_inv network_second" "deferred_ok network_second"
    using network_invs(2) by (simp_all add: gtfs_inv_def network_inv_def)
  from complete_import_quiet [OF this(1) run_second(1,2) sample_network_ok sample_storable this(2), of 9000 "sample_download ''h2'' 20000"]
  show ?thesis using run_second(3) by (auto simp: sample_download_def skip_gtfs_reason_def)
qed

theorem network_never_goes_back_witness:
  "\<exists>c. current_of network_second = Some c \<and> ci_sha256 c \<noteq> ''h2''"
proof -
  obtain db' where run: "complete_import (quiet_io 9000) 2 (sample_download ''h2'' 20000) sample_dataset network_second = (Inr False, db')"
    using second_import by blast
  have inv: "imports_inv network_second" using network_invs(2) by (simp add: gtfs_inv_def)
  obtain c where c: "current_of network_second = Some c" using run_second(3) by blast
  from network_never_goes_back [OF run inv c] c show ?thesis by (simp add: sample_download_def)
qed

text \<open>An import that is skipped changes only its row, which records the reason and the download;
  the reason is one the current import gives.\<close>

theorem skipped_import_changes_only_its_row:
  assumes "complete_import io k d ds db = (Inr True, db') \<or> skip_if_imported io k d db = (Inr True, db')"
    and "imports_inv db"
  shows "\<exists>c. current_of db = Some c \<and> skip_gtfs_reason (Some c) d \<noteq> [] \<and>
    db' = db\<lparr>db_imports := upd_where (import_running k)
      (skipped_import_row (io_now io) d (skip_gtfs_reason (Some c) d)) (db_imports db)\<rparr>"
proof -
  let ?s = "\<lparr>se_db = db, se_faults = io_faults io\<rparr>"
  obtain reason s where reason: "reason = skip_gtfs_reason (current_of db) d" "reason \<noteq> []"
    and m: "update_imports (import_running k) (skipped_import_row (io_now io) d reason) (se_db ?s) = (Inr 1, se_db s)"
    and db': "db' = se_db s"
    using assms(1)
  proof
    assume "complete_import io k d ds db = (Inr True, db')"
    from complete_import_result [OF this assms(2)] obtain s where
      "import_body (io_now io) k d ds ?s = (Inr True, s)" "db' = se_db s" by (auto simp: committed_import_def)
    with import_body_True show thesis using that by (metis session.select_convs(1))
  next
    assume "skip_if_imported io k d db = (Inr True, db')"
    from skip_if_imported_result [OF this assms(2)] obtain s where
      "skip_body (io_now io) k d ?s = (Inr True, s)" "db' = se_db s" by auto
    with skip_body_True show thesis using that by (metis session.select_convs(1))
  qed
  obtain c where "current_of db = Some c" using reason by (cases "current_of db") (auto simp: skip_gtfs_reason_def)
  with skip_marked(1) [OF m] reason db' show ?thesis by simp
qed

theorem skipped_import_changes_only_its_row_witness:
  "\<exists>db'. complete_import (quiet_io 9000) 2 (sample_download ''h1'' 20000) sample_dataset network_second = (Inr True, db') \<and>
     db_routes db' = db_routes network_second"
proof -
  have I: "imports_inv network_second" "deferred_ok network_second"
    using network_invs(2) by (simp_all add: gtfs_inv_def network_inv_def)
  from complete_import_quiet [OF I(1) run_second(1,2) sample_network_ok sample_storable I(2), of 9000 "sample_download ''h1'' 20000"]
  obtain db' where run: "complete_import (quiet_io 9000) 2 (sample_download ''h1'' 20000) sample_dataset network_second = (Inr True, db')"
    using run_second(3) by (auto simp: sample_download_def skip_gtfs_reason_def Let_def)
  from skipped_import_changes_only_its_row [OF disjI1 [OF run] I(1)] run show ?thesis by auto
qed

section \<open>Acceptance\<close>




section \<open>All histories\<close>

text \<open>C7: every state the GTFS repository can reach, whatever its statements and commits returned,
  has one current import at most, which succeeded and is complete; every row of the network
  belongs to it, and every key, foreign key and CHECK constraint of the network holds.\<close>

theorem reachable_networks_are_consistent:
  assumes "(gtfs_step env)\<^sup>*\<^sup>* empty_db db"
  shows "gtfs_inv db"
  using gtfs_steps_inv [OF assms gtfs_inv_empty] by simp

theorem reachable_networks_are_consistent_witness: "gtfs_inv network_second"
  by (rule reachable_networks_are_consistent [OF network_second_reachable])

text \<open>Between two reachable states an import that ended stays as it is but for the mark of the
  current one, an archive link stays and archives stay.\<close>

theorem imports_are_kept:
  assumes "(gtfs_step env)\<^sup>*\<^sup>* empty_db db" and "(gtfs_step env)\<^sup>*\<^sup>* db db'"
  shows "imports_advance db db'"
  using gtfs_steps_inv [OF assms(2)] gtfs_steps_inv [OF assms(1) gtfs_inv_empty] by simp

theorem imports_are_kept_witness: "imports_advance network_ready network_installed"
  by (rule imports_are_kept [OF network_ready_reachable]) (rule r_into_rtranclp, rule network_installed_step)

section \<open>Coverage\<close>

text \<open>The coverage is a partition: of the routes and the stops the open alerts name, those the
  network knows are counted, and the others are listed, in order and once each.\<close>

theorem coverage_partitions_the_feed:
  assumes "coverage_of faults db = Inr c"
  shows "cv_matched_routes c + length (cv_unmatched_routes c) = cv_realtime_routes c \<and>
    cv_matched_stops c + length (cv_unmatched_stops c) = cv_realtime_stops c \<and>
    sorted_wrt (<) (cv_unmatched_routes c) \<and> sorted_wrt (<) (cv_unmatched_stops c) \<and>
    set (cv_unmatched_routes c) = set (realtime_routes db) - (\<lambda>x. rt_id (rd_route x)) ` set (db_routes db) \<and>
    set (cv_unmatched_stops c) = set (realtime_stops db) - (\<lambda>y. st_id (sd_stop y)) ` set (db_stops db)"
proof -
  let ?r = "\<lambda>k. k \<in> (\<lambda>x. rt_id (rd_route x)) ` set (db_routes db)"
  let ?s = "\<lambda>k. k \<in> (\<lambda>y. st_id (sd_stop y)) ` set (db_stops db)"
  have c: "cv_realtime_routes c = length (realtime_routes db)" "cv_matched_routes c = length (filter ?r (realtime_routes db))"
    "cv_unmatched_routes c = filter (\<lambda>k. \<not> ?r k) (realtime_routes db)"
    "cv_realtime_stops c = length (realtime_stops db)" "cv_matched_stops c = length (filter ?s (realtime_stops db))"
    "cv_unmatched_stops c = filter (\<lambda>k. \<not> ?s k) (realtime_stops db)"
    using assms by (auto simp: coverage_of_def Let_def bind_tx_def ret_def split: prod.splits sum.splits dest!: query_Inr)
  have sorted: "sorted_wrt (<) (filter P (distinct_sorted xs))" for P and xs :: "string list"
    by (rule sorted_wrt_filter) (simp add: distinct_sorted_def strict_sorted_iff)
  show ?thesis
    using sorted by (auto simp: c sum_length_filter_compl realtime_routes_def realtime_stops_def)
qed

text \<open>An alert that names a route of the network and one it does not know.\<close>

definition sample_entity :: "string \<Rightarrow> entity_row" where
  "sample_entity route = \<lparr>er_owner = 1, er_position = 0, er_agency = None, er_route = Some route, er_route_type = None,
     er_stop = None, er_direction = None, er_trip = None, er_trip_route = None, er_trip_start_time = None,
     er_trip_start_date = None, er_trip_direction = None, er_trip_schedule = None\<rparr>"

definition coverage_db :: db where
  "coverage_db = network_installed\<lparr>db_alerts := [sample_alert_row],
     db_revision_entities := [sample_entity ''r9'', sample_entity ''r1'']\<rparr>"

theorem coverage_partitions_the_feed_witness:
  "\<exists>c. coverage_of [] coverage_db = Inr c \<and> set (cv_unmatched_routes c) = {''r9''} \<and> cv_unmatched_stops c = []"
proof -
  obtain c where c: "coverage_of [] coverage_db = Inr c"
    by (simp add: coverage_of_def Let_def bind_tx_def ret_def query_def stmt_def)
  from coverage_partitions_the_feed [OF c] c show ?thesis
    by (simp add: coverage_db_def realtime_routes_def realtime_stops_def distinct_sorted_def current_entities_def
        sample_alert_row_def sample_entity_def network_installed_eq sample_dataset_def List.map_filter_simps)
qed

end
