(* ===== verification/Ingest.thy ===== *)
theory Ingest
  imports GtfsRepo Files
begin

text \<open>
  \<open>internal/ingest\<close>: one pass over the realtime feed (\<open>AlertService.Run\<close>) and one over the
  static archive (\<open>GTFSService.Run\<close>). The stores, the fetchers, the object store, the decoder
  and the parser are the interfaces the Go structs hold: records of functions over the state of
  the store ('w), of the object store ('o) and of the files.
\<close>

section \<open>Failures\<close>

text \<open>\<open>errors.As\<close> for an error whose commit outcome is unknown.\<close>

fun commit_unknown_as :: "go_error \<Rightarrow> bool" where
  "commit_unknown_as (CommitOutcomeError c s) = True"
| "commit_unknown_as (Wrapf f as e) = commit_unknown_as e"
| "commit_unknown_as (Joined es) = (\<exists>e \<in> set es. commit_unknown_as e)"
| "commit_unknown_as (FailureError st c m (Some e)) = commit_unknown_as e"
| "commit_unknown_as _ = False"

definition ingest_failure :: "string \<Rightarrow> string \<Rightarrow> string \<Rightarrow> go_error \<Rightarrow> failure" where
  "ingest_failure stage code public e = \<lparr>fl_stage = stage, fl_code = code, fl_public = public, fl_err = Some e\<rparr>"

text \<open>A \<open>Failure\<close> as the \<open>error\<close> value that is returned.\<close>

definition failure_error :: "failure \<Rightarrow> go_error" where
  "failure_error f = FailureError (fl_stage f) (fl_code f) (fl_public f) (fl_err f)"

section \<open>Realtime alerts\<close>

record 'w alert_store =
  as_start :: "string \<Rightarrow> 'w \<Rightarrow> row_id result \<times> 'w"
  as_record :: "row_id \<Rightarrow> storage_object \<Rightarrow> 'w \<Rightarrow> unit result \<times> 'w"
  as_fail :: "row_id \<Rightarrow> fetch_result option \<Rightarrow> feed_summary option \<Rightarrow> failure \<Rightarrow> 'w \<Rightarrow> unit result \<times> 'w"
  as_complete :: "row_id \<Rightarrow> fetch_result \<Rightarrow> feed_summary \<Rightarrow> 'w \<Rightarrow> bool result \<times> 'w"

record alert_result =
  ar_run :: row_id
  ar_fetch :: "fetch_result option"
  ar_summary :: "feed_summary option"
  ar_archive :: "storage_object option"
  ar_skipped :: bool

record ('w, 'o) alert_service =
  av_source_url :: string
  av_fetch :: "fetch_result result"
  av_store :: "'w alert_store"
  av_put :: "put_request \<Rightarrow> 'o \<Rightarrow> storage_object result \<times> 'o"
  av_decode :: "string \<Rightarrow> feed_summary result"
  av_sha256 :: "string \<Rightarrow> string"

definition bytes_source :: "string \<Rightarrow> storage_source" where
  "bytes_source data = \<lparr>so_size = length data, so_open = Inr data\<rparr>"

definition alert_fail ::
    "('w, 'o) alert_service \<Rightarrow> row_id \<Rightarrow> fetch_result option \<Rightarrow> feed_summary option \<Rightarrow> failure \<Rightarrow> 'w \<Rightarrow> go_error \<times> 'w" where
  "alert_fail svc run_id fetch summary f w =
     (case as_fail (av_store svc) run_id fetch summary f w of
        (Inl e, w') \<Rightarrow> (Joined [failure_error f, Wrapf ''record ingestion failure: %w'' [] e], w')
      | (Inr _, w') \<Rightarrow> (failure_error f, w'))"

definition alert_outcome ::
    "('w, 'o) alert_service \<Rightarrow> alert_result \<Rightarrow> fetch_result option \<Rightarrow> feed_summary option \<Rightarrow> failure \<Rightarrow> 'w \<Rightarrow> 'o \<Rightarrow>
     alert_result \<times> go_error option \<times> 'w \<times> 'o" where
  "alert_outcome svc result fetch summary f w obj =
     (case alert_fail svc (ar_run result) fetch summary f w of (e, w') \<Rightarrow> (result, Some e, w', obj))"

text \<open>From the recorded archive on.\<close>

definition alert_decode_and_complete ::
    "('w, 'o) alert_service \<Rightarrow> alert_result \<Rightarrow> fetch_result \<Rightarrow> 'w \<Rightarrow> 'o \<Rightarrow> alert_result \<times> go_error option \<times> 'w \<times> 'o" where
  "alert_decode_and_complete svc result fetch w obj =
     (case av_decode svc (fr_body fetch) of
        Inl e \<Rightarrow> alert_outcome svc result (Some fetch) None
          (ingest_failure ''decode'' ''decode_failed'' ''Service-alert decode failed'' e) w obj
      | Inr summary \<Rightarrow>
          let result = result\<lparr>ar_summary := Some summary\<rparr>
          in (case as_complete (av_store svc) (ar_run result) fetch summary w of
                (Inl e, w') \<Rightarrow>
                  if commit_unknown_as e then (result, Some e, w', obj)
                  else alert_outcome svc result (Some fetch) (Some summary)
                    (ingest_failure ''persist'' ''persist_failed'' ''Service-alert persistence failed'' e) w' obj
              | (Inr skipped, w') \<Rightarrow> (result\<lparr>ar_skipped := skipped\<rparr>, None, w', obj)))"

definition alert_run ::
    "('w, 'o) alert_service \<Rightarrow> 'w \<Rightarrow> 'o \<Rightarrow> alert_result \<times> go_error option \<times> 'w \<times> 'o" where
  "alert_run svc w obj =
     (let none = \<lparr>ar_run = 0, ar_fetch = None, ar_summary = None, ar_archive = None, ar_skipped = False\<rparr>;
          archive_failure = ingest_failure ''archive'' ''archive_failed'' ''Service-alert archive failed''
      in case as_start (av_store svc) (av_source_url svc) w of
           (Inl e, w1) \<Rightarrow> (none, Some e, w1, obj)
         | (Inr run_id, w1) \<Rightarrow>
             let result = none\<lparr>ar_run := run_id\<rparr>
             in (case av_fetch svc of
                   Inl e \<Rightarrow> alert_outcome svc result None None
                     (ingest_failure ''fetch'' ''fetch_failed'' ''Service-alert fetch failed'' e) w1 obj
                 | Inr fetch \<Rightarrow>
                     let result = result\<lparr>ar_fetch := Some fetch\<rparr>; hash = av_sha256 svc (fr_body fetch)
                     in (case service_alerts_key (fr_retrieved fetch) hash of
                           Inl e \<Rightarrow> alert_outcome svc result (Some fetch) None (archive_failure e) w1 obj
                         | Inr key \<Rightarrow>
                             (case av_put svc \<lparr>pq_key = key, pq_source = Some (bytes_source (fr_body fetch)),
                                 pq_size = int (length (fr_body fetch)), pq_sha256 = hash,
                                 pq_content_type = fr_content_type fetch\<rparr> obj of
                                (Inl e, obj') \<Rightarrow> alert_outcome svc result (Some fetch) None (archive_failure e) w1 obj'
                              | (Inr archive, obj') \<Rightarrow>
                                  let result = result\<lparr>ar_archive := Some archive\<rparr>
                                  in (case as_record (av_store svc) run_id archive w1 of
                                        (Inl e, w2) \<Rightarrow>
                                          if commit_unknown_as e then (result, Some e, w2, obj')
                                          else alert_outcome svc result (Some fetch) None (archive_failure e) w2 obj'
                                      | (Inr _, w2) \<Rightarrow> alert_decode_and_complete svc result fetch w2 obj')))))"

section \<open>The static archive\<close>

record 'w gtfs_store =
  gs_start :: "string \<Rightarrow> 'w \<Rightarrow> row_id result \<times> 'w"
  gs_record :: "row_id \<Rightarrow> storage_object \<Rightarrow> 'w \<Rightarrow> unit result \<times> 'w"
  gs_skip :: "row_id \<Rightarrow> download \<Rightarrow> 'w \<Rightarrow> bool result \<times> 'w"
  gs_complete :: "row_id \<Rightarrow> download \<Rightarrow> dataset \<Rightarrow> 'w \<Rightarrow> bool result \<times> 'w"
  gs_fail :: "row_id \<Rightarrow> download option \<Rightarrow> failure \<Rightarrow> 'w \<Rightarrow> unit result \<times> 'w"

record gtfs_result =
  gr_import :: row_id
  gr_download :: "download option"
  gr_dataset :: "dataset option"
  gr_archive :: "storage_object option"
  gr_skipped :: bool
  gr_cleanup :: "go_error option"

text \<open>\<open>gv_stat\<close> and \<open>gv_remove\<close> are the errors of \<open>os.Stat\<close> and of \<open>os.Remove\<close> at the end.\<close>

record ('w, 'o) gtfs_service =
  gv_source_url :: string
  gv_fetch :: "files \<Rightarrow> download result \<times> files"
  gv_store :: "'w gtfs_store"
  gv_put :: "put_request \<Rightarrow> 'o \<Rightarrow> storage_object result \<times> 'o"
  gv_parse :: "string \<Rightarrow> files \<Rightarrow> dataset result \<times> files"
  gv_stat :: "go_error option"
  gv_remove :: "go_error option"

definition file_source :: "go_error option \<Rightarrow> string \<Rightarrow> files \<Rightarrow> storage_source result" where
  "file_source stat path fs =
     (case (stat, fs path) of
        (Some e, _) \<Rightarrow> Inl e
      | (None, None) \<Rightarrow> Inl (Errorf ''file does not exist'' [])
      | (None, Some content) \<Rightarrow> Inr \<lparr>so_size = length content, so_open = Inr content\<rparr>)"

definition gtfs_fail ::
    "('w, 'o) gtfs_service \<Rightarrow> row_id \<Rightarrow> download option \<Rightarrow> failure \<Rightarrow> 'w \<Rightarrow> go_error \<times> 'w" where
  "gtfs_fail svc import_id d f w =
     (case gs_fail (gv_store svc) import_id d f w of
        (Inl e, w') \<Rightarrow> (Joined [failure_error f, Wrapf ''record GTFS import failure: %w'' [] e], w')
      | (Inr _, w') \<Rightarrow> (failure_error f, w'))"

type_synonym ('w, 'o) gtfs_return = "gtfs_result \<times> go_error option \<times> 'w \<times> 'o \<times> files"

definition gtfs_outcome ::
    "('w, 'o) gtfs_service \<Rightarrow> gtfs_result \<Rightarrow> download option \<Rightarrow> failure \<Rightarrow> 'w \<Rightarrow> 'o \<Rightarrow> files \<Rightarrow> ('w, 'o) gtfs_return" where
  "gtfs_outcome svc result d f w obj fs =
     (case gtfs_fail svc (gr_import result) d f w of (e, w') \<Rightarrow> (result, Some e, w', obj, fs))"

text \<open>From the recorded archive on: the duplicate check, the parser, the import.\<close>

definition gtfs_parse_and_complete ::
    "('w, 'o) gtfs_service \<Rightarrow> gtfs_result \<Rightarrow> download \<Rightarrow> 'w \<Rightarrow> 'o \<Rightarrow> files \<Rightarrow> ('w, 'o) gtfs_return" where
  "gtfs_parse_and_complete svc result d w obj fs =
     (let persist_failure = ingest_failure ''persist'' ''persist_failed'' ''GTFS persistence failed''
      in case gs_skip (gv_store svc) (gr_import result) d w of
           (Inl e, w1) \<Rightarrow>
             if commit_unknown_as e then (result, Some e, w1, obj, fs)
             else gtfs_outcome svc result (Some d) (persist_failure e) w1 obj fs
         | (Inr True, w1) \<Rightarrow> (result\<lparr>gr_skipped := True\<rparr>, None, w1, obj, fs)
         | (Inr False, w1) \<Rightarrow>
             (case gv_parse svc (dl_path d) fs of
                (Inl e, fs1) \<Rightarrow> gtfs_outcome svc result (Some d)
                  (ingest_failure ''parse'' ''parse_failed'' ''GTFS parse failed'' e) w1 obj fs1
              | (Inr dataset, fs1) \<Rightarrow>
                  let result = result\<lparr>gr_dataset := Some dataset\<rparr>
                  in (case gs_complete (gv_store svc) (gr_import result) d dataset w1 of
                        (Inl e, w2) \<Rightarrow>
                          if commit_unknown_as e then (result, Some e, w2, obj, fs1)
                          else gtfs_outcome svc result (Some d) (persist_failure e) w2 obj fs1
                      | (Inr skipped, w2) \<Rightarrow> (result\<lparr>gr_skipped := skipped\<rparr>, None, w2, obj, fs1))))"

text \<open>From the download on, up to the deferred clean-up.\<close>

definition gtfs_archive_and_complete ::
    "('w, 'o) gtfs_service \<Rightarrow> gtfs_result \<Rightarrow> download \<Rightarrow> 'w \<Rightarrow> 'o \<Rightarrow> files \<Rightarrow> ('w, 'o) gtfs_return" where
  "gtfs_archive_and_complete svc result d w obj fs =
     (let archive_failure = ingest_failure ''archive'' ''archive_failed'' ''GTFS archive failed''
      in case file_source (gv_stat svc) (dl_path d) fs of
           Inl e \<Rightarrow> gtfs_outcome svc result (Some d) (archive_failure e) w obj fs
         | Inr source \<Rightarrow>
             (case gtfs_key (dl_retrieved d) (dl_sha256 d) of
                Inl e \<Rightarrow> gtfs_outcome svc result (Some d) (archive_failure e) w obj fs
              | Inr key \<Rightarrow>
                  (case gv_put svc \<lparr>pq_key = key, pq_source = Some source, pq_size = int (dl_size d),
                      pq_sha256 = dl_sha256 d, pq_content_type = dl_content_type d\<rparr> obj of
                     (Inl e, obj1) \<Rightarrow> gtfs_outcome svc result (Some d) (archive_failure e) w obj1 fs
                   | (Inr archive, obj1) \<Rightarrow>
                       let result = result\<lparr>gr_archive := Some archive\<rparr>
                       in (case gs_record (gv_store svc) (gr_import result) archive w of
                             (Inl e, w1) \<Rightarrow>
                               if commit_unknown_as e then (result, Some e, w1, obj1, fs)
                               else gtfs_outcome svc result (Some d) (archive_failure e) w1 obj1 fs
                           | (Inr _, w1) \<Rightarrow> gtfs_parse_and_complete svc result d w1 obj1 fs))))"

text \<open>The deferred \<open>Cleanup\<close>: its error joins the error of the run, or is kept in the result.\<close>

definition gtfs_cleanup ::
    "('w, 'o) gtfs_service \<Rightarrow> download \<Rightarrow> ('w, 'o) gtfs_return \<Rightarrow> ('w, 'o) gtfs_return" where
  "gtfs_cleanup svc d out =
     (case out of (result, err, w, obj, fs) \<Rightarrow>
      case remove_file (dl_path d) (gv_remove svc) fs of
        (None, fs') \<Rightarrow> (result, err, w, obj, fs')
      | (Some ce, fs') \<Rightarrow>
          (case err of
             Some e \<Rightarrow> (result, join_errors [Some e, Some ce], w, obj, fs')
           | None \<Rightarrow> (result\<lparr>gr_cleanup := Some ce\<rparr>, None, w, obj, fs')))"

definition gtfs_run :: "('w, 'o) gtfs_service \<Rightarrow> 'w \<Rightarrow> 'o \<Rightarrow> files \<Rightarrow> ('w, 'o) gtfs_return" where
  "gtfs_run svc w obj fs =
     (let none = \<lparr>gr_import = 0, gr_download = None, gr_dataset = None, gr_archive = None, gr_skipped = False, gr_cleanup = None\<rparr>
      in case gs_start (gv_store svc) (gv_source_url svc) w of
           (Inl e, w1) \<Rightarrow> (none, Some e, w1, obj, fs)
         | (Inr import_id, w1) \<Rightarrow>
             (case gv_fetch svc fs of
                (Inl e, fs1) \<Rightarrow> gtfs_outcome svc (none\<lparr>gr_import := import_id\<rparr>) None
                  (ingest_failure ''fetch'' ''fetch_failed'' ''GTFS fetch failed'' e) w1 obj fs1
              | (Inr d, fs1) \<Rightarrow> gtfs_cleanup svc d
                  (gtfs_archive_and_complete svc (none\<lparr>gr_import := import_id, gr_download := Some d\<rparr>) d w1 obj fs1)))"

end
