(* ===== verification/IngestLife.thy ===== *)
theory IngestLife
  imports Ingest AlertLife GtfsOutcome
begin

text \<open>
  What a pass of either service leaves behind: the attempt it started is settled. The contract
  of a store is a locale, with the two stores as extensions of it; the two repositories are its
  interpretations.
\<close>

section \<open>The contract of a store\<close>

text \<open>The error says that the failure of the attempt could not be recorded.\<close>

fun failure_unrecorded :: "go_error \<Rightarrow> bool" where
  "failure_unrecorded (Wrapf f as e) =
     (f = ''record ingestion failure: %w'' \<or> f = ''record GTFS import failure: %w'' \<or> failure_unrecorded e)"
| "failure_unrecorded (Joined es) = (\<exists>e \<in> set es. failure_unrecorded e)"
| "failure_unrecorded (FailureError st c m (Some e)) = failure_unrecorded e"
| "failure_unrecorded (CommitOutcomeError c s) = failure_unrecorded c"
| "failure_unrecorded _ = False"

text \<open>
  The end of an attempt: without an error it succeeded or was skipped, as the result says; with
  one it failed, or the error says why that is not known.
\<close>

definition settled :: "run_status option \<Rightarrow> bool \<Rightarrow> go_error option \<Rightarrow> bool" where
  "settled st skipped err \<longleftrightarrow>
     (case err of
        None \<Rightarrow> st = Some (if skipped then Skipped else Succeeded)
      | Some e \<Rightarrow> st = Some Failed \<or> commit_unknown_as e \<or> failure_unrecorded e)"

locale attempt_life =
  fixes inv :: "'w \<Rightarrow> bool" and status :: "row_id \<Rightarrow> 'w \<Rightarrow> run_status option"
    and start :: "string \<Rightarrow> 'w \<Rightarrow> row_id result \<times> 'w"
    and record_archive :: "row_id \<Rightarrow> storage_object \<Rightarrow> 'w \<Rightarrow> unit result \<times> 'w"
    and fail :: "row_id \<Rightarrow> 'f \<Rightarrow> 'w \<Rightarrow> unit result \<times> 'w"
  assumes start_inv: "start src w = (k, w') \<Longrightarrow> inv w \<Longrightarrow> inv w'"
    and record_inv: "record_archive i obj w = (u, w') \<Longrightarrow> inv w \<Longrightarrow> inv w'"
    and fail_inv: "fail i f w = (u, w') \<Longrightarrow> inv w \<Longrightarrow> inv w'"
    and fail_Inr: "fail i f w = (Inr u', w') \<Longrightarrow> inv w \<Longrightarrow> status i w' = Some Failed"
begin

text \<open>The shape of both \<open>fail\<close> methods of the services.\<close>

lemma fail_settles:
  assumes "(case fail i f w of (Inl e, w1) \<Rightarrow> (Joined [x, Wrapf message [] e], w1) | (Inr _, w1) \<Rightarrow> (x, w1)) = (err, w')"
    and "inv w" and "message = ''record ingestion failure: %w'' \<or> message = ''record GTFS import failure: %w''"
  shows "inv w' \<and> settled (status i w') skipped (Some err)"
proof (cases "fail i f w")
  case (Pair r w1)
  then show ?thesis
    using assms fail_inv [OF Pair assms(2)] fail_Inr [of i f w "()" w1]
    by (cases r) (auto simp: settled_def)
qed

end

locale alert_ingest =
  attempt_life inv status "as_start store" "as_record store" "\<lambda>i (fetch, summary, f). as_fail store i fetch summary f"
  for inv :: "'w \<Rightarrow> bool" and status and store :: "'w alert_store" +
  assumes complete_inv: "as_complete store i fetch summary w = (b, w') \<Longrightarrow> inv w \<Longrightarrow> inv w'"
    and complete_Inr: "as_complete store i fetch summary w = (Inr skipped, w') \<Longrightarrow> inv w \<Longrightarrow>
      status i w' = Some (if skipped then Skipped else Succeeded)"
begin

lemma outcome_settles:
  assumes "alert_outcome svc result fetch summary f w obj = (res, err, w', obj')" and "inv w" and "av_store svc = store"
  shows "inv w' \<and> ar_run res = ar_run result \<and> settled (status (ar_run res) w') (ar_skipped res) err"
proof -
  obtain e w1 where f: "alert_fail svc (ar_run result) fetch summary f w = (e, w1)" by fastforce
  have "inv w1 \<and> settled (status (ar_run result) w1) (ar_skipped result) (Some e)"
    using fail_settles [where i = "ar_run result" and f = "(fetch, summary, f)" and w = w and x = "failure_error f"
        and message = "''record ingestion failure: %w''" and err = e and w' = w1] f assms(2,3)
    by (auto simp: alert_fail_def)
  with assms(1) f show ?thesis by (auto simp: alert_outcome_def)
qed

lemma complete_settles:
  assumes "alert_decode_and_complete svc result fetch w obj = (res, err, w', obj')" and "inv w" and "av_store svc = store"
  shows "inv w' \<and> ar_run res = ar_run result \<and> settled (status (ar_run res) w') (ar_skipped res) err"
proof (cases "av_decode svc (fr_body fetch)")
  case (Inl e)
  with assms outcome_settles show ?thesis unfolding alert_decode_and_complete_def by fastforce
next
  case decoded: (Inr summary)
  obtain r w1 where c: "as_complete store (ar_run result) fetch summary w = (r, w1)" by fastforce
  have inv: "inv w1" by (rule complete_inv [OF c assms(2)])
  show ?thesis
  proof (cases r)
    case (Inl e)
    show ?thesis
    proof (cases "commit_unknown_as e")
      case True
      with assms decoded c Inl inv show ?thesis by (auto simp: alert_decode_and_complete_def settled_def)
    next
      case False
      with assms decoded c Inl outcome_settles [OF _ inv assms(3)] show ?thesis
        by (fastforce simp: alert_decode_and_complete_def)
    qed
  next
    case (Inr skipped)
    with c have "status (ar_run result) w1 = Some (if skipped then Skipped else Succeeded)"
      using complete_Inr assms(2) by blast
    with assms decoded c Inr inv show ?thesis by (auto simp: alert_decode_and_complete_def settled_def)
  qed
qed

text \<open>A run that was started is settled when \<open>Run\<close> returns.\<close>

lemma run_settles:
  assumes run: "alert_run svc w obj = (res, err, w', obj')" and inv: "inv w" and store: "av_store svc = store"
    and started: "as_start store (av_source_url svc) w = (Inr k, w1)"
  shows "inv w' \<and> ar_run res = k \<and> settled (status k w') (ar_skipped res) err"
proof -
  note inv1 = start_inv [OF started inv]
  note O = outcome_settles [OF _ inv1 store]
  note R = run [unfolded alert_run_def Let_def store started]
  show ?thesis
  proof (cases "av_fetch svc")
    case (Inl e)
    with R O show ?thesis by fastforce
  next
    case fetch: (Inr fetch)
    let ?hash = "av_sha256 svc (fr_body fetch)"
    show ?thesis
    proof (cases "service_alerts_key (fr_retrieved fetch) ?hash")
      case (Inl e)
      with R fetch O show ?thesis by fastforce
    next
      case key: (Inr key)
      obtain p obj1 where put: "av_put svc \<lparr>pq_key = key, pq_source = Some (bytes_source (fr_body fetch)),
          pq_size = int (length (fr_body fetch)), pq_sha256 = ?hash, pq_content_type = fr_content_type fetch\<rparr> obj = (p, obj1)"
        by fastforce
      show ?thesis
      proof (cases p)
        case (Inl e)
        with R fetch key put O show ?thesis by fastforce
      next
        case archive: (Inr archive)
        obtain u w2 where rec: "as_record store k archive w1 = (u, w2)" by fastforce
        note inv2 = record_inv [OF rec inv1]
        show ?thesis
        proof (cases u)
          case (Inl e)
          show ?thesis
          proof (cases "commit_unknown_as e")
            case True
            with R fetch key put archive rec Inl inv2 show ?thesis by (auto simp: settled_def)
          next
            case False
            with R fetch key put archive rec Inl outcome_settles [OF _ inv2 store] show ?thesis by fastforce
          qed
        next
          case (Inr u)
          with R fetch key put archive rec complete_settles [OF _ inv2 store] show ?thesis by fastforce
        qed
      qed
    qed
  qed
qed

end

locale gtfs_ingest =
  attempt_life inv status "gs_start store" "gs_record store" "\<lambda>i (d, f). gs_fail store i d f"
  for inv :: "'w \<Rightarrow> bool" and status and store :: "'w gtfs_store" +
  assumes skip_inv: "gs_skip store i d w = (b, w') \<Longrightarrow> inv w \<Longrightarrow> inv w'"
    and skip_Inr: "gs_skip store i d w = (Inr True, w') \<Longrightarrow> inv w \<Longrightarrow> status i w' = Some Skipped"
    and complete_inv: "gs_complete store i d ds w = (b, w') \<Longrightarrow> inv w \<Longrightarrow> inv w'"
    and complete_Inr: "gs_complete store i d ds w = (Inr skipped, w') \<Longrightarrow> inv w \<Longrightarrow>
      status i w' = Some (if skipped then Skipped else Succeeded)"
begin

lemma outcome_settles:
  assumes "gtfs_outcome svc result d f w obj fs = (res, err, w', obj', fs')" and "inv w" and "gv_store svc = store"
  shows "inv w' \<and> gr_import res = gr_import result \<and> settled (status (gr_import res) w') (gr_skipped res) err"
proof -
  obtain e w1 where f: "gtfs_fail svc (gr_import result) d f w = (e, w1)" by fastforce
  have "inv w1 \<and> settled (status (gr_import result) w1) (gr_skipped result) (Some e)"
    using fail_settles [where i = "gr_import result" and f = "(d, f)" and w = w and x = "failure_error f"
        and message = "''record GTFS import failure: %w''" and err = e and w' = w1] f assms(2,3)
    by (auto simp: gtfs_fail_def)
  with assms(1) f show ?thesis by (auto simp: gtfs_outcome_def)
qed

lemma complete_settles:
  assumes run: "gtfs_parse_and_complete svc result d w obj fs = (res, err, w', obj', fs')"
    and inv: "inv w" and store: "gv_store svc = store"
  shows "inv w' \<and> gr_import res = gr_import result \<and> settled (status (gr_import res) w') (gr_skipped res) err"
proof -
  note R = run [unfolded gtfs_parse_and_complete_def Let_def store]
  obtain b w1 where skip: "gs_skip store (gr_import result) d w = (b, w1)" by fastforce
  note inv1 = skip_inv [OF skip inv]
  consider e where "b = Inl e" "commit_unknown_as e" | e where "b = Inl e" "\<not> commit_unknown_as e"
    | "b = Inr True" | "b = Inr False" by (metis sum.exhaust)
  then show ?thesis
  proof cases
    case 1
    with R skip inv1 show ?thesis by (auto simp: settled_def)
  next
    case 2
    with R skip outcome_settles [OF _ inv1 store] show ?thesis by fastforce
  next
    case 3
    with R skip inv1 skip_Inr [of "gr_import result" d w w1] inv show ?thesis by (auto simp: settled_def)
  next
    case 4
    obtain p fs1 where parse: "gv_parse svc (dl_path d) fs = (p, fs1)" by fastforce
    show ?thesis
    proof (cases p)
      case (Inl e)
      with R skip 4 parse outcome_settles [OF _ inv1 store] show ?thesis by fastforce
    next
      case (Inr ds)
      obtain c w2 where complete: "gs_complete store (gr_import result) d ds w1 = (c, w2)" by fastforce
      note inv2 = complete_inv [OF complete inv1]
      consider e where "c = Inl e" "commit_unknown_as e" | e where "c = Inl e" "\<not> commit_unknown_as e"
        | skipped where "c = Inr skipped" by (cases c) auto
      then show ?thesis
      proof cases
        case 1
        with R skip 4 parse Inr complete inv2 show ?thesis by (auto simp: settled_def)
      next
        case 2
        with R skip 4 parse Inr complete outcome_settles [OF _ inv2 store] show ?thesis by fastforce
      next
        case (3 skipped)
        with R skip 4 parse Inr complete inv2 complete_Inr [of "gr_import result" d ds w1 skipped w2] inv1
        show ?thesis by (auto simp: settled_def)
      qed
    qed
  qed
qed

lemma archive_settles:
  assumes run: "gtfs_archive_and_complete svc result d w obj fs = (res, err, w', obj', fs')"
    and inv: "inv w" and store: "gv_store svc = store"
  shows "inv w' \<and> gr_import res = gr_import result \<and> settled (status (gr_import res) w') (gr_skipped res) err"
proof -
  note R = run [unfolded gtfs_archive_and_complete_def Let_def store]
  note O = outcome_settles [OF _ inv store]
  show ?thesis
  proof (cases "file_source (gv_stat svc) (dl_path d) fs")
    case (Inl e)
    with R O show ?thesis by fastforce
  next
    case source: (Inr source)
    show ?thesis
    proof (cases "gtfs_key (dl_retrieved d) (dl_sha256 d)")
      case (Inl e)
      with R source O show ?thesis by fastforce
    next
      case key: (Inr key)
      obtain p obj1 where put: "gv_put svc \<lparr>pq_key = key, pq_source = Some source, pq_size = int (dl_size d),
          pq_sha256 = dl_sha256 d, pq_content_type = dl_content_type d\<rparr> obj = (p, obj1)" by fastforce
      show ?thesis
      proof (cases p)
        case (Inl e)
        with R source key put O show ?thesis by fastforce
      next
        case archive: (Inr archive)
        obtain u w1 where rec: "gs_record store (gr_import result) archive w = (u, w1)" by fastforce
        note inv1 = record_inv [OF rec inv]
        consider e where "u = Inl e" "commit_unknown_as e" | e where "u = Inl e" "\<not> commit_unknown_as e"
          | "u = Inr ()" by (cases u) auto
        then show ?thesis
        proof cases
          case 1
          with R source key put archive rec inv1 show ?thesis by (auto simp: settled_def)
        next
          case 2
          with R source key put archive rec outcome_settles [OF _ inv1 store] show ?thesis by fastforce
        next
          case 3
          with R source key put archive rec complete_settles [OF _ inv1 store] show ?thesis by fastforce
        qed
      qed
    qed
  qed
qed

lemma cleanup_settles:
  assumes "gtfs_cleanup svc d (res0, err0, w, obj, fs) = (res, err, w', obj', fs')" and "settled st (gr_skipped res0) err0"
  shows "w' = w \<and> gr_import res = gr_import res0 \<and> settled st (gr_skipped res) err"
proof -
  obtain ce fs1 where rm: "remove_file (dl_path d) (gv_remove svc) fs = (ce, fs1)" by fastforce
  have joined: "join_errors [Some a, Some b] = Some (Joined [a, b])" for a b
    by (simp add: join_errors_def List.map_filter_simps)
  show ?thesis
    using assms rm by (cases ce; cases err0) (auto simp: gtfs_cleanup_def settled_def joined)
qed

text \<open>An import that was started is settled when \<open>Run\<close> returns.\<close>

lemma run_settles:
  assumes run: "gtfs_run svc w obj fs = (res, err, w', obj', fs')" and inv: "inv w" and store: "gv_store svc = store"
    and started: "gs_start store (gv_source_url svc) w = (Inr k, w1)"
  shows "inv w' \<and> gr_import res = k \<and> settled (status k w') (gr_skipped res) err"
proof -
  note inv1 = start_inv [OF started inv]
  note R = run [unfolded gtfs_run_def Let_def store started]
  obtain p fs1 where fetch: "gv_fetch svc fs = (p, fs1)" by fastforce
  show ?thesis
  proof (cases p)
    case (Inl e)
    with R fetch outcome_settles [OF _ inv1 store] show ?thesis by fastforce
  next
    case (Inr d)
    let ?res = "\<lparr>gr_import = k, gr_download = Some d, gr_dataset = None, gr_archive = None, gr_skipped = False, gr_cleanup = None\<rparr>"
    obtain res0 err0 w2 obj2 fs2 where a: "gtfs_archive_and_complete svc ?res d w1 obj fs1 = (res0, err0, w2, obj2, fs2)"
      by (metis prod_cases5)
    note A = archive_settles [OF a inv1 store]
    have "gtfs_cleanup svc d (res0, err0, w2, obj2, fs2) = (res, err, w', obj', fs')"
      using R fetch Inr a by simp
    from cleanup_settles [OF this] A show ?thesis by force
  qed
qed

end

end
