(* ===== verification/GtfsFetch.thy ===== *)
theory GtfsFetch
  imports GtfsRepo Files
begin

text \<open>
  \<open>Downloader.Fetch\<close> of \<open>internal/gtfs/fetch.go\<close>: the archive is copied to a temporary file
  while it is hashed, within 1 GiB, and the file survives exactly when the call succeeds. The
  response, the clock, the parsers of the two headers and SHA-256 are parameters; the outcome
  of every file operation is in \<open>temp_io\<close>.
\<close>

definition max_archive_bytes :: nat where
  "max_archive_bytes = 1073741824"

record http_response =
  hr_status :: int
  hr_length :: int
  hr_content_type :: string
  hr_etag :: string
  hr_last_modified :: string
  hr_body :: string

record fetch_env =
  ft_client :: bool
  ft_url :: string
  ft_request :: "go_error option"
  ft_response :: "http_response result"
  ft_media_type :: "string \<Rightarrow> string result"
  ft_parse_time :: "string \<Rightarrow> instant result"
  ft_sha256 :: "string \<Rightarrow> string"
  ft_requested :: instant
  ft_retrieved :: instant

definition validate_zip_content_type :: "(string \<Rightarrow> string result) \<Rightarrow> string \<Rightarrow> go_error option" where
  "validate_zip_content_type media_type value =
     (if value = [] then None
      else (case media_type value of
              Inl e \<Rightarrow> Some (Wrapf ''invalid GTFS content type %q: %w'' [AStr value] e)
            | Inr m \<Rightarrow>
                if m \<in> {''application/zip'', ''application/x-zip-compressed'', ''application/octet-stream''} then None
                else Some (Errorf ''unexpected GTFS content type %q'' [AStr value])))"

text \<open>The download to the file and the headers: closed, keep, the result and the files.\<close>

definition fetch_copy ::
    "fetch_env \<Rightarrow> temp_io \<Rightarrow> string \<Rightarrow> http_response \<Rightarrow> files \<Rightarrow> bool \<times> bool \<times> download result \<times> files" where
  "fetch_copy env io path r fs =
     (let written = take (max_archive_bytes + 1) (hr_body r); fs = fs(path := Some written)
      in case io_copy io of
           Some e \<Rightarrow> (False, False, Inl (Wrapf ''download GTFS archive: %w'' [] e), fs)
         | None \<Rightarrow>
             if length written > max_archive_bytes
             then (False, False, Inl (Errorf ''GTFS archive exceeds %d bytes'' [AInt (int max_archive_bytes)]), fs)
             else if written = [] then (False, False, Inl (Errorf ''GTFS archive is empty'' []), fs)
             else (case io_close io of
                     Some e \<Rightarrow> (True, False, Inl (Wrapf ''close temporary GTFS archive: %w'' [] e), fs)
                   | None \<Rightarrow>
                       (case (if hr_last_modified r = [] then Inr None
                              else map_sum id Some (ft_parse_time env (hr_last_modified r))) of
                          Inl e \<Rightarrow> (True, False, Inl (Wrapf ''parse GTFS Last-Modified header: %w'' [] e), fs)
                        | Inr modified \<Rightarrow>
                            (True, True, Inr \<lparr>dl_path = path, dl_source_url = ft_url env, dl_requested = ft_requested env,
                               dl_retrieved = ft_retrieved env, dl_content_type = hr_content_type r, dl_etag = hr_etag r,
                               dl_last_modified = hr_last_modified r, dl_modified = modified,
                               dl_sha256 = ft_sha256 env written, dl_size = length written\<rparr>, fs))))"

definition gtfs_fetch :: "fetch_env \<Rightarrow> temp_io \<Rightarrow> files \<Rightarrow> download result \<times> files" where
  "gtfs_fetch env io fs =
     (if \<not> ft_client env then (Inl (Errorf ''HTTP client is required'' []), fs)
      else
     (case ft_request env of
        Some e \<Rightarrow> (Inl (Wrapf ''create GTFS request: %w'' [] e), fs)
      | None \<Rightarrow>
     (case ft_response env of
        Inl e \<Rightarrow> (Inl (Wrapf ''fetch GTFS archive: %w'' [] e), fs)
      | Inr r \<Rightarrow>
        if hr_status r < 200 \<or> hr_status r \<ge> 300
        then (Inl (Errorf ''fetch GTFS archive: HTTP %d: %s'' [AInt (hr_status r), AStr (trim_space (take 4096 (hr_body r)))]), fs)
        else if hr_length r > int max_archive_bytes
        then (Inl (Errorf ''GTFS archive content length %d exceeds %d bytes'' [AInt (hr_length r), AInt (int max_archive_bytes)]), fs)
        else
     (case validate_zip_content_type (ft_media_type env) (hr_content_type r) of
        Some e \<Rightarrow> (Inl e, fs)
      | None \<Rightarrow>
     (case io_temp io of
        Inl e \<Rightarrow> (Inl (Wrapf ''create temporary GTFS archive: %w'' [] e), fs)
      | Inr path \<Rightarrow>
     (case fetch_copy env io path r (fs(path := Some [])) of (closed, keep, res, fs1) \<Rightarrow>
      case finish_temp io closed keep path (case res of Inl e \<Rightarrow> Some e | Inr _ \<Rightarrow> None) fs1 of
        (Some e, fs2) \<Rightarrow> (Inl e, fs2)
      | (None, fs2) \<Rightarrow> (res, fs2)))))))"

section \<open>What a download is\<close>

text \<open>The fields of a download and the file it names.\<close>

definition download_ok :: "fetch_env \<Rightarrow> download \<Rightarrow> files \<Rightarrow> bool" where
  "download_ok env d fs \<longleftrightarrow>
     (\<exists>content. fs (dl_path d) = Some content \<and> dl_size d = length content \<and> content \<noteq> [] \<and>
        length content \<le> max_archive_bytes \<and> dl_sha256 d = ft_sha256 env content) \<and>
     (dl_modified d = None \<longleftrightarrow> dl_last_modified d = []) \<and>
     dl_requested d = ft_requested env \<and> dl_retrieved d = ft_retrieved env"

lemma fetch_copy_cases:
  assumes "fetch_copy env io path r fs = (closed, keep, res, fs1)"
  shows "fs1 = fs(path := Some (take (max_archive_bytes + 1) (hr_body r)))"
    and "keep \<longleftrightarrow> (\<exists>d. res = Inr d)" and "keep \<Longrightarrow> closed"
    and "res = Inr d \<Longrightarrow> dl_path d = path \<and> download_ok env d fs1 \<and> fs1 path = Some (hr_body r)"
proof -
  let ?w = "take (max_archive_bytes + 1) (hr_body r)"
  define m where "m = (if hr_last_modified r = [] then Inr None else map_sum id Some (ft_parse_time env (hr_last_modified r)))"
  have A: "fs1 = fs(path := Some ?w) \<and> (keep \<longleftrightarrow> (\<exists>d. res = Inr d)) \<and> (keep \<longrightarrow> closed) \<and>
    (res = Inr d \<longrightarrow> length ?w \<le> max_archive_bytes \<and> ?w \<noteq> [] \<and> dl_path d = path \<and> dl_size d = length ?w \<and>
       dl_sha256 d = ft_sha256 env ?w \<and> m = Inr (dl_modified d) \<and> dl_last_modified d = hr_last_modified r \<and>
       dl_requested d = ft_requested env \<and> dl_retrieved d = ft_retrieved env)"
    using assms unfolding fetch_copy_def Let_def m_def [symmetric]
    by (auto split: option.splits if_splits sum.splits)
  have short: "?w = hr_body r" if "length ?w \<le> max_archive_bytes" using that by auto
  have "m = Inr (dl_modified d) \<Longrightarrow> dl_modified d = None \<longleftrightarrow> hr_last_modified r = []"
    by (cases "hr_last_modified r = []"; cases "ft_parse_time env (hr_last_modified r)"; cases "dl_modified d")
      (auto simp: m_def)
  with A short show "fs1 = fs(path := Some ?w)" "keep \<longleftrightarrow> (\<exists>d. res = Inr d)" "keep \<Longrightarrow> closed"
    "res = Inr d \<Longrightarrow> dl_path d = path \<and> download_ok env d fs1 \<and> fs1 path = Some (hr_body r)"
    by (auto simp: download_ok_def)
qed

lemma gtfs_fetch_result:
  assumes "gtfs_fetch env io fs = (r, fs')" and rm: "io_remove io = None"
    and temp: "\<And>p. io_temp io = Inr p \<Longrightarrow> p \<noteq> [] \<and> fs p = None"
  shows "case r of Inl _ \<Rightarrow> fs' = fs
    | Inr d \<Rightarrow> io_temp io = Inr (dl_path d) \<and> download_ok env d fs' \<and> fs' = fs(dl_path d := fs' (dl_path d))"
proof (cases "\<exists>h path. ft_client env \<and> ft_request env = None \<and> ft_response env = Inr h \<and> \<not> (hr_status h < 200 \<or> hr_status h \<ge> 300) \<and>
    \<not> hr_length h > int max_archive_bytes \<and> validate_zip_content_type (ft_media_type env) (hr_content_type h) = None \<and>
    io_temp io = Inr path")
  case False
  then have "fs' = fs \<and> (\<exists>e. r = Inl e)"
    using assms(1) unfolding gtfs_fetch_def by (auto split: if_splits option.splits sum.splits)
  then show ?thesis by auto
next
  case True
  then obtain h path where h: "ft_client env" "ft_request env = None" "ft_response env = Inr h"
      "\<not> (hr_status h < 200 \<or> hr_status h \<ge> 300)" "\<not> hr_length h > int max_archive_bytes"
      "validate_zip_content_type (ft_media_type env) (hr_content_type h) = None" and path: "io_temp io = Inr path" by blast
  obtain closed keep res fs1 where c: "fetch_copy env io path h (fs(path := Some [])) = (closed, keep, res, fs1)"
    by (metis prod_cases4)
  let ?err = "case res of Inl e \<Rightarrow> Some e | Inr _ \<Rightarrow> None"
  obtain err fs2 where f: "finish_temp io closed keep path ?err fs1 = (err, fs2)" by fastforce
  have r: "r = (case err of Some e \<Rightarrow> Inl e | None \<Rightarrow> res)" "fs' = fs2"
    using assms(1) h path c f unfolding gtfs_fetch_def by (auto split: option.splits)
  note C = fetch_copy_cases [OF c]
  show ?thesis
  proof (cases keep)
    case True
    with C obtain d where d: "res = Inr d" and closed by blast
    with f True have "err = None" "fs2 = fs1" by (simp_all add: finish_temp_keep)
    with C(1) C(4) [OF d] d r path show ?thesis by auto
  next
    case False
    with C(2) obtain e where e: "res = Inl e" by (cases res) auto
    with f False have f: "finish_temp io closed False path (Some e) fs1 = (err, fs2)" by simp
    obtain e' where "err = Some e'" using finish_temp_fails [OF f] by blast
    moreover have "fs2 = fs1(path := None)" using finish_temp_files(1) [OF f rm] temp [OF path] by blast
    ultimately show ?thesis using r C(1) temp [OF path] by (auto simp: fun_eq_iff)
  qed
qed

end
