(* ===== verification/LocalStore.thy ===== *)
theory LocalStore
  imports Storage Files
begin

text \<open>
  \<open>LocalStore.Put\<close> of \<open>internal/storage/local.go\<close>: an object is written to a temporary name,
  synchronised, and published under its key by a hard link, which fails when the key exists.
  The files below the root are a map; \<open>local_io\<close> gives the outcome of every system call, and
  what another writer publishes under the key between the first look and the link. SHA-256 is
  a parameter.
\<close>

section \<open>The calls\<close>

record verify_io =
  vi_open :: "go_error option"
  vi_stat :: "go_error option"
  vi_read :: "go_error option"
  vi_ctx :: "go_error option"
  vi_modified :: instant

text \<open>A candidate for the temporary name: the random digits and the error of creating the file.\<close>

record candidate =
  ca_name :: "string result"
  ca_open :: "go_error option"

record local_io =
  li_mkroot :: "go_error option"
  li_open_root :: "go_error option"
  li_first :: verify_io
  li_mkparent :: "go_error option"
  li_sync_dir :: "string \<Rightarrow> go_error option"
  li_candidates :: "candidate list"
  li_copy :: "(nat \<times> go_error) option"
  li_ctx :: "go_error option"
  li_sync :: "go_error option"
  li_close :: "go_error option"
  li_racer :: "string option"
  li_link :: "go_error option"
  li_second :: verify_io
  li_unlink :: "go_error option"
  li_sync_parent :: "go_error option"
  li_now :: instant
  li_late_close :: "go_error option"
  li_late_remove :: "go_error option"

definition local_error :: "string \<Rightarrow> go_error \<Rightarrow> go_error" where
  "local_error operation e = Wrapf ''local storage %s failed: %w'' [AStr operation] e"

text \<open>\<open>path.Dir\<close> and \<open>path.Join\<close> on the keys that \<open>ValidateKey\<close> accepts.\<close>

definition dir_of :: "string \<Rightarrow> string" where
  "dir_of key =
     (case split_on CHR ''/'' key of
        [] \<Rightarrow> ''.''
      | [_] \<Rightarrow> ''.''
      | segs \<Rightarrow> join_with CHR ''/'' (butlast segs))"

definition temp_prefix :: string where "temp_prefix = ''.raw-storage-''"

definition path_join :: "string \<Rightarrow> string \<Rightarrow> string" where
  "path_join parent name = (if parent = ''.'' \<or> parent = [] then name else parent @ ''/'' @ name)"

text \<open>\<open>syncLocalDirectoryChain\<close>: the root, then every directory on the way down.\<close>

fun sync_segments :: "(string \<Rightarrow> go_error option) \<Rightarrow> string \<Rightarrow> string list \<Rightarrow> go_error option" where
  "sync_segments sync current [] = None"
| "sync_segments sync current (seg # segs) =
     (if seg = ''.'' \<or> seg = [] then sync_segments sync current segs
      else let current = path_join current seg
           in case sync current of Some e \<Rightarrow> Some e | None \<Rightarrow> sync_segments sync current segs)"

definition sync_directory_chain :: "(string \<Rightarrow> go_error option) \<Rightarrow> string \<Rightarrow> go_error option" where
  "sync_directory_chain sync directory =
     (case sync ''.'' of Some e \<Rightarrow> Some e | None \<Rightarrow> sync_segments sync [] (split_on CHR ''/'' directory))"

text \<open>\<open>createLocalTemp\<close>: at most 100 random names, the first that does not exist.\<close>

fun create_local_temp :: "nat \<Rightarrow> string \<Rightarrow> candidate list \<Rightarrow> files \<Rightarrow> string result" where
  "create_local_temp (Suc n) parent (c # cs) fs =
     (case ca_name c of
        Inl e \<Rightarrow> Inl e
      | Inr random \<Rightarrow>
          let name = path_join parent (temp_prefix @ random)
          in if fs name \<noteq> None then create_local_temp n parent cs fs
             else (case ca_open c of Some e \<Rightarrow> Inl e | None \<Rightarrow> Inr name))"
| "create_local_temp _ parent cs fs = Inl (Errorf ''could not allocate a unique temporary object'' [])"

section \<open>Put\<close>

text \<open>
  \<open>verifyExisting\<close>: \<open>Inr None\<close> when there is no object under the key. \<open>Put\<close> returns in every
  other case, so the flag the code returns with an error is not modelled.
\<close>

definition verify_local :: "(string \<Rightarrow> string) \<Rightarrow> verify_io \<Rightarrow> files \<Rightarrow> put_request \<Rightarrow> storage_object option result" where
  "verify_local sha io fs q =
     (case fs (pq_key q) of
        None \<Rightarrow> (case vi_open io of Some e \<Rightarrow> Inl (local_error ''open existing object'' e) | None \<Rightarrow> Inr None)
      | Some content \<Rightarrow>
     (case vi_open io of
        Some e \<Rightarrow> Inl (local_error ''open existing object'' e)
      | None \<Rightarrow>
     (case vi_stat io of
        Some e \<Rightarrow> Inl (local_error ''inspect existing object'' e)
      | None \<Rightarrow>
          if int (length content) \<noteq> pq_size q then Inl (Wrapf ''%w: existing object size differs'' [] ErrConflict)
          else
     (case vi_read io of
        Some e \<Rightarrow> Inl (case vi_ctx io of Some c \<Rightarrow> c | None \<Rightarrow> local_error ''verify existing object'' e)
      | None \<Rightarrow>
          if sha content \<noteq> pq_sha256 q then Inl (Wrapf ''%w: existing object SHA256 differs'' [] ErrConflict)
          else Inr (Some (new_object ''local'' q (vi_modified io) [] [] (Some False)))))))"

text \<open>Another writer publishes under a key that is free.\<close>

definition raced :: "string option \<Rightarrow> string \<Rightarrow> files \<Rightarrow> files" where
  "raced racer key fs =
     (case racer of Some other \<Rightarrow> if fs key = None then fs(key := Some other) else fs | None \<Rightarrow> fs)"

text \<open>From the link on.\<close>

definition publish_local ::
    "local_io \<Rightarrow> (string \<Rightarrow> string) \<Rightarrow> put_request \<Rightarrow> string \<Rightarrow> string \<Rightarrow> files \<Rightarrow> storage_object result \<times> files" where
  "publish_local io sha q content temp fs =
     (let key = pq_key q;
          fs = raced (li_racer io) key fs;
          link = (case li_link io of
                    Some e \<Rightarrow> Some e
                  | None \<Rightarrow> if fs key \<noteq> None then Some (Errorf ''file exists'' []) else None)
      in case link of
           Some e \<Rightarrow>
             (case verify_local sha (li_second io) fs q of
                Inl ve \<Rightarrow> (Inl ve, fs)
              | Inr (Some existing) \<Rightarrow> (Inr existing, fs)
              | Inr None \<Rightarrow> (Inl (local_error ''publish object'' e), fs))
         | None \<Rightarrow>
             let fs = fs(key := fs temp)
             in (case li_unlink io of
                   Some e \<Rightarrow> (Inl (local_error ''remove published temporary object'' e), fs)
                 | None \<Rightarrow>
                     let fs = fs(temp := None)
                     in (case li_sync_parent io of
                           Some e \<Rightarrow> (Inl (local_error ''sync published object directory'' e), fs)
                         | None \<Rightarrow> (Inr (new_object ''local'' q (li_now io) [] [] (Some True)), fs))))"

text \<open>From the temporary file on: whether it was closed, the result and the files.\<close>

definition write_local ::
    "local_io \<Rightarrow> (string \<Rightarrow> string) \<Rightarrow> put_request \<Rightarrow> string \<Rightarrow> files \<Rightarrow> bool \<times> storage_object result \<times> files" where
  "write_local io sha q temp fs =
     (case pq_source q of
        None \<Rightarrow> (False, Inl (Errorf ''open storage source failed'' []), fs)
      | Some source \<Rightarrow>
     (case so_open source of
        Inl _ \<Rightarrow> (False, Inl (Errorf ''open storage source failed'' []), fs)
      | Inr content \<Rightarrow>
     (case li_copy io of
        Some (n, e) \<Rightarrow>
          (False, Inl (case li_ctx io of Some c \<Rightarrow> c | None \<Rightarrow> Errorf ''read storage source failed'' []),
           fs(temp := Some (take n content)))
      | None \<Rightarrow>
          let fs = fs(temp := Some content)
          in if int (length content) \<noteq> pq_size q \<or> sha content \<noteq> pq_sha256 q
             then (False, Inl (Wrapf ''%w: source size or SHA256 mismatch'' [] ErrConflict), fs)
             else
     (case li_sync io of
        Some e \<Rightarrow> (False, Inl (local_error ''sync temporary object'' e), fs)
      | None \<Rightarrow>
     (case li_close io of
        Some e \<Rightarrow> (True, Inl (local_error ''close temporary object'' e), fs)
      | None \<Rightarrow> (True, publish_local io sha q content temp fs))))))"

text \<open>The deferred function: close, remove the temporary name if it is there, join the errors.\<close>

definition finish_local ::
    "local_io \<Rightarrow> bool \<Rightarrow> string \<Rightarrow> storage_object result \<Rightarrow> files \<Rightarrow> storage_object result \<times> files" where
  "finish_local io closed temp r fs =
     (let err = (case r of Inl e \<Rightarrow> Some e | Inr _ \<Rightarrow> None);
          err = (if \<not> closed
                 then join_errors [err, map_option (local_error ''close temporary object'') (li_late_close io)] else err);
          (err, fs) =
            (if fs temp = None then (err, fs)
             else (case li_late_remove io of
                     Some e \<Rightarrow> (join_errors [err, Some (local_error ''remove temporary object'' e)], fs)
                   | None \<Rightarrow> (err, fs(temp := None))))
      in (case err of Some e \<Rightarrow> Inl e | None \<Rightarrow> r, fs))"

definition local_put ::
    "local_io \<Rightarrow> (string \<Rightarrow> string) \<Rightarrow> put_request \<Rightarrow> files \<Rightarrow> storage_object result \<times> files" where
  "local_put io sha q fs =
     (case validate_request q of
        Some e \<Rightarrow> (Inl e, fs)
      | None \<Rightarrow>
     (case li_mkroot io of
        Some e \<Rightarrow> (Inl (local_error ''create root directory'' e), fs)
      | None \<Rightarrow>
     (case li_open_root io of
        Some e \<Rightarrow> (Inl (local_error ''open root directory'' e), fs)
      | None \<Rightarrow>
     (case verify_local sha (li_first io) fs q of
        Inl e \<Rightarrow> (Inl e, fs)
      | Inr (Some existing) \<Rightarrow> (Inr existing, fs)
      | Inr None \<Rightarrow>
     (case li_mkparent io of
        Some e \<Rightarrow> (Inl (local_error ''create parent directory'' e), fs)
      | None \<Rightarrow>
     (case sync_directory_chain (li_sync_dir io) (dir_of (pq_key q)) of
        Some e \<Rightarrow> (Inl (local_error ''sync parent directories'' e), fs)
      | None \<Rightarrow>
     (case create_local_temp 100 (dir_of (pq_key q)) (li_candidates io) fs of
        Inl e \<Rightarrow> (Inl (local_error ''create temporary object'' e), fs)
      | Inr temp \<Rightarrow>
     (case write_local io sha q temp (fs(temp := Some [])) of
        (closed, r, fs1) \<Rightarrow> finish_local io closed temp r fs1))))))))"

section \<open>What a call leaves\<close>

lemma create_local_temp_fresh:
  "create_local_temp n parent cs fs = Inr temp \<Longrightarrow>
   fs temp = None \<and> (\<exists>c \<in> set cs. \<exists>random. ca_name c = Inr random \<and> temp = path_join parent (temp_prefix @ random))"
proof (induction n parent cs fs rule: create_local_temp.induct)
  case (1 n parent c cs fs)
  show ?case
  proof (cases "ca_name c")
    case (Inl e)
    with 1(2) show ?thesis by simp
  next
    case (Inr random)
    let ?name = "path_join parent (temp_prefix @ random)"
    show ?thesis
    proof (cases "fs ?name = None")
      case True
      with 1(2) Inr have "temp = ?name" by (simp add: Let_def split: option.splits)
      with True Inr show ?thesis by auto
    next
      case False
      with 1(2) Inr have "create_local_temp n parent cs fs = Inr temp" by (simp add: Let_def)
      from 1(1) [OF Inr refl False this] show ?thesis by auto
    qed
  qed
qed simp_all

text \<open>What is stored under a key that a request describes.\<close>

definition stored_as :: "(string \<Rightarrow> string) \<Rightarrow> put_request \<Rightarrow> files \<Rightarrow> bool" where
  "stored_as sha q fs \<longleftrightarrow>
     (\<exists>content. fs (pq_key q) = Some content \<and> int (length content) = pq_size q \<and> sha content = pq_sha256 q)"

lemma verify_local_Some:
  "verify_local sha io fs q = Inr (Some ob) \<Longrightarrow>
   stored_as sha q fs \<and> ob = new_object ''local'' q (vi_modified io) [] [] (Some False)"
  by (auto simp: verify_local_def stored_as_def split: option.splits if_splits)

lemma verify_local_None: "verify_local sha io fs q = Inr None \<Longrightarrow> fs (pq_key q) = None"
  by (auto simp: verify_local_def split: option.splits if_splits)

lemma raced_simps:
  "p \<noteq> key \<Longrightarrow> raced racer key fs p = fs p" "fs key \<noteq> None \<Longrightarrow> raced racer key fs = fs"
  "raced racer key fs key = None \<Longrightarrow> fs key = None \<and> raced racer key fs = fs"
  by (auto simp: raced_def split: option.splits if_splits)

text \<open>The three ways to end: the object of someone else, or the link with the temporary name
  left or removed.\<close>

lemma publish_local_cases:
  assumes "publish_local io sha q content temp fs = (r, fs')"
  obtains (existing) "fs' = raced (li_racer io) (pq_key q) fs"
      "\<And>ob. r = Inr ob \<Longrightarrow> verify_local sha (li_second io) fs' q = Inr (Some ob)"
  | (linked) e where "fs (pq_key q) = None" "fs' = fs(pq_key q := fs temp)" "r = Inl e"
  | (published) "fs (pq_key q) = None" "fs' = fs(pq_key q := fs temp, temp := None)"
      "\<And>ob. r = Inr ob \<Longrightarrow> ob = new_object ''local'' q (li_now io) [] [] (Some True)"
proof -
  let ?fs = "raced (li_racer io) (pq_key q) fs"
  define link where "link = (case li_link io of Some e \<Rightarrow> Some e | None \<Rightarrow> if ?fs (pq_key q) \<noteq> None then Some (Errorf ''file exists'' []) else None)"
  show thesis
  proof (cases link)
    case (Some e)
    with assms have "fs' = ?fs" "\<And>ob. r = Inr ob \<Longrightarrow> verify_local sha (li_second io) ?fs q = Inr (Some ob)"
      unfolding publish_local_def Let_def link_def [symmetric] by (auto split: sum.splits option.splits)
    then show thesis by (intro existing) simp_all
  next
    case None
    then have free: "?fs (pq_key q) = None" by (auto simp: link_def split: option.splits if_splits)
    then have fs: "fs (pq_key q) = None" "?fs = fs" using raced_simps(3) by blast+
    show thesis
    proof (cases "li_unlink io")
      case (Some e)
      with None assms fs show thesis
        unfolding publish_local_def Let_def link_def [symmetric] by (intro linked) auto
    next
      case unlinked: None
      with None assms fs show thesis
        unfolding publish_local_def Let_def link_def [symmetric] by (intro published) (auto split: option.splits)
    qed
  qed
qed

text \<open>The temporary file written.\<close>

lemma write_local_cases:
  assumes "write_local io sha q temp fs = (closed, r, fs')"
  obtains (failed) e c where "r = Inl e" "fs' = fs(temp := c)"
  | (complete) source content where "pq_source q = Some source" "so_open source = Inr content" "closed"
      "int (length content) = pq_size q" "sha content = pq_sha256 q"
      "publish_local io sha q content temp (fs(temp := Some content)) = (r, fs')"
proof -
  note W = assms [unfolded write_local_def]
  show thesis
  proof (cases "pq_source q")
    case None
    with W show thesis by (intro failed [of _ "fs temp"]) auto
  next
    case source: (Some source)
    show thesis
    proof (cases "so_open source")
      case (Inl e)
      with W source show thesis by (intro failed [of _ "fs temp"]) auto
    next
      case content: (Inr content)
      show thesis
      proof (cases "li_copy io")
        case (Some ne)
        with W source content show thesis by (cases ne) (auto intro: failed)
      next
        case copied: None
        show thesis
        proof (cases "int (length content) \<noteq> pq_size q \<or> sha content \<noteq> pq_sha256 q")
          case True
          with W source content copied show thesis by (auto simp: Let_def intro: failed)
        next
          case False
          with W source content copied show thesis
            by (auto simp: Let_def intro: failed complete split: option.splits)
        qed
      qed
    qed
  qed
qed

lemma finish_local_files:
  assumes "finish_local io closed temp r fs = (r', fs')"
  shows "fs' = fs \<or> fs' = fs(temp := None)"
    and "r' = Inr ob \<Longrightarrow> r = Inr ob \<and> fs' temp = None"
    and "li_late_remove io = None \<Longrightarrow> fs' = fs(temp := None)"
  using assms unfolding finish_local_def Let_def
  by (auto split: sum.splits option.splits if_splits simp: fun_upd_idem)

text \<open>No random name is the key itself.\<close>

definition names_apart :: "local_io \<Rightarrow> put_request \<Rightarrow> bool" where
  "names_apart io q \<longleftrightarrow> (\<forall>c \<in> set (li_candidates io). \<forall>random. ca_name c = Inr random \<longrightarrow>
     path_join (dir_of (pq_key q)) (temp_prefix @ random) \<noteq> pq_key q)"

lemma local_put_cases:
  assumes "local_put io sha q fs = (r, fs')"
  obtains (early) "fs' = fs" "\<And>ob. r = Inr ob \<Longrightarrow> verify_local sha (li_first io) fs q = Inr (Some ob)"
  | (written) temp closed r1 fs1 where "fs (pq_key q) = None"
      "create_local_temp 100 (dir_of (pq_key q)) (li_candidates io) fs = Inr temp"
      "write_local io sha q temp (fs(temp := Some [])) = (closed, r1, fs1)"
      "finish_local io closed temp r1 fs1 = (r, fs')"
proof (cases "validate_request q = None \<and> li_mkroot io = None \<and> li_open_root io = None \<and>
    verify_local sha (li_first io) fs q = Inr None \<and> li_mkparent io = None \<and>
    sync_directory_chain (li_sync_dir io) (dir_of (pq_key q)) = None \<and>
    (\<exists>temp. create_local_temp 100 (dir_of (pq_key q)) (li_candidates io) fs = Inr temp)")
  case True
  then obtain temp where temp: "create_local_temp 100 (dir_of (pq_key q)) (li_candidates io) fs = Inr temp" by blast
  obtain closed r1 fs1 where w: "write_local io sha q temp (fs(temp := Some [])) = (closed, r1, fs1)"
    by (metis prod_cases3)
  have "finish_local io closed temp r1 fs1 = (r, fs')" using assms True temp w by (simp add: local_put_def)
  moreover have "fs (pq_key q) = None" using True verify_local_None by blast
  ultimately show thesis using temp w by (intro written)
next
  case False
  with assms have "fs' = fs \<and> (\<forall>ob. r = Inr ob \<longrightarrow> verify_local sha (li_first io) fs q = Inr (Some ob))"
    unfolding local_put_def by (simp split: option.splits sum.splits) auto
  then show thesis by (intro early) blast+
qed

text \<open>The files after \<open>Put\<close>: nothing but the key and, if it cannot be removed, the temporary name.\<close>

lemma local_put_files:
  assumes run: "local_put io sha q fs = (r, fs')" and apart: "names_apart io q"
  shows "fs p = Some c \<Longrightarrow> fs' p = Some c"
    and "r = Inr ob \<Longrightarrow> stored_as sha q fs' \<and> (\<exists>at created. ob = new_object ''local'' q at [] [] (Some created))"
    and "r = Inr ob \<Longrightarrow> ob_created ob = Some True \<Longrightarrow> fs (pq_key q) = None \<and>
      (\<exists>source. pq_source q = Some source \<and> fs' (pq_key q) = (case so_open source of Inr content \<Rightarrow> Some content | Inl _ \<Rightarrow> None))"
    and "li_late_remove io = None \<Longrightarrow> p \<noteq> pq_key q \<Longrightarrow> fs' p = fs p"
proof -
  have "(fs p = Some c \<longrightarrow> fs' p = Some c) \<and>
    (r = Inr ob \<longrightarrow> stored_as sha q fs' \<and> (\<exists>at created. ob = new_object ''local'' q at [] [] (Some created)) \<and>
      (ob_created ob = Some True \<longrightarrow> fs (pq_key q) = None \<and>
      (\<exists>source. pq_source q = Some source \<and> fs' (pq_key q) = (case so_open source of Inr content \<Rightarrow> Some content | Inl _ \<Rightarrow> None)))) \<and>
    (li_late_remove io = None \<longrightarrow> p \<noteq> pq_key q \<longrightarrow> fs' p = fs p)" for p c ob
    using run
  proof (cases rule: local_put_cases)
    case early
    have "stored_as sha q fs \<and> ob = new_object ''local'' q (vi_modified (li_first io)) [] [] (Some False)" if "r = Inr ob"
      by (rule verify_local_Some) (rule early(2) [OF that])
    then show ?thesis using early(1) by (auto simp: new_object_def)
  next
    case (written temp closed r1 fs1)
    note F = finish_local_files [OF written(4)]
    have fresh: "fs temp = None" and ne: "temp \<noteq> pq_key q"
      using create_local_temp_fresh [OF written(2)] apart by (auto simp: names_apart_def)
    from written(3) show ?thesis
    proof (cases rule: write_local_cases)
      case (failed e c')
      with F fresh show ?thesis by (auto simp: fun_eq_iff)
    next
      case (complete source content)
      let ?fs = "fs(temp := Some content)"
      have P: "publish_local io sha q content temp ?fs = (r1, fs1)" using complete(6) by simp
      then show ?thesis
      proof (cases rule: publish_local_cases)
        case existing
        have ob: "stored_as sha q fs1 \<and> ob = new_object ''local'' q (vi_modified (li_second io)) [] [] (Some False)" if "r1 = Inr ob"
          by (rule verify_local_Some) (rule existing(2) [OF that])
        have "fs1 p = (fs(temp := Some content)) p" if "p \<noteq> pq_key q" for p
          using existing(1) raced_simps(1) [OF that] by simp
        moreover have "stored_as sha q fs'" if "stored_as sha q fs1" using that F(1) ne by (auto simp: stored_as_def)
        ultimately show ?thesis
          using F ob fresh ne written(1) by (cases "p = pq_key q") (auto simp: new_object_def)
      next
        case (linked e)
        with F fresh ne written(1) show ?thesis by (auto simp: fun_eq_iff)
      next
        case published
        then have fs1: "fs1 (pq_key q) = Some content" "fs1 temp = None" "\<And>p. p \<noteq> pq_key q \<Longrightarrow> p \<noteq> temp \<Longrightarrow> fs1 p = fs p"
          using ne by auto
        then have fs': "fs' = fs1" using F(1) by (auto simp: fun_eq_iff)
        have "stored_as sha q fs1" using fs1(1) complete(4,5) by (auto simp: stored_as_def)
        moreover have "fs1 p = fs p" if "p \<noteq> pq_key q" for p using fs1(2,3) fresh that by (cases "p = temp") auto
        ultimately show ?thesis
          using F(2) published(3) complete(1,2) fs1(1) written(1)
          by (cases "p = pq_key q") (auto simp: fs' new_object_def)
      qed
    qed
  qed
  then show "fs p = Some c \<Longrightarrow> fs' p = Some c"
    and "r = Inr ob \<Longrightarrow> stored_as sha q fs' \<and> (\<exists>at created. ob = new_object ''local'' q at [] [] (Some created))"
    and "r = Inr ob \<Longrightarrow> ob_created ob = Some True \<Longrightarrow> fs (pq_key q) = None \<and>
      (\<exists>source. pq_source q = Some source \<and> fs' (pq_key q) = (case so_open source of Inr content \<Rightarrow> Some content | Inl _ \<Rightarrow> None))"
    and "li_late_remove io = None \<Longrightarrow> p \<noteq> pq_key q \<Longrightarrow> fs' p = fs p"
    by blast+
qed

end
