(* ===== verification/S3Store.thy ===== *)
theory S3Store
  imports Storage
begin

text \<open>
  \<open>S3Store\<close> of \<open>internal/storage/s3.go\<close>: a conditional create with at most three attempts, the
  classification of its errors, and the verification of an object that is already there. The
  client of the service is a parameter: \<open>s3_io\<close> says what its calls return, \<open>PutObject\<close> by
  attempt, with the state of the context after each. SHA-256 is a parameter; the base64 of a hash
  is compared, so the model compares the hashes (\<open>checksum_of\<close> is any injective text of one).
\<close>

section \<open>Errors of the service\<close>

text \<open>What \<open>errors.As\<close> finds in an error: a status code, an API code, and the two network kinds.\<close>

record s3_error =
  se_status :: "int option"
  se_code :: "string option"
  se_connection :: "bool option"
  se_network :: bool

datatype s3_class = Definitive | Precondition | ConditionalConflict | Ambiguous

definition classify_s3_put_error :: "s3_error \<Rightarrow> s3_class" where
  "classify_s3_put_error e =
     (case se_status e of
        Some status \<Rightarrow>
          if status = 412 then Precondition else if status = 409 then ConditionalConflict else Definitive
      | None \<Rightarrow>
     (case se_code e of
        Some code \<Rightarrow>
          if code = ''PreconditionFailed'' then Precondition
          else if code = ''ConditionalRequestConflict'' then ConditionalConflict else Definitive
      | None \<Rightarrow>
          if se_connection e = Some True then Ambiguous
          else if se_network e then Ambiguous else Definitive))"

section \<open>The calls\<close>

text \<open>One attempt: opening the source, \<open>PutObject\<close> (its ETag and version), and what follows it.\<close>

record put_call =
  pc_open :: "go_error option"
  pc_result :: "s3_error + string \<times> string"
  pc_ctx :: "go_error option"
  pc_wait :: "go_error option"

record head_output =
  ho_length :: "int option"
  ho_sha256 :: "string option"
  ho_checksum :: "string option"
  ho_modified :: "instant option"
  ho_etag :: string
  ho_version :: string

text \<open>\<open>GetObject\<close>: the body up to where reading stops, the errors of reading and of closing.\<close>

record get_output =
  go_body :: "string option"
  go_read_error :: "go_error option"
  go_extra_error :: "go_error option"
  go_close_error :: "go_error option"

record s3_io =
  s3_puts :: "nat \<Rightarrow> put_call"
  s3_head :: "head_output option"
  s3_head_ctx :: "go_error option"
  s3_get :: "get_output option"
  s3_get_ctx :: "go_error option"
  s3_now :: instant

definition max_put_attempts :: nat where
  "max_put_attempts = 3"

section \<open>Verification\<close>

definition ctx_or :: "go_error option \<Rightarrow> string \<Rightarrow> go_error" where
  "ctx_or ctx message = (case ctx of Some c \<Rightarrow> c | None \<Rightarrow> Errorf message [])"

text \<open>
  \<open>verifyExistingBody\<close>: exactly \<open>size\<close> bytes are hashed, and one more is asked for. Errors are
  those other than the end of the body.
\<close>

definition verify_s3_body :: "s3_io \<Rightarrow> (string \<Rightarrow> string) \<Rightarrow> put_request \<Rightarrow> go_error option" where
  "verify_s3_body io sha q =
     (case s3_get io of
        None \<Rightarrow> Some (ctx_or (s3_get_ctx io) ''S3 object body could not be verified'')
      | Some output \<Rightarrow>
     (case go_body output of
        None \<Rightarrow> Some (Errorf ''S3 object body could not be verified'' [])
      | Some body \<Rightarrow>
          let hashed = take (nat (pq_size q)) body;
              extra = (if go_extra_error output = None then length (take 1 (drop (nat (pq_size q)) body)) else 0)
          in if go_read_error output \<noteq> None
             then Some (ctx_or (s3_get_ctx io) ''S3 object body could not be verified'')
             else if go_close_error output \<noteq> None
             then Some (Errorf ''S3 object body could not be closed after verification'' [])
             else if go_extra_error output \<noteq> None
             then Some (ctx_or (s3_get_ctx io) ''S3 object body could not be verified'')
             else if int (length hashed) \<noteq> pq_size q \<or> extra \<noteq> 0 \<or> sha hashed \<noteq> pq_sha256 q
             then Some ErrConflict
             else None))"

definition verify_s3 ::
    "s3_io \<Rightarrow> (string \<Rightarrow> string) \<Rightarrow> (string \<Rightarrow> string) \<Rightarrow> put_request \<Rightarrow> bool option \<Rightarrow> storage_object result" where
  "verify_s3 io sha checksum_of q created =
     (case s3_head io of
        None \<Rightarrow> Inl (ctx_or (s3_head_ctx io) ''S3 object could not be verified'')
      | Some head \<Rightarrow>
          if ho_length head \<noteq> Some (pq_size q) \<or> ho_sha256 head \<noteq> Some (pq_sha256 q) then Inl ErrConflict
          else
            let bad = (case ho_checksum head of
                         Some checksum \<Rightarrow> if checksum \<noteq> checksum_of (pq_sha256 q) then Some ErrConflict else None
                       | None \<Rightarrow> verify_s3_body io sha q)
            in (case bad of
                  Some e \<Rightarrow> Inl e
                | None \<Rightarrow>
                    Inr (new_object ''s3'' q (case ho_modified head of Some t \<Rightarrow> t | None \<Rightarrow> s3_now io)
                      (ho_etag head) (ho_version head) created)))"

section \<open>Put\<close>

text \<open>
  The loop of \<open>Put\<close>, from attempt \<open>attempt\<close> on, with the number of attempts that were made. A
  source that cannot be opened is an error that is none of the kinds above.
\<close>

function s3_put_loop ::
    "nat \<Rightarrow> s3_io \<Rightarrow> (string \<Rightarrow> string) \<Rightarrow> (string \<Rightarrow> string) \<Rightarrow> put_request \<Rightarrow> storage_object result \<times> nat" where
  "s3_put_loop attempt io sha checksum_of q =
     (if \<not> attempt < max_put_attempts then (Inl (Errorf ''S3 object create failed'' []), attempt)
      else
        let call = s3_puts io attempt;
            outcome = (if pc_open call \<noteq> None
                       then Inl \<lparr>se_status = None, se_code = None, se_connection = None, se_network = False\<rparr>
                       else pc_result call);
            made = attempt + 1
        in (case outcome of
              Inr (etag, version_id) \<Rightarrow> (Inr (new_object ''s3'' q (s3_now io) etag version_id (Some True)), made)
            | Inl e \<Rightarrow>
                (case pc_ctx call of
                   Some c \<Rightarrow> (Inl c, made)
                 | None \<Rightarrow>
                     (case classify_s3_put_error e of
                        Precondition \<Rightarrow> (verify_s3 io sha checksum_of q (Some False), made)
                      | ConditionalConflict \<Rightarrow>
                          if attempt + 1 < max_put_attempts
                          then (case pc_wait call of
                                  Some c \<Rightarrow> (Inl c, made)
                                | None \<Rightarrow> s3_put_loop (attempt + 1) io sha checksum_of q)
                          else (Inl (Errorf ''S3 object create failed with repeated conditional conflicts'' []), made)
                      | Ambiguous \<Rightarrow> (verify_s3 io sha checksum_of q None, made)
                      | Definitive \<Rightarrow> (Inl (Errorf ''S3 object create failed'' []), made)))))"
  by pat_completeness auto

termination
  by (relation "measure (\<lambda>(attempt, _). max_put_attempts - attempt)") auto

declare s3_put_loop.simps [simp del]

definition s3_put ::
    "s3_io \<Rightarrow> (string \<Rightarrow> string) \<Rightarrow> (string \<Rightarrow> string) \<Rightarrow> put_request \<Rightarrow> storage_object result \<times> nat" where
  "s3_put io sha checksum_of q =
     (case validate_request q of
        Some e \<Rightarrow> (Inl e, 0)
      | None \<Rightarrow> s3_put_loop 0 io sha checksum_of q)"

section \<open>What a call returns\<close>

text \<open>What \<open>verifyExisting\<close> has seen.\<close>

definition s3_matches :: "s3_io \<Rightarrow> (string \<Rightarrow> string) \<Rightarrow> (string \<Rightarrow> string) \<Rightarrow> put_request \<Rightarrow> bool" where
  "s3_matches io sha checksum_of q \<longleftrightarrow>
     (\<exists>head. s3_head io = Some head \<and> ho_length head = Some (pq_size q) \<and> ho_sha256 head = Some (pq_sha256 q) \<and>
        (case ho_checksum head of
           Some checksum \<Rightarrow> checksum = checksum_of (pq_sha256 q)
         | None \<Rightarrow> \<exists>output body. s3_get io = Some output \<and> go_body output = Some body \<and>
             int (length body) = pq_size q \<and> sha body = pq_sha256 q))"

lemma verify_s3_body_None:
  assumes "verify_s3_body io sha q = None"
  shows "\<exists>output body. s3_get io = Some output \<and> go_body output = Some body \<and>
    int (length body) = pq_size q \<and> sha body = pq_sha256 q"
proof -
  obtain got body where o: "s3_get io = Some got" "go_body got = Some body"
    and ok: "int (length (take (nat (pq_size q)) body)) = pq_size q" "take 1 (drop (nat (pq_size q)) body) = []"
      "sha (take (nat (pq_size q)) body) = pq_sha256 q"
    using assms by (auto simp: verify_s3_body_def Let_def split: option.splits if_splits)
  from ok(2) have "length body \<le> nat (pq_size q)" by simp
  with ok have "take (nat (pq_size q)) body = body" by simp
  with o ok show ?thesis by auto
qed

lemma verify_s3_Inr:
  "verify_s3 io sha checksum_of q created = Inr ob \<Longrightarrow>
   s3_matches io sha checksum_of q \<and> (\<exists>at etag version. ob = new_object ''s3'' q at etag version created)"
  by (auto simp: verify_s3_def s3_matches_def Let_def split: option.splits if_splits dest!: verify_s3_body_None)

lemma s3_put_loop_attempts: "attempt \<le> max_put_attempts \<Longrightarrow> snd (s3_put_loop attempt io sha checksum_of q) \<le> max_put_attempts"
proof (induction attempt io sha checksum_of q rule: s3_put_loop.induct)
  case (1 attempt io sha checksum_of q)
  show ?case
    by (subst s3_put_loop.simps)
      (use 1 in \<open>auto simp: Let_def split: sum.splits option.splits s3_class.splits prod.splits\<close>)
qed

lemma s3_put_loop_Inr:
  "fst (s3_put_loop attempt io sha checksum_of q) = Inr ob \<Longrightarrow>
   (\<exists>n etag version at. n < max_put_attempts \<and> pc_open (s3_puts io n) = None \<and> pc_result (s3_puts io n) = Inr (etag, version) \<and>
      ob = new_object ''s3'' q at etag version (Some True)) \<or>
   s3_matches io sha checksum_of q \<and>
     (\<exists>at etag version. ob = new_object ''s3'' q at etag version (Some False) \<or> ob = new_object ''s3'' q at etag version None)"
proof (induction attempt io sha checksum_of q rule: s3_put_loop.induct)
  case (1 attempt io sha checksum_of q)
  let ?call = "s3_puts io attempt"
  note R = 1(2) [unfolded s3_put_loop.simps [of attempt]]
  show ?case
  proof (cases "attempt < max_put_attempts \<and> pc_open ?call = None \<and> (\<exists>x. pc_result ?call = Inr x)")
    case True
    then obtain etag version where ok: "pc_result ?call = Inr (etag, version)" by auto
    with True R have "ob = new_object ''s3'' q (s3_now io) etag version (Some True)" by (simp add: Let_def)
    with ok True show ?thesis by blast
  next
    case False
    then show ?thesis
      using R 1(1)
      by (auto simp: Let_def split: if_splits sum.splits option.splits s3_class.splits dest!: verify_s3_Inr)
  qed
qed

end
