(* ===== verification/IngestStores.thy ===== *)
theory IngestStores
  imports IngestLife GtfsFetch LocalStore S3Store
begin

text \<open>
  The two repositories are the stores of the two services: the contracts of \<open>IngestLife\<close> are
  interpreted on them. The object stores share a contract too, which is what \<open>recordArchive\<close>
  relies on.
\<close>

section \<open>The alert repository\<close>

text \<open>What the transactions of one pass meet.\<close>

record alert_store_io =
  ai_start :: tx_io
  ai_record :: tx_io
  ai_fail :: tx_io
  ai_complete :: tx_io

definition alert_repository :: "repo_env \<Rightarrow> alert_store_io \<Rightarrow> db alert_store" where
  "alert_repository env io =
     \<lparr>as_start = start_alert_run (ai_start io), as_record = record_alert_archive (ai_record io),
      as_fail = fail_alert_run_with_failure env (ai_fail io), as_complete = complete_alert_run env (ai_complete io)\<rparr>"

lemma failed_run_status:
  assumes run: "fail_alert_run_with_failure env io k fetch summary f db = (Inr u, db')" and inv: "db_inv db"
  shows "run_status_of k db' = Some Failed"
proof -
  let ?p = "\<lambda>r. at_id r = k \<and> at_status r = Running"
  let ?f = "fail_run_row env fetch summary f (io_now io)"
  obtain n where a: "auto_commit io (Wrapf ''mark service-alert ingestion run %d failed: %w'' [AInt k]) (update_runs ?p ?f) db = (Inr n, db')"
    and n: "n = 1"
    using run by (auto simp: fail_alert_run_with_failure_def require_one_row_def fail_tx_def split: prod.splits sum.splits if_splits)
  note U = update_runs_Inr [OF auto_commit_Inr [OF a]]
  have "affected ?p (db_runs db) = 1" using U(2) n by simp
  then have "\<exists>r \<in> set (db_runs db). ?p r" by (rule affected_one_ex)
  then obtain r where r: "r \<in> set (db_runs db)" "?p r" by blast
  have "db_runs db' = upd_where ?p ?f (db_runs db)" by (subst U(1)) simp
  then have "(if ?p r then ?f r else r) \<in> set (db_runs db')" by (simp only: set_upd_where) (rule imageI [OF r(1)])
  with r(2) have mem: "?f r \<in> set (db_runs db')" by simp
  have "runs_inv db'" using fail_step [OF run inv] by (simp add: db_inv_def)
  from run_status_of_mem [OF this mem] r(2) show ?thesis by (simp add: fail_run_row_def)
qed

lemma completed_run_status:
  assumes "complete_alert_run env io k fetch summary db = (Inr skipped, db')" and "db_inv db"
  shows "run_status_of k db' = Some (if skipped then Skipped else Succeeded)"
proof -
  have I: "runs_inv db" "alerts_inv db" using assms(2) by (simp_all add: db_inv_def)
  from complete_alert_run_Inr [OF assms(1) I] obtain ts at s where
    body: "complete_body env (io_now io) k fetch summary ts (sha256_hex env (fr_body fetch)) at
       \<lparr>se_db = db, se_faults = io_faults io\<rparr> = (Inr skipped, s)" and "db' = se_db s" by blast
  with complete_body_status(2) [OF body I] show ?thesis by simp
qed

interpretation alert_store: alert_ingest db_inv run_status_of "alert_repository env io" for env io
proof unfold_locales
  fix db db' assume inv: "db_inv db"
  show "db_inv db'" if "as_start (alert_repository env io) src db = (k, db')" for src k
    using start_step [of "ai_start io" src db k db'] that inv by (simp add: alert_repository_def)
  show "db_inv db'" if "as_record (alert_repository env io) i obj db = (u, db')" for i obj u
    using record_step [of "ai_record io" i obj db u db'] that inv by (simp add: alert_repository_def)
  show "db_inv db'" if "(case f of (fetch, summary, f) \<Rightarrow> as_fail (alert_repository env io) i fetch summary f) db = (u, db')" for i f u
    using fail_step [of env "ai_fail io" i _ _ _ db u db'] that inv by (simp add: alert_repository_def split: prod.splits)
  show "run_status_of i db' = Some Failed"
    if "(case f of (fetch, summary, f) \<Rightarrow> as_fail (alert_repository env io) i fetch summary f) db = (Inr u, db')" for i f u
    using failed_run_status [of env "ai_fail io" i _ _ _ db u db'] that inv by (simp add: alert_repository_def split: prod.splits)
  show "db_inv db'" if "as_complete (alert_repository env io) i fetch summary db = (b, db')" for i fetch summary b
    using complete_step [of env "ai_complete io" i fetch summary db b db'] that inv by (simp add: alert_repository_def)
  show "run_status_of i db' = Some (if skipped then Skipped else Succeeded)"
    if "as_complete (alert_repository env io) i fetch summary db = (Inr skipped, db')" for i fetch summary skipped
    using completed_run_status [of env "ai_complete io" i fetch summary db skipped db'] that inv by (simp add: alert_repository_def)
qed

section \<open>The GTFS repository\<close>

record gtfs_store_io =
  gi_start :: tx_io
  gi_record :: tx_io
  gi_skip :: tx_io
  gi_complete :: tx_io
  gi_fail :: tx_io

definition gtfs_repository :: "repo_env \<Rightarrow> gtfs_store_io \<Rightarrow> db gtfs_store" where
  "gtfs_repository env io =
     \<lparr>gs_start = start_import (gi_start io), gs_record = record_gtfs_archive (gi_record io),
      gs_skip = skip_if_imported (gi_skip io), gs_complete = complete_import (gi_complete io),
      gs_fail = fail_import_with_failure env (gi_fail io)\<rparr>"

lemma failed_import_status:
  assumes run: "fail_import_with_failure env io k d f db = (Inr u, db')" and inv: "gtfs_inv db"
  shows "import_status_of k db' = Some Failed"
proof -
  let ?p = "\<lambda>r. at_id r = k \<and> at_status r = Running"
  let ?f = "fail_import_row env d f (io_now io)"
  obtain n where a: "auto_commit io (Wrapf ''mark GTFS import %d failed: %w'' [AInt k]) (update_imports ?p ?f) db = (Inr n, db')"
    and n: "n = 1"
    using run by (auto simp: fail_import_with_failure_def require_one_row_def fail_tx_def split: prod.splits sum.splits if_splits)
  note U = update_imports_Inr [OF auto_commit_Inr [OF a]]
  have "affected ?p (db_imports db) = 1" using U(2) n by simp
  then have "\<exists>r \<in> set (db_imports db). ?p r" by (rule affected_one_ex)
  then obtain r where r: "r \<in> set (db_imports db)" "?p r" by blast
  have "db_imports db' = upd_where ?p ?f (db_imports db)" by (subst U(1)) simp
  then have "(if ?p r then ?f r else r) \<in> set (db_imports db')" by (simp only: set_upd_where) (rule imageI [OF r(1)])
  with r(2) have mem: "?f r \<in> set (db_imports db')" by simp
  have "imports_inv db'" using fail_import_step [OF run inv] by (simp add: gtfs_inv_def)
  from import_status_of_mem [OF this mem] r(2) show ?thesis
    by (simp add: fail_import_row_def download_columns_def split: option.splits)
qed

lemma completed_import_status:
  assumes "complete_import io k d ds db = (Inr skipped, db')" and "gtfs_inv db"
  shows "import_status_of k db' = Some (if skipped then Skipped else Succeeded)"
proof -
  have I: "imports_inv db" using assms(2) by (simp add: gtfs_inv_def)
  from complete_import_result [OF assms(1) I] obtain s where
    body: "import_body (io_now io) k d ds \<lparr>se_db = db, se_faults = io_faults io\<rparr> = (Inr skipped, s)" and "db' = se_db s"
    by (auto simp: committed_import_def)
  with import_body_status(2) [OF body I] show ?thesis by simp
qed

lemma skipped_import_status:
  assumes "skip_if_imported io k d db = (Inr True, db')" and "gtfs_inv db"
  shows "import_status_of k db' = Some Skipped"
proof -
  have I: "imports_inv db" using assms(2) by (simp add: gtfs_inv_def)
  from skip_if_imported_result [OF assms(1) I] obtain s where
    body: "skip_body (io_now io) k d \<lparr>se_db = db, se_faults = io_faults io\<rparr> = (Inr True, s)" and "db' = se_db s" by auto
  with skip_body_status(2) [OF body I] show ?thesis by simp
qed

interpretation gtfs_store: gtfs_ingest gtfs_inv import_status_of "gtfs_repository env io" for env io
proof unfold_locales
  fix db db' assume inv: "gtfs_inv db"
  show "gtfs_inv db'" if "gs_start (gtfs_repository env io) src db = (k, db')" for src k
    using start_import_step [of "gi_start io" src db k db'] that inv by (simp add: gtfs_repository_def)
  show "gtfs_inv db'" if "gs_record (gtfs_repository env io) i obj db = (u, db')" for i obj u
    using record_import_step [of "gi_record io" i obj db u db'] that inv by (simp add: gtfs_repository_def)
  show "gtfs_inv db'" if "(case f of (d, f) \<Rightarrow> gs_fail (gtfs_repository env io) i d f) db = (u, db')" for i f u
    using fail_import_step [of env "gi_fail io" i _ _ db u db'] that inv by (simp add: gtfs_repository_def split: prod.splits)
  show "import_status_of i db' = Some Failed"
    if "(case f of (d, f) \<Rightarrow> gs_fail (gtfs_repository env io) i d f) db = (Inr u, db')" for i f u
    using failed_import_status [of env "gi_fail io" i _ _ db u db'] that inv by (simp add: gtfs_repository_def split: prod.splits)
  show "gtfs_inv db'" if "gs_skip (gtfs_repository env io) i d db = (b, db')" for i d b
    using skip_import_step [of "gi_skip io" i d db b db'] that inv by (simp add: gtfs_repository_def)
  show "import_status_of i db' = Some Skipped" if "gs_skip (gtfs_repository env io) i d db = (Inr True, db')" for i d
    using skipped_import_status [of "gi_skip io" i d db db'] that inv by (simp add: gtfs_repository_def)
  show "gtfs_inv db'" if "gs_complete (gtfs_repository env io) i d ds db = (b, db')" for i d ds b
    using complete_import_step [of "gi_complete io" i d ds db b db'] that inv by (simp add: gtfs_repository_def)
  show "import_status_of i db' = Some (if skipped then Skipped else Succeeded)"
    if "gs_complete (gtfs_repository env io) i d ds db = (Inr skipped, db')" for i d ds skipped
    using completed_import_status [of "gi_complete io" i d ds db skipped db'] that inv by (simp add: gtfs_repository_def)
qed

section \<open>The object stores\<close>

text \<open>What a returned object says, for any store.\<close>

locale object_store =
  fixes put :: "put_request \<Rightarrow> 'o \<Rightarrow> storage_object result \<times> 'o"
  assumes put_valid: "put q w = (Inr ob, w') \<Longrightarrow> validate_request q = None"
    and put_describes: "put q w = (Inr ob, w') \<Longrightarrow>
      ob_backend ob \<noteq> [] \<and> ob_key ob = pq_key q \<and> ob_size ob = pq_size q \<and> ob_sha256 ob = pq_sha256 q"
begin

text \<open>\<open>recordArchive\<close> accepts the metadata of every object a store returns, up to its time.\<close>

lemma metadata_accepted:
  assumes "put q w = (Inr ob, w')"
  shows "\<not> (ob_backend ob = [] \<or> ob_key ob = [] \<or> ob_size ob < 0 \<or> \<not> hash_pattern (ob_sha256 ob)) \<and> validate_key (ob_key ob) = None"
  using put_valid [OF assms] put_describes [OF assms]
  by (auto simp: validate_request_def validate_key_def split: option.splits if_splits)

end

interpretation local_objects: object_store "local_put io sha" for io sha
proof unfold_locales
  fix q fs fs' ob assume run: "local_put io sha q fs = (Inr ob, fs')"
  then show "validate_request q = None" by (auto simp: local_put_def split: option.splits)
  from run show "ob_backend ob \<noteq> [] \<and> ob_key ob = pq_key q \<and> ob_size ob = pq_size q \<and> ob_sha256 ob = pq_sha256 q"
  proof (cases rule: local_put_cases)
    case early
    from verify_local_Some [OF early(2) [OF refl]] show ?thesis by (simp add: new_object_def)
  next
    case (written temp closed r1 fs1)
    have "r1 = Inr ob" using finish_local_files(2) [OF written(4) refl] by simp
    with written(3) show ?thesis
    proof (cases rule: write_local_cases)
      case (complete source content)
      from complete(6) show ?thesis
      proof (cases rule: publish_local_cases)
        case existing
        from verify_local_Some [OF existing(2)] \<open>r1 = Inr ob\<close> show ?thesis by (auto simp: new_object_def)
      qed (use \<open>r1 = Inr ob\<close> in \<open>auto simp: new_object_def\<close>)
    qed simp
  qed
qed

interpretation s3_objects: object_store "\<lambda>q n. case s3_put io sha checksum_of q of (r, made) \<Rightarrow> (r, n + made)" for io sha checksum_of
proof unfold_locales
  fix q ob and n n' :: nat
  assume run: "(case s3_put io sha checksum_of q of (r, made) \<Rightarrow> (r, n + made)) = (Inr ob, n')"
  then show valid: "validate_request q = None" by (auto simp: s3_put_def split: option.splits)
  with run have "fst (s3_put_loop 0 io sha checksum_of q) = Inr ob" by (auto simp: s3_put_def split: prod.splits)
  from s3_put_loop_Inr [OF this]
  show "ob_backend ob \<noteq> [] \<and> ob_key ob = pq_key q \<and> ob_size ob = pq_size q \<and> ob_sha256 ob = pq_sha256 q"
    by (auto simp: new_object_def)
qed

end
