(* ===== verification/RealtimeClient.thy ===== *)
theory RealtimeClient
  imports AlertRepo "HOL-Library.Word"
begin

text \<open>
  \<open>Client.FetchAlerts\<close> of \<open>internal/realtime/client.go\<close>: a request that is repeated after
  retryable failures, with delays that double. What every attempt meets (the response, the
  state of the context, the end of the wait) is a parameter, and so is \<open>mime.ParseMediaType\<close>.
  The model records the delays and the number of requests.
\<close>

definition max_payload_bytes :: nat where
  "max_payload_bytes = 33554432"

definition max_error_bytes :: nat where
  "max_error_bytes = 4096"

record client =
  cl_http :: bool
  cl_url :: string
  cl_key :: string
  cl_header :: string
  cl_max_attempts :: int
  cl_delay :: duration

record alert_response =
  hp_status :: int
  hp_content_type :: string
  hp_body :: string
  hp_read_error :: "go_error option"

record attempt_io =
  hx_request :: "go_error option"
  hx_response :: "alert_response result"
  hx_ctx_do :: "go_error option"
  hx_ctx :: "go_error option"
  hx_wait :: "go_error option"
  hx_retrieved :: instant

definition retryable_http_status :: "int \<Rightarrow> bool" where
  "retryable_http_status status = (status \<in> {408, 429, 500, 502, 503, 504})"

definition validate_protobuf_content_type :: "(string \<Rightarrow> string result) \<Rightarrow> string \<Rightarrow> go_error option" where
  "validate_protobuf_content_type media_type v =
     (if v = [] then None
      else (case media_type v of
              Inl e \<Rightarrow> Some (Wrapf ''invalid service-alert content type %q: %w'' [AStr v] e)
            | Inr m \<Rightarrow>
                if m \<in> {''application/octet-stream'', ''application/protobuf'', ''application/x-protobuf'',
                        ''application/vnd.google.protobuf''} then None
                else Some (Errorf ''unexpected service-alert content type %q'' [AStr v])))"

text \<open>One request: the result and whether it may be repeated.\<close>

definition fetch_alerts_once :: "(string \<Rightarrow> string result) \<Rightarrow> attempt_io \<Rightarrow> fetch_result result \<times> bool" where
  "fetch_alerts_once media_type io =
     (case hx_request io of
        Some e \<Rightarrow> (Inl (Wrapf ''create service-alert request: %w'' [] e), False)
      | None \<Rightarrow>
     (case hx_response io of
        Inl e \<Rightarrow> (Inl (Wrapf ''fetch service alerts: %w'' [] e), hx_ctx_do io = None)
      | Inr r \<Rightarrow>
        if hp_status r < 200 \<or> hp_status r \<ge> 300
        then (Inl (Errorf ''fetch service alerts: HTTP %d: %s''
                [AInt (hp_status r), AStr (trim_space (take max_error_bytes (hp_body r)))]), retryable_http_status (hp_status r))
        else
     (case validate_protobuf_content_type media_type (hp_content_type r) of
        Some e \<Rightarrow> (Inl e, False)
      | None \<Rightarrow>
     (case hp_read_error r of
        Some e \<Rightarrow> (Inl (Wrapf ''read service-alert response: %w'' [] e), False)
      | None \<Rightarrow>
        let body = take (max_payload_bytes + 1) (hp_body r)
        in if length body > max_payload_bytes
           then (Inl (Errorf ''service-alert response exceeds %d bytes'' [AInt (int max_payload_bytes)]), False)
           else if body = [] then (Inl (Errorf ''service-alert response is empty'' []), False)
           else (Inr \<lparr>fr_body = body, fr_status = hp_status r, fr_content_type = hp_content_type r,
                   fr_retrieved = hx_retrieved io\<rparr>, False)))))"

text \<open>\<open>c.RetryDelay*time.Duration(1<<(attempt-1))\<close> in 64 bits.\<close>

definition retry_delay :: "duration \<Rightarrow> nat \<Rightarrow> duration" where
  "retry_delay delay attempt = sint (word_of_int delay * push_bit (attempt - 1) 1 :: 64 word)"

text \<open>
  The loop from attempt \<open>attempt\<close> on: the result, the delays waited for and the number of the
  last attempt. \<open>None\<close> is the panic after the loop.
\<close>

function fetch_loop ::
    "client \<Rightarrow> (string \<Rightarrow> string result) \<Rightarrow> (nat \<Rightarrow> attempt_io) \<Rightarrow> nat \<Rightarrow> nat \<Rightarrow>
     (fetch_result result \<times> duration list \<times> nat) option" where
  "fetch_loop c media_type io attempts attempt =
     (if attempt > attempts then None
      else
        (case fetch_alerts_once media_type (io attempt) of
           (res, retryable) \<Rightarrow>
             if is_ok res \<or> \<not> retryable \<or> attempt = attempts \<or> hx_ctx (io attempt) \<noteq> None
             then Some (res, [], attempt)
             else
               let delay = retry_delay (cl_delay c) attempt
               in (case hx_wait (io attempt) of
                     Some e \<Rightarrow> Some (Inl (Wrapf ''fetch service alerts: %w'' [] e), [delay], attempt)
                   | None \<Rightarrow>
                       map_option (\<lambda>(r, delays, n). (r, delay # delays, n))
                         (fetch_loop c media_type io attempts (attempt + 1)))))"
  by pat_completeness auto

termination
  by (relation "measure (\<lambda>(_, _, _, attempts, attempt). attempts + 1 - attempt)") auto

declare fetch_loop.simps [simp del]

definition fetch_alerts ::
    "client \<Rightarrow> (string \<Rightarrow> string result) \<Rightarrow> (nat \<Rightarrow> attempt_io) \<Rightarrow> (fetch_result result \<times> duration list \<times> nat) option" where
  "fetch_alerts c media_type io =
     (if \<not> cl_http c then Some (Inl (Errorf ''HTTP client is required'' []), [], 0)
      else if cl_url c = [] then Some (Inl (Errorf ''alerts URL is required'' []), [], 0)
      else if cl_key c = [] then Some (Inl (Errorf ''API key is required'' []), [], 0)
      else if cl_header c = [] then Some (Inl (Errorf ''API key header is required'' []), [], 0)
      else fetch_loop c media_type io (if cl_max_attempts c < 1 then 1 else nat (cl_max_attempts c)) 1)"

section \<open>What is returned\<close>

text \<open>The attempt failed and the loop goes on after it.\<close>

definition repeats :: "(string \<Rightarrow> string result) \<Rightarrow> attempt_io \<Rightarrow> bool" where
  "repeats media_type io \<longleftrightarrow>
     (case fetch_alerts_once media_type io of (res, retryable) \<Rightarrow> \<not> is_ok res \<and> retryable) \<and> hx_ctx io = None \<and> hx_wait io = None"

text \<open>
  The loop stops at the first attempt that does not repeat, or at the last, and returns what
  that attempt returned, unless the wait after it was cut short.
\<close>

lemma fetch_loop_spec:
  assumes "attempt \<le> attempts"
  shows "\<exists>r delays n. fetch_loop c media_type io attempts attempt = Some (r, delays, n) \<and>
    attempt \<le> n \<and> n \<le> attempts \<and> (\<forall>m \<in> {attempt ..< n}. repeats media_type (io m)) \<and>
    (r = fst (fetch_alerts_once media_type (io n)) \<and> delays = map (retry_delay (cl_delay c)) [attempt ..< n] \<and>
       (n < attempts \<longrightarrow> \<not> repeats media_type (io n)) \<or>
     (\<exists>e. hx_wait (io n) = Some e \<and> r = Inl (Wrapf ''fetch service alerts: %w'' [] e) \<and>
       delays = map (retry_delay (cl_delay c)) [attempt ..< Suc n] \<and> n < attempts))"
  using assms
proof (induction c media_type io attempts attempt rule: fetch_loop.induct)
  case (1 c media_type io attempts attempt)
  obtain res retryable where once: "fetch_alerts_once media_type (io attempt) = (res, retryable)" by fastforce
  let ?stop = "is_ok res \<or> \<not> retryable \<or> attempt = attempts \<or> hx_ctx (io attempt) \<noteq> None"
  note step = fetch_loop.simps [of c media_type io attempts attempt]
  consider (stop) ?stop | (cut) e where "\<not> ?stop" "hx_wait (io attempt) = Some e"
    | (go_on) "\<not> ?stop" "hx_wait (io attempt) = None" by (cases "hx_wait (io attempt)") blast+
  then show ?case
  proof cases
    case stop
    then have "fetch_loop c media_type io attempts attempt = Some (res, [], attempt)"
      using 1(2) once by (subst step) simp
    moreover have "attempt < attempts \<longrightarrow> \<not> repeats media_type (io attempt)"
      using stop once by (auto simp: repeats_def)
    ultimately show ?thesis
      using 1(2) once by (intro exI [of _ res] exI [of _ "[]"] exI [of _ attempt]) simp
  next
    case (cut e)
    then have "fetch_loop c media_type io attempts attempt =
        Some (Inl (Wrapf ''fetch service alerts: %w'' [] e), [retry_delay (cl_delay c) attempt], attempt)"
      using 1(2) once by (subst step) (simp add: Let_def)
    with cut 1(2) show ?thesis
      by (intro exI [of _ "Inl (Wrapf ''fetch service alerts: %w'' [] e)"] exI [of _ "[retry_delay (cl_delay c) attempt]"]
          exI [of _ attempt]) auto
  next
    case go_on
    with 1(2) have le: "attempt + 1 \<le> attempts" by auto
    have "\<not> attempts < attempt" using 1(2) by simp
    from 1(1) [OF this once [symmetric] go_on(1) refl go_on(2) le] obtain r delays n where
      rec: "fetch_loop c media_type io attempts (attempt + 1) = Some (r, delays, n)" and n: "attempt + 1 \<le> n" "n \<le> attempts"
      and before: "\<forall>m \<in> {attempt + 1 ..< n}. repeats media_type (io m)"
      and ends: "r = fst (fetch_alerts_once media_type (io n)) \<and> delays = map (retry_delay (cl_delay c)) [attempt + 1 ..< n] \<and>
          (n < attempts \<longrightarrow> \<not> repeats media_type (io n)) \<or>
        (\<exists>e. hx_wait (io n) = Some e \<and> r = Inl (Wrapf ''fetch service alerts: %w'' [] e) \<and>
          delays = map (retry_delay (cl_delay c)) [attempt + 1 ..< Suc n] \<and> n < attempts)" by blast
    have "fetch_loop c media_type io attempts attempt = Some (r, retry_delay (cl_delay c) attempt # delays, n)"
      using 1(2) once go_on rec by (subst step) (simp add: Let_def)
    moreover have "repeats media_type (io attempt)" using go_on once by (simp add: repeats_def)
    with before have "\<forall>m \<in> {attempt ..< n}. repeats media_type (io m)" by (metis Suc_eq_plus1 Suc_leI atLeastLessThan_iff le_neq_implies_less)
    moreover have "[attempt ..< n] = attempt # [attempt + 1 ..< n]" "[attempt ..< Suc n] = attempt # [attempt + 1 ..< Suc n]"
      using n by (simp_all add: upt_conv_Cons del: upt_Suc)
    ultimately show ?thesis
      using n ends by (intro exI [of _ r] exI [of _ "retry_delay (cl_delay c) attempt # delays"] exI [of _ n]) auto
  qed
qed

text \<open>Without overflow the delays double.\<close>

lemma retry_delay_doubles:
  assumes "0 \<le> delay" and "delay * 2 ^ (attempt - 1) < 2 ^ 63"
  shows "retry_delay delay attempt = delay * 2 ^ (attempt - 1)"
proof -
  have "retry_delay delay attempt = sint (word_of_int (delay * 2 ^ (attempt - 1)) :: 64 word)"
    by (simp add: retry_delay_def push_bit_eq_mult)
  also have "\<dots> = signed_take_bit 63 (delay * 2 ^ (attempt - 1))" by (subst sint_sbintrunc') (simp del: of_int_mult)
  also have "\<dots> = delay * 2 ^ (attempt - 1)"
  proof (rule signed_take_bit_int_eq_self)
    have "0 \<le> delay * 2 ^ (attempt - 1)" using assms(1) by simp
    then show "- (2 ^ 63) \<le> delay * 2 ^ (attempt - 1)" by simp
  qed (use assms(2) in simp)
  finally show ?thesis .
qed

lemma retry_delays:
  assumes "i < m"
  shows "map (retry_delay delay) [1 ..< Suc m] ! i = sint (word_of_int (delay * 2 ^ i) :: 64 word)"
    and "0 \<le> delay \<Longrightarrow> delay * 2 ^ i < 2 ^ 63 \<Longrightarrow> map (retry_delay delay) [1 ..< Suc m] ! i = delay * 2 ^ i"
proof -
  have nth: "map (retry_delay delay) [1 ..< Suc m] ! i = retry_delay delay (Suc i)" using assms by (simp del: upt_Suc)
  then show "map (retry_delay delay) [1 ..< Suc m] ! i = sint (word_of_int (delay * 2 ^ i) :: 64 word)"
    by (simp add: retry_delay_def push_bit_eq_mult)
  show "map (retry_delay delay) [1 ..< Suc m] ! i = delay * 2 ^ i" if "0 \<le> delay" "delay * 2 ^ i < 2 ^ 63"
    unfolding nth using retry_delay_doubles [of delay "Suc i"] that by simp
qed

lemma fetch_once_ok:
  "fetch_alerts_once media_type io = (Inr f, retryable) \<Longrightarrow>
   fr_body f \<noteq> [] \<and> length (fr_body f) \<le> max_payload_bytes \<and> 200 \<le> fr_status f \<and> fr_status f < 300 \<and>
   (\<exists>r. hx_response io = Inr r \<and> fr_body f = hp_body r \<and> hp_read_error r = None \<and> fr_status f = hp_status r)"
  by (auto simp: fetch_alerts_once_def Let_def split: option.splits sum.splits if_splits)

end
