(* ===== verification/RealtimeDecode.thy ===== *)
theory RealtimeDecode
  imports AlertRepo Storage
begin

text \<open>
  \<open>DecodeAlerts\<close> of \<open>internal/realtime/decode.go\<close>. The generated protobuf types and the wire
  format are not part of the repository: a message is a record of the fields the code reads
  (\<open>None\<close> where a proto2 field is not set, so a getter is the default), its reflection is a
  tree of unknown bytes and populated message fields, and unmarshalling, the names of the enum
  values, the iteration order of maps and SHA-256 are parameters.
\<close>

section \<open>Messages\<close>

datatype pmessage = PMessage string "(nat \<times> pfield) list"
  and pfield = PScalar | PSub pmessage | PList "pmessage list" | PMap "(string \<times> pmessage) list"

record pb_translation =
  pt_text :: "string option"
  pt_language :: "string option"

record pb_period =
  pp_start :: "nat option"
  pp_end :: "nat option"

record pb_trip =
  pq_trip_id :: "string option"
  pq_route_id :: "string option"
  pq_start_time :: "string option"
  pq_start_date :: "string option"
  pq_direction :: "nat option"
  pq_schedule :: "int option"

record pb_selector =
  ps_agency :: "string option"
  ps_route :: "string option"
  ps_route_type :: "int option"
  ps_stop :: "string option"
  ps_direction :: "nat option"
  ps_trip :: "pb_trip option"

record pb_alert =
  pa_header :: "pb_translation list option"
  pa_description :: "pb_translation list option"
  pa_url :: "pb_translation list option"
  pa_cause :: "int option"
  pa_effect :: "int option"
  pa_severity :: "int option"
  pa_periods :: "pb_period list"
  pa_selectors :: "pb_selector list"

record pb_entity =
  pe_id :: "string option"
  pe_deleted :: "bool option"
  pe_alert :: "pb_alert option"
  pe_reflect :: pmessage

record pb_header =
  ph_version :: "string option"
  ph_incrementality :: "int option"
  ph_timestamp :: "nat option"

record pb_feed =
  pf_header :: "pb_header option"
  pf_entities :: "pb_entity list"
  pf_reflect :: pmessage

record decode_env =
  de_unmarshal :: "string \<Rightarrow> pb_feed result"
  de_enum :: "string \<Rightarrow> int \<Rightarrow> string"
  de_map_order :: "(string \<times> string list) list \<Rightarrow> (string \<times> string list) list"
  de_sha256 :: "string \<Rightarrow> string"

text \<open>The getter of a string field.\<close>

definition get_str :: "string option \<Rightarrow> string" where
  "get_str s = (case s of None \<Rightarrow> [] | Some x \<Rightarrow> x)"

section \<open>Unknown fields\<close>

fun count_unknown :: "pmessage \<Rightarrow> nat" and count_field :: "pfield \<Rightarrow> nat" where
  "count_unknown (PMessage unknown fs) = length unknown + sum_list (map (\<lambda>(_, f). count_field f) fs)"
| "count_field PScalar = 0"
| "count_field (PSub m) = count_unknown m"
| "count_field (PList ms) = sum_list (map count_unknown ms)"
| "count_field (PMap kms) = sum_list (map (\<lambda>(_, m). count_unknown m) kms)"

text \<open>\<open>hex.EncodeToString\<close> of a byte string, \<open>strconv.Itoa\<close> of a field number.\<close>

definition hex_encode :: "string \<Rightarrow> string" where
  "hex_encode s = map char_of (concat (map (\<lambda>c. [hex_digit (ord c div 16), hex_digit (ord c mod 16)]) s))"

text \<open>
  The records with their paths. The loop over the fields is in the order of the descriptor; the
  entries of a map contribute in the order of its iteration.
\<close>

fun collect_unknown :: "decode_env \<Rightarrow> string \<Rightarrow> pmessage \<Rightarrow> string list"
  and collect_field :: "decode_env \<Rightarrow> string \<Rightarrow> pfield \<Rightarrow> string list" where
  "collect_unknown env path (PMessage unknown fs) =
     (if unknown \<noteq> [] then [path @ '':'' @ hex_encode unknown] else []) @
     concat (map (\<lambda>(n, f). collect_field env (path @ ''.'' @ decimal n) f) fs)"
| "collect_field env path PScalar = []"
| "collect_field env path (PSub m) = collect_unknown env path m"
| "collect_field env path (PList ms) = concat (map (collect_unknown env (path @ ''[]'')) ms)"
| "collect_field env path (PMap kms) =
     concat (map snd (de_map_order env (map (\<lambda>(k, m). (k, collect_unknown env (path @ ''['' @ k @ '']'') m)) kms)))"

definition unknown_fields_sha256 :: "decode_env \<Rightarrow> string \<Rightarrow> pmessage \<Rightarrow> string" where
  "unknown_fields_sha256 env full_name m =
     (let records = collect_unknown env full_name m
      in if records = [] then []
         else de_sha256 env (concat (map (\<lambda>r. r @ [CHR 0x00]) (sort records))))"

section \<open>Summaries\<close>

definition translations_of :: "pb_translation list option \<Rightarrow> translation list" where
  "translations_of text =
     (case text of
        None \<Rightarrow> []
      | Some ts \<Rightarrow> map (\<lambda>t. \<lparr>tr_text = get_str (pt_text t), tr_language = get_str (pt_language t)\<rparr>) ts)"

text \<open>The layout \<open>time.RFC3339\<close> in UTC.\<close>

definition format_rfc3339 :: "civil_time \<Rightarrow> string" where
  "format_rfc3339 c = pad_int 4 (ct_year c) @ ''-'' @ pad_int 2 (ct_month c) @ ''-'' @ pad_int 2 (ct_day c) @ ''T'' @
     pad_int 2 (ct_hour c) @ '':'' @ pad_int 2 (ct_minute c) @ '':'' @ pad_int 2 (ct_second c) @ ''Z''"

definition timestamp_of :: "nat \<Rightarrow> timestamp" where
  "timestamp_of v =
     \<lparr>ts_unix = v, ts_utc = (if v \<le> max_int64 then format_rfc3339 (civil_time_of (go_unix v)) else [])\<rparr>"

definition summarize_selector :: "decode_env \<Rightarrow> pb_selector \<Rightarrow> informed_entity" where
  "summarize_selector env sel =
     (let item = \<lparr>ie_agency = get_str (ps_agency sel), ie_route = get_str (ps_route sel), ie_route_type = ps_route_type sel,
            ie_stop = get_str (ps_stop sel), ie_direction = ps_direction sel, ie_trip = [], ie_trip_route = [],
            ie_trip_start_time = [], ie_trip_start_date = [], ie_trip_direction = None, ie_trip_schedule = []\<rparr>
      in case ps_trip sel of
           None \<Rightarrow> item
         | Some trip \<Rightarrow>
             item\<lparr>ie_trip := get_str (pq_trip_id trip), ie_trip_route := get_str (pq_route_id trip),
               ie_trip_start_time := get_str (pq_start_time trip), ie_trip_start_date := get_str (pq_start_date trip),
               ie_trip_direction := pq_direction trip,
               ie_trip_schedule := (case pq_schedule trip of
                  None \<Rightarrow> [] | Some v \<Rightarrow> de_enum env ''TripDescriptor_ScheduleRelationship'' v)\<rparr>)"

definition summarize_alert :: "decode_env \<Rightarrow> pb_entity \<Rightarrow> pb_alert \<Rightarrow> alert_summary" where
  "summarize_alert env entity alert =
     \<lparr>al_entity_id = get_str (pe_id entity), al_deleted = (pe_deleted entity = Some True),
      al_cause = map_option (de_enum env ''Alert_Cause'') (pa_cause alert),
      al_effect = map_option (de_enum env ''Alert_Effect'') (pa_effect alert),
      al_severity = map_option (de_enum env ''Alert_SeverityLevel'') (pa_severity alert),
      al_header = translations_of (pa_header alert), al_description = translations_of (pa_description alert),
      al_url = translations_of (pa_url alert),
      al_periods = map (\<lambda>p. \<lparr>ap_start = map_option timestamp_of (pp_start p), ap_end = map_option timestamp_of (pp_end p)\<rparr>)
        (pa_periods alert),
      al_entities = map (summarize_selector env) (pa_selectors alert),
      al_unknown_bytes = int (count_unknown (pe_reflect entity)),
      al_unknown_hash = unknown_fields_sha256 env ''transit_realtime.FeedEntity'' (pe_reflect entity)\<rparr>"

text \<open>The loop over the entities: the entities without an alert, and the alerts.\<close>

fun summarize_entities :: "decode_env \<Rightarrow> pb_entity list \<Rightarrow> nat \<times> alert_summary list" where
  "summarize_entities env [] = (0, [])"
| "summarize_entities env (entity # entities) =
     (case summarize_entities env entities of
        (n, alerts) \<Rightarrow>
          (case pe_alert entity of
             None \<Rightarrow> (n + 1, alerts)
           | Some alert \<Rightarrow> (n, summarize_alert env entity alert # alerts)))"

definition decode_alerts :: "decode_env \<Rightarrow> string \<Rightarrow> feed_summary result" where
  "decode_alerts env payload =
     (case de_unmarshal env payload of
        Inl e \<Rightarrow> Inl (Wrapf ''decode GTFS-Realtime feed: %w'' [] e)
      | Inr feed \<Rightarrow>
     (case pf_header feed of
        None \<Rightarrow> Inl (Errorf ''decode GTFS-Realtime feed: header is missing'' [])
      | Some header \<Rightarrow>
          (case summarize_entities env (pf_entities feed) of
             (others, alerts) \<Rightarrow>
               Inr \<lparr>fe_version = get_str (ph_version header),
                 fe_incrementality = de_enum env ''FeedHeader_Incrementality'' (case ph_incrementality header of None \<Rightarrow> 0 | Some v \<Rightarrow> v),
                 fe_timestamp = map_option timestamp_of (ph_timestamp header),
                 fe_entity_count = length (pf_entities feed), fe_alert_count = length alerts,
                 fe_non_alert_count = others, fe_unknown_bytes = count_unknown (pf_reflect feed),
                 fe_alerts = alerts\<rparr>)))"

section \<open>What a summary says\<close>

lemma summarize_entities_spec:
  "summarize_entities env es = (n, alerts) \<Longrightarrow>
   alerts = List.map_filter (\<lambda>e. map_option (summarize_alert env e) (pe_alert e)) es \<and> n + length alerts = length es"
  by (induction es arbitrary: n alerts)
    (auto simp: List.map_filter_simps split: prod.splits option.splits)

lemma get_str_nonempty: "hex_encode s \<noteq> [] \<longleftrightarrow> s \<noteq> []"
  by (cases s) (simp_all add: hex_encode_def)

text \<open>Records are collected exactly when there are unknown bytes.\<close>

definition fair_map_order :: "decode_env \<Rightarrow> bool" where
  "fair_map_order env \<longleftrightarrow> (\<forall>xs. mset (de_map_order env xs) = mset xs)"

lemma fair_map_set: "fair_map_order env \<Longrightarrow> set (de_map_order env xs) = set xs"
  unfolding fair_map_order_def by (metis set_mset_mset)

lemma map_results_nil:
  "fair_map_order env \<Longrightarrow> concat (map snd (de_map_order env xs)) = [] \<longleftrightarrow> (\<forall>x \<in> set xs. snd x = [])"
  by (simp add: fair_map_set)

lemma sum_list_zero: "sum_list (map f xs) = (0 :: nat) \<longleftrightarrow> (\<forall>x \<in> set xs. f x = 0)"
  by (induction xs) auto

lemma collect_nil:
  "fair_map_order env \<Longrightarrow> collect_unknown env path m = [] \<longleftrightarrow> count_unknown m = 0"
  "fair_map_order env \<Longrightarrow> collect_field env path f = [] \<longleftrightarrow> count_field f = 0"
proof (induction env path m and env path f rule: collect_unknown_collect_field.induct)
  case (1 env path unknown fs)
  have "(\<forall>x \<in> set fs. collect_field env (path @ ''.'' @ decimal (fst x)) (snd x) = []) \<longleftrightarrow> (\<forall>x \<in> set fs. count_field (snd x) = 0)"
    using 1 by fastforce
  then show ?case by (simp add: sum_list_zero split_def) 
next
  case (4 env path ms)
  then show ?case by (simp add: sum_list_zero)
next
  case (5 env path kms)
  have "(\<forall>x \<in> set kms. collect_unknown env (path @ ''['' @ fst x @ '']'') (snd x) = []) \<longleftrightarrow> (\<forall>x \<in> set kms. count_unknown (snd x) = 0)"
    using 5 by fastforce
  then show ?case
    unfolding collect_field.simps count_field.simps map_results_nil [OF 5(2)] sum_list_zero by (simp add: split_def)
qed simp_all

text \<open>The multiset of the records does not depend on the iteration order of maps.\<close>

lemma mset_concat_results:
  assumes "fair_map_order env"
  shows "mset (concat (map snd (de_map_order env xs))) = mset (concat (map snd xs))"
proof -
  have "mset (concat (map snd ys)) = sum_mset (image_mset (\<lambda>x. mset (snd x)) (mset ys))" for ys :: "(string \<times> string list) list"
    by (induction ys) simp_all
  moreover have "mset (de_map_order env xs) = mset xs" using assms by (simp add: fair_map_order_def)
  ultimately show ?thesis by simp
qed

lemma mset_concat_cong:
  "(\<And>x. x \<in> set xs \<Longrightarrow> mset (f x) = mset (g x)) \<Longrightarrow> mset (concat (map f xs)) = mset (concat (map g xs))"
  by (induction xs) simp_all

lemma collect_order:
  "fair_map_order env \<Longrightarrow> fair_map_order env' \<Longrightarrow> mset (collect_unknown env path m) = mset (collect_unknown env' path m)"
  "fair_map_order env \<Longrightarrow> fair_map_order env' \<Longrightarrow> mset (collect_field env path f) = mset (collect_field env' path f)"
proof (induction env path m and env path f rule: collect_unknown_collect_field.induct)
  case (1 env path unknown fs)
  have "mset (concat (map (\<lambda>x. collect_field env (path @ ''.'' @ decimal (fst x)) (snd x)) fs)) =
      mset (concat (map (\<lambda>x. collect_field env' (path @ ''.'' @ decimal (fst x)) (snd x)) fs))"
    by (rule mset_concat_cong) (use 1 in \<open>fastforce\<close>)
  then show ?case by (simp add: split_def)
next
  case (4 env path ms)
  have "mset (concat (map (collect_unknown env (path @ ''[]'')) ms)) = mset (concat (map (collect_unknown env' (path @ ''[]'')) ms))"
    by (rule mset_concat_cong) (use 4 in simp)
  then show ?case by simp
next
  case (5 env path kms)
  have "mset (concat (map (\<lambda>x. collect_unknown env (path @ ''['' @ fst x @ '']'') (snd x)) kms)) =
      mset (concat (map (\<lambda>x. collect_unknown env' (path @ ''['' @ fst x @ '']'') (snd x)) kms))"
    by (rule mset_concat_cong) (use 5 in \<open>fastforce\<close>)
  then show ?case
    unfolding collect_field.simps mset_concat_results [OF 5(2)] mset_concat_results [OF 5(3)]
    by (simp add: split_def comp_def)
qed simp_all

lemma sort_mset: "mset xs = mset ys \<Longrightarrow> sort xs = sort (ys :: string list)"
  by (rule properties_for_sort) simp_all

lemma unknown_hash_order:
  assumes "fair_map_order (env\<lparr>de_map_order := f\<rparr>)" and "fair_map_order (env\<lparr>de_map_order := g\<rparr>)"
  shows "unknown_fields_sha256 (env\<lparr>de_map_order := f\<rparr>) name m = unknown_fields_sha256 (env\<lparr>de_map_order := g\<rparr>) name m"
proof -
  have m: "mset (collect_unknown (env\<lparr>de_map_order := f\<rparr>) name m) = mset (collect_unknown (env\<lparr>de_map_order := g\<rparr>) name m)"
    by (rule collect_order(1) [OF assms])
  from sort_mset [OF m] mset_eq_length [OF m] show ?thesis
    by (auto simp: unknown_fields_sha256_def Let_def)
qed

end
