(* ===== verification/ServiceProperties.thy ===== *)
theory ServiceProperties
  imports IngestStores RealtimeClient RealtimeDecode Samples
begin

text \<open>
  The promises of the services around the database: attempts are settled, temporary files are
  removed, stored objects are what was requested, the feed is fetched and decoded as specified.
\<close>

section \<open>Attempts\<close>

text \<open>C9: when \<open>AlertService.Run\<close> returns, the run it started is settled: without an error it
  succeeded or was skipped, as the result says, and with an error it failed, unless the error
  says that the outcome of a commit is unknown or that the failure could not be recorded.
  Whatever the feed, the object store and the statements did, the tables stay consistent.\<close>

theorem started_runs_are_settled:
  assumes "alert_run svc db obj = (res, err, db', obj')" and "db_inv db"
    and "av_store svc = alert_repository env io"
    and "start_alert_run (ai_start io) (av_source_url svc) db = (Inr k, db1)"
  shows "db_inv db' \<and> ar_run res = k \<and> settled (run_status_of k db') (ar_skipped res) err"
proof -
  have "as_start (alert_repository env io) (av_source_url svc) db = (Inr k, db1)"
    using assms(4) by (simp add: alert_repository_def)
  from alert_store.run_settles [OF assms(1,2,3) this] show ?thesis .
qed

definition sample_alert_io :: alert_store_io where
  "sample_alert_io = \<lparr>ai_start = quiet_io 1000, ai_record = quiet_io 2000, ai_fail = quiet_io 9000, ai_complete = quiet_io 9000\<rparr>"

definition sample_put :: "put_request \<Rightarrow> 'o \<Rightarrow> storage_object result \<times> 'o" where
  "sample_put q obj = (Inr (new_object ''local'' q 5000 [] [] (Some True)), obj)"

definition sample_alert_service :: "(db, unit) alert_service" where
  "sample_alert_service = \<lparr>av_source_url = ''src'', av_fetch = Inr (sample_fetch ''f1'' 10000),
     av_store = alert_repository sample_env sample_alert_io, av_put = sample_put,
     av_decode = (\<lambda>_. Inr (sample_feed [sample_alert ''a'' ''x''])), av_sha256 = (\<lambda>_. sample_hash)\<rparr>"

theorem started_runs_are_settled_witness:
  "\<exists>res err db' obj'. alert_run sample_alert_service empty_db () = (res, err, db', obj') \<and>
     settled (run_status_of 1 db') (ar_skipped res) err"
proof -
  obtain res err db' obj' where run: "alert_run sample_alert_service empty_db () = (res, err, db', obj')"
    by (metis prod_cases4)
  have "av_store sample_alert_service = alert_repository sample_env sample_alert_io"
    by (simp add: sample_alert_service_def)
  moreover obtain db1 where "start_alert_run (ai_start sample_alert_io) (av_source_url sample_alert_service) empty_db = (Inr 1, db1)"
    by (simp add: sample_alert_io_def start_alert_run_def insert_run_def empty_db_def tx_eval)
  ultimately show ?thesis using started_runs_are_settled [OF run db_inv_empty] run by blast
qed

text \<open>C10: when \<open>GTFSService.Run\<close> returns, the import it started is settled in the same sense.\<close>

theorem started_imports_are_settled:
  assumes "gtfs_run svc db obj fs = (res, err, db', obj', fs')" and "gtfs_inv db"
    and "gv_store svc = gtfs_repository env io"
    and "start_import (gi_start io) (gv_source_url svc) db = (Inr k, db1)"
  shows "gtfs_inv db' \<and> gr_import res = k \<and> settled (import_status_of k db') (gr_skipped res) err"
proof -
  have "gs_start (gtfs_repository env io) (gv_source_url svc) db = (Inr k, db1)"
    using assms(4) by (simp add: gtfs_repository_def)
  from gtfs_store.run_settles [OF assms(1,2,3) this] show ?thesis .
qed

definition sample_gtfs_io :: gtfs_store_io where
  "sample_gtfs_io = \<lparr>gi_start = quiet_io 1000, gi_record = quiet_io 2000, gi_skip = quiet_io 3000,
     gi_complete = quiet_io 9000, gi_fail = quiet_io 9000\<rparr>"

definition sample_response :: http_response where
  "sample_response = \<lparr>hr_status = 200, hr_length = 1, hr_content_type = [], hr_etag = [], hr_last_modified = [], hr_body = ''z''\<rparr>"

definition sample_fetch_env :: fetch_env where
  "sample_fetch_env = \<lparr>ft_client = True, ft_url = ''gtfs'', ft_request = None, ft_response = Inr sample_response,
     ft_media_type = (\<lambda>s. Inr s), ft_parse_time = (\<lambda>_. Inr 0), ft_sha256 = (\<lambda>_. sample_hash),
     ft_requested = 10000, ft_retrieved = 20000\<rparr>"

definition temp_at :: "string \<Rightarrow> temp_io" where
  "temp_at path = \<lparr>io_temp = Inr path, io_copy = None, io_close = None, io_remove = None\<rparr>"

definition refusing_gtfs :: gtfs_env where
  "refusing_gtfs = \<lparr>csv_reads = (\<lambda>_. []), zip_decode = (\<lambda>_. Inl (Errorf ''zip: not a valid zip file'' [])),
     parse_float = (\<lambda>_. None), unicode_upper = (\<lambda>s. s), map_order = (\<lambda>ks. ks)\<rparr>"

definition sample_gtfs_service :: "(db, unit) gtfs_service" where
  "sample_gtfs_service = \<lparr>gv_source_url = ''gtfs'', gv_fetch = gtfs_fetch sample_fetch_env (temp_at ''a''),
     gv_store = gtfs_repository sample_env sample_gtfs_io, gv_put = sample_put,
     gv_parse = parse_archive refusing_gtfs (temp_at ''b''), gv_stat = None, gv_remove = None\<rparr>"

theorem started_imports_are_settled_witness:
  "\<exists>res err db' obj' fs'. gtfs_run sample_gtfs_service empty_db () (\<lambda>_. None) = (res, err, db', obj', fs') \<and>
     settled (import_status_of 1 db') (gr_skipped res) err"
proof -
  obtain res err db' obj' fs' where
    run: "gtfs_run sample_gtfs_service empty_db () (\<lambda>_. None) = (res, err, db', obj', fs')" by (metis prod_cases5)
  have "gv_store sample_gtfs_service = gtfs_repository sample_env sample_gtfs_io"
    by (simp add: sample_gtfs_service_def)
  moreover obtain db1 where "start_import (gi_start sample_gtfs_io) (gv_source_url sample_gtfs_service) empty_db = (Inr 1, db1)"
    by (simp add: sample_gtfs_io_def start_import_def insert_import_def empty_db_def tx_eval)
  ultimately show ?thesis using started_imports_are_settled [OF run gtfs_inv_empty] run by blast
qed

section \<open>Temporary files\<close>

lemma outcome_files: "gtfs_outcome svc result d f w obj fs = (res, err, w', obj', fs') \<Longrightarrow> fs' = fs"
  by (auto simp: gtfs_outcome_def split: prod.splits)

lemma parse_and_complete_files:
  "gtfs_parse_and_complete svc result d w obj fs = (res, err, w', obj', fs') \<Longrightarrow>
   fs' = fs \<or> fs' = snd (gv_parse svc (dl_path d) fs)"
  unfolding gtfs_parse_and_complete_def Let_def
  by (auto split: prod.splits sum.splits bool.splits if_splits dest!: outcome_files)

lemma archive_and_complete_files:
  assumes "gtfs_archive_and_complete svc result d w obj fs = (res, err, w', obj', fs')"
  shows "fs' = fs \<or> fs' = snd (gv_parse svc (dl_path d) fs)"
  using assms unfolding gtfs_archive_and_complete_def Let_def
  by (auto split: prod.splits sum.splits if_splits dest!: outcome_files parse_and_complete_files)

text \<open>C17: a pass over the static archive leaves no temporary file, neither the download nor the
  nested archive, on any path of \<open>Fetch\<close>, \<open>ParseArchive\<close> and \<open>Run\<close>, when files can be removed.\<close>

theorem gtfs_runs_leave_no_files:
  assumes "gv_fetch svc = gtfs_fetch env io" and "gv_parse svc = parse_archive genv pio"
    and "io_remove io = None" and "io_remove pio = None" and "gv_remove svc = None"
    and "\<And>p. io_temp io = Inr p \<Longrightarrow> p \<noteq> [] \<and> fs p = None"
    and "\<And>p. io_temp pio = Inr p \<Longrightarrow> p \<noteq> [] \<and> fs p = None \<and> io_temp io \<noteq> Inr p"
    and "gtfs_run svc w obj fs = (res, err, w', obj', fs')"
  shows "fs' = fs"
proof -
  obtain k w1 where start: "gs_start (gv_store svc) (gv_source_url svc) w = (k, w1)" by fastforce
  obtain p fs1 where fetch: "gtfs_fetch env io fs = (p, fs1)" by fastforce
  note F = gtfs_fetch_result [OF fetch assms(3,6)]
  note R = assms(8) [unfolded gtfs_run_def Let_def start assms(1) fetch]
  show ?thesis
  proof (cases k)
    case (Inl e)
    with R show ?thesis by simp
  next
    case k: (Inr import_id)
    show ?thesis
    proof (cases p)
      case (Inl e)
      with R k F show ?thesis by (auto dest: outcome_files)
    next
      case (Inr d)
      let ?res = "\<lparr>gr_import = import_id, gr_download = Some d, gr_dataset = None, gr_archive = None, gr_skipped = False, gr_cleanup = None\<rparr>"
      obtain res0 err0 w2 obj2 fs2 where a: "gtfs_archive_and_complete svc ?res d w1 obj fs1 = (res0, err0, w2, obj2, fs2)"
        by (metis prod_cases5)
      have d: "io_temp io = Inr (dl_path d)" "fs1 = fs(dl_path d := fs1 (dl_path d))" using F Inr by simp_all
      have other: "fs1 q = fs q" if "q \<noteq> dl_path d" for q using that by (subst d(2)) simp
      have "snd (parse_archive genv pio (dl_path d) fs1) = fs1"
      proof (rule parse_archive_files [OF assms(4)])
        fix q assume q: "io_temp pio = Inr q"
        with assms(7) d(1) have "q \<noteq> dl_path d" by auto
        with other assms(7) [OF q] show "q \<noteq> [] \<and> fs1 q = None" by simp
      qed
      with archive_and_complete_files [OF a] assms(2) have "fs2 = fs1" by simp
      moreover have "gtfs_cleanup svc d (res0, err0, w2, obj2, fs2) = (res, err, w', obj', fs')"
        using R k Inr a by simp
      ultimately have "fs' = fs1(dl_path d := None)"
        using assms(5) assms(6) [OF d(1)] by (auto simp: gtfs_cleanup_def remove_file_def)
      with other assms(6) [OF d(1)] show ?thesis by (auto simp: fun_eq_iff)
    qed
  qed
qed

theorem gtfs_runs_leave_no_files_witness:
  "\<exists>res err db'. gtfs_run sample_gtfs_service empty_db () (\<lambda>_. None) = (res, err, db', (), \<lambda>_. None)"
proof -
  obtain res err db' obj' fs' where
    run: "gtfs_run sample_gtfs_service empty_db () (\<lambda>_. None) = (res, err, db', obj', fs')" by (metis prod_cases5)
  have "fs' = (\<lambda>_. None)"
    by (rule gtfs_runs_leave_no_files [where svc = sample_gtfs_service and env = sample_fetch_env and io = "temp_at ''a''"
          and genv = refusing_gtfs and pio = "temp_at ''b''" and fs = "\<lambda>_. None", OF _ _ _ _ _ _ _ run])
      (simp_all add: sample_gtfs_service_def temp_at_def)
  with run show ?thesis by simp
qed

section \<open>Stored objects\<close>

text \<open>C16: \<open>LocalStore.Put\<close> writes once: no object that exists is changed, whatever another writer
  does in between, and no other file appears. An object that is returned is stored under its
  key with the size and the hash of the request; when it says that it was created, the key was
  free and now holds the bytes of the source.\<close>

theorem local_put_writes_once:
  assumes "local_put io sha q fs = (r, fs')" and "names_apart io q" and "li_late_remove io = None"
  shows "(\<forall>p. fs p \<noteq> None \<longrightarrow> fs' p = fs p) \<and> (\<forall>p. p \<noteq> pq_key q \<longrightarrow> fs' p = fs p) \<and>
    (\<forall>ob. r = Inr ob \<longrightarrow> stored_as sha q fs' \<and>
       (ob_created ob = Some True \<longrightarrow> fs (pq_key q) = None \<and>
         (\<exists>source content. pq_source q = Some source \<and> so_open source = Inr content \<and> fs' (pq_key q) = Some content)))"
proof -
  note P = local_put_files [OF assms(1,2)]
  have "fs' p = fs p" if "fs p \<noteq> None" for p using that P(1) by force
  moreover have "fs' p = fs p" if "p \<noteq> pq_key q" for p using P(4) [OF assms(3) that] .
  moreover have "\<exists>source content. pq_source q = Some source \<and> so_open source = Inr content \<and> fs' (pq_key q) = Some content"
    if ob: "r = Inr ob" "ob_created ob = Some True" for ob
  proof -
    obtain source where "pq_source q = Some source"
      and "fs' (pq_key q) = (case so_open source of Inr content \<Rightarrow> Some content | Inl _ \<Rightarrow> None)" using P(3) [OF ob] by blast
    moreover have "fs' (pq_key q) \<noteq> None" using P(2) [OF ob(1)] by (auto simp: stored_as_def)
    ultimately show ?thesis by (cases "so_open source") auto
  qed
  ultimately show ?thesis using P(2,3) by blast
qed

definition quiet_verify :: verify_io where
  "quiet_verify = \<lparr>vi_open = None, vi_stat = None, vi_read = None, vi_ctx = None, vi_modified = 1000\<rparr>"

definition sample_local :: local_io where
  "sample_local = \<lparr>li_mkroot = None, li_open_root = None, li_first = quiet_verify, li_mkparent = None,
     li_sync_dir = (\<lambda>_. None), li_candidates = [\<lparr>ca_name = Inr ''00'', ca_open = None\<rparr>], li_copy = None, li_ctx = None,
     li_sync = None, li_close = None, li_racer = None, li_link = None, li_second = quiet_verify, li_unlink = None,
     li_sync_parent = None, li_now = 2000, li_late_close = None, li_late_remove = None\<rparr>"

definition sample_request :: put_request where
  "sample_request = \<lparr>pq_key = ''raw/a'', pq_source = Some (bytes_source ''abc''), pq_size = 3, pq_sha256 = sample_hash,
     pq_content_type = []\<rparr>"

lemma sample_request_valid: "validate_request sample_request = None"
  by (simp add: validate_request_def sample_request_def bytes_source_def sample_key_ok sample_hash_ok)

lemma sample_dir: "dir_of ''raw/a'' = ''raw''" "path_join ''raw'' (temp_prefix @ ''00'') = ''raw/.raw-storage-00''"
  by code_simp+

lemma sample_chain: "sync_segments (\<lambda>_. None) current segs = None"
  by (induction "\<lambda>_ :: string. None :: go_error option" current segs rule: sync_segments.induct) (simp_all add: Let_def)

theorem local_put_writes_once_witness:
  "\<exists>ob fs'. local_put sample_local (\<lambda>_. sample_hash) sample_request (\<lambda>_. None) = (Inr ob, fs') \<and>
     fs' ''raw/a'' = Some ''abc'' \<and> fs' ''raw/b'' = None"
proof -
  have apart: "names_apart sample_local sample_request"
    by (simp add: names_apart_def sample_local_def sample_request_def sample_dir)
  obtain ob fs' where run: "local_put sample_local (\<lambda>_. sample_hash) sample_request (\<lambda>_. None) = (Inr ob, fs')"
    and "ob_created ob = Some True"
    by (simp add: local_put_def sample_request_valid)
      (simp add: sample_local_def quiet_verify_def sample_request_def verify_local_def sync_directory_chain_def sample_chain
        sample_dir numeral_eq_Suc Let_def write_local_def bytes_source_def publish_local_def raced_def finish_local_def new_object_def)
  with local_put_writes_once [OF run apart] show ?thesis
    by (auto simp: sample_local_def sample_request_def bytes_source_def)
qed

text \<open>C19: \<open>S3Store.Put\<close> makes at most three attempts. An object that it says it created was put by
  one of them; any other object it returns was verified: its size and its hash are those of the
  request, by the checksum of the service or by hashing the whole body.\<close>

theorem s3_put_is_verified:
  "snd (s3_put io sha checksum_of q) \<le> 3 \<and>
   (\<forall>ob. fst (s3_put io sha checksum_of q) = Inr ob \<longrightarrow>
      (if ob_created ob = Some True
       then \<exists>n < 3. \<exists>etag version. pc_open (s3_puts io n) = None \<and> pc_result (s3_puts io n) = Inr (etag, version)
       else s3_matches io sha checksum_of q))"
proof -
  have "snd (s3_put io sha checksum_of q) \<le> 3"
    using s3_put_loop_attempts [of 0 io sha checksum_of q] by (simp add: s3_put_def max_put_attempts_def split: option.split)
  moreover have "if ob_created ob = Some True
      then \<exists>n < 3. \<exists>etag version. pc_open (s3_puts io n) = None \<and> pc_result (s3_puts io n) = Inr (etag, version)
      else s3_matches io sha checksum_of q" if ob: "fst (s3_put io sha checksum_of q) = Inr ob" for ob
  proof -
    have "fst (s3_put_loop 0 io sha checksum_of q) = Inr ob" using ob by (simp add: s3_put_def split: option.splits)
    from s3_put_loop_Inr [OF this] show ?thesis
      by (auto simp: max_put_attempts_def new_object_def)
  qed
  ultimately show ?thesis by blast
qed

text \<open>The key exists: the object is verified by its body.\<close>

definition sample_s3 :: s3_io where
  "sample_s3 = \<lparr>s3_puts = (\<lambda>_. \<lparr>pc_open = None, pc_result = Inl \<lparr>se_status = Some 412, se_code = None, se_connection = None,
       se_network = False\<rparr>, pc_ctx = None, pc_wait = None\<rparr>),
     s3_head = Some \<lparr>ho_length = Some 3, ho_sha256 = Some sample_hash, ho_checksum = None, ho_modified = None, ho_etag = [], ho_version = []\<rparr>,
     s3_head_ctx = None, s3_get = Some \<lparr>go_body = Some ''abc'', go_read_error = None, go_extra_error = None, go_close_error = None\<rparr>,
     s3_get_ctx = None, s3_now = 3000\<rparr>"

theorem s3_put_is_verified_witness:
  "\<exists>ob. fst (s3_put sample_s3 (\<lambda>_. sample_hash) (\<lambda>h. h) sample_request) = Inr ob \<and> ob_created ob = Some False \<and>
     s3_matches sample_s3 (\<lambda>_. sample_hash) (\<lambda>h. h) sample_request"
proof -
  obtain ob where ob: "fst (s3_put sample_s3 (\<lambda>_. sample_hash) (\<lambda>h. h) sample_request) = Inr ob" "ob_created ob = Some False"
    by (simp add: s3_put_def sample_request_valid s3_put_loop.simps max_put_attempts_def)
      (simp add: sample_s3_def classify_s3_put_error_def verify_s3_def verify_s3_body_def sample_request_def new_object_def)
  with s3_put_is_verified [of sample_s3 "\<lambda>_. sample_hash" "\<lambda>h. h" sample_request] show ?thesis by auto
qed

section \<open>The realtime feed\<close>

text \<open>C18: \<open>FetchAlerts\<close> always returns: it makes at least one request and at most the configured
  number, every request but the last failed in a way that is retried, and the result is that of the
  last request, after which it goes on only if that was the last allowed or may not be repeated; a
  wait that is cut short ends the call with its error. It waits once after every request it
  repeats; the first wait is the configured delay and every next one twice the one before, in the 64
  bits of a duration, so exactly twice while that fits.\<close>

theorem fetch_alerts_retries:
  assumes "cl_http c" and "cl_url c \<noteq> []" and "cl_key c \<noteq> []" and "cl_header c \<noteq> []"
  shows "\<exists>r delays n. fetch_alerts c media_type io = Some (r, delays, n) \<and> 1 \<le> n \<and> int n \<le> max 1 (cl_max_attempts c) \<and>
    (\<forall>m \<in> {1 ..< n}. repeats media_type (io m)) \<and>
    (r = fst (fetch_alerts_once media_type (io n)) \<and> length delays = n - 1 \<and>
       (int n < cl_max_attempts c \<longrightarrow> \<not> repeats media_type (io n)) \<or>
     (\<exists>e. hx_wait (io n) = Some e \<and> r = Inl (Wrapf ''fetch service alerts: %w'' [] e) \<and> length delays = n)) \<and>
    (\<forall>i < length delays. delays ! i = sint (word_of_int (cl_delay c * 2 ^ i) :: 64 word) \<and>
       (0 \<le> cl_delay c \<longrightarrow> cl_delay c * 2 ^ i < 2 ^ 63 \<longrightarrow> delays ! i = cl_delay c * 2 ^ i))"
proof -
  let ?attempts = "if cl_max_attempts c < 1 then 1 else nat (cl_max_attempts c)"
  have "fetch_alerts c media_type io = fetch_loop c media_type io ?attempts 1" using assms by (simp add: fetch_alerts_def)
  moreover have "1 \<le> ?attempts" by (auto simp: Suc_le_eq)
  from fetch_loop_spec [OF this, of c media_type io] obtain r delays n where
    loop: "fetch_loop c media_type io ?attempts 1 = Some (r, delays, n)" "1 \<le> n" and n: "n \<le> ?attempts"
    and before: "\<forall>m \<in> {1 ..< n}. repeats media_type (io m)"
    and ends: "r = fst (fetch_alerts_once media_type (io n)) \<and> delays = map (retry_delay (cl_delay c)) [1 ..< n] \<and>
        (n < ?attempts \<longrightarrow> \<not> repeats media_type (io n)) \<or>
      (\<exists>e. hx_wait (io n) = Some e \<and> r = Inl (Wrapf ''fetch service alerts: %w'' [] e) \<and>
        delays = map (retry_delay (cl_delay c)) [1 ..< Suc n] \<and> n < ?attempts)" by blast
  have "int n \<le> max 1 (cl_max_attempts c)" using n by (auto split: if_splits)
  moreover have "n < ?attempts" if "int n < cl_max_attempts c" using that by (auto split: if_splits)
  moreover have "\<exists>m. delays = map (retry_delay (cl_delay c)) [1 ..< Suc m]"
  proof -
    have "[1 ..< n] = [1 ..< Suc (n - 1)]" using loop(2) by simp
    with ends show ?thesis by metis
  qed
  then have "\<forall>i < length delays. delays ! i = sint (word_of_int (cl_delay c * 2 ^ i) :: 64 word) \<and>
      (0 \<le> cl_delay c \<longrightarrow> cl_delay c * 2 ^ i < 2 ^ 63 \<longrightarrow> delays ! i = cl_delay c * 2 ^ i)"
    using retry_delays [where delay = "cl_delay c"] by (auto simp del: upt_Suc)
  moreover have "length (map (retry_delay (cl_delay c)) [1 ..< n]) = n - 1" "length (map (retry_delay (cl_delay c)) [1 ..< Suc n]) = n"
    by (simp_all del: upt_Suc)
  ultimately show ?thesis
    using \<open>fetch_alerts c media_type io = fetch_loop c media_type io ?attempts 1\<close> loop before ends
    by (intro exI [of _ r] exI [of _ delays] exI [of _ n]) (auto simp del: upt_Suc)
qed

definition sample_client :: client where
  "sample_client = \<lparr>cl_http = True, cl_url = ''u'', cl_key = ''k'', cl_header = ''h'', cl_max_attempts = 3, cl_delay = 1000000000\<rparr>"

text \<open>The service is unavailable once, then answers.\<close>

definition sample_attempts :: "nat \<Rightarrow> attempt_io" where
  "sample_attempts n = \<lparr>hx_request = None, hx_response = Inr \<lparr>hp_status = (if n = 1 then 503 else 200), hp_content_type = [],
     hp_body = ''f'', hp_read_error = None\<rparr>, hx_ctx_do = None, hx_ctx = None, hx_wait = None, hx_retrieved = 5000\<rparr>"

theorem fetch_alerts_retries_witness:
  "\<exists>f. fetch_alerts sample_client (\<lambda>s. Inr s) sample_attempts = Some (Inr f, [1000000000], 2) \<and> fr_body f = ''f''"
proof -
  let ?media = "\<lambda>s. Inr s :: string result"
  obtain f where once: "fst (fetch_alerts_once ?media (sample_attempts n)) = Inr f" "fr_body f = ''f''" if "n \<noteq> 1" for n
    by (simp add: fetch_alerts_once_def sample_attempts_def validate_protobuf_content_type_def max_payload_bytes_def Let_def)
  have no: "\<not> repeats ?media (sample_attempts n)" if "n \<noteq> 1" for n
    using once(1) [OF that] by (auto simp: repeats_def split: prod.splits)
  have yes: "repeats ?media (sample_attempts 1)"
    by (simp add: repeats_def fetch_alerts_once_def sample_attempts_def retryable_http_status_def)
  have wait: "hx_wait (sample_attempts n) = None" for n by (simp add: sample_attempts_def)
  have client: "cl_http sample_client" "cl_url sample_client \<noteq> []" "cl_key sample_client \<noteq> []" "cl_header sample_client \<noteq> []"
    by (simp_all add: sample_client_def)
  have attempts: "cl_max_attempts sample_client = 3" by (simp add: sample_client_def)
  from fetch_alerts_retries [OF client, of ?media sample_attempts] obtain r delays n where
    f: "fetch_alerts sample_client ?media sample_attempts = Some (r, delays, n)" "1 \<le> n" "int n \<le> max 1 (cl_max_attempts sample_client)"
    and before: "\<forall>m \<in> {1 ..< n}. repeats ?media (sample_attempts m)"
    and ends: "r = fst (fetch_alerts_once ?media (sample_attempts n)) \<and> length delays = n - 1 \<and>
         (int n < cl_max_attempts sample_client \<longrightarrow> \<not> repeats ?media (sample_attempts n)) \<or>
       (\<exists>e. hx_wait (sample_attempts n) = Some e \<and> r = Inl (Wrapf ''fetch service alerts: %w'' [] e) \<and> length delays = n)"
    and waits: "\<forall>i < length delays. delays ! i = sint (word_of_int (cl_delay sample_client * 2 ^ i) :: 64 word) \<and>
       (0 \<le> cl_delay sample_client \<longrightarrow> cl_delay sample_client * 2 ^ i < 2 ^ 63 \<longrightarrow>
        delays ! i = cl_delay sample_client * 2 ^ i)"
    by (elim exE conjE) (rule that)
  have r: "r = fst (fetch_alerts_once ?media (sample_attempts n))" "length delays = n - 1"
    "int n < 3 \<longrightarrow> \<not> repeats ?media (sample_attempts n)"
    using ends wait attempts by simp_all
  have "n \<noteq> 1" using r(3) yes by auto
  moreover have "n \<noteq> 3" using before no [of 2] by auto
  ultimately have n: "n = 2" using f(2,3) attempts by auto
  then obtain d where d: "delays = [d]" using r(2) by (cases delays) auto
  have "delays ! 0 = cl_delay sample_client * 2 ^ 0"
    by (rule waits [rule_format, THEN conjunct2, rule_format]) (simp_all add: d sample_client_def)
  then have "d = 1000000000" by (simp add: d sample_client_def)
  with f(1) r(1) once [of 2] n d show ?thesis by simp
qed

text \<open>C31: a decoded feed accounts for every entity of the message: the alerts are the entities that
  carry one, summarised one by one in their order, and with the others they are all entities.\<close>

theorem decoded_feed_accounts_for_entities:
  assumes "decode_alerts env payload = Inr s"
  shows "\<exists>feed. de_unmarshal env payload = Inr feed \<and>
    fe_alerts s = List.map_filter (\<lambda>e. map_option (summarize_alert env e) (pe_alert e)) (pf_entities feed) \<and>
    fe_alert_count s = length (fe_alerts s) \<and> fe_alert_count s + fe_non_alert_count s = fe_entity_count s \<and>
    fe_entity_count s = length (pf_entities feed)"
  using assms summarize_entities_spec
  by (fastforce simp: decode_alerts_def split: sum.splits option.splits prod.splits)

definition sample_message :: pmessage where
  "sample_message = PMessage ''x'' [(5, PMap [(''k'', PMessage ''y'' []), (''l'', PMessage ''z'' [])])]"

definition sample_pb_feed :: pb_feed where
  "sample_pb_feed = \<lparr>pf_header = Some \<lparr>ph_version = Some ''2.0'', ph_incrementality = None, ph_timestamp = None\<rparr>,
     pf_entities = [\<lparr>pe_id = Some ''a'', pe_deleted = None, pe_alert = None, pe_reflect = sample_message\<rparr>,
       \<lparr>pe_id = Some ''b'', pe_deleted = None, pe_alert = Some \<lparr>pa_header = None, pa_description = None, pa_url = None,
          pa_cause = None, pa_effect = None, pa_severity = None, pa_periods = [], pa_selectors = []\<rparr>, pe_reflect = sample_message\<rparr>],
     pf_reflect = sample_message\<rparr>"

definition sample_decode :: decode_env where
  "sample_decode = \<lparr>de_unmarshal = (\<lambda>_. Inr sample_pb_feed), de_enum = (\<lambda>_ _. ''FULL_DATASET''), de_map_order = (\<lambda>xs. xs),
     de_sha256 = (\<lambda>s. s)\<rparr>"

theorem decoded_feed_accounts_for_entities_witness:
  "\<exists>s. decode_alerts sample_decode ''f'' = Inr s \<and> fe_alert_count s = 1 \<and> fe_non_alert_count s = 1"
proof -
  obtain s where s: "decode_alerts sample_decode ''f'' = Inr s"
    by (simp add: decode_alerts_def sample_decode_def sample_pb_feed_def split: prod.split)
  from decoded_feed_accounts_for_entities [OF s] s show ?thesis
    by (auto simp: sample_decode_def sample_pb_feed_def List.map_filter_simps)
qed

text \<open>The hash of the unknown fields of a message does not depend on the order in which Go
  ranges over maps, and it is empty exactly when there are no unknown bytes, if SHA-256 is
  never the empty text.\<close>

theorem unknown_fields_hash_is_stable:
  assumes "fair_map_order (env\<lparr>de_map_order := f\<rparr>)" and "fair_map_order (env\<lparr>de_map_order := g\<rparr>)"
    and "\<And>s. de_sha256 env s \<noteq> []"
  shows "unknown_fields_sha256 (env\<lparr>de_map_order := f\<rparr>) name m = unknown_fields_sha256 (env\<lparr>de_map_order := g\<rparr>) name m \<and>
    (unknown_fields_sha256 (env\<lparr>de_map_order := f\<rparr>) name m = [] \<longleftrightarrow> count_unknown m = 0)"
proof
  show "unknown_fields_sha256 (env\<lparr>de_map_order := f\<rparr>) name m = unknown_fields_sha256 (env\<lparr>de_map_order := g\<rparr>) name m"
    by (rule unknown_hash_order [OF assms(1,2)])
  show "unknown_fields_sha256 (env\<lparr>de_map_order := f\<rparr>) name m = [] \<longleftrightarrow> count_unknown m = 0"
    using collect_nil(1) [OF assms(1), of name m] assms(3) by (simp add: unknown_fields_sha256_def Let_def)
qed

theorem unknown_fields_hash_is_stable_witness:
  "unknown_fields_sha256 (sample_decode\<lparr>de_sha256 := (\<lambda>_. ''h''), de_map_order := (\<lambda>xs. xs)\<rparr>) ''m'' sample_message =
   unknown_fields_sha256 (sample_decode\<lparr>de_sha256 := (\<lambda>_. ''h''), de_map_order := rev\<rparr>) ''m'' sample_message"
  using unknown_fields_hash_is_stable [where env = "sample_decode\<lparr>de_sha256 := (\<lambda>_. ''h'')\<rparr>" and f = "\<lambda>xs. xs" and g = rev
      and name = "''m''" and m = sample_message]
  by (simp add: fair_map_order_def)

end
