(* ===== verification/ReadTx.thy ===== *)
theory ReadTx
  imports AlertRuns
begin

text \<open>
  The read transactions of \<open>internal/database/read_repository.go\<close> (\<open>readTx\<close>, \<open>commitReadTx\<close>):
  repeatable read, read only, so every query of one call sees the same database and none changes
  it. Ordered queries (\<open>ORDER BY .. DESC\<close>, \<open>LIMIT\<close>, \<open>OFFSET\<close>) are lists of rows sorted by a key;
  every key ends in the id of the row, so the order is the one PostgreSQL returns.
\<close>

section \<open>Transactions that read\<close>

definition read_tx :: "tx_io \<Rightarrow> string \<Rightarrow> 'a tx \<Rightarrow> db \<Rightarrow> 'a result" where
  "read_tx io operation body db =
     (case io_begin io of
        Some e \<Rightarrow> Inl (Wrapf ''begin %s: %w'' [AStr operation] e)
      | None \<Rightarrow>
     (case fst (body \<lparr>se_db = db, se_faults = io_faults io\<rparr>) of
        Inl e \<Rightarrow> Inl e
      | Inr x \<Rightarrow>
          (case io_commit io of
             Done \<Rightarrow> Inr x
           | Lost e _ \<Rightarrow> Inl (Wrapf ''commit %s: %w'' [AStr operation] e))))"

lemma read_tx_Inr:
  assumes "read_tx io op body db = Inr x"
  obtains s where "body \<lparr>se_db = db, se_faults = io_faults io\<rparr> = (Inr x, s)"
  using assms unfolding read_tx_def
  by (cases "body \<lparr>se_db = db, se_faults = io_faults io\<rparr>") (auto split: option.splits sum.splits outcome.splits)

lemma read_tx_quiet:
  "io_begin io = None \<Longrightarrow> io_commit io = Done \<Longrightarrow> body \<lparr>se_db = db, se_faults = io_faults io\<rparr> = (r, s) \<Longrightarrow>
   read_tx io op body db = r"
  by (simp add: read_tx_def split: sum.split)

text \<open>A query whose rows are scanned: the scan can fail on what it finds.\<close>

definition scan_tx :: "(go_error \<Rightarrow> go_error) \<Rightarrow> (db \<Rightarrow> 'a result) \<Rightarrow> 'a tx" where
  "scan_tx wrap q = stmt wrap (\<lambda>db. (q db, db))"

definition scan_null :: go_error where
  "scan_null = Errorf ''sql: Scan error: converting NULL to %s is unsupported'' []"

lemma scan_tx_Inr: "scan_tx w q s = (Inr x, s') \<Longrightarrow> q (se_db s) = Inr x \<and> se_db s' = se_db s"
  unfolding scan_tx_def by (drule stmt_Inr) auto

lemma scan_tx_quiet: "se_faults s = [] \<Longrightarrow> q (se_db s) = Inr x \<Longrightarrow> scan_tx w q s = (Inr x, s)"
  by (simp add: scan_tx_def stmt_def)

lemma query_quiet: "se_faults s = [] \<Longrightarrow> query w q s = (Inr (q (se_db s)), s)"
  by (simp add: query_def stmt_def)

lemma bind_tx_quiet: "m s = (Inr x, s) \<Longrightarrow> bind_tx m k s = k x s"
  by (simp add: bind_tx_def)

section \<open>Ordered queries\<close>

definition order_desc :: "('r \<Rightarrow> 'k::linorder) \<Rightarrow> 'r list \<Rightarrow> 'r list" where
  "order_desc k rows = rev (sort_key k rows)"

lemma set_order_desc [simp]: "set (order_desc k rows) = set rows"
  by (simp add: order_desc_def)

lemma length_order_desc [simp]: "length (order_desc k rows) = length rows"
  by (simp add: order_desc_def)

lemma sorted_order_desc: "sorted_wrt (\<lambda>x y. k y \<le> k x) (order_desc k rows)"
  using sorted_sort_key [of k rows] by (simp add: order_desc_def sorted_wrt_rev sorted_map)

text \<open>A limit hides only smaller keys.\<close>

lemma take_order_desc:
  assumes "r \<in> set rows" and "r \<notin> set (take n (order_desc k rows))" and "x \<in> set (take n (order_desc k rows))"
  shows "k r \<le> k x"
proof -
  have "sorted_wrt (\<lambda>x y. k y \<le> k x) (take n (order_desc k rows) @ drop n (order_desc k rows))"
    by (simp add: sorted_order_desc)
  moreover have "r \<in> set (take n (order_desc k rows) @ drop n (order_desc k rows))" using assms(1) by simp
  then have "r \<in> set (drop n (order_desc k rows))" using assms(2) by (simp del: append_take_drop_id)
  ultimately show ?thesis using assms(3) by (simp add: sorted_wrt_append del: append_take_drop_id)
qed

section \<open>Time\<close>

text \<open>\<open>t.Sub(u)\<close>: a duration of nanoseconds in an int64, saturated.\<close>

definition min_duration :: duration where
  "min_duration = - 9223372036854775808"

definition max_duration :: duration where
  "max_duration = 9223372036854775807"

definition time_sub :: "instant \<Rightarrow> instant \<Rightarrow> duration" where
  "time_sub t u = max min_duration (min max_duration (t - u))"

lemma time_sub_le: "d < max_duration \<Longrightarrow> min_duration \<le> d \<Longrightarrow> time_sub t u \<le> d \<longleftrightarrow> t - u \<le> d"
  by (auto simp: time_sub_def)

lemma time_sub_less: "d \<le> max_duration \<Longrightarrow> min_duration < d \<Longrightarrow> time_sub t u < d \<longleftrightarrow> t - u < d"
  by (auto simp: time_sub_def)

end
