(* ===== verification/StatusReport.thy ===== *)
theory StatusReport
  imports ReadTx GtfsRepo
begin

text \<open>
  The status report of \<open>internal/database/status.go\<close>: how fresh the data of each feed are, when a
  feed was last checked with success, the latest attempt, the recent failures, and the counts of
  alerts and of the network. Everything is read in one transaction.

  A duration that the report gives in seconds (\<open>Seconds()\<close>, a float) is kept here as the
  nanoseconds it is computed from; a negative one is set to zero, as in the code.
\<close>

section \<open>The report\<close>

record archive_summary =
  ay_key :: string
  ay_sha256 :: string
  ay_bytes :: int
  ay_stored :: instant
  ay_created :: "bool option"

record ingestion_summary =
  iy_id :: row_id
  iy_started :: instant
  iy_completed :: instant
  iy_retrieved :: "instant option"
  iy_data_as_of :: "instant option"
  iy_archive :: "archive_summary option"
  iy_items :: nat
  iy_trips :: nat
  iy_stop_times :: nat

record attempt_summary =
  ty_id :: row_id
  ty_outcome :: string
  ty_started :: instant
  ty_completed :: "instant option"
  ty_duration :: duration
  ty_overdue :: bool
  ty_archive :: "archive_summary option"

record failure_summary =
  fy_id :: row_id
  fy_failed :: "instant option"
  fy_stage :: string
  fy_code :: string
  fy_message :: string
  fy_archive :: "archive_summary option"

record status_section =
  sy_freshness :: string
  sy_data_as_of :: "instant option"
  sy_data_age :: "duration option"
  sy_check_at :: "instant option"
  sy_check_age :: "duration option"
  sy_basis :: string
  sy_reasons :: "string list"
  sy_applied :: "ingestion_summary option"
  sy_attempt :: "attempt_summary option"
  sy_failures :: "failure_summary list"

record alert_status_counts =
  nc_present :: nat
  nc_current :: nat
  nc_upcoming :: nat
  nc_historical :: nat

record gtfs_status_counts =
  gc_routes :: nat
  gc_regular :: nat
  gc_replacement :: nat
  gc_stops :: nat
  gc_stations :: nat
  gc_relations :: nat
  gc_trips :: nat
  gc_stop_times :: nat

record status_query =
  qy_now :: instant
  qy_alert_data_age :: duration
  qy_alert_check_age :: duration
  qy_gtfs_data_age :: duration
  qy_gtfs_check_age :: duration
  qy_alert_run :: duration
  qy_gtfs_run :: duration
  qy_tolerance :: duration
  qy_failures :: int

record status_response =
  sp_generated :: instant
  sp_overall :: string
  sp_alerts :: "status_section \<times> alert_status_counts"
  sp_gtfs :: "status_section \<times> gtfs_status_counts"

definition empty_section :: status_section where
  "empty_section = \<lparr>sy_freshness = ''unknown'', sy_data_as_of = None, sy_data_age = None, sy_check_at = None,
     sy_check_age = None, sy_basis = [], sy_reasons = [], sy_applied = None, sy_attempt = None, sy_failures = []\<rparr>"

definition add_reason :: "string \<Rightarrow> status_section \<Rightarrow> status_section" where
  "add_reason reason s = s\<lparr>sy_reasons := sy_reasons s @ [reason]\<rparr>"

section \<open>Ages\<close>

definition freshness :: "instant \<Rightarrow> instant option \<Rightarrow> duration \<Rightarrow> duration \<Rightarrow> string \<times> duration option \<times> string list" where
  "freshness now timestamp max_age tolerance =
     (case timestamp of
        None \<Rightarrow> (''unknown'', None, [''data_timestamp_unknown''])
      | Some t \<Rightarrow>
          (let age = time_sub now t
           in if age < - tolerance then (''unknown'', None, [''data_timestamp_in_future''])
              else if age > max_age then (''stale'', Some (max 0 age), [''data_stale''])
              else (''fresh'', Some (max 0 age), [])))"

record accepted_check_row =
  ck_retrieved :: "instant option"
  ck_completed :: instant
  ck_id :: row_id

definition apply_check ::
    "instant \<Rightarrow> accepted_check_row option \<Rightarrow> duration \<Rightarrow> duration \<Rightarrow> status_section \<Rightarrow> status_section" where
  "apply_check now check max_age tolerance s =
     (let s = (case check of None \<Rightarrow> s | Some c \<Rightarrow> s\<lparr>sy_check_at := ck_retrieved c\<rparr>)
      in case sy_check_at s of
           None \<Rightarrow> add_reason ''check_unavailable'' s
         | Some t \<Rightarrow>
             (let age = time_sub now t
              in if age < - tolerance then add_reason ''check_timestamp_in_future'' s
                 else let s = s\<lparr>sy_check_age := Some (max 0 age)\<rparr>
                      in if age > max_age then add_reason ''check_stale'' s else s))"

section \<open>Queries over attempts\<close>

text \<open>\<open>raw_archives archive ON archive.id = run.raw_archive_id\<close>, a left join.\<close>

definition archive_of :: "db \<Rightarrow> 'a attempt_row_scheme \<Rightarrow> archive_row option" where
  "archive_of db r = Option.bind (at_archive_id r) (\<lambda>k. find (\<lambda>a. ra_id a = k) (db_archives db))"

definition archive_summary_of ::
    "string option \<Rightarrow> string option \<Rightarrow> int option \<Rightarrow> instant option \<Rightarrow> bool option \<Rightarrow> archive_summary option" where
  "archive_summary_of key hash bytes stored created =
     (case (key, hash, bytes, stored) of
        (Some k, Some h, Some b, Some s) \<Rightarrow>
          Some \<lparr>ay_key = k, ay_sha256 = h, ay_bytes = b, ay_stored = s, ay_created = created\<rparr>
      | _ \<Rightarrow> None)"

definition joined_archive :: "db \<Rightarrow> 'a attempt_row_scheme \<Rightarrow> archive_summary option" where
  "joined_archive db r =
     (let a = archive_of db r
      in archive_summary_of (map_option ra_key a) (map_option ra_sha256 a) (map_option ra_bytes a)
           (map_option ra_stored a) (at_archive_created r))"

text \<open>\<open>appliedStatusRow.summary\<close> of a row that is scanned; \<open>completed_at\<close> must not be NULL.\<close>

definition applied_summary ::
    "db \<Rightarrow> 'a attempt_row_scheme \<Rightarrow> instant option \<Rightarrow> nat \<Rightarrow> nat \<Rightarrow> nat \<Rightarrow> ingestion_summary result" where
  "applied_summary db r data_as_of items trips stop_times =
     (case at_completed r of
        None \<Rightarrow> Inl scan_null
      | Some t \<Rightarrow> Inr \<lparr>iy_id = at_id r, iy_started = at_started r, iy_completed = t, iy_retrieved = at_retrieved r,
          iy_data_as_of = data_as_of, iy_archive = joined_archive db r, iy_items = items, iy_trips = trips,
          iy_stop_times = stop_times\<rparr>)"

text \<open>The rows a check accepts, the operational one and the latest retrieval.\<close>

definition accepted_alert_run :: "run_row \<Rightarrow> bool" where
  "accepted_alert_run r \<longleftrightarrow> at_completed r \<noteq> None \<and>
     (at_status r = Succeeded \<and> ir_applied r \<or> at_status r = Skipped \<and> at_skip_code r = Some ''duplicate'')"

definition accepted_import :: "import_row \<Rightarrow> bool" where
  "accepted_import r \<longleftrightarrow> at_completed r \<noteq> None \<and>
     (at_status r = Succeeded \<or> at_status r = Skipped \<and> at_skip_code r = Some ''duplicate'')"

definition completed_key :: "'a attempt_row_scheme \<Rightarrow> (nat \<times> instant) \<times> row_id" where
  "completed_key r = (null_key (at_completed r), at_id r)"

definition accepted_check_of :: "('a attempt_row_scheme) list \<Rightarrow> accepted_check_row option" where
  "accepted_check_of accepted =
     map_option (\<lambda>r. \<lparr>ck_retrieved = (case List.map_filter at_retrieved accepted of [] \<Rightarrow> None | ts \<Rightarrow> Some (Max (set ts))),
         ck_completed = the (at_completed r), ck_id = at_id r\<rparr>)
       (max_row completed_key accepted)"

definition accepted_check :: "string \<Rightarrow> (db \<Rightarrow> ('a attempt_row_scheme) list) \<Rightarrow> accepted_check_row option tx" where
  "accepted_check name accepted =
     query (Wrapf ''load accepted %s check: %w'' [AStr name]) (\<lambda>db. accepted_check_of (accepted db))"

definition status_text :: "run_status \<Rightarrow> string" where
  "status_text s = (case s of Running \<Rightarrow> ''running'' | Succeeded \<Rightarrow> ''succeeded'' | Failed \<Rightarrow> ''failed'' | Skipped \<Rightarrow> ''skipped'')"

definition started_key :: "'a attempt_row_scheme \<Rightarrow> instant \<times> row_id" where
  "started_key r = (at_started r, at_id r)"

definition attempt_of :: "db \<Rightarrow> instant \<Rightarrow> duration \<Rightarrow> 'a attempt_row_scheme \<Rightarrow> attempt_summary" where
  "attempt_of db now max_run r =
     \<lparr>ty_id = at_id r,
      ty_outcome = (case at_status r of Succeeded \<Rightarrow> ''applied''
                    | Skipped \<Rightarrow> (case at_skip_code r of None \<Rightarrow> [] | Some c \<Rightarrow> c)
                    | s \<Rightarrow> status_text s),
      ty_started = at_started r, ty_completed = at_completed r,
      ty_duration = max 0 (time_sub (case at_completed r of Some t \<Rightarrow> t | None \<Rightarrow> now) (at_started r)),
      ty_overdue = (at_status r = Running \<and> time_sub now (at_started r) > max_run),
      ty_archive = joined_archive db r\<rparr>"

definition load_latest_attempt ::
    "string \<Rightarrow> (db \<Rightarrow> ('a attempt_row_scheme) list) \<Rightarrow> instant \<Rightarrow> duration \<Rightarrow> attempt_summary option tx" where
  "load_latest_attempt table rows now max_run =
     query (Wrapf ''load latest %s attempt: %w'' [AStr table])
       (\<lambda>db. map_option (attempt_of db now max_run) (max_row started_key (rows db)))"

definition failure_of :: "db \<Rightarrow> 'a attempt_row_scheme \<Rightarrow> failure_summary" where
  "failure_of db r =
     \<lparr>fy_id = at_id r, fy_failed = at_completed r,
      fy_stage = (case at_failure_stage r of None \<Rightarrow> [] | Some x \<Rightarrow> x),
      fy_code = (case at_failure_code r of None \<Rightarrow> [] | Some x \<Rightarrow> x),
      fy_message = (case at_public_error r of None \<Rightarrow> [] | Some x \<Rightarrow> x),
      fy_archive = joined_archive db r\<rparr>"

definition failed_rows :: "('a attempt_row_scheme) list \<Rightarrow> ('a attempt_row_scheme) list" where
  "failed_rows rows = order_desc completed_key (filter (\<lambda>r. at_status r = Failed) rows)"

definition load_failures ::
    "string \<Rightarrow> (db \<Rightarrow> ('a attempt_row_scheme) list) \<Rightarrow> nat \<Rightarrow> failure_summary list tx" where
  "load_failures table rows limit =
     query (Wrapf ''query recent %s failures: %w'' [AStr table])
       (\<lambda>db. map (failure_of db) (take limit (failed_rows (rows db))))"

section \<open>Operational reasons\<close>

definition attempt_after_accepted :: "instant \<Rightarrow> row_id \<Rightarrow> accepted_check_row option \<Rightarrow> bool" where
  "attempt_after_accepted t k check =
     (case check of
        None \<Rightarrow> True
      | Some c \<Rightarrow> t > ck_completed c \<or> (t = ck_completed c \<and> k > ck_id c))"

definition failure_after :: "accepted_check_row option \<Rightarrow> failure_summary \<Rightarrow> bool" where
  "failure_after check f =
     (case fy_failed f of None \<Rightarrow> False | Some t \<Rightarrow> attempt_after_accepted t (fy_id f) check)"

definition attempt_failed_after :: "accepted_check_row option \<Rightarrow> attempt_summary \<Rightarrow> bool" where
  "attempt_failed_after check a =
     (ty_outcome a = ''failed'' \<and>
      (case ty_completed a of None \<Rightarrow> False | Some t \<Rightarrow> attempt_after_accepted t (ty_id a) check))"

definition add_operational_reasons :: "accepted_check_row option \<Rightarrow> status_section \<Rightarrow> status_section" where
  "add_operational_reasons check s =
     (case sy_attempt s of
        None \<Rightarrow> s
      | Some a \<Rightarrow>
          (let newer = attempt_after_accepted (ty_started a) (ty_id a) check;
               s = (if newer \<and> ty_overdue a then add_reason ''run_overdue'' s else s)
           in if attempt_failed_after check a then add_reason ''recent_failure'' s
              else if list_ex (failure_after check) (sy_failures s) then add_reason ''recent_failure'' s
              else s))"

section \<open>Counts\<close>

text \<open>An alert with its current revision, and when a revision is active at a time.\<close>

definition current_revision :: "db \<Rightarrow> alert_row \<Rightarrow> revision_row option" where
  "current_revision db a = Option.bind (sa_current a) (\<lambda>k. find (\<lambda>r. rv_id r = k) (db_revisions db))"

definition current_revisions :: "db \<Rightarrow> (alert_row \<times> revision_row) list" where
  "current_revisions db =
     List.map_filter (\<lambda>a. map_option (\<lambda>r. (a, r)) (current_revision db a)) (db_alerts db)"

definition periods_of :: "db \<Rightarrow> revision_row \<Rightarrow> period_row list" where
  "periods_of db r = filter (\<lambda>p. pr_owner p = rv_id r) (db_revision_periods db)"

definition contains_time :: "instant \<Rightarrow> period_row \<Rightarrow> bool" where
  "contains_time now p \<longleftrightarrow> pred_option (\<lambda>t. t \<le> now) (pr_starts p) \<and> pred_option (\<lambda>t. t > now) (pr_ends p)"

definition starts_after :: "instant \<Rightarrow> period_row \<Rightarrow> bool" where
  "starts_after now p = (case pr_starts p of None \<Rightarrow> False | Some t \<Rightarrow> t > now)"

definition is_active :: "db \<Rightarrow> instant \<Rightarrow> revision_row \<Rightarrow> bool" where
  "is_active db now r \<longleftrightarrow> periods_of db r = [] \<or> list_ex (contains_time now) (periods_of db r)"

definition is_future :: "db \<Rightarrow> instant \<Rightarrow> revision_row \<Rightarrow> bool" where
  "is_future db now r = list_ex (starts_after now) (periods_of db r)"

definition is_present :: "alert_row \<times> revision_row \<Rightarrow> bool" where
  "is_present ar \<longleftrightarrow> sa_present (fst ar) \<and> \<not> ac_deleted (rv_columns (snd ar))"

definition alert_counts :: "instant \<Rightarrow> db \<Rightarrow> alert_status_counts" where
  "alert_counts now db =
     (let ars = current_revisions db
      in \<lparr>nc_present = length (filter is_present ars),
          nc_current = length (filter (\<lambda>ar. is_present ar \<and> is_active db now (snd ar)) ars),
          nc_upcoming = length (filter (\<lambda>ar. is_present ar \<and> \<not> is_active db now (snd ar) \<and> is_future db now (snd ar)) ars),
          nc_historical = length (filter (\<lambda>ar. \<not> sa_present (fst ar) \<or> ac_deleted (rv_columns (snd ar))) ars)\<rparr>)"

section \<open>The two sections\<close>

definition applied_alert_run :: "db \<Rightarrow> run_row option" where
  "applied_alert_run db = max_row applied_key (filter (\<lambda>r. at_status r = Succeeded \<and> ir_applied r) (db_runs db))"

definition last_applied_alerts :: "db \<Rightarrow> (ingestion_summary \<times> string) option result" where
  "last_applied_alerts db =
     (case applied_alert_run db of
        None \<Rightarrow> Inr None
      | Some r \<Rightarrow>
          bind_res (applied_summary db r (run_observed r) (case ir_alert_count r of None \<Rightarrow> 0 | Some n \<Rightarrow> n) 0 0) (\<lambda>x.
          Inr (Some (x, if ir_feed_timestamp r = None then ''retrieved_at'' else ''feed_timestamp''))))"

definition import_observed :: "import_row \<Rightarrow> instant option" where
  "import_observed r = (case gi_modified r of Some t \<Rightarrow> Some t | None \<Rightarrow> at_retrieved r)"

definition last_applied_network :: "db \<Rightarrow> (ingestion_summary \<times> string) option result" where
  "last_applied_network db =
     (case find (\<lambda>r. at_status r = Succeeded \<and> gi_current r) (db_imports db) of
        None \<Rightarrow> Inr None
      | Some r \<Rightarrow>
          (let count = (\<lambda>f. case gi_summary r of None \<Rightarrow> 0 | Some x \<Rightarrow> f x)
           in bind_res (applied_summary db r (import_observed r) (count sm_routes) (count sm_trips) (count sm_stop_times)) (\<lambda>x.
              Inr (Some (x, if gi_modified r = None then ''retrieved_at'' else ''source_modified_at'')))))"

definition applied_section ::
    "instant \<Rightarrow> (ingestion_summary \<times> string) option \<Rightarrow> duration \<Rightarrow> duration \<Rightarrow> status_section" where
  "applied_section now applied max_age tolerance =
     (case applied of
        None \<Rightarrow> add_reason ''data_unavailable'' (empty_section\<lparr>sy_freshness := ''unavailable''\<rparr>)
      | Some (x, basis) \<Rightarrow>
          (case freshness now (iy_data_as_of x) max_age tolerance of (f, age, reasons) \<Rightarrow>
             empty_section\<lparr>sy_applied := Some x, sy_data_as_of := iy_data_as_of x, sy_basis := basis,
               sy_freshness := f, sy_data_age := age, sy_reasons := reasons\<rparr>))"

text \<open>What both sections do after the applied ingestion is read.\<close>

definition operational_section ::
    "string \<Rightarrow> string \<Rightarrow> (db \<Rightarrow> ('a attempt_row_scheme) list) \<Rightarrow> ('a attempt_row_scheme \<Rightarrow> bool) \<Rightarrow> instant \<Rightarrow>
     duration \<Rightarrow> duration \<Rightarrow> duration \<Rightarrow> nat \<Rightarrow> status_section \<Rightarrow> status_section tx" where
  "operational_section name table rows accepted now check_age run_age tolerance limit s =
     bind_tx (accepted_check name (\<lambda>db. filter accepted (rows db))) (\<lambda>check.
     let s = apply_check now check check_age tolerance s in
     bind_tx (load_latest_attempt table rows now run_age) (\<lambda>attempt.
     bind_tx (load_failures table rows limit) (\<lambda>failures.
     ret (add_operational_reasons check (s\<lparr>sy_attempt := attempt, sy_failures := failures\<rparr>)))))"

definition load_alert_status :: "status_query \<Rightarrow> (status_section \<times> alert_status_counts) tx" where
  "load_alert_status q =
     bind_tx (scan_tx (Wrapf ''load applied service-alert ingestion: %w'' []) last_applied_alerts) (\<lambda>applied.
     bind_tx (operational_section ''service-alert'' ''ingestion_runs'' db_runs accepted_alert_run (qy_now q)
         (qy_alert_check_age q) (qy_alert_run q) (qy_tolerance q) (nat (qy_failures q))
         (applied_section (qy_now q) applied (qy_alert_data_age q) (qy_tolerance q))) (\<lambda>s.
     bind_tx (query (Wrapf ''count service alerts for status: %w'' []) (alert_counts (pg_time (qy_now q)))) (\<lambda>counts.
     ret (s, counts))))"

definition load_gtfs_status :: "status_query \<Rightarrow> (status_section \<times> gtfs_status_counts) tx" where
  "load_gtfs_status q =
     bind_tx (scan_tx (Wrapf ''load current GTFS ingestion: %w'' []) last_applied_network) (\<lambda>applied.
     bind_tx (operational_section ''GTFS'' ''gtfs_imports'' db_imports accepted_import (qy_now q)
         (qy_gtfs_check_age q) (qy_gtfs_run q) (qy_tolerance q) (nat (qy_failures q))
         (applied_section (qy_now q) applied (qy_gtfs_data_age q) (qy_tolerance q))) (\<lambda>s.
     bind_tx (query (Wrapf ''count GTFS routes for status: %w'' []) (\<lambda>db. map (\<lambda>r. rt_replacement_bus (rd_route r)) (db_routes db))) (\<lambda>routes.
     bind_tx (query (Wrapf ''count GTFS stops for status: %w'' []) (\<lambda>db. map (\<lambda>r. st_location_type (sd_stop r)) (db_stops db))) (\<lambda>stops.
     bind_tx (query (Wrapf ''count GTFS relations for status: %w'' []) (\<lambda>db. length (db_route_stations db))) (\<lambda>relations.
     ret (s, \<lparr>gc_routes = length routes, gc_regular = length (filter Not routes), gc_replacement = length (filter id routes),
        gc_stops = length stops, gc_stations = length (filter (\<lambda>t. t = 1) stops), gc_relations = relations,
        gc_trips = (case sy_applied s of None \<Rightarrow> 0 | Some x \<Rightarrow> iy_trips x),
        gc_stop_times = (case sy_applied s of None \<Rightarrow> 0 | Some x \<Rightarrow> iy_stop_times x)\<rparr>))))))"

definition clamp_failures :: "int \<Rightarrow> int" where
  "clamp_failures n = (if n < 1 then 1 else if n > 20 then 20 else n)"

definition overall_status :: "status_section \<Rightarrow> status_section \<Rightarrow> string" where
  "overall_status alerts gtfs =
     (if sy_freshness alerts = ''unavailable'' \<or> sy_freshness gtfs = ''unavailable'' then ''unavailable''
      else if sy_freshness alerts \<noteq> ''fresh'' \<or> sy_freshness gtfs \<noteq> ''fresh'' \<or> sy_reasons alerts \<noteq> [] \<or> sy_reasons gtfs \<noteq> []
      then ''degraded'' else ''ok'')"

definition get_status :: "tx_io \<Rightarrow> status_query \<Rightarrow> db \<Rightarrow> status_response result" where
  "get_status io asked db =
     (let q = asked\<lparr>qy_failures := clamp_failures (qy_failures asked)\<rparr>
      in bind_res (read_tx io ''ingestion status query''
           (bind_tx (load_alert_status q) (\<lambda>alerts. bind_tx (load_gtfs_status q) (\<lambda>gtfs. ret (alerts, gtfs)))) db)
         (\<lambda>(alerts, gtfs). Inr \<lparr>sp_generated = qy_now q, sp_overall = overall_status (fst alerts) (fst gtfs),
            sp_alerts = alerts, sp_gtfs = gtfs\<rparr>))"

end
