(* ===== verification/StatusRules.thy ===== *)
theory StatusRules
  imports StatusReport GtfsLife
begin

text \<open>
  What a section of the status report says about the rows it was read from. The two sections ask
  the same of their table of attempts; that is the locale \<open>checked_attempts\<close>, interpreted on
  the runs of the alert worker and on the imports of the network.
\<close>

section \<open>Reasons\<close>

lemma apply_check_fields [simp]:
  "sy_freshness (apply_check now c m tol s) = sy_freshness s" "sy_applied (apply_check now c m tol s) = sy_applied s"
  by (simp_all add: apply_check_def add_reason_def Let_def split: option.split)

lemma add_operational_fields [simp]:
  "sy_freshness (add_operational_reasons c s) = sy_freshness s" "sy_applied (add_operational_reasons c s) = sy_applied s"
  by (simp_all add: add_operational_reasons_def add_reason_def Let_def split: option.split)

text \<open>A time that is neither too old nor too far in the future; the durations are those a configuration allows.\<close>

definition within :: "instant \<Rightarrow> duration \<Rightarrow> duration \<Rightarrow> instant \<Rightarrow> bool" where
  "within now max_age tolerance t \<longleftrightarrow> - tolerance \<le> now - t \<and> now - t \<le> max_age"

definition plausible :: "duration \<Rightarrow> bool" where
  "plausible d \<longleftrightarrow> 0 \<le> d \<and> d < max_duration"

lemma age_within:
  assumes "plausible max_age" and "plausible tolerance"
  shows "\<not> time_sub now t < - tolerance \<and> \<not> time_sub now t > max_age \<longleftrightarrow> within now max_age tolerance t"
  using assms by (auto simp: within_def plausible_def time_sub_def max_duration_def min_duration_def)

lemma freshness_fresh:
  assumes "plausible max_age" and "plausible tolerance" and "freshness now ts max_age tolerance = (f, age, reasons)"
  shows "f = ''fresh'' \<and> reasons = [] \<longleftrightarrow> (\<exists>t. ts = Some t \<and> within now max_age tolerance t)"
  using assms(3) age_within [OF assms(1,2), of now]
  by (auto simp: freshness_def Let_def split: option.splits if_splits)

lemma applied_section_ok:
  assumes "plausible max_age" and "plausible tolerance"
  shows "sy_freshness (applied_section now applied max_age tolerance) = ''fresh'' \<and>
     sy_reasons (applied_section now applied max_age tolerance) = [] \<longleftrightarrow>
     (\<exists>t. Option.bind applied (\<lambda>p. iy_data_as_of (fst p)) = Some t \<and> within now max_age tolerance t)"
  using freshness_fresh [OF assms, of now]
  by (cases applied) (auto simp: applied_section_def add_reason_def empty_section_def split: prod.split)

lemma applied_section_fields:
  "sy_freshness (applied_section now applied max_age tolerance) = ''unavailable'' \<longleftrightarrow> applied = None"
  "sy_check_at (applied_section now applied max_age tolerance) = None"
  "sy_applied (applied_section now applied max_age tolerance) = map_option fst applied"
  by (cases applied; auto simp: applied_section_def add_reason_def empty_section_def freshness_def Let_def
      split: prod.split option.split)+

lemma apply_check_ok:
  assumes "sy_check_at s = None" and "plausible max_age" and "plausible tolerance"
  shows "sy_reasons (apply_check now check max_age tolerance s) = [] \<longleftrightarrow>
     sy_reasons s = [] \<and> (\<exists>c t. check = Some c \<and> ck_retrieved c = Some t \<and> within now max_age tolerance t)"
  using assms(1) age_within [OF assms(2,3), of now]
  by (auto simp: apply_check_def add_reason_def Let_def split: option.split)

lemma add_operational_ok:
  "sy_reasons (add_operational_reasons check s) = [] \<longleftrightarrow> sy_reasons s = [] \<and>
     (\<forall>a. sy_attempt s = Some a \<longrightarrow> \<not> (attempt_after_accepted (ty_started a) (ty_id a) check \<and> ty_overdue a) \<and>
        \<not> attempt_failed_after check a \<and> \<not> list_ex (failure_after check) (sy_failures s))"
  by (cases "sy_attempt s") (auto simp: add_operational_reasons_def add_reason_def Let_def)

section \<open>Tables of attempts\<close>

text \<open>
  What is asked of a table of attempts: the times the accepted ones were retrieved at, the last
  accepted one, and that nothing has gone wrong since: no attempt failed after it, and the latest
  attempt, if it started after it, is not overdue.
\<close>

definition retrievals :: "('a attempt_row_scheme) list \<Rightarrow> instant set" where
  "retrievals accepted = {t. \<exists>r \<in> set accepted. at_retrieved r = Some t}"

definition last_accepted :: "('a attempt_row_scheme) list \<Rightarrow> 'a attempt_row_scheme option" where
  "last_accepted accepted = max_row completed_key accepted"

definition operational ::
    "instant \<Rightarrow> duration \<Rightarrow> ('a attempt_row_scheme \<Rightarrow> bool) \<Rightarrow> ('a attempt_row_scheme) list \<Rightarrow> bool" where
  "operational now run_age accepted rows \<longleftrightarrow>
     (\<exists>c. last_accepted (filter accepted rows) = Some c \<and>
        (\<forall>r \<in> set rows. at_status r = Failed \<longrightarrow> completed_key r \<le> completed_key c) \<and>
        (\<forall>r. max_row started_key rows = Some r \<and> at_status r = Running \<and> started_key r > (the (at_completed c), at_id c) \<longrightarrow>
           time_sub now (at_started r) \<le> run_age))"

locale checked_attempts =
  fixes rows :: "db \<Rightarrow> ('a attempt_row_scheme) list" and accepted :: "'a attempt_row_scheme \<Rightarrow> bool" and ok :: "db \<Rightarrow> bool"
  assumes ended: "ok db \<Longrightarrow> r \<in> set (rows db) \<Longrightarrow> ended_ok r"
    and accepted_completed: "accepted r \<Longrightarrow> at_completed r \<noteq> None"
begin

lemma mem_map_filter: "t \<in> set (List.map_filter f xs) \<longleftrightarrow> (\<exists>x \<in> set xs. f x = Some t)"
  by (force simp: List.map_filter_def)

lemma check_retrieved:
  "(\<exists>c. accepted_check_of (filter accepted (rows db)) = Some c \<and> ck_retrieved c = Some t) \<longleftrightarrow>
   retrievals (filter accepted (rows db)) \<noteq> {} \<and> t = Max (retrievals (filter accepted (rows db)))"
proof -
  let ?ts = "List.map_filter at_retrieved (filter accepted (rows db))"
  have ts: "set ?ts = retrievals (filter accepted (rows db))" by (auto simp: retrievals_def mem_map_filter)
  have "retrievals (filter accepted (rows db)) \<noteq> {} \<Longrightarrow> filter accepted (rows db) \<noteq> []" by (auto simp: retrievals_def filter_empty_conv)
  then show ?thesis
    using ts max_row_None [of completed_key "filter accepted (rows db)"]
    by (cases ?ts) (auto simp: accepted_check_of_def)
qed

lemma check_None: "accepted_check_of (filter accepted (rows db)) = None \<longleftrightarrow> last_accepted (filter accepted (rows db)) = None"
  by (simp add: accepted_check_of_def last_accepted_def)

lemma check_Some:
  assumes "accepted_check_of (filter accepted (rows db)) = Some c"
  shows "\<exists>r. last_accepted (filter accepted (rows db)) = Some r \<and> completed_key r = ((0, ck_completed c), ck_id c) \<and>
     ck_completed c = the (at_completed r) \<and> ck_id c = at_id r"
proof -
  from assms obtain r where r: "last_accepted (filter accepted (rows db)) = Some r" "ck_completed c = the (at_completed r)" "ck_id c = at_id r"
    by (auto simp: accepted_check_of_def last_accepted_def)
  have "accepted r" using max_row_greatest r(1) by (auto simp: last_accepted_def dest!: max_row_greatest)
  then obtain t where "at_completed r = Some t" using accepted_completed by auto
  then show ?thesis using r by (auto simp: completed_key_def null_key_def)
qed

lemma after_key:
  assumes "at_completed r = Some t"
  shows "attempt_after_accepted t (at_id r) check \<longleftrightarrow>
     (case check of None \<Rightarrow> True | Some c \<Rightarrow> completed_key r > ((0, ck_completed c), ck_id c))"
  using assms by (auto simp: attempt_after_accepted_def completed_key_def null_key_def split: option.split)

text \<open>The limit on the failures that are loaded hides none that matters.\<close>

lemma failures_limited:
  assumes "ok db" and "0 < n"
  shows "list_ex (failure_after check) (map (failure_of db) (take n (failed_rows (rows db)))) \<longleftrightarrow>
     (\<exists>r \<in> set (rows db). at_status r = Failed \<and>
        (case check of None \<Rightarrow> True | Some c \<Rightarrow> completed_key r > ((0, ck_completed c), ck_id c)))"
    (is "?l \<longleftrightarrow> (\<exists>r \<in> set (rows db). _ \<and> ?after r)")
proof -
  let ?failed = "filter (\<lambda>r. at_status r = Failed) (rows db)"
  have fa: "failure_after check (failure_of db r) \<longleftrightarrow> ?after r" if r: "r \<in> set ?failed" for r
  proof -
    have "ended_ok r" using ended [OF assms(1)] r by simp
    with r obtain t where "at_completed r = Some t" by (auto simp: ended_ok_def)
    with after_key [OF this] show ?thesis by (simp add: failure_after_def failure_of_def)
  qed
  have sub: "set (take n (failed_rows (rows db))) \<subseteq> set ?failed"
    using set_take_subset [of n "failed_rows (rows db)"] by (simp add: failed_rows_def)
  have "?l \<longleftrightarrow> (\<exists>r \<in> set (take n (failed_rows (rows db))). failure_after check (failure_of db r))"
    by (simp add: list_ex_iff)
  also have "\<dots> \<longleftrightarrow> (\<exists>r \<in> set (take n (failed_rows (rows db))). ?after r)"
    using sub fa by (intro bex_cong refl) blast
  also have "\<dots> \<longleftrightarrow> (\<exists>r \<in> set ?failed. ?after r)"
  proof
    assume "\<exists>r \<in> set ?failed. ?after r"
    then obtain r where r: "r \<in> set ?failed" "?after r" by blast
    show "\<exists>r \<in> set (take n (failed_rows (rows db))). ?after r"
    proof (cases "r \<in> set (take n (failed_rows (rows db)))")
      case False
      have "failed_rows (rows db) \<noteq> []" using r(1) by (metis empty_iff failed_rows_def list.set(1) set_order_desc)
      then obtain x where x: "x \<in> set (take n (failed_rows (rows db)))" using assms(2) by (cases "failed_rows (rows db)"; cases n) auto
      have "completed_key r \<le> completed_key x"
        by (rule take_order_desc [OF r(1)]) (use False x in \<open>simp_all add: failed_rows_def\<close>)
      with r(2) have "?after x" by (auto split: option.splits)
      with x show ?thesis by blast
    qed (use r in blast)
  next
    assume "\<exists>r \<in> set (take n (failed_rows (rows db))). ?after r"
    then show "\<exists>r \<in> set ?failed. ?after r" using sub by (meson subsetD)
  qed
  finally show ?thesis unfolding set_filter by blast
qed

definition section_of :: "instant \<Rightarrow> duration \<Rightarrow> duration \<Rightarrow> duration \<Rightarrow> nat \<Rightarrow> status_section \<Rightarrow> db \<Rightarrow> status_section" where
  "section_of now check_age run_age tolerance n s db =
     (let check = accepted_check_of (filter accepted (rows db))
      in add_operational_reasons check ((apply_check now check check_age tolerance s)
           \<lparr>sy_attempt := map_option (attempt_of db now run_age) (max_row started_key (rows db)),
            sy_failures := map (failure_of db) (take n (failed_rows (rows db)))\<rparr>))"

lemma operational_section_Inr:
  "operational_section name table rows accepted now check_age run_age tolerance n s \<sigma> = (Inr s', \<sigma>') \<Longrightarrow>
   se_db \<sigma>' = se_db \<sigma> \<and> s' = section_of now check_age run_age tolerance n s (se_db \<sigma>)"
  by (auto simp: operational_section_def section_of_def accepted_check_def load_latest_attempt_def load_failures_def
      Let_def ok_rules dest!: query_Inr)

lemma operational_section_quiet:
  "se_faults \<sigma> = [] \<Longrightarrow> operational_section name table rows accepted now check_age run_age tolerance n s \<sigma> =
     (Inr (section_of now check_age run_age tolerance n s (se_db \<sigma>)), \<sigma>)"
  by (simp add: operational_section_def section_of_def accepted_check_def load_latest_attempt_def load_failures_def
      Let_def bind_tx_def query_quiet ret_def)

lemma section_of_fields [simp]:
  "sy_freshness (section_of now check_age run_age tolerance n s db) = sy_freshness s"
  "sy_applied (section_of now check_age run_age tolerance n s db) = sy_applied s"
  by (simp_all add: section_of_def Let_def)

lemma overdue_reason:
  "attempt_after_accepted (ty_started (attempt_of db now run_age r)) (ty_id (attempt_of db now run_age r)) (Some c) \<and>
     ty_overdue (attempt_of db now run_age r) \<longleftrightarrow>
   at_status r = Running \<and> started_key r > (ck_completed c, ck_id c) \<and> \<not> time_sub now (at_started r) \<le> run_age"
  by (auto simp: attempt_of_def attempt_after_accepted_def started_key_def)

lemma failed_attempt_row:
  assumes "attempt_failed_after check (attempt_of db now run_age r)"
    and code: "\<And>c. at_skip_code r = Some c \<Longrightarrow> c \<noteq> ''failed''"
  shows "at_status r = Failed \<and> (case check of None \<Rightarrow> True | Some c \<Rightarrow> completed_key r > ((0, ck_completed c), ck_id c))"
proof -
  have "at_status r = Failed" using assms
    by (auto simp: attempt_failed_after_def attempt_of_def status_text_def split: run_status.splits option.splits)
  moreover obtain t where "at_completed r = Some t" "attempt_after_accepted t (at_id r) check"
    using assms(1) by (auto simp: attempt_failed_after_def attempt_of_def split: option.splits)
  ultimately show ?thesis using after_key [of r t check] by simp
qed

text \<open>A section has no operational reason exactly when its table is operational.\<close>

lemma section_ok:
  assumes inv: "ok db" and limit: "0 < n" and ages: "plausible check_age" "plausible tolerance"
    and s: "sy_check_at s = None"
    and codes: "\<And>r c. r \<in> set (rows db) \<Longrightarrow> at_skip_code r = Some c \<Longrightarrow> c \<noteq> ''failed''"
  shows "sy_reasons (section_of now check_age run_age tolerance n s db) = [] \<longleftrightarrow>
     sy_reasons s = [] \<and> retrievals (filter accepted (rows db)) \<noteq> {} \<and> within now check_age tolerance (Max (retrievals (filter accepted (rows db)))) \<and> operational now run_age accepted (rows db)"
proof (cases "accepted_check_of (filter accepted (rows db))")
  case None
  then have "last_accepted (filter accepted (rows db)) = None" by (simp add: check_None)
  then show ?thesis using apply_check_ok [OF s ages, of now None] None
    by (simp add: section_of_def add_operational_ok operational_def)
next
  case (Some c)
  from check_Some [OF Some] obtain r where r: "last_accepted (filter accepted (rows db)) = Some r"
    "completed_key r = ((0, ck_completed c), ck_id c)" "ck_completed c = the (at_completed r)" "ck_id c = at_id r" by blast
  let ?late = "\<exists>x \<in> set (rows db). at_status x = Failed \<and> completed_key x > completed_key r"
  have late: "list_ex (failure_after (Some c)) (map (failure_of db) (take n (failed_rows (rows db)))) \<longleftrightarrow> ?late"
    using failures_limited [OF inv limit, of "Some c"] by (simp add: r(2))
  have attempt: "attempt_failed_after (Some c) (attempt_of db now run_age x) \<Longrightarrow> ?late"
    if "max_row started_key (rows db) = Some x" for x
  proof -
    assume "attempt_failed_after (Some c) (attempt_of db now run_age x)"
    moreover have x: "x \<in> set (rows db)" using max_row_greatest [OF that] by simp
    ultimately have "at_status x = Failed \<and> completed_key x > completed_key r"
      using failed_attempt_row [of "Some c" db now run_age x] codes [OF x] by (simp add: r(2))
    with x show ?late by blast
  qed
  have none: "max_row started_key (rows db) = None \<Longrightarrow> \<not> ?late" by (simp add: max_row_None)
  have retrieved: "(\<exists>t. ck_retrieved c = Some t \<and> within now check_age tolerance t) \<longleftrightarrow>
      retrievals (filter accepted (rows db)) \<noteq> {} \<and> within now check_age tolerance (Max (retrievals (filter accepted (rows db))))"
    using check_retrieved [of db] Some by auto
  let ?latest = "max_row started_key (rows db)"
  have op: "operational now run_age accepted (rows db) \<longleftrightarrow> \<not> ?late \<and>
      (\<forall>x. ?latest = Some x \<longrightarrow> \<not> (at_status x = Running \<and> started_key x > (ck_completed c, ck_id c) \<and>
         \<not> time_sub now (at_started x) \<le> run_age))"
    unfolding operational_def r(1) r(3,4) by (auto simp: not_less)
  have "sy_reasons (section_of now check_age run_age tolerance n s db) = [] \<longleftrightarrow>
      sy_reasons (apply_check now (Some c) check_age tolerance s) = [] \<and>
      (\<forall>x. ?latest = Some x \<longrightarrow> \<not> (at_status x = Running \<and> started_key x > (ck_completed c, ck_id c) \<and>
         \<not> time_sub now (at_started x) \<le> run_age) \<and> \<not> attempt_failed_after (Some c) (attempt_of db now run_age x) \<and> \<not> ?late)"
    using overdue_reason [of db now run_age _ c]
    by (cases ?latest) (simp add: section_of_def Some Let_def add_operational_ok late none,
      simp add: section_of_def Some Let_def add_operational_ok late, blast)
  also have "\<dots> \<longleftrightarrow> sy_reasons (apply_check now (Some c) check_age tolerance s) = [] \<and> operational now run_age accepted (rows db)"
    using attempt none unfolding op by (cases ?latest) auto
  finally show ?thesis by (simp add: apply_check_ok [OF s ages] retrieved)
qed

end

text \<open>The two tables.\<close>

interpretation alert_checks: checked_attempts db_runs accepted_alert_run runs_inv
  by unfold_locales (auto simp: runs_inv_def run_ok_def accepted_alert_run_def)

interpretation gtfs_checks: checked_attempts db_imports accepted_import imports_inv
  by unfold_locales (auto simp: imports_inv_def accepted_import_def)

section \<open>Counts\<close>

lemma current_revision_last:
  assumes "alerts_inv db" and "a \<in> set (db_alerts db)"
  shows "current_revision db a = Some (last (revisions_of db (sa_id a)))"
    and "last (revisions_of db (sa_id a)) \<in> set (db_revisions db)" and "rv_alert (last (revisions_of db (sa_id a))) = sa_id a"
proof -
  have ids: "distinct (map rv_id (db_revisions db))" using assms(1) by (simp add: alerts_inv_def ids_ok_def)
  have t: "revisions_of db (sa_id a) \<noteq> []" "sa_current a = Some (rv_id (last (revisions_of db (sa_id a))))"
    using assms by (auto simp: alerts_inv_def timeline_ok_def)
  from last_in_set [OF t(1)] show l: "last (revisions_of db (sa_id a)) \<in> set (db_revisions db)"
    "rv_alert (last (revisions_of db (sa_id a))) = sa_id a" by (auto simp: revisions_of_def)
  show "current_revision db a = Some (last (revisions_of db (sa_id a)))"
    using find_key_unique [OF ids l(1)] by (simp add: current_revision_def t(2))
qed

lemma current_revisions_all:
  assumes "alerts_inv db"
  shows "current_revisions db = map (\<lambda>a. (a, last (revisions_of db (sa_id a)))) (db_alerts db)"
proof -
  have "List.map_filter (\<lambda>a. map_option (\<lambda>r. (a, r)) (current_revision db a)) xs = map (\<lambda>a. (a, last (revisions_of db (sa_id a)))) xs"
    if "set xs \<subseteq> set (db_alerts db)" for xs
    using that by (induction xs) (simp_all add: List.map_filter_def current_revision_last(1) [OF assms])
  then show ?thesis by (simp add: current_revisions_def)
qed

lemma filter_disjoint_le:
  "(\<And>x. p x \<Longrightarrow> q x) \<Longrightarrow> (\<And>x. p' x \<Longrightarrow> q x) \<Longrightarrow> (\<And>x. \<not> (p x \<and> p' x)) \<Longrightarrow>
   length (filter p xs) + length (filter p' xs) \<le> length (filter q xs)"
  by (induction xs) (auto simp: le_SucI)

lemma alert_counts_add_up:
  assumes "alerts_inv db"
  shows "nc_present (alert_counts now db) + nc_historical (alert_counts now db) = length (db_alerts db)"
    and "nc_current (alert_counts now db) + nc_upcoming (alert_counts now db) \<le> nc_present (alert_counts now db)"
proof -
  have "length (filter is_present (current_revisions db)) + length (filter (\<lambda>ar. \<not> is_present ar) (current_revisions db)) =
      length (db_alerts db)"
    using sum_length_filter_compl [of is_present "current_revisions db"] by (simp add: current_revisions_all [OF assms])
  then show "nc_present (alert_counts now db) + nc_historical (alert_counts now db) = length (db_alerts db)"
    by (simp add: alert_counts_def Let_def is_present_def)
  show "nc_current (alert_counts now db) + nc_upcoming (alert_counts now db) \<le> nc_present (alert_counts now db)"
    unfolding alert_counts_def Let_def alert_status_counts.simps by (rule filter_disjoint_le) auto
qed

end
