(* ===== verification/System.thy ===== *)
theory System
  imports GtfsLife
begin

text \<open>
  One database, two workers: the steps of \<open>AlertRepository\<close> and of \<open>GTFSRepository\<close> in any
  order. Each keeps what the other relies on: the alert worker writes no table of the network, the
  GTFS worker none of the feed, both only add to the archives and to the sequences. So both
  invariants hold in every state the two reach together.
\<close>

section \<open>What each worker leaves alone\<close>

definition network_kept :: "db \<Rightarrow> db \<Rightarrow> bool" where
  "network_kept db db' \<longleftrightarrow> db_imports db' = db_imports db \<and> db_routes db' = db_routes db \<and> db_stops db' = db_stops db \<and>
     db_route_stations db' = db_route_stations db \<and> grows db db'"

definition feed_kept :: "db \<Rightarrow> db \<Rightarrow> bool" where
  "feed_kept db db' \<longleftrightarrow> db_runs db' = db_runs db \<and> db_snapshots db' = db_snapshots db \<and>
     db_snapshot_periods db' = db_snapshot_periods db \<and> db_snapshot_entities db' = db_snapshot_entities db \<and>
     db_alerts db' = db_alerts db \<and> db_revisions db' = db_revisions db \<and>
     db_revision_periods db' = db_revision_periods db \<and> db_revision_entities db' = db_revision_entities db \<and>
     grows db db'"

interpretation network_kept: tx_relation network_kept
  by unfold_locales (auto simp: network_kept_def seq_le_def)

interpretation feed_kept: tx_relation feed_kept
  by unfold_locales (auto simp: feed_kept_def seq_le_def)

lemmas kept_defs = network_kept_def feed_kept_def serves_def seq_le_def Let_def

lemma rollback_kept:
  "grows db db1 \<Longrightarrow> network_kept db (rollback db db1)" "grows db db1 \<Longrightarrow> feed_kept db (rollback db db1)"
  by (simp_all add: network_kept_def feed_kept_def)

context tx_relation
begin

lemma rolled_back: "R db db1 \<Longrightarrow> R db (rollback db db1)"
  by (simp add: rollback_def seq)

lemma auto_commit_related:
  assumes "auto_commit io w f db = (r, db')" and "serves R f"
  shows "R db db'"
proof -
  have "R db (snd (f db))" using assms(2) by (simp add: serves_def)
  with auto_commit_cases [OF assms(1)] rolled_back show ?thesis by auto
qed

text \<open>A step of the alert worker obeys what its statements serve.\<close>

lemma alert_step_related:
  assumes step: "alert_step env db db'"
    and archive: "\<And>k obj. obeys R (archive_body runs_table k obj)"
    and body: "\<And>now k result summary ts sha at. obeys R (complete_body env now k result summary ts sha at)"
    and runs: "\<And>src now. serves R (insert_run src now)" "\<And>p f. serves R (update_runs p f)"
  shows "R db db'"
  using step
proof cases
  case (start io src r)
  show ?thesis by (rule auto_commit_related [OF start [unfolded start_alert_run_def] runs(1)])
next
  case (record_raw io run_id obj r)
  from alert_attempts.record_archive_cases [OF record_raw [unfolded record_alert_archive_def]]
  show ?thesis
  proof (elim disjE exE conjE)
    fix res s
    assume b: "archive_body runs_table run_id obj \<lparr>se_db = db, se_faults = io_faults io\<rparr> = (res, s)"
      and "db' = rollback db (se_db s)"
    with obeysD [OF archive b] rolled_back show ?thesis by simp
  next
    fix res s
    assume b: "archive_body runs_table run_id obj \<lparr>se_db = db, se_faults = io_faults io\<rparr> = (res, s)" and "db' = se_db s"
    with obeysD [OF archive b] show ?thesis by simp
  qed (simp add: refl)
next
  case (fail io run_id fetch summary f r)
  then obtain r1 where "auto_commit io (Wrapf ''mark service-alert ingestion run %d failed: %w'' [AInt run_id])
      (update_runs (\<lambda>r. at_id r = run_id \<and> at_status r = Running) (fail_run_row env fetch summary f (io_now io))) db = (r1, db')"
    by (auto simp: fail_alert_run_with_failure_def split: prod.splits sum.splits)
  then show ?thesis by (rule auto_commit_related) (rule runs(2))
next
  case (complete io run_id result summary r)
  then show ?thesis
  proof (cases rule: complete_alert_run_cases)
    case (2 ts at res s)
    from obeysD [OF body 2(3)] have "R db (se_db s)" by simp
    with 2(4) rolled_back show ?thesis by auto
  qed (simp add: refl)
qed

end

lemma archive_body_keeps_network: "obeys network_kept (archive_body runs_table k obj)"
  unfolding archive_body_def check_link_def
  by (intro network_kept.rules)
    (simp_all add: kept_defs upsert_archive_def link_archive_def runs_table_def split: option.split)

lemma archive_body_keeps_feed: "obeys feed_kept (archive_body imports_table k obj)"
  unfolding archive_body_def check_link_def
  by (intro feed_kept.rules)
    (simp_all add: kept_defs upsert_archive_def link_archive_def imports_table_def split: option.split)

section \<open>The alert worker\<close>

lemma complete_body_keeps_network: "obeys network_kept (complete_body env now run_id result summary ts sha at)"
  by (rule network_kept.obeys_complete_body)
    (simp_all add: kept_defs update_runs_def insert_snapshot_def insert_revision_def insert_alert_def
      add_snapshot_period_def add_snapshot_entity_def add_revision_period_def add_revision_entity_def
      update_alerts_def update_revisions_def split: option.split)

lemma alert_step_keeps_network: "alert_step env db db' \<Longrightarrow> network_kept db db'"
  by (erule network_kept.alert_step_related)
    (rule archive_body_keeps_network, rule complete_body_keeps_network,
      simp_all add: kept_defs insert_run_def update_runs_def)

section \<open>The GTFS worker\<close>

lemma same_alerts_feed_kept: "same_alerts db db' \<Longrightarrow> feed_kept db db'"
  by (cases db; cases db') (simp add: same_alerts_def feed_kept_def)

lemma gtfs_step_keeps_feed:
  assumes "gtfs_step env db db'"
  shows "feed_kept db db'"
  using assms
proof cases
  case (start io src r)
  show ?thesis
    by (rule feed_kept.auto_commit_related [OF start [unfolded start_import_def]]) (simp add: kept_defs insert_import_def)
next
  case (record_raw io k obj r)
  from gtfs_attempts.record_archive_cases [OF record_raw [unfolded record_gtfs_archive_def]]
  show ?thesis
  proof (elim disjE exE conjE)
    fix res s
    assume body: "archive_body imports_table k obj \<lparr>se_db = db, se_faults = io_faults io\<rparr> = (res, s)"
      and "db' = rollback db (se_db s)"
    with obeysD [OF archive_body_keeps_feed body] rollback_kept(2) show ?thesis by (simp add: feed_kept_def)
  next
    fix res s
    assume body: "archive_body imports_table k obj \<lparr>se_db = db, se_faults = io_faults io\<rparr> = (res, s)" and "db' = se_db s"
    with obeysD [OF archive_body_keeps_feed body] show ?thesis by simp
  qed (simp add: feed_kept.refl)
next
  case (fail io k d f r)
  then obtain r1 where "auto_commit io (Wrapf ''mark GTFS import %d failed: %w'' [AInt k])
      (update_imports (\<lambda>r. at_id r = k \<and> at_status r = Running) (fail_import_row env d f (io_now io))) db = (r1, db')"
    by (auto simp: fail_import_with_failure_def split: prod.splits sum.splits)
  then show ?thesis by (rule feed_kept.auto_commit_related) (simp add: kept_defs update_imports_def)
next
  case (skip io k d b)
  from skip_if_imported_cases [OF skip] show ?thesis
    using obeysD [OF skip_body_same] same_alerts_feed_kept feed_kept.refl by fastforce
next
  case (complete io k d ds b)
  from complete_import_cases [OF complete] show ?thesis
    using obeysD [OF import_body_same] same_alerts_feed_kept feed_kept.refl by (fastforce simp: committed_import_def)
qed

section \<open>Together\<close>

inductive system_step :: "repo_env \<Rightarrow> db \<Rightarrow> db \<Rightarrow> bool" for env :: repo_env where
  alerts: "alert_step env db db' \<Longrightarrow> system_step env db db'"
| network: "gtfs_step env db db' \<Longrightarrow> system_step env db db'"

definition system_inv :: "db \<Rightarrow> bool" where
  "system_inv db \<longleftrightarrow> db_inv db \<and> gtfs_inv db"

lemma gtfs_inv_alert_step:
  assumes "alert_step env db db'" and "system_inv db"
  shows "system_inv db'"
proof -
  have inv: "db_inv db'" using alert_step_inv [OF assms(1)] assms(2) by (simp add: system_inv_def)
  from alert_step_keeps_network [OF assms(1)]
  have k: "db_imports db' = db_imports db" "db_routes db' = db_routes db" "db_stops db' = db_stops db"
    "db_route_stations db' = db_route_stations db" "grows db db'" by (simp_all add: network_kept_def)
  have "imports_inv db'" using assms(2) k(1,5) by (fastforce simp: system_inv_def gtfs_inv_def imports_inv_def seq_le_def)
  moreover have "network_inv db'"
    by (rule network_inv_tables [OF _ k(2-4)]) (use assms(2) k(1) in \<open>auto simp: system_inv_def gtfs_inv_def\<close>)
  ultimately show ?thesis using inv by (simp add: system_inv_def gtfs_inv_def db_inv_def)
qed

lemma db_inv_gtfs_step:
  assumes "gtfs_step env db db'" and "system_inv db"
  shows "system_inv db'"
proof -
  have inv: "gtfs_inv db'" and arch: "set (db_archives db) \<subseteq> set (db_archives db')"
    using gtfs_step_inv [OF assms(1)] assms(2) by (simp_all add: system_inv_def imports_advance_def)
  from gtfs_step_keeps_feed [OF assms(1)]
  have k: "db_runs db' = db_runs db" "db_alerts db' = db_alerts db" "db_revisions db' = db_revisions db" "grows db db'"
    by (simp_all add: feed_kept_def)
  have I: "runs_inv db" "alerts_inv db" "chronology_inv db" "links_inv db"
    using assms(2) by (simp_all add: system_inv_def db_inv_def)
  have "runs_inv db'" using I(1) k(1,4) by (fastforce simp: runs_inv_def seq_le_def)
  moreover have "alerts_inv db'" by (rule alerts_inv_tables [OF k(2-4) I(2)])
  moreover have "chronology_inv db'" by (rule chronology_inv_tables [OF k(1-3) I(3)])
  moreover have "links_inv db'" using I(4) image_mono [OF arch, of ra_id] by (fastforce simp: links_inv_def k(1))
  ultimately show ?thesis using inv by (simp add: system_inv_def db_inv_def gtfs_inv_def)
qed

lemma system_steps_inv:
  assumes "(system_step env)\<^sup>*\<^sup>* db db'" and "system_inv db"
  shows "system_inv db'"
  using assms
  by (induction rule: rtranclp_induct) (auto elim!: system_step.cases intro: gtfs_inv_alert_step db_inv_gtfs_step)

lemma system_inv_empty: "system_inv empty_db"
  by (simp add: system_inv_def db_inv_empty gtfs_inv_empty)

lemma alert_steps_system: "(alert_step env)\<^sup>*\<^sup>* db db' \<Longrightarrow> (system_step env)\<^sup>*\<^sup>* db db'"
  by (induction rule: rtranclp_induct) (auto intro: system_step.alerts rtranclp.rtrancl_into_rtrancl)

lemma gtfs_steps_system: "(gtfs_step env)\<^sup>*\<^sup>* db db' \<Longrightarrow> (system_step env)\<^sup>*\<^sup>* db db'"
  by (induction rule: rtranclp_induct) (auto intro: system_step.network rtranclp.rtrancl_into_rtrancl)

end
