(* ===== verification/StatusProperties.thy ===== *)
theory StatusProperties
  imports StatusRules System NetworkProperties
begin

text \<open>
  The promises of the status report, each with a concrete application, and of the database two
  workers share.
\<close>

section \<open>The report as a function of the database\<close>

definition alert_section :: "status_query \<Rightarrow> (ingestion_summary \<times> string) option \<Rightarrow> db \<Rightarrow> status_section" where
  "alert_section q applied db =
     alert_checks.section_of (qy_now q) (qy_alert_check_age q) (qy_alert_run q) (qy_tolerance q) (nat (qy_failures q))
       (applied_section (qy_now q) applied (qy_alert_data_age q) (qy_tolerance q)) db"

definition gtfs_section :: "status_query \<Rightarrow> (ingestion_summary \<times> string) option \<Rightarrow> db \<Rightarrow> status_section" where
  "gtfs_section q applied db =
     gtfs_checks.section_of (qy_now q) (qy_gtfs_check_age q) (qy_gtfs_run q) (qy_tolerance q) (nat (qy_failures q))
       (applied_section (qy_now q) applied (qy_gtfs_data_age q) (qy_tolerance q)) db"

definition clamped :: "status_query \<Rightarrow> status_query" where
  "clamped q = q\<lparr>qy_failures := clamp_failures (qy_failures q)\<rparr>"

lemma clamped_simps [simp]:
  "qy_now (clamped q) = qy_now q" "qy_alert_data_age (clamped q) = qy_alert_data_age q"
  "qy_alert_check_age (clamped q) = qy_alert_check_age q" "qy_gtfs_data_age (clamped q) = qy_gtfs_data_age q"
  "qy_gtfs_check_age (clamped q) = qy_gtfs_check_age q" "qy_alert_run (clamped q) = qy_alert_run q"
  "qy_gtfs_run (clamped q) = qy_gtfs_run q" "qy_tolerance (clamped q) = qy_tolerance q"
  "0 < nat (qy_failures (clamped q))"
  by (simp_all add: clamped_def clamp_failures_def)

lemma get_status_Inr:
  assumes "get_status io q db = Inr resp"
  obtains a g where "last_applied_alerts db = Inr a" "last_applied_network db = Inr g"
    "fst (sp_alerts resp) = alert_section (clamped q) a db" "fst (sp_gtfs resp) = gtfs_section (clamped q) g db"
    "snd (sp_alerts resp) = alert_counts (pg_time (qy_now q)) db"
    "gc_routes (snd (sp_gtfs resp)) = length (db_routes db)"
    "gc_regular (snd (sp_gtfs resp)) + gc_replacement (snd (sp_gtfs resp)) = length (db_routes db)"
    "gc_stations (snd (sp_gtfs resp)) = length (filter (\<lambda>x. st_location_type (sd_stop x) = 1) (db_stops db))"
    "sp_overall resp = overall_status (alert_section (clamped q) a db) (gtfs_section (clamped q) g db)"
proof -
  obtain al ge where tx: "read_tx io ''ingestion status query''
      (bind_tx (load_alert_status (clamped q)) (\<lambda>alerts. bind_tx (load_gtfs_status (clamped q)) (\<lambda>gtfs. ret (alerts, gtfs)))) db = Inr (al, ge)"
    and resp: "sp_overall resp = overall_status (fst al) (fst ge)" "sp_alerts resp = al" "sp_gtfs resp = ge"
    using assms by (auto simp: get_status_def clamped_def [symmetric] Let_def bind_res_Inr split: prod.splits)
  from tx obtain s1 s2 where 1: "load_alert_status (clamped q) \<lparr>se_db = db, se_faults = io_faults io\<rparr> = (Inr al, s1)"
    and 2: "load_gtfs_status (clamped q) s1 = (Inr ge, s2)"
    by (elim read_tx_Inr) (auto simp: ok_rules)
  have filters: "length (filter (\<lambda>x. \<not> P x) xs) + length (filter P xs) = length xs" for P :: "route_row_db \<Rightarrow> bool" and xs
    using sum_length_filter_compl [of P xs] by (simp add: add.commute)
  from 1 obtain a where a: "last_applied_alerts db = Inr a" "fst al = alert_section (clamped q) a db"
    "snd al = alert_counts (pg_time (qy_now q)) db" "se_db s1 = db"
    by (auto simp: load_alert_status_def ok_rules alert_section_def
        dest!: scan_tx_Inr query_Inr alert_checks.operational_section_Inr)
  from 2 obtain g where g: "last_applied_network db = Inr g" "fst ge = gtfs_section (clamped q) g db"
    "gc_routes (snd ge) = length (db_routes db)" "gc_regular (snd ge) + gc_replacement (snd ge) = length (db_routes db)"
    "gc_stations (snd ge) = length (filter (\<lambda>x. st_location_type (sd_stop x) = 1) (db_stops db))"
    by (auto simp: load_gtfs_status_def ok_rules gtfs_section_def a(4) filters filter_map comp_def
        dest!: scan_tx_Inr query_Inr gtfs_checks.operational_section_Inr)
  show thesis by (rule that [OF a(1) g(1)]) (use a g resp in simp_all)
qed

section \<open>The applied ingestions\<close>

lemma applied_summary_Inr:
  "ended_ok r \<Longrightarrow> at_status r = Succeeded \<Longrightarrow>
   \<exists>x. applied_summary db r t n m k = Inr x \<and> iy_data_as_of x = t"
  by (auto simp: ended_ok_def applied_summary_def)

lemma last_applied_alerts_read:
  assumes "runs_inv db"
  shows "applied_alert_run db = None \<and> last_applied_alerts db = Inr None \<or>
    (\<exists>r x b. applied_alert_run db = Some r \<and> last_applied_alerts db = Inr (Some (x, b)) \<and> iy_data_as_of x = run_observed r)"
proof (cases "applied_alert_run db")
  case (Some r)
  then have "r \<in> set (db_runs db)" "at_status r = Succeeded"
    using max_row_greatest by (fastforce simp: applied_alert_run_def dest!: max_row_greatest)+
  then show ?thesis
    using applied_summary_Inr [of r db "run_observed r" "case ir_alert_count r of None \<Rightarrow> 0 | Some n \<Rightarrow> n" 0 0] assms Some
    by (auto simp: last_applied_alerts_def runs_inv_def run_ok_def)
qed (simp add: last_applied_alerts_def)

definition current_network :: "db \<Rightarrow> import_row option" where
  "current_network db = find (\<lambda>r. at_status r = Succeeded \<and> gi_current r) (db_imports db)"

lemma last_applied_network_read:
  assumes "imports_inv db"
  shows "current_network db = None \<and> last_applied_network db = Inr None \<or>
    (\<exists>r x b. current_network db = Some r \<and> last_applied_network db = Inr (Some (x, b)) \<and> iy_data_as_of x = import_observed r)"
proof (cases "current_network db")
  case (Some r)
  then have r: "r \<in> set (db_imports db)" "at_status r = Succeeded" by (auto simp: current_network_def dest: find_Some_mem)
  then have "ended_ok r" using assms by (simp add: imports_inv_def)
  let ?count = "\<lambda>f. case gi_summary r of None \<Rightarrow> 0 | Some x \<Rightarrow> f x"
  obtain x where "applied_summary db r (import_observed r) (?count sm_routes) (?count sm_trips) (?count sm_stop_times) = Inr x"
    "iy_data_as_of x = import_observed r"
    using applied_summary_Inr [OF \<open>ended_ok r\<close> r(2)] by blast
  then show ?thesis using Some by (simp add: last_applied_network_def current_network_def Let_def)
qed (simp add: last_applied_network_def current_network_def)

lemma skip_code_known: "attempt_ok r \<Longrightarrow> at_skip_code r = Some c \<Longrightarrow> c \<noteq> ''failed''"
  by (auto simp: attempt_ok_def)

section \<open>A sample\<close>

text \<open>One feed was applied and a network is installed.\<close>

definition installed_import :: import_row where
  "installed_import = (sample_import 1)\<lparr>at_status := Succeeded, at_completed := Some 9500, at_retrieved := Some 9000,
     at_sha256 := Some ''h1'', gi_requested := Some 9000, gi_modified := Some 8000,
     gi_summary := Some (ds_summary sample_dataset), gi_current := True\<rparr>"

definition system_sample :: db where
  "system_sample = sample_applied\<lparr>db_imports := [installed_import], db_seq := (db_seq sample_applied)\<lparr>sq_import := 2\<rparr>\<rparr>"

definition sample_query :: status_query where
  "sample_query = \<lparr>qy_now = 60000, qy_alert_data_age = 60000, qy_alert_check_age = 60000, qy_gtfs_data_age = 60000,
     qy_gtfs_check_age = 60000, qy_alert_run = 60000, qy_gtfs_run = 60000, qy_tolerance = 1000, qy_failures = 5\<rparr>"

lemma sample_applied_inv: "db_inv sample_applied"
  using alert_steps_inv [OF rtranclp.rtrancl_into_rtrancl [OF sample_ready_reachable sample_applied_step] db_inv_empty] ..

lemma system_sample_tables:
  "db_runs system_sample = [sample_done]" "db_imports system_sample = [installed_import]"
  "db_alerts system_sample = db_alerts sample_applied" "db_revisions system_sample = db_revisions sample_applied"
  "db_archives system_sample = db_archives sample_applied" "db_runs sample_applied = [sample_done]"
  "db_routes system_sample = []" "db_stops system_sample = []" "db_route_stations system_sample = []"
  by (simp_all add: system_sample_def sample_applied_eq empty_db_def)

lemma system_sample_inv: "system_inv system_sample"
proof -
  have I: "runs_inv sample_applied" "alerts_inv sample_applied" "chronology_inv sample_applied"
    "archives_inv sample_applied" "links_inv sample_applied"
    using sample_applied_inv by (simp_all add: db_inv_def)
  have seq: "grows sample_applied system_sample"
    by (simp add: seq_le_def system_sample_def sample_applied_eq)
  have "runs_inv system_sample" using I(1) seq by (fastforce simp: runs_inv_def system_sample_tables seq_le_def)
  moreover have "alerts_inv system_sample" by (rule alerts_inv_tables [OF _ _ seq I(2)]) (simp_all add: system_sample_tables)
  moreover have "chronology_inv system_sample"
    by (rule chronology_inv_tables [OF _ _ _ I(3)]) (simp_all add: system_sample_tables)
  moreover have "archives_inv system_sample" "links_inv system_sample"
    using I(4,5) seq by (auto simp: archives_inv_def links_inv_def system_sample_tables seq_le_def)
  moreover have "imports_inv system_sample"
    using sample_storable
    by (simp add: imports_inv_def system_sample_tables installed_import_def sample_import_def import_ok_def attempt_ok_def
        ended_ok_def storable_def columns_fit_def) (simp add: system_sample_def)
  moreover have "network_inv system_sample"
    by (simp add: network_inv_def system_sample_tables deferred_ok_def)
  ultimately show ?thesis by (simp add: system_inv_def db_inv_def gtfs_inv_def)
qed

lemmas status_eval = system_sample_tables installed_import_def sample_import_def sample_done_def sample_run_def

section \<open>Promises\<close>

text \<open>A table of attempts was checked: an accepted one was retrieved lately, and nothing went wrong since.\<close>

definition checked ::
    "instant \<Rightarrow> duration \<Rightarrow> duration \<Rightarrow> duration \<Rightarrow> ('a attempt_row_scheme \<Rightarrow> bool) \<Rightarrow> ('a attempt_row_scheme) list \<Rightarrow> bool" where
  "checked now check_age tolerance run_age accepted rows \<longleftrightarrow>
     retrievals (filter accepted rows) \<noteq> {} \<and> within now check_age tolerance (Max (retrievals (filter accepted rows))) \<and>
     operational now run_age accepted rows"

definition plausible_query :: "status_query \<Rightarrow> bool" where
  "plausible_query q \<longleftrightarrow> plausible (qy_alert_data_age q) \<and> plausible (qy_alert_check_age q) \<and>
     plausible (qy_gtfs_data_age q) \<and> plausible (qy_gtfs_check_age q) \<and> plausible (qy_tolerance q)"

lemma alert_section_ok:
  assumes "runs_inv db" and "plausible_query q" and "0 < nat (qy_failures q)" and "last_applied_alerts db = Inr a"
  shows "sy_freshness (alert_section q a db) = ''fresh'' \<and> sy_reasons (alert_section q a db) = [] \<longleftrightarrow>
     (\<exists>r t. applied_alert_run db = Some r \<and> run_observed r = Some t \<and> within (qy_now q) (qy_alert_data_age q) (qy_tolerance q) t) \<and>
     checked (qy_now q) (qy_alert_check_age q) (qy_tolerance q) (qy_alert_run q) accepted_alert_run (db_runs db)"
proof -
  have p: "plausible (qy_alert_data_age q)" "plausible (qy_alert_check_age q)" "plausible (qy_tolerance q)"
    using assms(2) by (simp_all add: plausible_query_def)
  note A = applied_section_ok [OF p(1,3), of "qy_now q" a]
  have codes: "r \<in> set (db_runs db) \<Longrightarrow> at_skip_code r = Some c \<Longrightarrow> c \<noteq> ''failed''" for r c
    using assms(1) skip_code_known [of r c] by (auto simp: runs_inv_def run_ok_def)
  note S = alert_checks.section_ok [OF assms(1,3) p(2,3) applied_section_fields(2) codes, where run_age = "qy_alert_run q"]
  have "Option.bind a (\<lambda>p. iy_data_as_of (fst p)) = Option.bind (applied_alert_run db) run_observed"
    using last_applied_alerts_read [OF assms(1)] assms(4) by auto
  then show ?thesis using A S by (auto simp: alert_section_def checked_def bind_eq_Some_conv)
qed

lemma gtfs_section_ok:
  assumes "imports_inv db" and "plausible_query q" and "0 < nat (qy_failures q)" and "last_applied_network db = Inr a"
  shows "sy_freshness (gtfs_section q a db) = ''fresh'' \<and> sy_reasons (gtfs_section q a db) = [] \<longleftrightarrow>
     (\<exists>r t. current_network db = Some r \<and> import_observed r = Some t \<and> within (qy_now q) (qy_gtfs_data_age q) (qy_tolerance q) t) \<and>
     checked (qy_now q) (qy_gtfs_check_age q) (qy_tolerance q) (qy_gtfs_run q) accepted_import (db_imports db)"
proof -
  have p: "plausible (qy_gtfs_data_age q)" "plausible (qy_gtfs_check_age q)" "plausible (qy_tolerance q)"
    using assms(2) by (simp_all add: plausible_query_def)
  note A = applied_section_ok [OF p(1,3), of "qy_now q" a]
  have codes: "r \<in> set (db_imports db) \<Longrightarrow> at_skip_code r = Some c \<Longrightarrow> c \<noteq> ''failed''" for r c
    using assms(1) skip_code_known [of r c] by (auto simp: imports_inv_def import_ok_def)
  note S = gtfs_checks.section_ok [OF assms(1,3) p(2,3) applied_section_fields(2) codes, where run_age = "qy_gtfs_run q"]
  have "Option.bind a (\<lambda>p. iy_data_as_of (fst p)) = Option.bind (current_network db) import_observed"
    using last_applied_network_read [OF assms(1)] assms(4) by auto
  then show ?thesis using A S by (auto simp: gtfs_section_def checked_def bind_eq_Some_conv)
qed

text \<open>Without a failure of the connection the report is returned.\<close>

lemma get_status_quiet:
  assumes "runs_inv db" and "imports_inv db"
  shows "\<exists>resp. get_status (quiet_io now) q db = Inr resp"
proof -
  let ?s = "\<lparr>se_db = db, se_faults = []\<rparr>"
  obtain a g where a: "last_applied_alerts db = Inr a" "last_applied_network db = Inr g"
    using last_applied_alerts_read [OF assms(1)] last_applied_network_read [OF assms(2)] by blast
  have "\<exists>al. load_alert_status (clamped q) ?s = (Inr al, ?s)"
    unfolding load_alert_status_def
    by (simp add: bind_tx_quiet scan_tx_quiet a alert_checks.operational_section_quiet query_quiet ret_def)
  moreover have "\<exists>ge. load_gtfs_status (clamped q) ?s = (Inr ge, ?s)"
    unfolding load_gtfs_status_def
    by (simp add: bind_tx_quiet scan_tx_quiet a gtfs_checks.operational_section_quiet query_quiet ret_def)
  ultimately obtain al ge where "bind_tx (load_alert_status (clamped q)) (\<lambda>alerts.
      bind_tx (load_gtfs_status (clamped q)) (\<lambda>gtfs. ret (alerts, gtfs))) ?s = (Inr (al, ge), ?s)"
    by (auto simp: bind_tx_quiet ret_def)
  then show ?thesis
    by (auto simp: get_status_def clamped_def [symmetric] Let_def quiet_io_def read_tx_def)
qed

text \<open>The overall status is \<open>ok\<close> exactly when both feeds are healthy: the data that are applied are
  recent and not from the future, an accepted attempt was retrieved recently, no attempt failed
  after the last accepted one, and none that started after it is overdue. The limit on the
  failures the report lists hides none.\<close>

lemma overall_ok_iff:
  assumes "get_status io q db = Inr resp" and "system_inv db" and "plausible_query q"
  shows "sp_overall resp = ''ok'' \<longleftrightarrow>
    (\<exists>r t. applied_alert_run db = Some r \<and> run_observed r = Some t \<and>
       within (qy_now q) (qy_alert_data_age q) (qy_tolerance q) t) \<and>
    checked (qy_now q) (qy_alert_check_age q) (qy_tolerance q) (qy_alert_run q) accepted_alert_run (db_runs db) \<and>
    (\<exists>r t. current_network db = Some r \<and> import_observed r = Some t \<and>
       within (qy_now q) (qy_gtfs_data_age q) (qy_tolerance q) t) \<and>
    checked (qy_now q) (qy_gtfs_check_age q) (qy_tolerance q) (qy_gtfs_run q) accepted_import (db_imports db)"
proof -
  have I: "runs_inv db" "imports_inv db" using assms(2) by (simp_all add: system_inv_def db_inv_def gtfs_inv_def)
  have p: "plausible_query (clamped q)" using assms(3) by (simp add: plausible_query_def)
  from assms(1) obtain a g where a: "last_applied_alerts db = Inr a" "last_applied_network db = Inr g"
    and o: "sp_overall resp = overall_status (alert_section (clamped q) a db) (gtfs_section (clamped q) g db)"
    by (rule get_status_Inr)
  have "sp_overall resp = ''ok'' \<longleftrightarrow>
      (sy_freshness (alert_section (clamped q) a db) = ''fresh'' \<and> sy_reasons (alert_section (clamped q) a db) = []) \<and>
      (sy_freshness (gtfs_section (clamped q) g db) = ''fresh'' \<and> sy_reasons (gtfs_section (clamped q) g db) = [])"
    by (auto simp: o overall_status_def)
  then show ?thesis
    using alert_section_ok [OF I(1) p clamped_simps(9) a(1)] gtfs_section_ok [OF I(2) p clamped_simps(9) a(2)] by simp
qed

text \<open>C24: in a state the workers reach the report can always be read, and it says \<open>unavailable\<close>
  exactly when no feed was ever applied or no network is installed.\<close>

theorem status_can_be_read:
  assumes "(system_step env)\<^sup>*\<^sup>* empty_db db"
  shows "\<exists>resp. get_status (quiet_io now) q db = Inr resp \<and>
    (sp_overall resp = ''unavailable'' \<longleftrightarrow>
       (\<forall>r \<in> set (db_runs db). \<not> ir_applied r) \<or> (\<forall>r \<in> set (db_imports db). \<not> gi_current r))"
proof -
  have I: "runs_inv db" "imports_inv db"
    using system_steps_inv [OF assms system_inv_empty] by (simp_all add: system_inv_def db_inv_def gtfs_inv_def)
  obtain resp where resp: "get_status (quiet_io now) q db = Inr resp" using get_status_quiet [OF I] by blast
  then obtain a g where a: "last_applied_alerts db = Inr a" "last_applied_network db = Inr g"
    and o: "sp_overall resp = overall_status (alert_section (clamped q) a db) (gtfs_section (clamped q) g db)"
    by (rule get_status_Inr)
  have "sp_overall resp = ''unavailable'' \<longleftrightarrow> a = None \<or> g = None"
    by (simp add: o overall_status_def alert_section_def gtfs_section_def applied_section_fields(1))
  moreover have "a = None \<longleftrightarrow> (\<forall>r \<in> set (db_runs db). \<not> ir_applied r)"
  proof -
    have "a = None \<longleftrightarrow> applied_alert_run db = None" using last_applied_alerts_read [OF I(1)] a(1) by auto
    also have "\<dots> \<longleftrightarrow> (\<forall>r \<in> set (db_runs db). \<not> ir_applied r)"
      using I(1) by (auto simp: applied_alert_run_def max_row_None filter_empty_conv runs_inv_def run_ok_def)
    finally show ?thesis .
  qed
  moreover have "g = None \<longleftrightarrow> (\<forall>r \<in> set (db_imports db). \<not> gi_current r)"
  proof -
    have "g = None \<longleftrightarrow> current_network db = None" using last_applied_network_read [OF I(2)] a(2) by auto
    also have "\<dots> \<longleftrightarrow> (\<forall>r \<in> set (db_imports db). \<not> gi_current r)"
      using I(2) by (auto simp: current_network_def find_None_all imports_inv_def import_ok_def)
    finally show ?thesis .
  qed
  ultimately show ?thesis using resp by blast
qed

theorem status_can_be_read_witness:
  "\<exists>resp. get_status (quiet_io 0) sample_query sample_applied = Inr resp \<and> sp_overall resp = ''unavailable''"
  using status_can_be_read [OF alert_steps_system [OF rtranclp.rtrancl_into_rtrancl [OF sample_ready_reachable sample_applied_step]],
      of 0 sample_query]
  by (auto simp: sample_applied_eq empty_db_def)

text \<open>The counts of the report add up: every alert is present or historical, current and
  upcoming alerts are different present ones, and every route is regular or a replacement.\<close>

theorem status_counts_add_up:
  assumes "get_status io q db = Inr resp" and "system_inv db"
  shows "nc_present (snd (sp_alerts resp)) + nc_historical (snd (sp_alerts resp)) = length (db_alerts db) \<and>
    nc_current (snd (sp_alerts resp)) + nc_upcoming (snd (sp_alerts resp)) \<le> nc_present (snd (sp_alerts resp)) \<and>
    gc_regular (snd (sp_gtfs resp)) + gc_replacement (snd (sp_gtfs resp)) = gc_routes (snd (sp_gtfs resp)) \<and>
    gc_stations (snd (sp_gtfs resp)) = card {stop_id x |x. x \<in> set (db_stops db) \<and> st_location_type (sd_stop x) = 1}"
proof -
  have I: "alerts_inv db" "distinct (map stop_id (db_stops db))"
    using assms(2) by (simp_all add: system_inv_def db_inv_def gtfs_inv_def network_inv_def)
  let ?stations = "filter (\<lambda>x. st_location_type (sd_stop x) = 1) (db_stops db)"
  have "length ?stations = card (set (map stop_id ?stations))"
    using distinct_map_filter [OF I(2), of "\<lambda>x. st_location_type (sd_stop x) = 1"] by (metis distinct_card length_map)
  moreover have "set (map stop_id ?stations) = {stop_id x |x. x \<in> set (db_stops db) \<and> st_location_type (sd_stop x) = 1}" by auto
  ultimately show ?thesis using alert_counts_add_up [OF I(1)] by - (rule get_status_Inr [OF assms(1)], simp)
qed

theorem status_counts_add_up_witness:
  "\<exists>resp. get_status (quiet_io 0) sample_query system_sample = Inr resp \<and>
    nc_present (snd (sp_alerts resp)) + nc_historical (snd (sp_alerts resp)) = 1 \<and> gc_stations (snd (sp_gtfs resp)) = 0"
proof -
  have inv: "runs_inv system_sample" "imports_inv system_sample"
    using system_sample_inv by (simp_all add: system_inv_def db_inv_def gtfs_inv_def)
  obtain resp where resp: "get_status (quiet_io 0) sample_query system_sample = Inr resp"
    using get_status_quiet [OF inv] by blast
  from status_counts_add_up [OF this system_sample_inv] resp show ?thesis
    by (auto simp: system_sample_tables) (simp add: sample_applied_eq)
qed

text \<open>C25: the two workers share the database safely: whatever they do in whatever order, both sets of
  invariants hold. No step of the alert worker changes the imports or a table of the network, and
  no step of the GTFS worker changes the runs, the snapshots, the alerts, their revisions or the
  periods and entities of either. Both keep every archive and take no number of a sequence back.\<close>

theorem workers_share_the_database:
  assumes "(system_step env)\<^sup>*\<^sup>* empty_db db"
  shows "db_inv db \<and> gtfs_inv db \<and>
    (\<forall>db'. alert_step env db db' \<longrightarrow>
       db_imports db' = db_imports db \<and> db_routes db' = db_routes db \<and> db_stops db' = db_stops db \<and>
       db_route_stations db' = db_route_stations db \<and>
       set (db_archives db) \<subseteq> set (db_archives db') \<and> seq_le (db_seq db) (db_seq db')) \<and>
    (\<forall>db'. gtfs_step env db db' \<longrightarrow>
       db_runs db' = db_runs db \<and> db_snapshots db' = db_snapshots db \<and>
       db_snapshot_periods db' = db_snapshot_periods db \<and> db_snapshot_entities db' = db_snapshot_entities db \<and>
       db_alerts db' = db_alerts db \<and> db_revisions db' = db_revisions db \<and>
       db_revision_periods db' = db_revision_periods db \<and> db_revision_entities db' = db_revision_entities db \<and>
       set (db_archives db) \<subseteq> set (db_archives db') \<and> seq_le (db_seq db) (db_seq db'))"
proof -
  have inv: "db_inv db" "gtfs_inv db" using system_steps_inv [OF assms system_inv_empty] by (simp_all add: system_inv_def)
  have "network_kept db db' \<and> set (db_archives db) \<subseteq> set (db_archives db')" if "alert_step env db db'" for db'
    using alert_step_keeps_network [OF that] alert_step_inv [OF that inv(1)] by (simp add: advances_def)
  moreover have "feed_kept db db' \<and> set (db_archives db) \<subseteq> set (db_archives db')" if "gtfs_step env db db'" for db'
    using gtfs_step_keeps_feed [OF that] gtfs_step_inv [OF that inv(2)] by (simp add: imports_advance_def)
  ultimately show ?thesis using inv unfolding network_kept_def feed_kept_def by simp
qed

theorem workers_share_the_database_witness:
  "gtfs_inv (import_started sample_applied) \<and> db_inv (import_started sample_applied) \<and>
   db_imports (sample_started (import_started sample_applied)) = db_imports (import_started sample_applied) \<and>
   db_routes (sample_started (import_started sample_applied)) = db_routes (import_started sample_applied)"
proof -
  have r: "(system_step sample_env)\<^sup>*\<^sup>* empty_db (import_started sample_applied)"
    using alert_steps_system [OF rtranclp.rtrancl_into_rtrancl [OF sample_ready_reachable sample_applied_step]]
      gtfs_steps_system [OF import_started_steps] by (rule rtranclp_trans)
  define mid where "mid = snd (start_alert_run (quiet_io 1000) ''src'' (import_started sample_applied))"
  have 1: "alert_step sample_env (import_started sample_applied) mid"
    by (rule alert_step.start [where r = "fst (start_alert_run (quiet_io 1000) ''src'' (import_started sample_applied))"])
      (simp add: mid_def)
  have 2: "alert_step sample_env mid (sample_started (import_started sample_applied))"
    by (rule alert_step.record_raw [where r = "fst (record_alert_archive (quiet_io 2000)
        (sq_run (db_seq (import_started sample_applied))) sample_object mid)"])
      (simp add: sample_started_def Let_def mid_def)
  note P = workers_share_the_database [OF r]
  note Q = workers_share_the_database [OF rtranclp.rtrancl_into_rtrancl [OF r system_step.alerts [OF 1]]]
  from P Q 1 2 show ?thesis by simp
qed

end
