(* ===== verification/Views.thy ===== *)
theory Views
  imports StatusReport
begin

text \<open>
  The views the read repositories query (\<open>database/migrations/00005_api_read_model.sql\<close>): which
  routes, stations and lines a revision of an alert concerns. A view over one revision is a list of
  its rows in the order the queries ask for, and every view is free of duplicates.
\<close>

section \<open>Routes of a revision\<close>

definition entities_of :: "db \<Rightarrow> row_id \<Rightarrow> entity_row list" where
  "entities_of db k = filter (\<lambda>e. er_owner e = k) (db_revision_entities db)"

text \<open>\<open>alert_revision_route_identifiers\<close>\<close>

definition route_identifiers :: "db \<Rightarrow> row_id \<Rightarrow> string list" where
  "route_identifiers db k =
     distinct_sorted (List.map_filter er_route (entities_of db k) @ List.map_filter er_trip_route (entities_of db k))"

definition find_route :: "db \<Rightarrow> string \<Rightarrow> route option" where
  "find_route db route = map_option rd_route (find (\<lambda>x. rt_id (rd_route x) = route) (db_routes db))"

section \<open>The station of a stop\<close>

definition find_stop :: "db \<Rightarrow> string \<Rightarrow> stop option" where
  "find_stop db stop = map_option sd_stop (find (\<lambda>x. st_id (sd_stop x) = stop) (db_stops db))"

definition parent_of :: "db \<Rightarrow> stop \<Rightarrow> stop option" where
  "parent_of db x = Option.bind (nullable_string (st_parent x)) (find_stop db)"

text \<open>
  \<open>stop_parent_stations\<close>: up the parents until a station, never through a stop twice. The fuel is
  the number of stops, which the path cannot exceed.
\<close>

fun ancestor_station :: "nat \<Rightarrow> db \<Rightarrow> string list \<Rightarrow> stop \<Rightarrow> stop option" where
  "ancestor_station 0 db path x = None"
| "ancestor_station (Suc n) db path x =
     (if st_location_type x = 1 then Some x
      else (case parent_of db x of
              None \<Rightarrow> None
            | Some p \<Rightarrow> if st_id p \<in> set path then None else ancestor_station n db (st_id p # path) p))"

definition parent_station :: "db \<Rightarrow> string \<Rightarrow> stop option" where
  "parent_station db source =
     Option.bind (find_stop db source) (\<lambda>x. ancestor_station (Suc (length (db_stops db))) db [st_id x] x)"

text \<open>\<open>alert_revision_stations\<close>: every stop that is named, with its station where it has one.\<close>

definition named_stops :: "db \<Rightarrow> row_id \<Rightarrow> string list" where
  "named_stops db k = distinct_sorted (List.map_filter er_stop (entities_of db k))"

section \<open>What a revision concerns\<close>

definition matched_stations :: "db \<Rightarrow> row_id \<Rightarrow> string list" where
  "matched_stations db k = map st_id (List.map_filter (parent_station db) (named_stops db k))"

definition matched_routes :: "db \<Rightarrow> row_id \<Rightarrow> string list" where
  "matched_routes db k = filter (\<lambda>r. find_route db r \<noteq> None) (route_identifiers db k)"

text \<open>\<open>alert_revision_lines\<close>: the routes that are named, and those that serve a station that is.\<close>

definition revision_lines :: "db \<Rightarrow> row_id \<Rightarrow> string list" where
  "revision_lines db k = distinct_sorted (matched_routes db k @
     map rs_route (filter (\<lambda>r. rs_station r \<in> set (matched_stations db k)) (db_route_stations db)))"

text \<open>\<open>alert_revision_impacted_stations\<close>: the stations that are named, and those on a route that is.\<close>

definition revision_stations :: "db \<Rightarrow> row_id \<Rightarrow> string list" where
  "revision_stations db k = distinct_sorted (matched_stations db k @
     map rs_station (filter (\<lambda>r. rs_route r \<in> set (matched_routes db k)) (db_route_stations db)))"

section \<open>Facts\<close>

lemma set_distinct_sorted [simp]: "set (distinct_sorted xs) = set xs"
  by (simp add: distinct_sorted_def)

lemma distinct_distinct_sorted [simp]: "distinct (distinct_sorted xs)"
  by (simp add: distinct_sorted_def)

lemma find_stop_Some: "find_stop db k = Some x \<Longrightarrow> x \<in> sd_stop ` set (db_stops db) \<and> st_id x = k"
  by (auto simp: find_stop_def dest: find_Some_mem)

lemma parent_of_Some: "parent_of db x = Some p \<Longrightarrow> p \<in> sd_stop ` set (db_stops db) \<and> st_id p = st_parent x"
  by (auto simp: parent_of_def nullable_string_def bind_eq_Some_conv split: if_splits dest: find_stop_Some)

text \<open>The fuel is enough: with the path in the table, more changes nothing.\<close>

lemma ancestor_station_fuel:
  assumes "distinct path" and "set path \<subseteq> st_id ` sd_stop ` set (db_stops db)"
    and "length (db_stops db) < n + length path" and "n \<le> m"
  shows "ancestor_station m db path x = ancestor_station n db path x"
  using assms
proof (induction n arbitrary: m path x)
  case 0
  have "length path \<le> card (st_id ` sd_stop ` set (db_stops db))"
    using 0(1,2) by (metis card_mono distinct_card finite_imageI List.finite_set)
  also have "\<dots> \<le> length (db_stops db)" by (metis card_image_le card_length finite_imageI List.finite_set order_trans)
  finally show ?case using 0(3) by simp
next
  case (Suc n)
  then obtain m' where m: "m = Suc m'" "n \<le> m'" by (cases m) auto
  have "ancestor_station m' db (st_id p # path) p = ancestor_station n db (st_id p # path) p"
    if "parent_of db x = Some p" "st_id p \<notin> set path" for p
    using imageI [of p _ st_id] parent_of_Some [OF that(1)]
    by (intro Suc.IH) (use Suc.prems that(2) m in simp_all)
  then show ?case by (auto simp: m(1) split: option.split)
qed

lemma ancestor_station_type: "ancestor_station n db path x = Some y \<Longrightarrow> st_location_type y = 1"
  by (induction n db path x rule: ancestor_station.induct) (auto split: if_splits option.splits)

lemma ancestor_station_mem:
  "ancestor_station n db path x = Some y \<Longrightarrow> x \<in> sd_stop ` set (db_stops db) \<Longrightarrow> y \<in> sd_stop ` set (db_stops db)"
  by (induction n db path x rule: ancestor_station.induct)
    (auto split: if_splits option.splits dest: parent_of_Some)

lemma parent_station_Some:
  "parent_station db source = Some y \<Longrightarrow> y \<in> sd_stop ` set (db_stops db) \<and> st_location_type y = 1"
  by (auto simp: parent_station_def bind_eq_Some_conv simp del: ancestor_station.simps
      dest: ancestor_station_type ancestor_station_mem find_stop_Some)

end
