(* ===== verification/ReadRepo.thy ===== *)
theory ReadRepo
  imports Views
begin

text \<open>
  \<open>ReadRepository\<close> of \<open>internal/database/read_repository.go\<close>: the lists of alerts, one alert, and
  its revisions, over the views of \<open>Views\<close>.
\<close>

section \<open>What is returned\<close>

record alert_period =
  up_position :: nat
  up_starts :: "instant option"
  up_ends :: "instant option"

record alert_route =
  ur_source :: string
  ur_static :: "string option"
  ur_short :: "string option"
  ur_long :: "string option"
  ur_type :: "int option"
  ur_color :: "string option"
  ur_text_color :: "string option"
  ur_replacement :: "bool option"
  ur_matched :: bool

record alert_station =
  us_source :: string
  us_static :: "string option"
  us_name :: "string option"
  us_latitude :: "(64 word) option"
  us_longitude :: "(64 word) option"
  us_wheelchair :: "int option"
  us_matched :: bool

record current_alert =
  ua_id :: row_id
  ua_source_url :: string
  ua_entity :: string
  ua_revision :: row_id
  ua_number :: int
  ua_cause :: "string option"
  ua_effect :: "string option"
  ua_severity :: "string option"
  ua_header :: "translation list"
  ua_description :: "translation list"
  ua_url :: "translation list"
  ua_first_seen :: instant
  ua_last_seen :: instant
  ua_rev_first :: instant
  ua_rev_last :: instant
  ua_periods :: "alert_period list"
  ua_routes :: "alert_route list"
  ua_stations :: "alert_station list"

record alert_revision = current_alert +
  uv_deleted :: bool
  uv_closed :: "instant option"

record alert_page =
  ug_alerts :: "current_alert list"
  ug_page :: int
  ug_size :: int
  ug_total :: nat

record alert_detail =
  ue_id :: row_id
  ue_source_url :: string
  ue_entity :: string
  ue_status :: string
  ue_first_seen :: instant
  ue_last_seen :: instant
  ue_closed :: "instant option"
  ue_count :: nat
  ue_latest :: alert_revision

record alert_query =
  aq_status :: string
  aq_now :: instant
  aq_line :: string
  aq_station :: string
  aq_cause :: string
  aq_effect :: string
  aq_from :: "instant option"
  aq_to :: "instant option"
  aq_page :: int
  aq_size :: int

section \<open>Translations\<close>

text \<open>
  \<open>json.Unmarshal\<close> into a slice of structs: keys are matched without regard to case, unknown ones
  are ignored, null leaves what is there.
\<close>

fun each_res :: "('a \<Rightarrow> 'b result) \<Rightarrow> 'a list \<Rightarrow> 'b list result" where
  "each_res f [] = Inr []"
| "each_res f (x # xs) = bind_res (f x) (\<lambda>y. bind_res (each_res f xs) (\<lambda>ys. Inr (y # ys)))"

definition unmarshal_type_error :: go_error where
  "unmarshal_type_error = Errorf ''json: cannot unmarshal %s into Go value of type %s'' []"

definition unmarshal_string :: "string \<Rightarrow> json \<Rightarrow> string result" where
  "unmarshal_string old v =
     (case v of JStr s \<Rightarrow> Inr s | JNull \<Rightarrow> Inr old | _ \<Rightarrow> Inl unmarshal_type_error)"

fun unmarshal_members :: "translation \<Rightarrow> (string \<times> json) list \<Rightarrow> translation result" where
  "unmarshal_members t [] = Inr t"
| "unmarshal_members t ((k, v) # kvs) =
     (if equal_fold k ''text''
      then bind_res (unmarshal_string (tr_text t) v) (\<lambda>s. unmarshal_members (t\<lparr>tr_text := s\<rparr>) kvs)
      else if equal_fold k ''language''
      then bind_res (unmarshal_string (tr_language t) v) (\<lambda>s. unmarshal_members (t\<lparr>tr_language := s\<rparr>) kvs)
      else unmarshal_members t kvs)"

definition unmarshal_translation :: "json \<Rightarrow> translation result" where
  "unmarshal_translation v =
     (let zero = \<lparr>tr_text = [], tr_language = []\<rparr>
      in case v of JObj kvs \<Rightarrow> unmarshal_members zero kvs | JNull \<Rightarrow> Inr zero | _ \<Rightarrow> Inl unmarshal_type_error)"

definition unmarshal_translations :: "json \<Rightarrow> translation list result" where
  "unmarshal_translations v =
     (case v of JArr vs \<Rightarrow> each_res unmarshal_translation vs | JNull \<Rightarrow> Inr [] | _ \<Rightarrow> Inl unmarshal_type_error)"

section \<open>Scanning\<close>

definition scan_alert :: "string \<Rightarrow> alert_row \<Rightarrow> revision_row \<Rightarrow> current_alert result" where
  "scan_alert kind a r =
     (let c = rv_columns r
      in bind_res (map_sum (Wrapf ''decode %s header: %w'' [AStr kind]) id (unmarshal_translations (ac_header c))) (\<lambda>header.
         bind_res (map_sum (Wrapf ''decode %s description: %w'' [AStr kind]) id (unmarshal_translations (ac_description c))) (\<lambda>description.
         bind_res (map_sum (Wrapf ''decode %s URL: %w'' [AStr kind]) id (unmarshal_translations (ac_url c))) (\<lambda>url.
         Inr \<lparr>ua_id = sa_id a, ua_source_url = sa_source_url a, ua_entity = sa_entity a, ua_revision = rv_id r,
           ua_number = rv_number r, ua_cause = ac_cause c, ua_effect = ac_effect c, ua_severity = ac_severity c,
           ua_header = header, ua_description = description, ua_url = url, ua_first_seen = sa_first_seen a,
           ua_last_seen = sa_last_seen a, ua_rev_first = rv_first_seen r, ua_rev_last = rv_last_seen r,
           ua_periods = [], ua_routes = [], ua_stations = []\<rparr>))))"

definition scan_alerts :: "(alert_row \<times> revision_row) list \<Rightarrow> current_alert list result" where
  "scan_alerts rows = each_res (\<lambda>(a, r). scan_alert ''alert'' a r) rows"

definition scan_revision :: "alert_row \<Rightarrow> revision_row \<Rightarrow> alert_revision result" where
  "scan_revision a r =
     bind_res (scan_alert ''revision'' a r) (\<lambda>x.
     Inr (current_alert.extend x \<lparr>uv_deleted = ac_deleted (rv_columns r), uv_closed = rv_closed r\<rparr>))"

section \<open>Periods, routes and stations\<close>

definition alert_periods :: "db \<Rightarrow> row_id \<Rightarrow> alert_period list" where
  "alert_periods db k =
     map (\<lambda>p. \<lparr>up_position = pr_position p, up_starts = pr_starts p, up_ends = pr_ends p\<rparr>)
       (sort_key pr_position (filter (\<lambda>p. pr_owner p = k) (db_revision_periods db)))"

definition alert_route_of :: "db \<Rightarrow> string \<Rightarrow> alert_route" where
  "alert_route_of db source =
     (let r = find_route db source
      in \<lparr>ur_source = source, ur_static = map_option rt_id r, ur_short = map_option rt_short_name r,
          ur_long = map_option rt_long_name r, ur_type = map_option rt_type r,
          ur_color = Option.bind r (\<lambda>x. nullable_string (rt_color x)),
          ur_text_color = Option.bind r (\<lambda>x. nullable_string (rt_text_color x)),
          ur_replacement = map_option rt_replacement_bus r, ur_matched = (r \<noteq> None)\<rparr>)"

definition alert_routes :: "db \<Rightarrow> row_id \<Rightarrow> alert_route list" where
  "alert_routes db k = map (alert_route_of db) (route_identifiers db k)"

definition alert_station_of :: "db \<Rightarrow> string \<Rightarrow> alert_station" where
  "alert_station_of db source =
     (let s = parent_station db source
      in \<lparr>us_source = source, us_static = map_option st_id s, us_name = map_option st_name s,
          us_latitude = Option.bind s st_latitude, us_longitude = Option.bind s st_longitude,
          us_wheelchair = Option.bind s st_wheelchair, us_matched = (s \<noteq> None)\<rparr>)"

definition alert_stations :: "db \<Rightarrow> row_id \<Rightarrow> alert_station list" where
  "alert_stations db k = map (alert_station_of db) (named_stops db k)"

text \<open>
  The rows are appended to the alert at the index of their revision; the index of a revision that
  occurs twice is the last one.
\<close>

fun attach :: "(row_id \<Rightarrow> alert_period list) \<Rightarrow> (row_id \<Rightarrow> alert_route list) \<Rightarrow> (row_id \<Rightarrow> alert_station list) \<Rightarrow>
    ('a current_alert_scheme) list \<Rightarrow> ('a current_alert_scheme) list" where
  "attach ps rs ss [] = []"
| "attach ps rs ss (a # alerts) =
     (if ua_revision a \<in> ua_revision ` set alerts then a
      else a\<lparr>ua_periods := ua_periods a @ ps (ua_revision a), ua_routes := ua_routes a @ rs (ua_revision a),
             ua_stations := ua_stations a @ ss (ua_revision a)\<rparr>) # attach ps rs ss alerts"

definition enrich_alerts :: "('a current_alert_scheme) list \<Rightarrow> ('a current_alert_scheme) list tx" where
  "enrich_alerts alerts =
     (if alerts = [] then ret []
      else
     bind_tx (query (Wrapf ''query selected alert periods: %w'' []) alert_periods) (\<lambda>ps.
     bind_tx (query (Wrapf ''query selected alert routes: %w'' []) alert_routes) (\<lambda>rs.
     bind_tx (query (Wrapf ''query selected alert stations: %w'' []) alert_stations) (\<lambda>ss.
     ret (attach ps rs ss alerts)))))"

section \<open>Lists of alerts\<close>

definition in_range :: "db \<Rightarrow> alert_query \<Rightarrow> revision_row \<Rightarrow> bool" where
  "in_range db q r \<longleftrightarrow>
     (let after = (\<lambda>t. pred_option (\<lambda>from. pred_option (\<lambda>e. e > pg_time from) t) (aq_from q));
          before = (\<lambda>t. pred_option (\<lambda>to. pred_option (\<lambda>s. s < pg_time to) t) (aq_to q))
      in aq_from q = None \<and> aq_to q = None \<or>
         periods_of db r = [] \<and> after (rv_closed r) \<and> before (Some (rv_first_seen r)) \<or>
         list_ex (\<lambda>p. after (pr_ends p) \<and> before (pr_starts p)) (periods_of db r))"

definition matches_filters :: "db \<Rightarrow> alert_query \<Rightarrow> revision_row \<Rightarrow> bool" where
  "matches_filters db q r \<longleftrightarrow>
     (aq_line q \<noteq> [] \<longrightarrow> aq_line q \<in> set (revision_lines db (rv_id r))) \<and>
     (aq_station q \<noteq> [] \<longrightarrow> aq_station q \<in> set (revision_stations db (rv_id r))) \<and>
     (aq_cause q \<noteq> [] \<longrightarrow> ac_cause (rv_columns r) = Some (aq_cause q)) \<and>
     (aq_effect q \<noteq> [] \<longrightarrow> ac_effect (rv_columns r) = Some (aq_effect q)) \<and> in_range db q r"

definition matches_status :: "db \<Rightarrow> alert_query \<Rightarrow> alert_row \<times> revision_row \<Rightarrow> bool" where
  "matches_status db q ar \<longleftrightarrow>
     (let now = pg_time (aq_now q)
      in if aq_status q = ''present'' then is_present ar
         else if aq_status q = ''current'' then is_present ar \<and> is_active db now (snd ar)
         else if aq_status q = ''upcoming''
         then is_present ar \<and> \<not> is_active db now (snd ar) \<and> is_future db now (snd ar)
         else True)"

definition listing_key :: "alert_row \<Rightarrow> int \<times> string \<times> row_id" where
  "listing_key a = (- sa_last_seen a, sa_entity a, sa_id a)"

definition listed_rows :: "alert_query \<Rightarrow> db \<Rightarrow> (alert_row \<times> revision_row) list" where
  "listed_rows q db = sort_key (\<lambda>ar. listing_key (fst ar))
     (filter (\<lambda>ar. matches_status db q ar \<and> matches_filters db q (snd ar)) (current_revisions db))"

text \<open>The alerts that have gone, each with the last revision that matches and is no deletion.\<close>

definition revision_key :: "revision_row \<Rightarrow> instant \<times> int \<times> row_id" where
  "revision_key r = (rv_first_seen r, rv_number r, rv_id r)"

definition shown_revision :: "db \<Rightarrow> alert_query \<Rightarrow> alert_row \<Rightarrow> revision_row option" where
  "shown_revision db q a = max_row revision_key
     (filter (\<lambda>r. rv_alert r = sa_id a \<and> \<not> ac_deleted (rv_columns r) \<and> matches_filters db q r) (db_revisions db))"

definition ended_at :: "alert_row \<Rightarrow> revision_row \<Rightarrow> instant option" where
  "ended_at a terminal = (if \<not> sa_present a then sa_closed a else Some (rv_first_seen terminal))"

definition historical_key :: "alert_row \<times> revision_row \<times> revision_row \<Rightarrow> (nat \<times> instant) \<times> row_id" where
  "historical_key = (\<lambda>(a, terminal, _). (case ended_at a terminal of None \<Rightarrow> (0, 0) | Some t \<Rightarrow> (1, t), sa_id a))"

definition historical_rows :: "alert_query \<Rightarrow> db \<Rightarrow> (alert_row \<times> revision_row) list" where
  "historical_rows q db =
     map (\<lambda>(a, _, r). (a, r)) (order_desc historical_key
       (List.map_filter (\<lambda>(a, terminal). if \<not> sa_present a \<or> ac_deleted (rv_columns terminal)
          then map_option (\<lambda>r. (a, terminal, r)) (shown_revision db q a) else None) (current_revisions db)))"

definition page_offset :: "int \<Rightarrow> int \<Rightarrow> int" where
  "page_offset page page_size = sint ((word_of_int (page - 1) * word_of_int page_size) :: 64 word)"

definition page_rows :: "int \<Rightarrow> int \<Rightarrow> 'r list \<Rightarrow> 'r list result" where
  "page_rows limit offset rows =
     (if limit < 0 then Inl (Errorf ''LIMIT must not be negative'' [])
      else if offset < 0 then Inl (Errorf ''OFFSET must not be negative'' [])
      else Inr (take (nat limit) (drop (nat offset) rows)))"

definition list_historical_alerts :: "tx_io \<Rightarrow> alert_query \<Rightarrow> db \<Rightarrow> alert_page result" where
  "list_historical_alerts io q =
     read_tx io ''historical alert list query''
       (bind_tx (query (Wrapf ''count historical alerts: %w'' []) (\<lambda>db. length (historical_rows q db))) (\<lambda>total.
        bind_tx (scan_tx (Wrapf ''query historical alerts: %w'' [])
          (\<lambda>db. page_rows (aq_size q) (page_offset (aq_page q) (aq_size q)) (historical_rows q db))) (\<lambda>rows.
        bind_tx (lift_res (scan_alerts rows)) (\<lambda>alerts.
        bind_tx (enrich_alerts alerts) (\<lambda>alerts.
        ret \<lparr>ug_alerts = alerts, ug_page = aq_page q, ug_size = aq_size q, ug_total = total\<rparr>)))))"

definition list_alerts :: "tx_io \<Rightarrow> alert_query \<Rightarrow> db \<Rightarrow> alert_page result" where
  "list_alerts io q =
     (if aq_status q = ''historical'' then list_historical_alerts io q
      else read_tx io ''alert list query''
       (bind_tx (query (Wrapf ''query alerts: %w'' []) (listed_rows q)) (\<lambda>rows.
        bind_tx (lift_res (scan_alerts rows)) (\<lambda>alerts.
        bind_tx (enrich_alerts alerts) (\<lambda>enriched.
        ret \<lparr>ug_alerts = enriched, ug_page = 0, ug_size = 0, ug_total = length alerts\<rparr>)))))"

section \<open>One alert\<close>

definition load_alert_revisions :: "row_id \<Rightarrow> bool \<Rightarrow> alert_revision list tx" where
  "load_alert_revisions k all_of =
     bind_tx (query (Wrapf ''query revisions for alert %d: %w'' [AInt k])
       (\<lambda>db. let rows = concat (map (\<lambda>a. map (\<lambda>r. (a, r)) (filter (\<lambda>r. rv_alert r = sa_id a) (db_revisions db)))
                 (filter (\<lambda>a. sa_id a = k) (db_alerts db)))
              in if all_of then sort_key (\<lambda>ar. revision_key (snd ar)) rows
                 else take 1 (order_desc (\<lambda>ar. revision_key (snd ar)) rows))) (\<lambda>rows.
     bind_tx (lift_res (each_res (\<lambda>(a, r). scan_revision a r) rows)) enrich_alerts)"

definition not_found :: "row_id \<Rightarrow> go_error" where
  "not_found k = Wrapf ''alert %d: %w'' [AInt k] ErrNotFound"

definition get_alert :: "tx_io \<Rightarrow> row_id \<Rightarrow> db \<Rightarrow> alert_detail result" where
  "get_alert io k =
     read_tx io ''alert detail query''
       (bind_tx (query (Wrapf ''query alert %d: %w'' [AInt k])
          (\<lambda>db. map_option (\<lambda>ar. (ar, length (filter (\<lambda>r. rv_alert r = k) (db_revisions db))))
                 (find (\<lambda>ar. sa_id (fst ar) = k) (current_revisions db)))) (\<lambda>found.
        case found of
          None \<Rightarrow> fail_tx (not_found k)
        | Some ((a, r), revisions_kept) \<Rightarrow>
            if revisions_kept = 0 then fail_tx (not_found k)
            else
            bind_tx (load_alert_revisions k False) (\<lambda>revisions.
            if revisions = [] then fail_tx (Errorf ''runtime error: index out of range [-1]'' [])
            else ret \<lparr>ue_id = sa_id a, ue_source_url = sa_source_url a, ue_entity = sa_entity a,
              ue_status = (if is_present (a, r) then ''present'' else ''historical''),
              ue_first_seen = sa_first_seen a, ue_last_seen = sa_last_seen a,
              ue_closed = (if ac_deleted (rv_columns r) then Some (rv_first_seen r) else sa_closed a),
              ue_count = revisions_kept, ue_latest = last revisions\<rparr>)))"

definition list_alert_revisions :: "tx_io \<Rightarrow> row_id \<Rightarrow> db \<Rightarrow> alert_revision list result" where
  "list_alert_revisions io k =
     read_tx io ''alert revision query''
       (bind_tx (query (Wrapf ''check alert %d: %w'' [AInt k]) (\<lambda>db. list_ex (\<lambda>a. sa_id a = k) (db_alerts db))) (\<lambda>exists.
        if \<not> exists then fail_tx (not_found k) else load_alert_revisions k True))"

end
