(* ===== verification/Reading.thy ===== *)
theory Reading
  imports ReadRepo StatusRules System
begin

text \<open>
  What the read repository returns in a database the workers reached: every text decodes, every
  alert has a current revision, so a list shows one alert per row of the view and a detail never
  runs past the end of its revisions.
\<close>

section \<open>Texts\<close>

lemma fold_keys [simp]:
  "equal_fold ''text'' ''text''" "equal_fold ''language'' ''language''" "\<not> equal_fold ''language'' ''text''"
  by code_simp+

lemma unmarshal_json_translation [simp]: "unmarshal_translation (json_translation t) = Inr t"
  by (cases t) (simp add: unmarshal_translation_def json_translation_def omit_str_def unmarshal_string_def)

lemma each_res_map: "(\<And>x. x \<in> set xs \<Longrightarrow> f x = Inr (g x)) \<Longrightarrow> each_res f xs = Inr (map g xs)"
  by (induction xs) simp_all

lemma unmarshal_marshal [simp]: "unmarshal_translations (marshal_translations ts) = Inr ts"
proof -
  have "each_res unmarshal_translation (map json_translation ts) = Inr ts" by (induction ts) simp_all
  then show ?thesis by (simp add: unmarshal_translations_def marshal_translations_def)
qed

section \<open>Every revision came from an alert\<close>

text \<open>Each step of the workers leaves the histories or observes one feed.\<close>

definition feed_observed :: "repo_env \<Rightarrow> db \<Rightarrow> db \<Rightarrow> bool" where
  "feed_observed env db db' \<longleftrightarrow> history db' = history db \<or>
     (\<exists>at src alerts. history db' = observe_feed at src (feed_content env alerts) (history db))"

abbreviation (input) same_feed :: "db \<Rightarrow> db \<Rightarrow> bool" where
  "same_feed db db' \<equiv> db_alerts db' = db_alerts db \<and> db_revisions db' = db_revisions db"

interpretation same_feed: tx_relation same_feed
  by unfold_locales auto

lemma same_feed_observed: "same_feed db db' \<Longrightarrow> feed_observed env db db'"
  unfolding feed_observed_def by (rule disjI1, rule history_tables) blast+

lemma archive_body_same_feed: "obeys same_feed (archive_body runs_table k obj)"
  unfolding archive_body_def check_link_def
  by (intro same_feed.rules)
    (simp_all add: serves_def Let_def upsert_archive_def link_archive_def runs_table_def split: option.split)

lemma alert_step_observes:
  assumes "alert_step env db db'" and inv: "db_inv db"
  shows "feed_observed env db db'"
  using assms(1)
proof cases
  case (start io src r)
  have "same_feed db db'"
    by (rule same_feed.auto_commit_related [OF start [unfolded start_alert_run_def]])
      (simp add: serves_def insert_run_def Let_def)
  then show ?thesis by (rule same_feed_observed)
next
  case (record_raw io run_id obj r)
  have "same_feed db db'"
    using alert_attempts.record_archive_cases [OF record_raw [unfolded record_alert_archive_def]]
  proof (elim disjE exE conjE)
    fix res s
    assume "archive_body runs_table run_id obj \<lparr>se_db = db, se_faults = io_faults io\<rparr> = (res, s)" "db' = se_db s"
    from obeysD [OF archive_body_same_feed this(1)] this(2) show "same_feed db db'" by simp
  qed (simp_all add: rollback_def)
  then show ?thesis by (rule same_feed_observed)
next
  case (fail io run_id fetch summary f r)
  then obtain r1 where "auto_commit io (Wrapf ''mark service-alert ingestion run %d failed: %w'' [AInt run_id])
      (update_runs (\<lambda>r. at_id r = run_id \<and> at_status r = Running) (fail_run_row env fetch summary f (io_now io))) db = (r1, db')"
    by (auto simp: fail_alert_run_with_failure_def split: prod.splits sum.splits)
  then have "same_feed db db'"
    by (rule same_feed.auto_commit_related) (simp add: serves_def update_runs_def Let_def)
  then show ?thesis by (rule same_feed_observed)
next
  case (complete io run_id result summary r)
  have I: "runs_inv db" "alerts_inv db" using inv by (simp_all add: db_inv_def)
  from complete show ?thesis
  proof (cases rule: complete_alert_run_cases)
    case (2 ts at res s)
    have "feed_observed env db (se_db s)" if "res = Inr skipped" for skipped
    proof (cases skipped)
      case True
      then have "complete_body env (io_now io) run_id result summary ts (sha256_hex env (fr_body result)) at
          \<lparr>se_db = db, se_faults = io_faults io\<rparr> = (Inr True, s)" using 2(3) that by simp
      from complete_body_skipped [OF this] I(1) obtain reason where
        "se_db s = db\<lparr>db_runs := upd_where (running_archived run_id)
           (skipped_row (io_now io) result summary ts (sha256_hex env (fr_body result)) reason) (db_runs db)\<rparr>" by auto
      then have "same_feed db (se_db s)" by simp
      then show ?thesis by (rule same_feed_observed)
    next
      case False
      then have "complete_body env (io_now io) run_id result summary ts (sha256_hex env (fr_body result)) at
          \<lparr>se_db = db, se_faults = io_faults io\<rparr> = (Inr False, s)" using 2(3) that by simp
      from complete_body_applied [OF this] I show ?thesis by (auto simp: feed_observed_def)
    qed
    moreover have "history (rollback db (se_db s)) = history db" by (rule history_tables) (simp_all add: rollback_def)
    ultimately show ?thesis using 2(4) unfolding feed_observed_def by blast
  qed (simp add: feed_observed_def)
qed

lemma system_step_observes:
  assumes "system_step env db db'" and "system_inv db"
  shows "feed_observed env db db'"
  using assms(1)
proof cases
  case alerts
  with assms(2) show ?thesis by (auto simp: system_inv_def intro: alert_step_observes)
next
  case network
  from gtfs_step_keeps_feed [OF this] show ?thesis
    by (intro same_feed_observed) (simp add: feed_kept_def)
qed

text \<open>The hash and the columns of every revision are those of one alert.\<close>

definition content_inv :: "repo_env \<Rightarrow> db \<Rightarrow> bool" where
  "content_inv env db \<longleftrightarrow>
     (\<forall>key. \<forall>v \<in> set (history db key). \<exists>a. (vw_sha256 v, vw_columns v) = seen_content env a)"

lemma set_close_last: "v \<in> set (close_last at h) \<Longrightarrow> \<exists>w \<in> set h. vw_sha256 v = vw_sha256 w \<and> vw_columns v = vw_columns w"
  by (cases h rule: rev_cases) (auto simp: close_last_def is_open_def split: if_splits)

lemma set_observe:
  assumes "v \<in> set (observe at seen h)"
  shows "(\<exists>w \<in> set h. vw_sha256 v = vw_sha256 w \<and> vw_columns v = vw_columns w) \<or> seen = Some (vw_sha256 v, vw_columns v)"
proof (cases seen)
  case None
  with assms set_close_last [of v at h] show ?thesis by (simp add: observe_def)
next
  case (Some sc)
  obtain sha cols where sc: "sc = (sha, cols)" by fastforce
  show ?thesis
  proof (cases "is_open h \<and> vw_sha256 (last h) = sha")
    case True
    with assms Some sc show ?thesis
      by (cases h rule: rev_cases) (auto simp: observe_def is_open_def)
  next
    case False
    with assms Some sc set_close_last [of v at h] show ?thesis by (auto simp: observe_def)
  qed
qed

lemma feed_content_seen: "map_of (feed_content env alerts) e = Some c \<Longrightarrow> \<exists>a. c = seen_content env a"
  by (auto simp: feed_content_def dest!: map_of_SomeD)

lemma content_inv_observed:
  assumes "feed_observed env db db'" and "content_inv env db"
  shows "content_inv env db'"
proof (cases "history db' = history db")
  case True
  with assms(2) show ?thesis by (simp add: content_inv_def)
next
  case False
  with assms(1) obtain at src alerts where
    h: "history db' = observe_feed at src (feed_content env alerts) (history db)" by (auto simp: feed_observed_def)
  have "\<exists>a. (vw_sha256 v, vw_columns v) = seen_content env a" if v: "v \<in> set (history db' key)" for v key
  proof (cases "fst key = src")
    case True
    with v h have "v \<in> set (observe at (map_of (feed_content env alerts) (snd key)) (history db key))"
      by (simp add: observe_feed_def)
    from set_observe [OF this] show ?thesis
    proof (elim disjE bexE conjE)
      fix w assume "w \<in> set (history db key)" "vw_sha256 v = vw_sha256 w" "vw_columns v = vw_columns w"
      with assms(2) show ?thesis unfolding content_inv_def by metis
    qed (rule feed_content_seen)
  next
    case False
    with v h have "v \<in> set (history db key)" by (simp add: observe_feed_def)
    with assms(2) show ?thesis unfolding content_inv_def by blast
  qed
  then show ?thesis by (simp add: content_inv_def)
qed

lemma content_inv_empty: "content_inv env empty_db"
  by (simp add: content_inv_def empty_db_def history_def find_alert_def)

text \<open>The databases the two workers reach.\<close>

definition served_inv :: "repo_env \<Rightarrow> db \<Rightarrow> bool" where
  "served_inv env db \<longleftrightarrow> system_inv db \<and> content_inv env db"

lemma served_inv_steps:
  assumes "(system_step env)\<^sup>*\<^sup>* db db'" and "served_inv env db"
  shows "served_inv env db'"
  using assms
proof (induction rule: rtranclp_induct)
  case (step db1 db2)
  then have 1: "served_inv env db1" by simp
  have "system_inv db2"
    using system_steps_inv [of env db1 db2] step.hyps(2) 1 by (simp add: served_inv_def r_into_rtranclp)
  with system_step_observes [OF step.hyps(2)] content_inv_observed 1 show ?case by (auto simp: served_inv_def)
qed

lemma served_inv_empty: "served_inv env empty_db"
  by (simp add: served_inv_def system_inv_empty content_inv_empty)

lemma served_invD:
  assumes "served_inv env db"
  shows "alerts_inv db" and "runs_inv db" and "chronology_inv db" and "db_inv db"
  using assms by (simp_all add: served_inv_def system_inv_def db_inv_def)

lemma revision_in_history:
  assumes "alerts_inv db" and "r \<in> set (db_revisions db)"
  shows "\<exists>a \<in> set (db_alerts db). sa_id a = rv_alert r \<and> view_of r \<in> set (history db (alert_key a))"
proof -
  have ids: "ids_ok db" using assms(1) by (simp add: alerts_inv_def)
  from ids_ok_rows(2) [OF ids assms(2)] obtain a where a: "a \<in> set (db_alerts db)" "rv_alert r = sa_id a" by auto
  with history_mem [OF ids a(1)] assms(2) show ?thesis by (auto simp: revisions_of_def)
qed

lemma revision_content:
  assumes "served_inv env db" and "r \<in> set (db_revisions db)"
  shows "\<exists>a. rv_sha256 r = sha256_hex env (hash_payload a) \<and> rv_columns r = columns_of a"
proof -
  from revision_in_history [OF served_invD(1) [OF assms(1)] assms(2)] obtain key where
    "view_of r \<in> set (history db key)" by blast
  with assms(1) have "\<exists>a. (vw_sha256 (view_of r), vw_columns (view_of r)) = seen_content env a"
    unfolding served_inv_def content_inv_def by blast
  then show ?thesis by (simp add: seen_content_def view_of_def)
qed

end
