(* ===== verification/ReadLists.thy ===== *)
theory ReadLists
  imports Reading
begin

text \<open>
  The lists and the details as functions of the database: \<open>presented\<close> is one alert with the
  periods, routes and stations of the revision that is shown.
\<close>

section \<open>One row\<close>

definition texts_of :: "json \<Rightarrow> translation list" where
  "texts_of j = (case unmarshal_translations j of Inl _ \<Rightarrow> [] | Inr ts \<Rightarrow> ts)"

lemma texts_of_marshal [simp]: "texts_of (marshal_translations ts) = ts"
  by (simp add: texts_of_def)

definition presented :: "db \<Rightarrow> alert_row \<times> revision_row \<Rightarrow> current_alert" where
  "presented db ar =
     (let a = fst ar; r = snd ar; c = rv_columns r
      in \<lparr>ua_id = sa_id a, ua_source_url = sa_source_url a, ua_entity = sa_entity a, ua_revision = rv_id r,
          ua_number = rv_number r, ua_cause = ac_cause c, ua_effect = ac_effect c, ua_severity = ac_severity c,
          ua_header = texts_of (ac_header c), ua_description = texts_of (ac_description c),
          ua_url = texts_of (ac_url c), ua_first_seen = sa_first_seen a, ua_last_seen = sa_last_seen a,
          ua_rev_first = rv_first_seen r, ua_rev_last = rv_last_seen r, ua_periods = alert_periods db (rv_id r),
          ua_routes = alert_routes db (rv_id r), ua_stations = alert_stations db (rv_id r)\<rparr>)"

definition presented_revision :: "db \<Rightarrow> alert_row \<Rightarrow> revision_row \<Rightarrow> alert_revision" where
  "presented_revision db a r =
     current_alert.extend (presented db (a, r)) \<lparr>uv_deleted = ac_deleted (rv_columns r), uv_closed = rv_closed r\<rparr>"

text \<open>A row as it is scanned: the lists are still empty.\<close>

definition scanned :: "alert_row \<times> revision_row \<Rightarrow> current_alert" where
  "scanned ar = (presented empty_db ar)\<lparr>ua_periods := [], ua_routes := [], ua_stations := []\<rparr>"

lemma scanned_revision [simp]: "ua_revision (scanned ar) = rv_id (snd ar)"
  by (simp add: scanned_def presented_def Let_def)

lemma scan_alert_ok:
  assumes "served_inv env db" and "r \<in> set (db_revisions db)"
  shows "scan_alert kind a r = Inr (scanned (a, r))"
proof -
  obtain al where "rv_columns r = columns_of al" using revision_content [OF assms] by auto
  then show ?thesis by (simp add: scan_alert_def scanned_def presented_def columns_of_def Let_def)
qed

lemma scan_revision_ok:
  assumes "served_inv env db" and "r \<in> set (db_revisions db)"
  shows "scan_revision a r = Inr (current_alert.extend (scanned (a, r)) \<lparr>uv_deleted = ac_deleted (rv_columns r), uv_closed = rv_closed r\<rparr>)"
  by (simp add: scan_revision_def scan_alert_ok [OF assms])

section \<open>Enriching\<close>

lemma attach_distinct:
  "distinct (map ua_revision alerts) \<Longrightarrow> attach ps rs ss alerts =
     map (\<lambda>a. a\<lparr>ua_periods := ua_periods a @ ps (ua_revision a), ua_routes := ua_routes a @ rs (ua_revision a),
             ua_stations := ua_stations a @ ss (ua_revision a)\<rparr>) alerts"
  by (induction alerts) auto

lemma enrich_quiet: "se_faults s = [] \<Longrightarrow> enrich_alerts alerts s =
    (Inr (attach (alert_periods (se_db s)) (alert_routes (se_db s)) (alert_stations (se_db s)) alerts), s)"
  by (simp add: enrich_alerts_def ret_def bind_tx_quiet [OF query_quiet])

lemma enrich_scanned:
  assumes "distinct (map (rv_id \<circ> snd) rows)"
  shows "attach (alert_periods db) (alert_routes db) (alert_stations db) (map scanned rows) = map (presented db) rows"
proof -
  have "distinct (map ua_revision (map scanned rows))" using assms by (simp add: comp_def)
  from attach_distinct [OF this] show ?thesis
    by (simp add: scanned_def presented_def Let_def)
qed

lemma enrich_scanned_revisions:
  assumes "distinct (map rv_id rs)"
  shows "attach (alert_periods db) (alert_routes db) (alert_stations db)
      (map (\<lambda>r. current_alert.extend (scanned (a, r)) \<lparr>uv_deleted = ac_deleted (rv_columns r), uv_closed = rv_closed r\<rparr>) rs) =
    map (presented_revision db a) rs"
proof -
  have e: "ua_revision (current_alert.extend (scanned (a, r)) x) = rv_id r" for r and x :: "\<lparr>uv_deleted :: bool, uv_closed :: instant option\<rparr>"
    by (simp add: scanned_def presented_def Let_def current_alert.defs)
  have "distinct (map ua_revision (map (\<lambda>r. current_alert.extend (scanned (a, r))
      \<lparr>uv_deleted = ac_deleted (rv_columns r), uv_closed = rv_closed r\<rparr>) rs))"
    using assms by (simp add: e comp_def)
  from attach_distinct [OF this] show ?thesis
    by (simp add: presented_revision_def scanned_def presented_def Let_def current_alert.defs)
qed

section \<open>Rows of alerts\<close>

text \<open>A row pairs an alert with one of its revisions.\<close>

definition row_ok :: "db \<Rightarrow> alert_row \<times> revision_row \<Rightarrow> bool" where
  "row_ok db ar \<longleftrightarrow> fst ar \<in> set (db_alerts db) \<and> snd ar \<in> set (db_revisions db) \<and> rv_alert (snd ar) = sa_id (fst ar)"

lemma rows_distinct:
  assumes "alerts_inv db" and "\<And>ar. ar \<in> set rows \<Longrightarrow> row_ok db ar" and "distinct (map (sa_id \<circ> fst) rows)"
  shows "distinct (map (rv_id \<circ> snd) rows)"
proof -
  have ids: "distinct (map rv_id (db_revisions db))" using assms(1) by (simp add: alerts_inv_def ids_ok_def)
  have "inj_on (rv_id \<circ> snd) (set rows)"
  proof (rule inj_onI)
    fix x y assume xy: "x \<in> set rows" "y \<in> set rows" "(rv_id \<circ> snd) x = (rv_id \<circ> snd) y"
    with assms(2) have "snd x = snd y" using distinct_map_eqD [OF ids] by (simp add: row_ok_def)
    with assms(2) xy have "sa_id (fst x) = sa_id (fst y)" by (metis row_ok_def)
    with xy assms(3) show "x = y" using distinct_map_eqD [OF assms(3)] by simp
  qed
  with assms(3) show ?thesis by (simp add: distinct_map)
qed

lemma distinct_map_sort [simp]: "distinct (map f (sort_key k xs)) = distinct (map f xs)"
  by (intro mset_eq_imp_distinct_iff) simp

lemma distinct_map_order_desc [simp]: "distinct (map f (order_desc k xs)) = distinct (map f xs)"
  by (simp add: order_desc_def rev_map [symmetric])

lemma current_rows:
  assumes "alerts_inv db"
  shows "distinct (map (sa_id \<circ> fst) (current_revisions db))" and "ar \<in> set (current_revisions db) \<Longrightarrow> row_ok db ar"
proof -
  show "distinct (map (sa_id \<circ> fst) (current_revisions db))"
    using assms by (simp add: current_revisions_all alerts_inv_def ids_ok_def comp_def)
  assume "ar \<in> set (current_revisions db)"
  with current_revision_last [OF assms] show "row_ok db ar"
    by (auto simp: current_revisions_all [OF assms] row_ok_def)
qed

lemma listed_rows_ok:
  assumes "alerts_inv db"
  shows "distinct (map (sa_id \<circ> fst) (listed_rows q db))" and "ar \<in> set (listed_rows q db) \<Longrightarrow> row_ok db ar"
  using current_rows [OF assms] by (simp_all add: listed_rows_def distinct_map_filter)

lemma set_map_filter: "set (List.map_filter g xs) = {y. \<exists>x \<in> set xs. g x = Some y}"
  by (induction xs) (auto simp: List.map_filter_simps split: option.split)

lemma map_filter_distinct:
  "(\<And>x y. x \<in> set xs \<Longrightarrow> g x = Some y \<Longrightarrow> f' y = f x) \<Longrightarrow> distinct (map f xs) \<Longrightarrow> distinct (map f' (List.map_filter g xs))"
proof (induction xs)
  case (Cons x xs)
  have "f' y \<in> f ` set xs" if "y \<in> set (List.map_filter g xs)" for y
    using that Cons.prems(1) by (force simp: set_map_filter)
  moreover have "f' y = f x" if "g x = Some y" for y using that Cons.prems(1) by simp
  moreover have "distinct (map f' (List.map_filter g xs))" using Cons by simp
  ultimately show ?case using Cons.prems(2) by (cases "g x") (auto simp: List.map_filter_simps)
qed (simp add: List.map_filter_simps)

lemma shown_revision_Some:
  "shown_revision db q a = Some r \<Longrightarrow> r \<in> set (db_revisions db) \<and> rv_alert r = sa_id a \<and>
     \<not> ac_deleted (rv_columns r) \<and> matches_filters db q r"
  by (auto simp: shown_revision_def dest!: max_row_greatest)

lemma historical_rows_ok:
  assumes "alerts_inv db"
  shows "distinct (map (sa_id \<circ> fst) (historical_rows q db))" and "ar \<in> set (historical_rows q db) \<Longrightarrow> row_ok db ar"
proof -
  have [simp]: "sa_id \<circ> fst \<circ> (\<lambda>(a, _, r). (a, r)) = sa_id \<circ> fst" by auto
  show "distinct (map (sa_id \<circ> fst) (historical_rows q db))"
    unfolding historical_rows_def map_map
    by simp (rule map_filter_distinct [OF _ current_rows(1) [OF assms]], auto split: if_splits)
  assume "ar \<in> set (historical_rows q db)"
  then show "row_ok db ar"
    using current_rows(2) [OF assms] by (auto simp: historical_rows_def set_map_filter row_ok_def
        split: if_splits dest!: shown_revision_Some)
qed

section \<open>The lists\<close>

definition quiet :: "tx_io \<Rightarrow> bool" where
  "quiet io \<longleftrightarrow> io_begin io = None \<and> io_faults io = [] \<and> io_commit io = Done"

lemma bind_lift: "bind_tx (lift_res (Inr x)) k s = k x s"
  by (simp add: bind_tx_def lift_res_def)

lemma bind_query: "se_faults s = [] \<Longrightarrow> bind_tx (query w q) k s = k (q (se_db s)) s"
  by (rule bind_tx_quiet) (rule query_quiet)

lemma bind_scan: "se_faults s = [] \<Longrightarrow> q (se_db s) = Inr x \<Longrightarrow> bind_tx (scan_tx w q) k s = k x s"
  by (rule bind_tx_quiet) (rule scan_tx_quiet)

lemma bind_enrich: "se_faults s = [] \<Longrightarrow> bind_tx (enrich_alerts alerts) k s =
    k (attach (alert_periods (se_db s)) (alert_routes (se_db s)) (alert_stations (se_db s)) alerts) s"
  by (rule bind_tx_quiet) (rule enrich_quiet)

lemmas quiet_rules = bind_query bind_scan bind_enrich bind_lift enrich_quiet ret_def

lemma scan_alerts_ok:
  assumes "served_inv env db" and "\<And>ar. ar \<in> set rows \<Longrightarrow> row_ok db ar"
  shows "scan_alerts rows = Inr (map scanned rows)"
  unfolding scan_alerts_def by (rule each_res_map) (use scan_alert_ok [OF assms(1)] assms(2) in \<open>auto simp: row_ok_def\<close>)

lemma list_alerts_quiet:
  assumes io: "quiet io" and inv: "served_inv env db" and status: "aq_status q \<noteq> ''historical''"
  shows "list_alerts io q db = Inr \<lparr>ug_alerts = map (presented db) (listed_rows q db), ug_page = 0, ug_size = 0,
    ug_total = length (listed_rows q db)\<rparr>"
proof -
  note L = listed_rows_ok [OF served_invD(1) [OF inv], where q = q]
  have "scan_alerts (listed_rows q db) = Inr (map scanned (listed_rows q db))"
    by (rule scan_alerts_ok [OF inv L(2)])
  moreover have "attach (alert_periods db) (alert_routes db) (alert_stations db) (map scanned (listed_rows q db)) =
      map (presented db) (listed_rows q db)"
    by (rule enrich_scanned, rule rows_distinct [OF served_invD(1) [OF inv] L(2,1)])
  ultimately show ?thesis
    using io status unfolding list_alerts_def quiet_def
    by (simp, intro read_tx_quiet) (simp_all add: quiet_rules)
qed

lemma list_historical_quiet:
  assumes io: "quiet io" and inv: "served_inv env db" and status: "aq_status q = ''historical''"
    and bounds: "0 \<le> aq_size q" "0 \<le> page_offset (aq_page q) (aq_size q)"
  shows "list_alerts io q db = Inr \<lparr>ug_alerts = map (presented db)
      (take (nat (aq_size q)) (drop (nat (page_offset (aq_page q) (aq_size q))) (historical_rows q db))),
    ug_page = aq_page q, ug_size = aq_size q, ug_total = length (historical_rows q db)\<rparr>"
proof -
  let ?rows = "take (nat (aq_size q)) (drop (nat (page_offset (aq_page q) (aq_size q))) (historical_rows q db))"
  note H = historical_rows_ok [OF served_invD(1) [OF inv], where q = q]
  have rows: "row_ok db ar" if "ar \<in> set ?rows" for ar
    using H(2) that by (meson in_set_dropD in_set_takeD)
  have d: "distinct (map (sa_id \<circ> fst) ?rows)"
    using H(1) by (simp add: take_map [symmetric] drop_map [symmetric])
  have "scan_alerts ?rows = Inr (map scanned ?rows)" by (rule scan_alerts_ok [OF inv rows])
  moreover have "attach (alert_periods db) (alert_routes db) (alert_stations db) (map scanned ?rows) =
      map (presented db) ?rows"
    by (rule enrich_scanned, rule rows_distinct [OF served_invD(1) [OF inv] rows d])
  moreover have "page_rows (aq_size q) (page_offset (aq_page q) (aq_size q)) (historical_rows q db) = Inr ?rows"
    using bounds by (simp add: page_rows_def)
  ultimately show ?thesis
    using io status unfolding list_alerts_def list_historical_alerts_def quiet_def
    by (simp, intro read_tx_quiet)
      (simp_all add: quiet_rules)
qed

end
