(* ===== verification/ReadDetail.thy ===== *)
theory ReadDetail
  imports ReadLists
begin

text \<open>
  One alert and its revisions as functions of the database: the revisions in the order they were
  opened, and the latest is the current one.
\<close>

section \<open>The order of revisions\<close>

lemma firsts_sorted: "sorted (times h) \<Longrightarrow> sorted (map vw_first h)"
proof (induction h)
  case (Cons v h)
  have "vw_first w \<in> set (times h)" if "w \<in> set h" for w
    using that by (induction h) (auto simp: view_times_def)
  with Cons show ?case by (auto simp: view_times_def sorted_append split: option.splits)
qed simp

lemma revisions_sorted:
  assumes "alerts_inv db" and "chronology_inv db" and "a \<in> set (db_alerts db)"
  shows "sorted (map revision_key (revisions_of db (sa_id a)))"
proof -
  let ?rs = "revisions_of db (sa_id a)"
  have ids: "ids_ok db" and t: "map rv_number ?rs = [1..int (length ?rs)]"
    using assms(1,3) by (auto simp: alerts_inv_def timeline_ok_def)
  have "sorted (map vw_first (map view_of ?rs))"
    by (rule firsts_sorted) (use chronology_invD(2) [OF assms(2), of "alert_key a"] history_mem [OF ids assms(3)] in simp)
  moreover have "map vw_first (map view_of ?rs) = map rv_first_seen ?rs" by (simp add: view_of_def)
  ultimately have f: "sorted (map rv_first_seen ?rs)" by (simp del: map_map)
  have n: "rv_number (?rs ! i) = 1 + int i" if "i < length ?rs" for i
    using arg_cong [OF t, of "\<lambda>xs. xs ! i"] that by (simp add: nth_upto)
  have "revision_key (?rs ! i) \<le> revision_key (?rs ! j)" if "i < j" "j < length ?rs" for i j
    using sorted_nth_mono [OF f, of i j] n [of i] n [of j] that
    by (simp add: revision_key_def less_eq_prod_def less_prod_def)
  then show ?thesis by (simp add: sorted_iff_nth_mono_less)
qed

lemma revisions_in_order:
  assumes "alerts_inv db" and "chronology_inv db" and "a \<in> set (db_alerts db)"
  shows "sort_key revision_key (revisions_of db (sa_id a)) = revisions_of db (sa_id a)"
  by (rule sort_key_id_if_sorted) (rule revisions_sorted [OF assms])

text \<open>The rows of one alert.\<close>

lemma filter_key_unique: "distinct (map f xs) \<Longrightarrow> x \<in> set xs \<Longrightarrow> filter (\<lambda>y. f y = f x) xs = [x]"
  by (induction xs) (auto simp: filter_empty_conv image_iff)

lemma alert_ids: "alerts_inv db \<Longrightarrow> distinct (map sa_id (db_alerts db))"
  by (simp add: alerts_inv_def ids_ok_def)

lemma alert_rows:
  assumes "alerts_inv db" and "a \<in> set (db_alerts db)"
  shows "concat (map (\<lambda>x. map (\<lambda>r. (x, r)) (filter (\<lambda>r. rv_alert r = sa_id x) (db_revisions db)))
      (filter (\<lambda>x. sa_id x = sa_id a) (db_alerts db))) = map (\<lambda>r. (a, r)) (revisions_of db (sa_id a))"
  by (simp add: filter_key_unique [OF alert_ids [OF assms(1)] assms(2)] revisions_of_def)

lemma sort_key_map_pair: "sort_key (\<lambda>ar. k (snd ar)) (map (\<lambda>r. (a, r)) xs) = map (\<lambda>r. (a, r)) (sort_key k xs)"
proof -
  have "insort_key (\<lambda>ar. k (snd ar)) (a, x) (map (\<lambda>r. (a, r)) ys) = map (\<lambda>r. (a, r)) (insort_key k x ys)" for x ys
    by (induction ys) auto
  then show ?thesis by (induction xs) auto
qed

section \<open>Revisions\<close>

lemma load_revisions_quiet:
  assumes inv: "served_inv env db" and a: "a \<in> set (db_alerts db)" and s: "se_faults s = []" "se_db s = db"
  shows "load_alert_revisions (sa_id a) all_of s =
    (Inr (map (presented_revision db a)
       (if all_of then revisions_of db (sa_id a) else [last (revisions_of db (sa_id a))])), s)"
proof -
  let ?rs = "revisions_of db (sa_id a)"
  let ?shown = "if all_of then ?rs else [last ?rs]"
  note I = served_invD(1,3) [OF inv]
  have ne: "?rs \<noteq> []" using I(1) a by (auto simp: alerts_inv_def timeline_ok_def)
  have k: "sort_key (\<lambda>ar. revision_key (snd ar)) (map (\<lambda>r. (a, r)) ?rs) = map (\<lambda>r. (a, r)) ?rs"
    using revisions_in_order [OF I a] by (simp add: sort_key_map_pair)
  have one: "take 1 (order_desc (\<lambda>ar. revision_key (snd ar)) (map (\<lambda>r. (a, r)) ?rs)) = [(a, last ?rs)]"
    unfolding order_desc_def k using ne by (cases ?rs rule: rev_cases) simp_all
  have sub: "set ?shown \<subseteq> set (db_revisions db)" using ne last_in_set [OF ne] by (auto simp: revisions_of_def)
  have d: "distinct (map rv_id ?shown)"
    using I(1) by (simp add: alerts_inv_def ids_ok_def revisions_of_def distinct_map_filter)
  let ?scan = "\<lambda>r. current_alert.extend (scanned (a, r)) \<lparr>uv_deleted = ac_deleted (rv_columns r), uv_closed = rv_closed r\<rparr>"
  have scan: "each_res (\<lambda>(a, r). scan_revision a r) (map (\<lambda>r. (a, r)) ?shown) = Inr (map ?scan ?shown)"
  proof -
    have "each_res (\<lambda>(a, r). scan_revision a r) (map (\<lambda>r. (a, r)) rs) = Inr (map ?scan rs)" if "set rs \<subseteq> set (db_revisions db)" for rs
      using that by (induction rs) (simp_all add: scan_revision_ok [OF inv])
    from this [OF sub] show ?thesis .
  qed
  show ?thesis
    unfolding load_alert_revisions_def
    using scan enrich_scanned_revisions [OF d, of db a] s one
    by (cases all_of) (simp_all add: quiet_rules alert_rows [OF I(1) a] k)
qed

definition find_alert_row :: "db \<Rightarrow> row_id \<Rightarrow> alert_row option" where
  "find_alert_row db k = find (\<lambda>a. sa_id a = k) (db_alerts db)"

lemma find_alert_row_Some: "find_alert_row db k = Some a \<Longrightarrow> a \<in> set (db_alerts db) \<and> sa_id a = k"
  by (auto simp: find_alert_row_def dest: find_Some_mem)

lemma list_revisions_quiet:
  assumes io: "quiet io" and inv: "served_inv env db"
  shows "list_alert_revisions io k db =
    (case find_alert_row db k of
       None \<Rightarrow> Inl (not_found k)
     | Some a \<Rightarrow> Inr (map (presented_revision db a) (revisions_of db k)))"
proof (cases "find_alert_row db k")
  case None
  then have "\<not> list_ex (\<lambda>a. sa_id a = k) (db_alerts db)"
    by (auto simp: find_alert_row_def find_None_all list_ex_iff)
  with None io show ?thesis
    unfolding list_alert_revisions_def quiet_def
    by (simp, intro read_tx_quiet) (simp_all add: quiet_rules fail_tx_def)
next
  case (Some a)
  note a = find_alert_row_Some [OF Some]
  then have "list_ex (\<lambda>a. sa_id a = k) (db_alerts db)" by (auto simp: list_ex_iff)
  with Some io load_revisions_quiet [OF inv conjunct1 [OF a], where all_of = True] a show ?thesis
    unfolding list_alert_revisions_def quiet_def
    by (simp, intro read_tx_quiet) (simp_all add: quiet_rules)
qed

section \<open>One alert\<close>

definition detail_of :: "db \<Rightarrow> alert_row \<Rightarrow> alert_detail" where
  "detail_of db a =
     (let rs = revisions_of db (sa_id a); r = last rs
      in \<lparr>ue_id = sa_id a, ue_source_url = sa_source_url a, ue_entity = sa_entity a,
          ue_status = (if is_present (a, r) then ''present'' else ''historical''),
          ue_first_seen = sa_first_seen a, ue_last_seen = sa_last_seen a,
          ue_closed = (if ac_deleted (rv_columns r) then Some (rv_first_seen r) else sa_closed a),
          ue_count = length rs, ue_latest = presented_revision db a r\<rparr>)"

lemma get_alert_quiet:
  assumes io: "quiet io" and inv: "served_inv env db"
  shows "get_alert io k db =
    (case find_alert_row db k of None \<Rightarrow> Inl (not_found k) | Some a \<Rightarrow> Inr (detail_of db a))"
proof -
  note I = served_invD(1) [OF inv]
  have f: "find (\<lambda>ar. sa_id (fst ar) = k) (current_revisions db) =
      map_option (\<lambda>a. (a, last (revisions_of db (sa_id a)))) (find_alert_row db k)"
  proof -
    have "find (\<lambda>ar. sa_id (fst ar) = k) (map (\<lambda>a. (a, g a)) xs) = map_option (\<lambda>a. (a, g a)) (find (\<lambda>a. sa_id a = k) xs)"
      for g and xs :: "alert_row list" by (induction xs) auto
    then show ?thesis by (simp add: current_revisions_all [OF I] find_alert_row_def)
  qed
  show ?thesis
  proof (cases "find_alert_row db k")
    case None
    with f io show ?thesis
      unfolding get_alert_def quiet_def by (simp, intro read_tx_quiet) (simp_all add: quiet_rules fail_tx_def)
  next
    case (Some a)
    note a = find_alert_row_Some [OF Some]
    then have "revisions_of db k \<noteq> []" using I by (auto simp: alerts_inv_def timeline_ok_def)
    moreover have n: "length (filter (\<lambda>r. rv_alert r = k) (db_revisions db)) = length (revisions_of db k)"
      by (simp add: revisions_of_def)
    ultimately show ?thesis
      using Some f io load_revisions_quiet [OF inv conjunct1 [OF a], where all_of = False] a
      unfolding get_alert_def quiet_def
      by (simp, intro read_tx_quiet)
        (simp_all add: quiet_rules bind_tx_quiet [where m = "load_alert_revisions k False"] detail_of_def Let_def)
  qed
qed

end
