(* ===== verification/ReadProperties.thy ===== *)
theory ReadProperties
  imports ReadDetail Samples
begin

text \<open>
  The promises of the read repository in the databases the workers reach, each with a concrete
  application.
\<close>

section \<open>From the feed to the reader\<close>

definition present_query :: "instant \<Rightarrow> alert_query" where
  "present_query now = \<lparr>aq_status = ''present'', aq_now = now, aq_line = [], aq_station = [], aq_cause = [], aq_effect = [],
     aq_from = None, aq_to = None, aq_page = 0, aq_size = 0\<rparr>"

lemma present_rows:
  "listed_rows (present_query now) db = sort_key (\<lambda>ar. listing_key (fst ar)) (filter is_present (current_revisions db))"
  by (simp add: listed_rows_def present_query_def matches_status_def matches_filters_def in_range_def Let_def)

text \<open>What an alert says, and what is shown of it.\<close>

definition alert_texts :: "alert_summary \<Rightarrow> string option list \<times> translation list list" where
  "alert_texts a = ([al_cause a, al_effect a, al_severity a], [al_header a, al_description a, al_url a])"

definition shown_texts :: "current_alert \<Rightarrow> string option list \<times> translation list list" where
  "shown_texts x = ([ua_cause x, ua_effect x, ua_severity x], [ua_header x, ua_description x, ua_url x])"

lemma shown_texts_presented: "rv_columns r = columns_of b \<Longrightarrow> shown_texts (presented db (a, r)) = alert_texts b"
  by (simp add: shown_texts_def alert_texts_def presented_def columns_of_def Let_def)

text \<open>The row of an entity in the list.\<close>

lemma present_row_of_key:
  assumes inv: "alerts_inv db" and a: "a \<in> set (db_alerts db)"
  shows "filter (\<lambda>ar. alert_key (fst ar) = alert_key a) (listed_rows (present_query now) db) =
    (if is_present (a, last (revisions_of db (sa_id a))) then [(a, last (revisions_of db (sa_id a)))] else [])"
proof -
  let ?row = "(a, last (revisions_of db (sa_id a)))"
  let ?rows = "listed_rows (present_query now) db"
  have keys: "distinct (map alert_key (db_alerts db))" using inv by (simp add: alerts_inv_def ids_ok_def)
  have mem: "ar \<in> set ?rows \<longleftrightarrow> is_present ar \<and> fst ar \<in> set (db_alerts db) \<and> snd ar = last (revisions_of db (sa_id (fst ar)))" for ar
    by (cases ar) (auto simp: present_rows current_revisions_all [OF inv])
  have "distinct (map (alert_key \<circ> fst) (current_revisions db))"
    using keys by (simp add: current_revisions_all [OF inv] comp_def)
  then have d: "distinct (map (alert_key \<circ> fst) ?rows)" by (simp add: present_rows distinct_map_filter)
  show ?thesis
  proof (cases "is_present ?row")
    case True
    then have "?row \<in> set ?rows" using a mem by simp
    from filter_key_unique [OF d this] True show ?thesis by simp
  next
    case False
    have "ar = ?row" if "ar \<in> set ?rows" "alert_key (fst ar) = alert_key a" for ar
    proof -
      have m: "fst ar \<in> set (db_alerts db)" "snd ar = last (revisions_of db (sa_id (fst ar)))" using that(1) mem by simp_all
      with distinct_map_eqD [OF keys m(1) a that(2)] show ?thesis by (metis prod.collapse)
    qed
    with False mem show ?thesis by (auto simp: filter_empty_conv)
  qed
qed

lemma presented_key: "ua_source_url (presented db ar) = src \<and> ua_entity (presented db ar) = ent \<longleftrightarrow> alert_key (fst ar) = (src, ent)"
  by (simp add: presented_def alert_key_def Let_def)

lemma filter_presented:
  "filter (\<lambda>x. ua_source_url x = src \<and> ua_entity x = ent) (map (presented db) rows) =
   map (presented db) (filter (\<lambda>ar. alert_key (fst ar) = (src, ent)) rows)"
  by (induction rows) (simp_all add: presented_key)

text \<open>The current revision of an entity the feed lists.\<close>

lemma observed_row:
  assumes inv: "alerts_inv db'" and env: "\<And>r. r \<in> set (db_revisions db') \<Longrightarrow>
      \<exists>b. rv_sha256 r = sha256_hex env (hash_payload b) \<and> rv_columns r = columns_of b"
    and h: "history db' = observe_feed at src (feed_content env alerts) (history db)"
    and al: "al \<in> set alerts" "distinct (map al_entity_id alerts)"
  obtains a b where "a \<in> set (db_alerts db')" "alert_key a = (src, al_entity_id al)" "sa_present a"
    "rv_columns (last (revisions_of db' (sa_id a))) = columns_of b"
    "sha256_hex env (hash_payload b) = sha256_hex env (hash_payload al)"
proof -
  let ?key = "(src, al_entity_id al)"
  have "map_of (feed_content env alerts) (al_entity_id al) = Some (seen_content env al)"
    using al by (intro map_of_SomeI_distinct) (auto simp: feed_content_def comp_def)
  then have obs: "history db' ?key = observe at (Some (seen_content env al)) (history db ?key)"
    by (simp add: h observe_feed_def)
  then have ne: "history db' ?key \<noteq> []" using observe_nonempty by simp
  then obtain a where a: "a \<in> set (db_alerts db')" "alert_key a = ?key" by (metis history_none imageE)
  let ?rs = "revisions_of db' (sa_id a)" and ?r = "last (revisions_of db' (sa_id a))"
  have ids: "ids_ok db'" and t: "timeline_ok ?rs (sa_present a) (sa_current a)" using inv a by (auto simp: alerts_inv_def)
  have hist: "history db' ?key = map view_of ?rs" using history_mem [OF ids a(1)] a(2) by simp
  then have l: "last (history db' ?key) = view_of ?r" using ne by (simp add: last_map)
  have "is_open (history db' ?key)" by (simp add: obs is_open_observe)
  then have "rv_closed ?r = None" using l by (simp add: is_open_def view_of_def)
  then have "sa_present a" using t by (simp add: timeline_ok_def)
  moreover have "rv_sha256 ?r = sha256_hex env (hash_payload al)"
  proof -
    have "vw_sha256 (last (history db' ?key)) = sha256_hex env (hash_payload al)"
      by (simp add: obs seen_content_def last_observed)
    then show ?thesis by (simp add: l view_of_def)
  qed
  moreover have "?r \<in> set (db_revisions db')" by (rule current_revision_last(2) [OF inv a(1)])
  then obtain b where "rv_sha256 ?r = sha256_hex env (hash_payload b)" "rv_columns ?r = columns_of b"
    using env by blast
  ultimately show thesis using that a by simp
qed

lemma after_completion:
  assumes "(system_step env)\<^sup>*\<^sup>* empty_db db" and "complete_alert_run env io run_id result summary db = (r, db')"
  shows "served_inv env db" and "served_inv env db'"
proof -
  show 1: "served_inv env db" by (rule served_inv_steps [OF assms(1) served_inv_empty])
  have "system_step env db db'" by (rule system_step.alerts, rule alert_step.complete [OF assms(2)])
  then show "served_inv env db'" by (rule served_inv_steps [OF r_into_rtranclp 1])
qed

text \<open>C13: what the worker ingested is what the reader shows. The workers ran in any order, then a
  feed was applied. For every alert the feed lists, the list of present alerts has no entry when
  the alert is a deletion, and otherwise exactly one under its source and entity id, whose cause,
  effect, severity and texts, marshalled into the database and unmarshalled again, are those of
  an alert with the same content hash; no other entity of the source is listed.\<close>

theorem ingested_alerts_are_shown:
  assumes "(system_step env)\<^sup>*\<^sup>* empty_db db" and "complete_alert_run env io run_id result summary db = (Inr False, db')"
    and "quiet rio"
  shows "\<exists>r \<in> set (db_runs db). \<exists>page. at_id r = run_id \<and> list_alerts rio (present_query now) db' = Inr page \<and>
    (\<forall>al \<in> set (fe_alerts summary). \<exists>b. sha256_hex env (hash_payload b) = sha256_hex env (hash_payload al) \<and>
       map shown_texts (filter (\<lambda>x. ua_source_url x = at_source_url r \<and> ua_entity x = al_entity_id al) (ug_alerts page)) =
         (if al_deleted b then [] else [alert_texts b])) \<and>
    (\<forall>x \<in> set (ug_alerts page). ua_source_url x = at_source_url r \<longrightarrow> ua_entity x \<in> al_entity_id ` set (fe_alerts summary))"
proof -
  note S = after_completion [OF assms(1,2)]
  note I = served_invD(1) [OF S(2)]
  obtain r at where r: "r \<in> set (db_runs db)" "running_archived run_id r"
    and d: "distinct (map al_entity_id (fe_alerts summary))"
    and h: "history db' = observe_feed (pg_time at) (at_source_url r) (feed_content env (fe_alerts summary)) (history db)"
    by (rule complete_run_applied [OF assms(2) served_invD(2,1) [OF S(1)]])
  let ?rows = "listed_rows (present_query now) db'" and ?src = "at_source_url r"
  have list: "list_alerts rio (present_query now) db' = Inr \<lparr>ug_alerts = map (presented db') ?rows, ug_page = 0, ug_size = 0,
      ug_total = length ?rows\<rparr>"
    by (rule list_alerts_quiet [OF assms(3) S(2)]) (simp add: present_query_def)
  have shown: "\<exists>b. sha256_hex env (hash_payload b) = sha256_hex env (hash_payload al) \<and>
      map shown_texts (filter (\<lambda>x. ua_source_url x = ?src \<and> ua_entity x = al_entity_id al) (map (presented db') ?rows)) =
        (if al_deleted b then [] else [alert_texts b])" if al: "al \<in> set (fe_alerts summary)" for al
  proof -
    obtain a b where a: "a \<in> set (db_alerts db')" "alert_key a = (?src, al_entity_id al)" "sa_present a"
      "rv_columns (last (revisions_of db' (sa_id a))) = columns_of b"
      "sha256_hex env (hash_payload b) = sha256_hex env (hash_payload al)"
      using observed_row [OF I revision_content [OF S(2)] h al d] by metis
    have "is_present (a, last (revisions_of db' (sa_id a))) \<longleftrightarrow> \<not> al_deleted b"
      using a(3,4) by (simp add: is_present_def columns_of_def)
    with present_row_of_key [OF I a(1), of now] a(2) shown_texts_presented [OF a(4)] a(5) show ?thesis
      by (intro exI [of _ b]) (simp add: filter_presented)
  qed
  have "ua_entity x \<in> al_entity_id ` set (fe_alerts summary)" if x: "x \<in> set (map (presented db') ?rows)" "ua_source_url x = ?src" for x
  proof -
    from x(1) obtain ar where ar: "ar \<in> set ?rows" "x = presented db' ar" by auto
    let ?a = "fst ar" and ?r = "last (revisions_of db' (sa_id (fst ar)))"
    have a: "?a \<in> set (db_alerts db')" "sa_present ?a"
      using ar(1) by (auto simp: present_rows current_revisions_all [OF I] is_present_def)
    then have t: "timeline_ok (revisions_of db' (sa_id ?a)) True (sa_current ?a)" using I by (auto simp: alerts_inv_def)
    have k: "alert_key ?a = (?src, ua_entity x)" using presented_key [of db' ar] ar(2) x(2) by blast
    have "history db' (alert_key ?a) = map view_of (revisions_of db' (sa_id ?a))"
      using history_mem [of db' ?a] a(1) I by (simp add: alerts_inv_def)
    then have "is_open (history db' (?src, ua_entity x))"
      using t k by (simp add: is_open_def timeline_ok_def last_map view_of_def)
    then show ?thesis using open_after_feed [OF h] by (auto simp: open_entities_def)
  qed
  with shown r list show ?thesis
    by (intro bexI [OF _ r(1)]) (auto simp: running_archived_def)
qed

theorem ingested_alerts_are_shown_witness:
  "\<exists>db' page. complete_alert_run sample_env (quiet_io 9000) 1 (sample_fetch ''f1'' 10000)
      (sample_feed [sample_alert ''a'' ''x'']) sample_ready = (Inr False, db') \<and>
    list_alerts (quiet_io 0) (present_query 20000) db' = Inr page \<and>
    (\<exists>b. hash_payload b = hash_payload (sample_alert ''a'' ''x'') \<and>
       map shown_texts (filter (\<lambda>x. ua_source_url x = ''src'' \<and> ua_entity x = ''a'') (ug_alerts page)) =
         (if al_deleted b then [] else [alert_texts b]))"
proof -
  obtain db' where run: "complete_alert_run sample_env (quiet_io 9000) 1 (sample_fetch ''f1'' 10000)
      (sample_feed [sample_alert ''a'' ''x'']) sample_ready = (Inr False, db')"
    by (simp add: sample_ready_eq empty_db_def sample_run_def complete_evals)
  have io: "quiet (quiet_io 0)" by (simp add: quiet_def quiet_io_def)
  let ?al = "sample_alert ''a'' ''x''"
  obtain r page where r: "r \<in> set (db_runs sample_ready)" and page: "list_alerts (quiet_io 0) (present_query 20000) db' = Inr page"
    and all: "\<forall>al \<in> set (fe_alerts (sample_feed [?al])). \<exists>b. sha256_hex sample_env (hash_payload b) = sha256_hex sample_env (hash_payload al) \<and>
       map shown_texts (filter (\<lambda>x. ua_source_url x = at_source_url r \<and> ua_entity x = al_entity_id al) (ug_alerts page)) =
         (if al_deleted b then [] else [alert_texts b])"
    using ingested_alerts_are_shown [OF alert_steps_system [OF sample_ready_reachable] run io, of 20000] by blast
  have "at_source_url r = ''src''" using r by (simp add: sample_ready_eq sample_run_def)
  moreover have "?al \<in> set (fe_alerts (sample_feed [?al]))" "al_entity_id ?al = ''a''" by (simp_all add: sample_feed_def sample_alert_def)
  moreover have "sha256_hex sample_env s = s" for s by (simp add: sample_env_def)
  ultimately show ?thesis using run page bspec [OF all, of ?al] by auto
qed

section \<open>Pages\<close>

text \<open>The offset of a page is exact while it fits an int64.\<close>

lemma page_offset_exact:
  assumes "1 \<le> page" and "0 \<le> n" and "page * n < 2 ^ 63"
  shows "page_offset page n = (page - 1) * n"
proof -
  have "0 \<le> (page - 1) * n" "(page - 1) * n < 2 ^ 63" using assms by (simp, simp add: left_diff_distrib)
  then have "signed_take_bit 63 ((page - 1) * n) = (page - 1) * n" by (intro signed_take_bit_int_eq_self) simp_all
  moreover have "page_offset page n = sint (word_of_int ((page - 1) * n) :: 64 word)"
    by (simp add: page_offset_def)
  moreover have "sint (word_of_int ((page - 1) * n) :: 64 word) = signed_take_bit 63 ((page - 1) * n)"
    by (simp del: of_int_mult of_int_diff add: sint_sbintrunc')
  ultimately show ?thesis by (simp only:)
qed

lemma shown_revision_page [simp]: "shown_revision db (q\<lparr>aq_page := n\<rparr>) a = shown_revision db q a"
  by (simp add: shown_revision_def matches_filters_def in_range_def Let_def)

lemma historical_rows_page [simp]: "historical_rows (q\<lparr>aq_page := n\<rparr>) db = historical_rows q db"
  by (simp add: historical_rows_def cong: if_cong)

lemma pages_append: "concat (map (\<lambda>i. take k (drop (i * k) xs)) [0..<n]) = take (n * k) xs"
proof (induction n)
  case (Suc n)
  then show ?case using take_add [of "n * k" k xs] by (simp add: add.commute)
qed simp

text \<open>C32: the pages of the historical alerts partition them. In a reachable database the pages 1 to
  \<open>n\<close>, put together, are the first \<open>n * size\<close> alerts of the whole list, in its order, no alert is on
  two pages, and every page says how many there are; so enough pages are the whole list.\<close>

theorem historical_pages_partition:
  assumes "(system_step env)\<^sup>*\<^sup>* empty_db db" and "quiet io" and "aq_status q = ''historical''"
    and "1 \<le> aq_size q" and "int n * aq_size q < 2 ^ 63"
  shows "\<exists>pages. map (\<lambda>i. list_alerts io (q\<lparr>aq_page := int i + 1\<rparr>) db) [0..<n] = map Inr pages \<and>
    concat (map ug_alerts pages) = take (n * nat (aq_size q)) (map (presented db) (historical_rows q db)) \<and>
    distinct (map ua_id (concat (map ug_alerts pages))) \<and>
    (\<forall>p \<in> set pages. ug_total p = length (historical_rows q db) \<and> length (ug_alerts p) \<le> nat (aq_size q))"
proof -
  have inv: "served_inv env db" by (rule served_inv_steps [OF assms(1) served_inv_empty])
  let ?k = "nat (aq_size q)" and ?all = "map (presented db) (historical_rows q db)"
  let ?page = "\<lambda>i. \<lparr>ug_alerts = take ?k (drop (i * ?k) ?all), ug_page = int i + 1, ug_size = aq_size q,
    ug_total = length (historical_rows q db)\<rparr>"
  have page: "list_alerts io (q\<lparr>aq_page := int i + 1\<rparr>) db = Inr (?page i)" if "i < n" for i
  proof -
    have "(int i + 1) * aq_size q \<le> int n * aq_size q" using that assms(4) by (intro mult_right_mono) auto
    then have "(int i + 1) * aq_size q < 2 ^ 63" using assms(5) by (rule le_less_trans)
    then have o: "page_offset (int i + 1) (aq_size q) = int i * aq_size q"
      using page_offset_exact [of "int i + 1" "aq_size q"] assms(4) by simp
    then have "nat (page_offset (int i + 1) (aq_size q)) = i * ?k" by (simp add: nat_mult_distrib)
    then show ?thesis
      using list_historical_quiet [OF assms(2) inv, of "q\<lparr>aq_page := int i + 1\<rparr>"] assms(3,4) o
      by (simp add: take_map drop_map)
  qed
  have "map ug_alerts (map ?page [0..<n]) = map (\<lambda>i. take ?k (drop (i * ?k) ?all)) [0..<n]" by simp
  then have all: "concat (map ug_alerts (map ?page [0..<n])) = take (n * ?k) ?all" by (simp only: pages_append)
  have "distinct (map ua_id ?all)"
    using historical_rows_ok(1) [OF served_invD(1) [OF inv], where q = q]
    by (simp add: comp_def presented_def Let_def)
  then have d: "distinct (map ua_id (take (n * ?k) ?all))" by (simp only: take_map [symmetric] distinct_take)
  have "map (\<lambda>i. list_alerts io (q\<lparr>aq_page := int i + 1\<rparr>) db) [0..<n] = map Inr (map ?page [0..<n])"
    unfolding map_map by (rule map_cong [OF refl]) (simp add: page)
  moreover have "\<forall>p \<in> set (map ?page [0..<n]). ug_total p = length (historical_rows q db) \<and> length (ug_alerts p) \<le> ?k"
    by auto
  ultimately show ?thesis using all d by (metis (no_types, lifting))
qed

text \<open>A database in which the alert has gone.\<close>

definition sample_closed :: db where
  "sample_closed = snd (complete_alert_run sample_env (quiet_io 9000) 2 (sample_fetch ''f2'' 20000) (sample_feed []) sample_second)"

lemma sample_closed_reachable: "(system_step sample_env)\<^sup>*\<^sup>* empty_db sample_closed"
proof -
  have "alert_step sample_env sample_second sample_closed"
    by (rule alert_step.complete [where r = "fst (complete_alert_run sample_env (quiet_io 9000) 2 (sample_fetch ''f2'' 20000)
        (sample_feed []) sample_second)"]) (simp add: sample_closed_def)
  with sample_second_reachable show ?thesis by (intro alert_steps_system) (rule rtranclp.rtrancl_into_rtrancl)
qed

definition sample_history :: alert_query where
  "sample_history = (present_query 30000)\<lparr>aq_status := ''historical'', aq_page := 1, aq_size := 20\<rparr>"

theorem historical_pages_partition_witness:
  "\<exists>p1 p2. list_alerts (quiet_io 0) sample_history sample_closed = Inr p1 \<and>
    list_alerts (quiet_io 0) (sample_history\<lparr>aq_page := 2\<rparr>) sample_closed = Inr p2 \<and>
    ug_alerts p1 @ ug_alerts p2 = take 40 (map (presented sample_closed) (historical_rows sample_history sample_closed))"
proof -
  have "[0..<2] = [0, 1::nat]" by (simp add: upt_rec)
  moreover have "quiet (quiet_io 0)" by (simp add: quiet_def quiet_io_def)
  ultimately show ?thesis
    using historical_pages_partition [OF sample_closed_reachable, of "quiet_io 0" sample_history 2]
    by (auto simp: sample_history_def present_query_def Cons_eq_map_conv map_eq_Cons_conv)
qed

section \<open>Details\<close>

definition revision_shown :: "alert_revision \<Rightarrow> instant \<times> instant \<times> instant option" where
  "revision_shown x = (ua_rev_first x, ua_rev_last x, uv_closed x)"

definition view_shown :: "revision_view \<Rightarrow> instant \<times> instant \<times> instant option" where
  "view_shown v = (vw_first v, vw_last v, vw_closed v)"

lemma shown_history:
  assumes "alerts_inv db" and "a \<in> set (db_alerts db)"
  shows "map revision_shown (map (presented_revision db a) (revisions_of db (sa_id a))) = map view_shown (history db (alert_key a))"
  using history_mem [of db a] assms
  by (simp add: alerts_inv_def revision_shown_def view_shown_def view_of_def presented_revision_def presented_def
      Let_def current_alert.defs)

lemma distinct_sorted_set: "distinct_sorted xs = sorted_list_of_set (set xs)"
  by (simp add: distinct_sorted_def sorted_list_of_set_sort_remdups)

lemma named_routes: "route_identifiers db k = sorted_list_of_set {x. \<exists>e \<in> set (db_revision_entities db).
    er_owner e = k \<and> (er_route e = Some x \<or> er_trip_route e = Some x)}"
  unfolding route_identifiers_def distinct_sorted_set
  by (rule arg_cong [of _ _ sorted_list_of_set]) (auto simp: entities_of_def set_map_filter)

lemma named_stops_set: "named_stops db k = sorted_list_of_set {x. \<exists>e \<in> set (db_revision_entities db).
    er_owner e = k \<and> er_stop e = Some x}"
  unfolding named_stops_def distinct_sorted_set
  by (rule arg_cong [of _ _ sorted_list_of_set]) (auto simp: entities_of_def set_map_filter)

text \<open>A revision as it is served: the columns of the alert \<open>b\<close> it was opened for, read back.\<close>

definition served_revision :: "db \<Rightarrow> alert_row \<Rightarrow> revision_row \<Rightarrow> alert_summary \<Rightarrow> alert_revision" where
  "served_revision db a r b =
     \<lparr>ua_id = sa_id a, ua_source_url = sa_source_url a, ua_entity = sa_entity a, ua_revision = rv_id r,
      ua_number = rv_number r, ua_cause = al_cause b, ua_effect = al_effect b, ua_severity = al_severity b,
      ua_header = al_header b, ua_description = al_description b, ua_url = al_url b,
      ua_first_seen = sa_first_seen a, ua_last_seen = sa_last_seen a,
      ua_rev_first = rv_first_seen r, ua_rev_last = rv_last_seen r,
      ua_periods = map (\<lambda>p. \<lparr>up_position = pr_position p, up_starts = pr_starts p, up_ends = pr_ends p\<rparr>)
        (sort_key pr_position (filter (\<lambda>p. pr_owner p = rv_id r) (db_revision_periods db))),
      ua_routes = map (alert_route_of db) (sorted_list_of_set {x. \<exists>e \<in> set (db_revision_entities db).
        er_owner e = rv_id r \<and> (er_route e = Some x \<or> er_trip_route e = Some x)}),
      ua_stations = map (alert_station_of db) (sorted_list_of_set {x. \<exists>e \<in> set (db_revision_entities db).
        er_owner e = rv_id r \<and> er_stop e = Some x}),
      uv_deleted = al_deleted b, uv_closed = rv_closed r\<rparr>"

lemma served_presented:
  assumes "rv_columns r = columns_of b"
  shows "presented_revision db a r = served_revision db a r b"
  using assms
  by (simp add: presented_revision_def presented_def served_revision_def Let_def current_alert.defs columns_of_def
      alert_periods_def alert_routes_def alert_stations_def named_routes named_stops_set)

text \<open>C33: the details of an alert can be read exactly when there is an alert with the id, and its
  revisions with them; otherwise both calls say it was not found. The revisions are the rows of
  the alert in the order they were recorded, never none, each served with the cause, effect,
  severity, texts and deletion of the alert whose content hash the row has, its times, its periods
  by position, its routes and stops in order and once each; their times are those of the recorded
  history. The detail has the columns of the alert, counts the rows, shows the last as the latest,
  is present exactly while that row is open and no deletion, and was closed when a deletion was
  first seen or else when the alert was. No call runs past the end of the revisions.\<close>

theorem alert_details_are_complete:
  assumes "(system_step env)\<^sup>*\<^sup>* empty_db db" and "quiet io"
  shows "case get_alert io k db of
      Inl e \<Rightarrow> e = not_found k \<and> list_alert_revisions io k db = Inl (not_found k) \<and> k \<notin> sa_id ` set (db_alerts db)
    | Inr d \<Rightarrow> \<exists>a rows rs. a \<in> set (db_alerts db) \<and> sa_id a = k \<and>
        rows = filter (\<lambda>r. rv_alert r = k) (db_revisions db) \<and> rows \<noteq> [] \<and>
        list_alert_revisions io k db = Inr rs \<and>
        list_all2 (\<lambda>r v. \<exists>b. rv_columns r = columns_of b \<and> rv_sha256 r = sha256_hex env (hash_payload b) \<and>
          v = served_revision db a r b) rows rs \<and>
        d = \<lparr>ue_id = k, ue_source_url = sa_source_url a, ue_entity = sa_entity a,
          ue_status = (if rv_closed (last rows) = None \<and> \<not> ac_deleted (rv_columns (last rows)) then ''present'' else ''historical''),
          ue_first_seen = sa_first_seen a, ue_last_seen = sa_last_seen a,
          ue_closed = (if ac_deleted (rv_columns (last rows)) then Some (rv_first_seen (last rows)) else sa_closed a),
          ue_count = length rows, ue_latest = last rs\<rparr> \<and>
        map revision_shown rs = map view_shown (history db (sa_source_url a, sa_entity a))"
proof (cases "find_alert_row db k")
  have inv: "served_inv env db" by (rule served_inv_steps [OF assms(1) served_inv_empty])
  note Q = get_alert_quiet [OF assms(2) inv, of k] list_revisions_quiet [OF assms(2) inv, of k]
  {
    case None
    then have "k \<notin> sa_id ` set (db_alerts db)" by (auto simp: find_alert_row_def find_None_all)
    with None show ?thesis by (simp add: Q)
  next
    case (Some a)
    note a = find_alert_row_Some [OF Some]
    let ?rs = "revisions_of db k"
    note I = served_invD(1) [OF inv]
    have t: "timeline_ok ?rs (sa_present a) (sa_current a)" using I a by (auto simp: alerts_inv_def)
    then have ne: "?rs \<noteq> []" by (simp add: timeline_ok_def)
    have shown: "map revision_shown (map (presented_revision db a) ?rs) = map view_shown (history db (sa_source_url a, sa_entity a))"
      using shown_history [OF I conjunct1 [OF a]] a by (simp add: alert_key_def del: map_map)
    have content: "\<exists>b. rv_columns r = columns_of b \<and> rv_sha256 r = sha256_hex env (hash_payload b) \<and>
        presented_revision db a r = served_revision db a r b" if "r \<in> set ?rs" for r
      using revision_content [OF inv, of r] that served_presented [of r _ db a] by (auto simp: revisions_of_def)
    then have rows: "list_all2 (\<lambda>r v. \<exists>b. rv_columns r = columns_of b \<and> rv_sha256 r = sha256_hex env (hash_payload b) \<and>
        v = served_revision db a r b) ?rs (map (presented_revision db a) ?rs)"
      by (simp add: list_all2_map2 list.rel_refl_strong)
    have present: "is_present (a, last ?rs) \<longleftrightarrow> rv_closed (last ?rs) = None \<and> \<not> ac_deleted (rv_columns (last ?rs))"
      using t by (simp add: is_present_def timeline_ok_def)
    have d: "detail_of db a = \<lparr>ue_id = k, ue_source_url = sa_source_url a, ue_entity = sa_entity a,
        ue_status = (if rv_closed (last ?rs) = None \<and> \<not> ac_deleted (rv_columns (last ?rs)) then ''present'' else ''historical''),
        ue_first_seen = sa_first_seen a, ue_last_seen = sa_last_seen a,
        ue_closed = (if ac_deleted (rv_columns (last ?rs)) then Some (rv_first_seen (last ?rs)) else sa_closed a),
        ue_count = length ?rs, ue_latest = last (map (presented_revision db a) ?rs)\<rparr>"
      using a ne by (simp add: detail_of_def Let_def present last_map)
    show ?thesis
      unfolding Q Some option.case sum.case d
      by (intro exI [of _ a] exI [of _ ?rs] exI [of _ "map (presented_revision db a) ?rs"] conjI)
        (use a ne rows shown in \<open>simp_all add: revisions_of_def del: map_map\<close>)
  }
qed

theorem alert_details_are_complete_witness:
  "list_alert_revisions (quiet_io 0) 1 sample_applied \<noteq> Inl (not_found 1) \<and> get_alert (quiet_io 0) 7 sample_applied = Inl (not_found 7)"
proof -
  have reach: "(system_step sample_env)\<^sup>*\<^sup>* empty_db sample_applied"
    by (rule alert_steps_system) (rule rtranclp.rtrancl_into_rtrancl [OF sample_ready_reachable sample_applied_step])
  have io: "quiet (quiet_io 0)" by (simp add: quiet_def quiet_io_def)
  have inv: "served_inv sample_env sample_applied" by (rule served_inv_steps [OF reach served_inv_empty])
  have ids: "map sa_id (db_alerts sample_applied) = [1]"
    by (simp add: sample_applied_eq sample_alert_row_def)
  then obtain a where "db_alerts sample_applied = [a]" "sa_id a = 1" by auto
  then have "find_alert_row sample_applied 7 = None" "1 \<in> sa_id ` set (db_alerts sample_applied)"
    by (simp_all add: find_alert_row_def)
  then show ?thesis
    using alert_details_are_complete [OF reach io, of 1] get_alert_quiet [OF io inv, of 7]
    by (cases "get_alert (quiet_io 0) 1 sample_applied") auto
qed

end
