(* ===== verification/NetworkRead.thy ===== *)
theory NetworkRead
  imports ReadRepo
begin

text \<open>
  \<open>internal/database/network_read_repository.go\<close>: the lines and stations of the installed network
  with the alerts that concern them. \<open>ILIKE\<close> is PostgreSQL's: a predicate on the pattern and the
  name is a parameter.
\<close>

section \<open>What is returned\<close>

record line_summary =
  ul_id :: string
  ul_short :: string
  ul_long :: string
  ul_type :: int
  ul_color :: "string option"
  ul_text_color :: "string option"
  ul_replacement :: bool
  ul_stations :: nat
  ul_present :: nat
  ul_current :: nat
  ul_upcoming :: nat

record station_query =
  sq_text :: string
  sq_line :: string

record station_summary =
  ut_id :: string
  ut_name :: string
  ut_latitude :: "(64 word) option"
  ut_longitude :: "(64 word) option"
  ut_wheelchair :: "int option"
  ut_lines :: "line_summary list"
  ut_present :: nat
  ut_current :: nat
  ut_upcoming :: nat

record line_detail =
  ld_line :: line_summary
  ld_stations :: "station_summary list"
  ld_alerts :: "current_alert list"

record station_detail =
  td_station :: station_summary
  td_alerts :: "current_alert list"

section \<open>Counts\<close>

text \<open>\<open>statusCountsSQL\<close> over the present alerts whose current revision concerns something.\<close>

definition distinct_alerts :: "(alert_row \<times> revision_row) list \<Rightarrow> nat" where
  "distinct_alerts rows = card (sa_id ` fst ` set rows)"

definition status_counts :: "instant \<Rightarrow> db \<Rightarrow> (revision_row \<Rightarrow> bool) \<Rightarrow> nat \<times> nat \<times> nat" where
  "status_counts now db concerns =
     (let rows = filter (\<lambda>ar. is_present ar \<and> concerns (snd ar)) (current_revisions db)
      in (distinct_alerts rows,
          distinct_alerts (filter (\<lambda>ar. is_active db now (snd ar)) rows),
          distinct_alerts (filter (\<lambda>ar. \<not> is_active db now (snd ar) \<and> is_future db now (snd ar)) rows)))"

definition concerns_line :: "db \<Rightarrow> string \<Rightarrow> revision_row \<Rightarrow> bool" where
  "concerns_line db line r \<longleftrightarrow> line \<in> set (revision_lines db (rv_id r))"

definition concerns_station :: "db \<Rightarrow> string \<Rightarrow> revision_row \<Rightarrow> bool" where
  "concerns_station db station r \<longleftrightarrow> station \<in> set (revision_stations db (rv_id r))"

section \<open>Lines\<close>

definition line_of :: "instant \<Rightarrow> db \<Rightarrow> (string \<Rightarrow> nat) \<Rightarrow> route \<Rightarrow> line_summary" where
  "line_of now db stations r =
     (case status_counts now db (concerns_line db (rt_id r)) of (present, current, upcoming) \<Rightarrow>
        \<lparr>ul_id = rt_id r, ul_short = rt_short_name r, ul_long = rt_long_name r, ul_type = rt_type r,
         ul_color = nullable_string (rt_color r), ul_text_color = nullable_string (rt_text_color r),
         ul_replacement = rt_replacement_bus r, ul_stations = stations (rt_id r),
         ul_present = present, ul_current = current, ul_upcoming = upcoming\<rparr>)"

definition all_routes :: "db \<Rightarrow> route list" where
  "all_routes db = map rd_route (db_routes db)"

definition distinct_stations :: "db \<Rightarrow> string \<Rightarrow> nat" where
  "distinct_stations db line = card (rs_station ` set (filter (\<lambda>x. rs_route x = line) (db_route_stations db)))"

definition query_lines :: "bool \<Rightarrow> instant \<Rightarrow> string \<Rightarrow> line_summary list tx" where
  "query_lines include_replacement_bus now line =
     query (Wrapf ''query lines: %w'' []) (\<lambda>db.
       map (line_of (pg_time now) db (distinct_stations db))
         (sort_key (\<lambda>r. (rt_short_name r, rt_long_name r, rt_id r))
           (filter (\<lambda>r. (include_replacement_bus \<or> \<not> rt_replacement_bus r) \<and> (line \<noteq> [] \<longrightarrow> rt_id r = line))
             (all_routes db))))"

definition list_lines :: "tx_io \<Rightarrow> bool \<Rightarrow> instant \<Rightarrow> db \<Rightarrow> line_summary list result" where
  "list_lines io include_replacement_bus now =
     read_tx io ''line list query'' (query_lines include_replacement_bus now [])"

section \<open>Stations\<close>

definition replace_char :: "char \<Rightarrow> string \<Rightarrow> string \<Rightarrow> string" where
  "replace_char c new value = concat (map (\<lambda>x. if x = c then new else [x]) value)"

definition escape_like :: "string \<Rightarrow> string" where
  "escape_like value =
     (let value = replace_char (CHR 0x5C) [CHR 0x5C, CHR 0x5C] value;
          value = replace_char (CHR ''%'') [CHR 0x5C, CHR ''%''] value
      in replace_char (CHR ''_'') [CHR 0x5C, CHR ''_''] value)"

definition serves_route :: "db \<Rightarrow> string \<Rightarrow> string \<Rightarrow> bool" where
  "serves_route db station line = list_ex (\<lambda>x. rs_station x = station \<and> rs_route x = line) (db_route_stations db)"

definition station_matches :: "(string \<Rightarrow> string \<Rightarrow> bool) \<Rightarrow> db \<Rightarrow> station_query \<Rightarrow> string \<Rightarrow> stop \<Rightarrow> bool" where
  "station_matches ilike db q station s \<longleftrightarrow>
     st_location_type s = 1 \<and>
     (sq_text q \<noteq> [] \<longrightarrow> ilike (''%'' @ escape_like (sq_text q) @ ''%'') (st_name s)) \<and>
     (sq_line q \<noteq> [] \<longrightarrow> serves_route db (st_id s) (sq_line q)) \<and>
     (station \<noteq> [] \<longrightarrow> st_id s = station)"

definition station_summary_of :: "instant \<Rightarrow> db \<Rightarrow> stop \<Rightarrow> station_summary" where
  "station_summary_of now db s =
     (case status_counts now db (concerns_station db (st_id s)) of (present, current, upcoming) \<Rightarrow>
        \<lparr>ut_id = st_id s, ut_name = st_name s, ut_latitude = st_latitude s, ut_longitude = st_longitude s,
         ut_wheelchair = st_wheelchair s, ut_lines = [], ut_present = present, ut_current = current,
         ut_upcoming = upcoming\<rparr>)"

text \<open>The lines of a station, each with the number of its relations.\<close>

definition relation_count :: "db \<Rightarrow> string \<Rightarrow> nat" where
  "relation_count db line = length (filter (\<lambda>x. rs_route x = line) (db_route_stations db))"

definition station_lines :: "instant \<Rightarrow> db \<Rightarrow> string \<Rightarrow> line_summary list" where
  "station_lines now db station =
     map (line_of now db (relation_count db))
       (sort_key (\<lambda>r. (rt_short_name r, rt_id r))
         (filter (\<lambda>r. serves_route db station (rt_id r)) (all_routes db)))"

definition query_stations :: "(string \<Rightarrow> string \<Rightarrow> bool) \<Rightarrow> station_query \<Rightarrow> instant \<Rightarrow> string \<Rightarrow> station_summary list tx" where
  "query_stations ilike q now station =
     bind_tx (query (Wrapf ''query stations: %w'' []) (\<lambda>db.
       map (station_summary_of (pg_time now) db)
         (sort_key (\<lambda>s. (st_name s, st_id s))
           (filter (station_matches ilike db q station) (map sd_stop (db_stops db)))))) (\<lambda>stations.
     if stations = [] then ret []
     else
     bind_tx (query (Wrapf ''query station lines: %w'' []) (station_lines (pg_time now))) (\<lambda>lines_of.
     ret (map (\<lambda>s. s\<lparr>ut_lines := lines_of (ut_id s)\<rparr>) stations)))"

definition list_stations :: "(string \<Rightarrow> string \<Rightarrow> bool) \<Rightarrow> tx_io \<Rightarrow> station_query \<Rightarrow> instant \<Rightarrow> db \<Rightarrow> station_summary list result" where
  "list_stations ilike io q now = read_tx io ''station list query'' (query_stations ilike q now [])"

section \<open>The alerts of a line and of a station\<close>

definition impact_rows :: "(db \<Rightarrow> string \<Rightarrow> revision_row \<Rightarrow> bool) \<Rightarrow> string \<Rightarrow> db \<Rightarrow> (alert_row \<times> revision_row) list" where
  "impact_rows concerns k db = sort_key (\<lambda>ar. listing_key (fst ar))
     (filter (\<lambda>ar. is_present ar \<and> concerns db k (snd ar)) (current_revisions db))"

definition query_impact_alerts :: "string \<Rightarrow> string \<Rightarrow> current_alert list tx" where
  "query_impact_alerts dimension k =
     (let concerns = if dimension = ''station'' then concerns_station else concerns_line
      in
     bind_tx (query (Wrapf ''query %s alerts: %w'' [AStr dimension]) (impact_rows concerns k)) (\<lambda>rows.
     bind_tx (lift_res (scan_alerts rows)) enrich_alerts))"

section \<open>Details\<close>

definition line_not_found :: "string \<Rightarrow> go_error" where
  "line_not_found line = Wrapf ''line %q: %w'' [AStr line] ErrNotFound"

definition station_not_found :: "string \<Rightarrow> go_error" where
  "station_not_found station = Wrapf ''station %q: %w'' [AStr station] ErrNotFound"

definition get_line :: "(string \<Rightarrow> string \<Rightarrow> bool) \<Rightarrow> tx_io \<Rightarrow> string \<Rightarrow> instant \<Rightarrow> db \<Rightarrow> line_detail result" where
  "get_line ilike io line now =
     read_tx io ''line detail query''
       (bind_tx (query_lines True now line) (\<lambda>found.
        if found = [] then fail_tx (line_not_found line)
        else
        bind_tx (query_stations ilike \<lparr>sq_text = [], sq_line = line\<rparr> now []) (\<lambda>stations.
        bind_tx (query_impact_alerts ''line'' line) (\<lambda>alerts.
        ret \<lparr>ld_line = hd found, ld_stations = stations, ld_alerts = alerts\<rparr>))))"

definition get_station :: "(string \<Rightarrow> string \<Rightarrow> bool) \<Rightarrow> tx_io \<Rightarrow> string \<Rightarrow> instant \<Rightarrow> db \<Rightarrow> station_detail result" where
  "get_station ilike io station now =
     read_tx io ''station detail query''
       (bind_tx (query_stations ilike \<lparr>sq_text = [], sq_line = []\<rparr> now station) (\<lambda>stations.
        if stations = [] then fail_tx (station_not_found station)
        else
        bind_tx (query_impact_alerts ''station'' station) (\<lambda>alerts.
        ret \<lparr>td_station = hd stations, td_alerts = alerts\<rparr>)))"

end
