(* ===== verification/NetworkPages.thy ===== *)
theory NetworkPages
  imports NetworkRead ReadDetail
begin

text \<open>
  The network as the reader shows it: the counts of a line and of a station are the totals of the
  lists of alerts with that filter, and their alerts are those of the list.
\<close>

section \<open>Escaping\<close>

text \<open>One pass: only the three metacharacters get a backslash, so no pattern of a search is one.\<close>

definition like_meta :: "char set" where
  "like_meta = {CHR 0x5C, CHR ''%'', CHR ''_''}"

lemma replace_char_simps [simp]:
  "replace_char c new [] = []" "replace_char c new (x # xs) = (if x = c then new else [x]) @ replace_char c new xs"
  "replace_char c new (xs @ ys) = replace_char c new xs @ replace_char c new ys"
  by (simp_all add: replace_char_def)

lemma escape_like_simps [simp]:
  "escape_like [] = []"
  "escape_like (c # cs) = (if c \<in> like_meta then [CHR 0x5C, c] else [c]) @ escape_like cs"
  by (simp_all add: escape_like_def like_meta_def Let_def)

fun unescape_like :: "string \<Rightarrow> string option" where
  "unescape_like [] = Some []"
| "unescape_like (c # cs) =
     (if c = CHR 0x5C then (case cs of [] \<Rightarrow> None | d # ds \<Rightarrow> map_option ((#) d) (unescape_like ds))
      else if c \<in> like_meta then None else map_option ((#) c) (unescape_like cs))"

lemma unescape_escape: "unescape_like (escape_like s) = Some s"
proof (induction s)
  case (Cons c cs)
  then show ?case by (cases "c = CHR 0x5C") (auto simp: like_meta_def)
qed simp

section \<open>Counts\<close>

lemma distinct_alerts_length: "distinct (map (sa_id \<circ> fst) rows) \<Longrightarrow> distinct_alerts rows = length rows"
  using distinct_card [of "map (sa_id \<circ> fst) rows"] by (simp add: distinct_alerts_def image_comp)

definition impact_query :: "instant \<Rightarrow> string \<Rightarrow> string \<Rightarrow> string \<Rightarrow> alert_query" where
  "impact_query now status line station = \<lparr>aq_status = status, aq_now = now, aq_line = line, aq_station = station,
     aq_cause = [], aq_effect = [], aq_from = None, aq_to = None, aq_page = 0, aq_size = 0\<rparr>"

lemma impact_filters:
  "line \<noteq> [] \<Longrightarrow> matches_filters db (impact_query now status line []) r \<longleftrightarrow> concerns_line db line r"
  "station \<noteq> [] \<Longrightarrow> matches_filters db (impact_query now status [] station) r \<longleftrightarrow> concerns_station db station r"
  by (simp_all add: matches_filters_def impact_query_def concerns_line_def concerns_station_def in_range_def Let_def)

lemma listed_status_counts:
  assumes inv: "alerts_inv db" and q: "aq_now q = now"
    and f: "\<And>status r. matches_filters db (q\<lparr>aq_status := status\<rparr>) r = concerns r"
  shows "status_counts (pg_time now) db concerns =
    (length (listed_rows (q\<lparr>aq_status := ''present''\<rparr>) db), length (listed_rows (q\<lparr>aq_status := ''current''\<rparr>) db),
     length (listed_rows (q\<lparr>aq_status := ''upcoming''\<rparr>) db))"
proof -
  have d: "distinct (map (sa_id \<circ> fst) (filter P (current_revisions db)))" for P
    using current_rows(1) [OF inv] by (simp add: distinct_map_filter)
  show ?thesis
    by (simp add: status_counts_def listed_rows_def Let_def filter_filter distinct_alerts_length [OF d] matches_status_def f q conj_ac)
qed

lemma listed_impact:
  assumes "aq_status q = ''present''" and "\<And>r. matches_filters db q r = concerns db k r"
  shows "listed_rows q db = impact_rows concerns k db"
  using assms by (simp add: listed_rows_def impact_rows_def matches_status_def Let_def)

section \<open>Reading the network\<close>

lemma query_impact_quiet:
  assumes inv: "served_inv env db" and s: "se_faults s = []" "se_db s = db"
    and c: "concerns = (if dimension = ''station'' then concerns_station else concerns_line)"
  shows "query_impact_alerts dimension k s = (Inr (map (presented db) (impact_rows concerns k db)), s)"
proof -
  have rows: "distinct (map (sa_id \<circ> fst) (impact_rows concerns k db))" "ar \<in> set (impact_rows concerns k db) \<Longrightarrow> row_ok db ar" for ar
    using current_rows [OF served_invD(1) [OF inv]] by (simp_all add: impact_rows_def distinct_map_filter)
  have "scan_alerts (impact_rows concerns k db) = Inr (map scanned (impact_rows concerns k db))"
    by (rule scan_alerts_ok [OF inv rows(2)])
  moreover have "attach (alert_periods db) (alert_routes db) (alert_stations db) (map scanned (impact_rows concerns k db)) =
      map (presented db) (impact_rows concerns k db)"
    by (rule enrich_scanned, rule rows_distinct [OF served_invD(1) [OF inv] rows(2,1)])
  ultimately show ?thesis
    using s by (simp add: query_impact_alerts_def Let_def c [symmetric] quiet_rules)
qed

lemma query_lines_quiet: "se_faults s = [] \<Longrightarrow> query_lines rb now line s =
    (Inr (map (line_of (pg_time now) (se_db s) (distinct_stations (se_db s)))
       (sort_key (\<lambda>r. (rt_short_name r, rt_long_name r, rt_id r))
         (filter (\<lambda>r. (rb \<or> \<not> rt_replacement_bus r) \<and> (line \<noteq> [] \<longrightarrow> rt_id r = line)) (all_routes (se_db s))))), s)"
  by (simp add: query_lines_def query_quiet)

definition shown_stations :: "(string \<Rightarrow> string \<Rightarrow> bool) \<Rightarrow> station_query \<Rightarrow> instant \<Rightarrow> string \<Rightarrow> db \<Rightarrow> station_summary list" where
  "shown_stations ilike q now station db =
     map (\<lambda>s. (station_summary_of (pg_time now) db s)\<lparr>ut_lines := station_lines (pg_time now) db (st_id s)\<rparr>)
       (sort_key (\<lambda>s. (st_name s, st_id s)) (filter (station_matches ilike db q station) (map sd_stop (db_stops db))))"

lemma station_of_id [simp]: "ut_id (station_summary_of now db s) = st_id s"
  by (simp add: station_summary_of_def split: prod.split)

lemma query_stations_quiet:
  "se_faults s = [] \<Longrightarrow> query_stations ilike q now station s = (Inr (shown_stations ilike q now station (se_db s)), s)"
  by (simp add: query_stations_def shown_stations_def quiet_rules)

lemma get_line_quiet:
  assumes io: "quiet io" and inv: "served_inv env db"
  shows "get_line ilike io line now db =
    (let found = map (line_of (pg_time now) db (distinct_stations db))
         (sort_key (\<lambda>r. (rt_short_name r, rt_long_name r, rt_id r)) (filter (\<lambda>r. line \<noteq> [] \<longrightarrow> rt_id r = line) (all_routes db)))
     in if found = [] then Inl (line_not_found line)
        else Inr \<lparr>ld_line = hd found, ld_stations = shown_stations ilike \<lparr>sq_text = [], sq_line = line\<rparr> now [] db,
          ld_alerts = map (presented db) (impact_rows concerns_line line db)\<rparr>)"
  using io unfolding get_line_def quiet_def
  by (intro read_tx_quiet)
    (simp_all add: bind_tx_quiet [OF query_lines_quiet] bind_tx_quiet [OF query_stations_quiet]
      bind_tx_quiet [OF query_impact_quiet [OF inv _ _ refl]] fail_tx_def ret_def Let_def)

lemma get_station_quiet:
  assumes io: "quiet io" and inv: "served_inv env db"
  shows "get_station ilike io station now db =
    (let found = shown_stations ilike \<lparr>sq_text = [], sq_line = []\<rparr> now station db
     in if found = [] then Inl (station_not_found station)
        else Inr \<lparr>td_station = hd found, td_alerts = map (presented db) (impact_rows concerns_station station db)\<rparr>)"
  using io unfolding get_station_def quiet_def
  by (intro read_tx_quiet)
    (simp_all add: bind_tx_quiet [OF query_stations_quiet]
      bind_tx_quiet [OF query_impact_quiet [OF inv _ _ refl]] fail_tx_def ret_def Let_def)

end
