(* ===== verification/PageProperties.thy ===== *)
theory PageProperties
  imports NetworkPages ReadProperties NetworkProperties
begin

text \<open>
  The pages of the network agree with the lists of alerts, each with a concrete application.
\<close>

section \<open>Lines and stations\<close>

text \<open>The totals of the three lists of present alerts.\<close>

definition list_totals :: "tx_io \<Rightarrow> alert_query \<Rightarrow> db \<Rightarrow> nat result list" where
  "list_totals io q db =
     map (\<lambda>status. map_sum id ug_total (list_alerts io (q\<lparr>aq_status := status\<rparr>) db)) [''present'', ''current'', ''upcoming'']"

lemma list_totals_quiet:
  assumes "quiet io" and inv: "served_inv env db" and q: "aq_now q = now"
    and f: "\<And>status r. matches_filters db (q\<lparr>aq_status := status\<rparr>) r = concerns r"
    and c: "status_counts (pg_time now) db concerns = (p, u, n)"
  shows "list_totals io q db = [Inr p, Inr u, Inr n]"
  using listed_status_counts [OF served_invD(1) [OF inv] q f] c
  by (simp add: list_totals_def list_alerts_quiet [OF assms(1,2)])

lemma impact_list:
  assumes "quiet io" and inv: "served_inv env db" and q: "aq_status q = ''present''"
    and f: "\<And>r. matches_filters db q r = concerns db k r"
  shows "map_sum id ug_alerts (list_alerts io q db) = Inr (map (presented db) (impact_rows concerns k db))"
  using list_alerts_quiet [OF assms(1,2), of q] listed_impact [of q db concerns k, OF q f] q by simp

lemma line_of_fields:
  "ul_id (line_of now db n r) = rt_id r"
  "status_counts now db (concerns_line db (rt_id r)) = (ul_present (line_of now db n r), ul_current (line_of now db n r), ul_upcoming (line_of now db n r))"
  by (simp_all add: line_of_def split: prod.split)

lemma station_of_fields:
  "status_counts now db (concerns_station db (st_id s)) = (ut_present (station_summary_of now db s), ut_current (station_summary_of now db s), ut_upcoming (station_summary_of now db s))"
  by (simp add: station_summary_of_def split: prod.split)

lemma sort_key_empty: "sort_key k xs = [] \<longleftrightarrow> xs = []"
  by (metis length_0_conv length_sort)

lemma hd_map_mem: "xs \<noteq> [] \<Longrightarrow> \<exists>x \<in> set xs. hd (map f xs) = f x"
  by (cases xs) auto

text \<open>C34: the page of a line agrees with the lists of alerts. In a reachable database it can be read
  exactly when the line is in the network, otherwise the line was not found; its counts of present,
  current and upcoming alerts are the totals of the three lists filtered by the line, its alerts
  are the list of the present ones, and its stations are those of the network with a relation to it,
  each once.\<close>

theorem line_page_agrees_with_lists:
  assumes "(system_step env)\<^sup>*\<^sup>* empty_db db" and "quiet io" and "line \<noteq> []"
  shows "case get_line ilike io line now db of
      Inl e \<Rightarrow> e = line_not_found line \<and> line \<notin> rt_id ` set (all_routes db)
    | Inr d \<Rightarrow> ul_id (ld_line d) = line \<and> line \<in> rt_id ` set (all_routes db) \<and>
        list_totals io (impact_query now ''present'' line []) db =
          map Inr [ul_present (ld_line d), ul_current (ld_line d), ul_upcoming (ld_line d)] \<and>
        map_sum id ug_alerts (list_alerts io (impact_query now ''present'' line []) db) = Inr (ld_alerts d) \<and>
        distinct (map ut_id (ld_stations d)) \<and>
        set (map ut_id (ld_stations d)) = {s. \<exists>x \<in> set (db_stops db). st_id (sd_stop x) = s \<and>
          st_location_type (sd_stop x) = 1 \<and> serves_route db s line}"
proof -
  have inv: "served_inv env db" by (rule served_inv_steps [OF assms(1) served_inv_empty])
  let ?rows = "sort_key (\<lambda>r. (rt_short_name r, rt_long_name r, rt_id r)) (filter (\<lambda>r. line \<noteq> [] \<longrightarrow> rt_id r = line) (all_routes db))"
  let ?found = "map (line_of (pg_time now) db (distinct_stations db)) ?rows"
  note G = get_line_quiet [OF assms(2) inv, of ilike line now, unfolded Let_def]
  show ?thesis
  proof (cases "?rows = []")
    case True
    then have "line \<notin> rt_id ` set (all_routes db)"
      using assms(3) by (auto simp: sort_key_empty filter_empty_conv)
    with True show ?thesis by (simp add: G)
  next
    case False
    then obtain r where r: "r \<in> set ?rows" "hd ?found = line_of (pg_time now) db (distinct_stations db) r"
      using hd_map_mem by blast
    then have id: "rt_id r = line" "line \<in> rt_id ` set (all_routes db)" using assms(3) by auto
    let ?l = "line_of (pg_time now) db (distinct_stations db) r"
    let ?st = "shown_stations ilike \<lparr>sq_text = [], sq_line = line\<rparr> now [] db"
    have d: "get_line ilike io line now db = Inr \<lparr>ld_line = ?l, ld_stations = ?st,
        ld_alerts = map (presented db) (impact_rows concerns_line line db)\<rparr>"
      using G False r(2) by simp
    have counts: "list_totals io (impact_query now ''present'' line []) db = [Inr (ul_present ?l), Inr (ul_current ?l), Inr (ul_upcoming ?l)]"
      by (rule list_totals_quiet [OF assms(2) inv _ _ line_of_fields(2)])
        (use impact_filters(1) [OF assms(3)] id(1) in \<open>simp_all add: impact_query_def\<close>)
    have alerts: "map_sum id ug_alerts (list_alerts io (impact_query now ''present'' line []) db) =
        Inr (map (presented db) (impact_rows concerns_line line db))"
      by (rule impact_list [where concerns = concerns_line and k = line, OF assms(2) inv])
        (simp add: impact_query_def, rule impact_filters(1) [OF assms(3)])
    have "distinct (map st_id (map sd_stop (db_stops db)))"
      using inv by (simp add: served_inv_def system_inv_def gtfs_inv_def network_inv_def comp_def)
    then have dist: "distinct (map ut_id ?st)"
      by (simp add: shown_stations_def comp_def distinct_map_filter)
    have set_st: "set (map ut_id ?st) = {s. \<exists>x \<in> set (db_stops db). st_id (sd_stop x) = s \<and>
          st_location_type (sd_stop x) = 1 \<and> serves_route db s line}"
      using assms(3) by (auto simp: shown_stations_def station_matches_def)
    from id counts alerts dist set_st line_of_fields(1) show ?thesis by (simp add: d)
  qed
qed

theorem line_page_agrees_with_lists_witness:
  "\<exists>d. get_line (\<lambda>_ _. True) (quiet_io 0) ''r1'' 20000 network_installed = Inr d \<and> ul_id (ld_line d) = ''r1'' \<and>
     set (map ut_id (ld_stations d)) \<noteq> {}"
proof -
  have reach: "(system_step sample_env)\<^sup>*\<^sup>* empty_db network_installed"
    by (rule gtfs_steps_system) (rule rtranclp.rtrancl_into_rtrancl [OF network_ready_reachable network_installed_step])
  have io: "quiet (quiet_io 0)" by (simp add: quiet_def quiet_io_def)
  have routes: "''r1'' \<in> rt_id ` set (all_routes network_installed)"
    by (simp add: all_routes_def network_installed_eq sample_dataset_def route_of_def route_columns_def)
  have st: "\<exists>x \<in> set (db_stops network_installed). st_id (sd_stop x) = ''s1'' \<and> st_location_type (sd_stop x) = 1"
    by (simp add: network_installed_eq sample_dataset_def sample_stops_def sample_stop_def stop_of_def)
  have rel: "serves_route network_installed ''s1'' ''r1''"
    by (simp add: serves_route_def network_installed_eq sample_dataset_def)
  show ?thesis
    using line_page_agrees_with_lists [OF reach io, where line = "''r1''" and ilike = "\<lambda>_ _. True" and now = 20000] routes st rel
    by (cases "get_line (\<lambda>_ _. True) (quiet_io 0) ''r1'' 20000 network_installed") auto
qed

text \<open>The page of a station agrees with the lists of alerts, as that of a line does; it is found
  exactly when the network has a station with the id, and its lines are the routes related to it.\<close>

theorem station_page_agrees_with_lists:
  assumes "(system_step env)\<^sup>*\<^sup>* empty_db db" and "quiet io" and "station \<noteq> []"
  shows "case get_station ilike io station now db of
      Inl e \<Rightarrow> e = station_not_found station \<and>
        (\<forall>x \<in> set (db_stops db). st_id (sd_stop x) = station \<longrightarrow> st_location_type (sd_stop x) \<noteq> 1)
    | Inr d \<Rightarrow> ut_id (td_station d) = station \<and>
        (\<exists>x \<in> set (db_stops db). st_id (sd_stop x) = station \<and> st_location_type (sd_stop x) = 1) \<and>
        list_totals io (impact_query now ''present'' [] station) db =
          map Inr [ut_present (td_station d), ut_current (td_station d), ut_upcoming (td_station d)] \<and>
        map_sum id ug_alerts (list_alerts io (impact_query now ''present'' [] station) db) = Inr (td_alerts d) \<and>
        set (map ul_id (ut_lines (td_station d))) = {l \<in> rt_id ` set (all_routes db). serves_route db station l}"
proof -
  have inv: "served_inv env db" by (rule served_inv_steps [OF assms(1) served_inv_empty])
  let ?rows = "sort_key (\<lambda>s. (st_name s, st_id s))
    (filter (station_matches ilike db \<lparr>sq_text = [], sq_line = []\<rparr> station) (map sd_stop (db_stops db)))"
  let ?f = "\<lambda>s. (station_summary_of (pg_time now) db s)\<lparr>ut_lines := station_lines (pg_time now) db (st_id s)\<rparr>"
  note G = get_station_quiet [OF assms(2) inv, of ilike station now, unfolded Let_def shown_stations_def]
  have m: "station_matches ilike db \<lparr>sq_text = [], sq_line = []\<rparr> station s \<longleftrightarrow> st_location_type s = 1 \<and> st_id s = station" for s
    using assms(3) by (simp add: station_matches_def)
  show ?thesis
  proof (cases "?rows = []")
    case True
    then show ?thesis by (auto simp: G sort_key_empty filter_empty_conv m)
  next
    case False
    then obtain s where s: "s \<in> set ?rows" "hd (map ?f ?rows) = ?f s" using hd_map_mem by blast
    then have id: "st_id s = station" "st_location_type s = 1" "s \<in> sd_stop ` set (db_stops db)" by (auto simp: m)
    have d: "get_station ilike io station now db =
        Inr \<lparr>td_station = ?f s, td_alerts = map (presented db) (impact_rows concerns_station station db)\<rparr>"
      using G False s(2) by simp
    have counts: "list_totals io (impact_query now ''present'' [] station) db =
        [Inr (ut_present (station_summary_of (pg_time now) db s)), Inr (ut_current (station_summary_of (pg_time now) db s)),
         Inr (ut_upcoming (station_summary_of (pg_time now) db s))]"
      by (rule list_totals_quiet [OF assms(2) inv _ _ station_of_fields])
        (use impact_filters(2) [OF assms(3)] id(1) in \<open>simp_all add: impact_query_def\<close>)
    have alerts: "map_sum id ug_alerts (list_alerts io (impact_query now ''present'' [] station) db) =
        Inr (map (presented db) (impact_rows concerns_station station db))"
      by (rule impact_list [where concerns = concerns_station and k = station, OF assms(2) inv])
        (simp add: impact_query_def, rule impact_filters(2) [OF assms(3)])
    have lines: "set (map ul_id (station_lines (pg_time now) db station)) = {l \<in> rt_id ` set (all_routes db). serves_route db station l}"
      by (auto simp: station_lines_def line_of_fields(1) comp_def)
    from id counts alerts lines show ?thesis by (auto simp: d)
  qed
qed

theorem station_page_agrees_with_lists_witness:
  "\<exists>d. get_station (\<lambda>_ _. True) (quiet_io 0) ''s1'' 20000 network_installed = Inr d \<and> ut_id (td_station d) = ''s1'' \<and>
     set (map ul_id (ut_lines (td_station d))) = {''r1''}"
proof -
  have reach: "(system_step sample_env)\<^sup>*\<^sup>* empty_db network_installed"
    by (rule gtfs_steps_system) (rule rtranclp.rtrancl_into_rtrancl [OF network_ready_reachable network_installed_step])
  have io: "quiet (quiet_io 0)" by (simp add: quiet_def quiet_io_def)
  have routes: "{l \<in> rt_id ` set (all_routes network_installed). serves_route network_installed ''s1'' l} = {''r1''}"
    by (auto simp: all_routes_def network_installed_eq sample_dataset_def route_of_def route_columns_def serves_route_def)
  have st: "\<exists>x \<in> set (db_stops network_installed). st_id (sd_stop x) = ''s1'' \<and> st_location_type (sd_stop x) = 1"
    by (simp add: network_installed_eq sample_dataset_def sample_stops_def sample_stop_def stop_of_def)
  show ?thesis
    using station_page_agrees_with_lists [OF reach io, where station = "''s1''" and ilike = "\<lambda>_ _. True" and now = 20000] routes st
    by (cases "get_station (\<lambda>_ _. True) (quiet_io 0) ''s1'' 20000 network_installed") auto
qed

end
