(* ===== verification/Analytics.thy ===== *)
theory Analytics
  imports NetworkRead
begin

text \<open>
  \<open>internal/database/analytics_read_repository.go\<close>: how many alerts concerned a line, by day or week and
  by cause and effect. An alert counts once per episode, the views of migration 00005 that split the
  revisions of an alert where it was gone. \<open>percentile_cont\<close> is PostgreSQL's: a parameter from the
  sorted lifetimes to a double.
\<close>

section \<open>Days and weeks\<close>

text \<open>Instants are nanoseconds since 1 January 1970, a Thursday, in UTC.\<close>

definition day_length :: duration where
  "day_length = 86400000000000"

definition day_of :: "instant \<Rightarrow> int" where
  "day_of t = t div day_length"

definition go_weekday :: "instant \<Rightarrow> int" where
  "go_weekday t = (day_of t + 4) mod 7"

definition go_rem :: "int \<Rightarrow> int \<Rightarrow> int" where
  "go_rem a b = (if a < 0 then - ((- a) mod b) else a mod b)"

definition add_days :: "instant \<Rightarrow> int \<Rightarrow> instant" where
  "add_days t n = t + n * day_length"

text \<open>\<open>date_trunc\<close> of a day and of a week, which starts on Monday.\<close>

definition date_trunc :: "string \<Rightarrow> instant \<Rightarrow> instant" where
  "date_trunc interval t =
     (if interval = ''week'' then ((day_of t + 3) div 7 * 7 - 3) * day_length else day_of t * day_length)"

section \<open>What is returned\<close>

record analytics_query =
  aa_now :: instant
  aa_from :: instant
  aa_to :: instant
  aa_interval :: string
  aa_replacement :: bool

record analytics_point =
  ap_starts :: instant
  ap_count :: nat
  ap_completed :: nat
  ap_median :: "(64 word) option"

record analytics_breakdown =
  ab_value :: string
  ab_count :: nat

record line_analytics =
  an_line :: line_summary
  an_series :: "analytics_point list"
  an_causes :: "analytics_breakdown list"
  an_effects :: "analytics_breakdown list"
  an_limitations :: "string list"

definition analytics_metric_limitations :: "string list" where
  "analytics_metric_limitations =
    [''An alert is counted once each time it appears. If it disappears and later returns, it is counted again. Counts do not measure incidents or affected passengers.'',
     ''For alerts that ended, duration runs from the first to the last time the alert appeared. It does not include the time needed to confirm that the alert had ended.'',
     ''Older alerts use the current line list, which may differ from the lines in service when the alert appeared.'']"

section \<open>Buckets\<close>

text \<open>\<open>analyticsBuckets\<close>: the loop ends because every step is a day or a week.\<close>

definition bucket_days :: "string \<Rightarrow> int" where
  "bucket_days interval = (if interval = ''week'' then 7 else 1)"

function bucket_starts :: "string \<Rightarrow> instant \<Rightarrow> instant \<Rightarrow> instant list" where
  "bucket_starts interval start to =
     (if start < to then start # bucket_starts interval (add_days start (bucket_days interval)) to else [])"
  by pat_completeness auto

termination
  by (relation "measure (\<lambda>(_, start, to). nat (to - start))")
    (auto simp: add_days_def bucket_days_def day_length_def)

declare bucket_starts.simps [simp del]

definition first_bucket :: "analytics_query \<Rightarrow> instant" where
  "first_bucket q =
     (let start = day_of (aa_from q) * day_length
      in if aa_interval q = ''week'' then add_days start (go_rem (- (go_weekday start + 6)) 7) else start)"

definition empty_point :: "instant \<Rightarrow> analytics_point" where
  "empty_point t = \<lparr>ap_starts = t, ap_count = 0, ap_completed = 0, ap_median = None\<rparr>"

definition analytics_buckets :: "analytics_query \<Rightarrow> analytics_point list" where
  "analytics_buckets q = map empty_point (bucket_starts (aa_interval q) (first_bucket q) (aa_to q))"

section \<open>Episodes\<close>

text \<open>\<open>alert_revision_episode_membership\<close>: a revision starts an episode when it does not follow on.\<close>

definition starts_episode :: "revision_row option \<Rightarrow> revision_row \<Rightarrow> bool" where
  "starts_episode previous r =
     (case previous of
        None \<Rightarrow> True
      | Some p \<Rightarrow> ac_deleted (rv_columns p) \<and> \<not> ac_deleted (rv_columns r) \<or> rv_closed p \<noteq> Some (rv_first_seen r))"

fun number_episodes :: "nat \<Rightarrow> revision_row option \<Rightarrow> revision_row list \<Rightarrow> (revision_row \<times> nat) list" where
  "number_episodes n previous [] = []"
| "number_episodes n previous (r # rs) =
     (let n' = if starts_episode previous r then n + 1 else n in (r, n') # number_episodes n' (Some r) rs)"

definition membership :: "db \<Rightarrow> row_id \<Rightarrow> (revision_row \<times> nat) list" where
  "membership db k = number_episodes 0 None
     (sort_key revision_key (filter (\<lambda>r. rv_alert r = k) (db_revisions db)))"

definition episodes_of :: "db \<Rightarrow> row_id \<Rightarrow> revision_row list list" where
  "episodes_of db k =
     map (\<lambda>n. map fst (filter (\<lambda>rn. snd rn = n) (membership db k))) (remdups (map snd (membership db k)))"

text \<open>\<open>alert_episodes\<close>: when an episode was first and last seen, and closed.\<close>

record episode =
  ep_first :: instant
  ep_last :: instant
  ep_closed :: "instant option"

definition final_revision :: "revision_row list \<Rightarrow> revision_row option" where
  "final_revision ms = max_row (\<lambda>r. (rv_first_seen r, rv_id r)) ms"

definition episode_of :: "revision_row list \<Rightarrow> episode" where
  "episode_of ms =
     (let deletions = map rv_first_seen (filter (\<lambda>r. ac_deleted (rv_columns r)) ms)
      in \<lparr>ep_first = Min (set (map rv_first_seen ms)),
          ep_last = (if deletions \<noteq> [] then Min (set deletions) else Max (set (map rv_last_seen ms))),
          ep_closed = (if deletions \<noteq> [] then Some (Min (set deletions)) else Option.bind (final_revision ms) rv_closed)\<rparr>)"

text \<open>The first revision of an episode that concerns the line says when, why and what.\<close>

definition category :: "db \<Rightarrow> string \<Rightarrow> revision_row list \<Rightarrow> revision_row option" where
  "category db line ms = find (\<lambda>r. concerns_line db line r \<and> \<not> ac_deleted (rv_columns r)) ms"

definition categorized :: "db \<Rightarrow> string \<Rightarrow> (revision_row \<times> episode) list" where
  "categorized db line =
     concat (map (\<lambda>k. List.map_filter (\<lambda>ms. map_option (\<lambda>r. (r, episode_of ms)) (category db line ms)) (episodes_of db k))
       (remdups (map rv_alert (db_revisions db))))"

definition categorized_between :: "analytics_query \<Rightarrow> db \<Rightarrow> string \<Rightarrow> (revision_row \<times> episode) list" where
  "categorized_between q db line =
     filter (\<lambda>(r, _). pg_time (aa_from q) \<le> rv_first_seen r \<and> rv_first_seen r < pg_time (aa_to q)) (categorized db line)"

section \<open>Series\<close>

definition starts_at :: "string \<Rightarrow> revision_row \<times> episode \<Rightarrow> instant" where
  "starts_at interval = (\<lambda>(r, _). date_trunc interval (rv_first_seen r))"

text \<open>The aggregates of one bucket.\<close>

definition point_of :: "(duration list \<Rightarrow> 64 word) \<Rightarrow> instant \<Rightarrow> (revision_row \<times> episode) list \<Rightarrow> analytics_point" where
  "point_of median t rows =
     (let completed = filter (\<lambda>(_, e). ep_closed e \<noteq> None) rows
      in \<lparr>ap_starts = t, ap_count = length rows, ap_completed = length completed,
          ap_median = (if completed = [] then None
            else Some (median (sort (map (\<lambda>(_, e). ep_last e - ep_first e) completed))))\<rparr>)"

definition bucket_point :: "(duration list \<Rightarrow> 64 word) \<Rightarrow> analytics_query \<Rightarrow> db \<Rightarrow> string \<Rightarrow> instant \<Rightarrow> analytics_point" where
  "bucket_point median q db line t =
     point_of median t (filter (\<lambda>x. starts_at (aa_interval q) x = t) (categorized_between q db line))"

text \<open>The list: one row per line and bucket that occurs, put over the first empty point of its time.\<close>

definition series_rows :: "(duration list \<Rightarrow> 64 word) \<Rightarrow> analytics_query \<Rightarrow> db \<Rightarrow> string \<Rightarrow> analytics_point list" where
  "series_rows median q db line =
     map (bucket_point median q db line)
       (sort (remdups (map (starts_at (aa_interval q)) (categorized_between q db line))))"

fun place_point :: "analytics_point \<Rightarrow> analytics_point list \<Rightarrow> analytics_point list" where
  "place_point p [] = []"
| "place_point p (x # xs) = (if ap_starts x = ap_starts p then p # xs else x # place_point p xs)"

definition query_line_analytics_series ::
    "(duration list \<Rightarrow> 64 word) \<Rightarrow> analytics_query \<Rightarrow> line_analytics list \<Rightarrow> line_analytics list tx" where
  "query_line_analytics_series median q results =
     bind_tx (query (Wrapf ''query line analytics series: %w'' []) (series_rows median q)) (\<lambda>rows.
     ret (map (\<lambda>x. x\<lparr>an_series := fold place_point (rows (ul_id (an_line x))) (an_series x)\<rparr>) results))"

section \<open>Breakdowns\<close>

definition coalesce :: "string option \<Rightarrow> string" where
  "coalesce v = (case v of None \<Rightarrow> ''UNSPECIFIED'' | Some x \<Rightarrow> x)"

definition category_value :: "string \<Rightarrow> revision_row \<Rightarrow> string option" where
  "category_value kind r = (if kind = ''cause'' then ac_cause (rv_columns r) else ac_effect (rv_columns r))"

definition values_between :: "string \<Rightarrow> analytics_query \<Rightarrow> db \<Rightarrow> string \<Rightarrow> string option list" where
  "values_between kind q db line = map (\<lambda>(r, _). category_value kind r) (categorized_between q db line)"

text \<open>\<open>GROUP BY .. ORDER BY count(*) DESC, COALESCE(value, 'UNSPECIFIED')\<close>\<close>

definition breakdown_of :: "('v \<Rightarrow> string) \<Rightarrow> 'v list \<Rightarrow> analytics_breakdown list" where
  "breakdown_of label vs =
     sort_key (\<lambda>b. (- int (ab_count b), ab_value b))
       (map (\<lambda>v. \<lparr>ab_value = label v, ab_count = length (filter (\<lambda>w. w = v) vs)\<rparr>) (remdups vs))"

text \<open>The list groups by the column, the detail by the label.\<close>

definition breakdown_rows :: "string \<Rightarrow> analytics_query \<Rightarrow> db \<Rightarrow> string \<Rightarrow> analytics_breakdown list" where
  "breakdown_rows kind q db line = breakdown_of coalesce (values_between kind q db line)"

definition line_breakdown_rows :: "string \<Rightarrow> analytics_query \<Rightarrow> db \<Rightarrow> string \<Rightarrow> analytics_breakdown list" where
  "line_breakdown_rows kind q db line = breakdown_of (\<lambda>v. v) (map coalesce (values_between kind q db line))"

definition query_line_analytics_breakdown ::
    "analytics_query \<Rightarrow> string \<Rightarrow> line_analytics list \<Rightarrow> line_analytics list tx" where
  "query_line_analytics_breakdown q kind results =
     bind_tx (query (Wrapf ''query line analytics %s breakdown: %w'' [AStr kind]) (breakdown_rows kind q)) (\<lambda>rows.
     ret (map (\<lambda>x. let new = rows (ul_id (an_line x))
        in if kind = ''cause'' then x\<lparr>an_causes := an_causes x @ new\<rparr> else x\<lparr>an_effects := an_effects x @ new\<rparr>) results))"

section \<open>The list\<close>

definition list_line_analytics ::
    "(duration list \<Rightarrow> 64 word) \<Rightarrow> tx_io \<Rightarrow> analytics_query \<Rightarrow> db \<Rightarrow> line_analytics list result" where
  "list_line_analytics median io q =
     read_tx io ''line analytics list query''
       (bind_tx (query_lines (aa_replacement q) (aa_now q) []) (\<lambda>lines.
        let results = map (\<lambda>l. \<lparr>an_line = l, an_series = analytics_buckets q, an_causes = [], an_effects = [],
              an_limitations = []\<rparr>) lines
        in if lines = [] then ret results
           else
           bind_tx (query_line_analytics_series median q results) (\<lambda>results.
           bind_tx (query_line_analytics_breakdown q ''cause'' results) (\<lambda>results.
           query_line_analytics_breakdown q ''effect'' results))))"

section \<open>One line\<close>

text \<open>\<open>generate_series\<close> from one bucket to another, both included.\<close>

function generate_series :: "string \<Rightarrow> instant \<Rightarrow> instant \<Rightarrow> instant list" where
  "generate_series interval start stop =
     (if start \<le> stop then start # generate_series interval (add_days start (bucket_days interval)) stop else [])"
  by pat_completeness auto

termination
  by (relation "measure (\<lambda>(_, start, stop). nat (stop + 1 - start))")
    (auto simp: add_days_def bucket_days_def day_length_def)

declare generate_series.simps [simp del]

definition line_series :: "(duration list \<Rightarrow> 64 word) \<Rightarrow> analytics_query \<Rightarrow> db \<Rightarrow> string \<Rightarrow> analytics_point list" where
  "line_series median q db line =
     map (bucket_point median q db line)
       (generate_series (aa_interval q) (date_trunc (aa_interval q) (pg_time (aa_from q)))
         (date_trunc (aa_interval q) (pg_time (aa_to q) - 1000)))"

text \<open>The two breakdowns are queried in the order Go iterates over the map of them.\<close>

definition line_breakdown :: "analytics_query \<Rightarrow> string \<Rightarrow> line_analytics \<Rightarrow> string \<Rightarrow> line_analytics tx" where
  "line_breakdown q line x kind =
     bind_tx (query (Wrapf ''query analytics %s breakdown for line %q: %w'' [AStr kind, AStr line])
       (\<lambda>db. line_breakdown_rows kind q db line)) (\<lambda>new.
     ret (if kind = ''cause'' then x\<lparr>an_causes := an_causes x @ new\<rparr> else x\<lparr>an_effects := an_effects x @ new\<rparr>))"

definition query_line_analytics ::
    "bool \<Rightarrow> (duration list \<Rightarrow> 64 word) \<Rightarrow> string \<Rightarrow> analytics_query \<Rightarrow> bool \<Rightarrow> line_analytics tx" where
  "query_line_analytics cause_first median line q detailed =
     bind_tx (query_lines True (aa_now q) line) (\<lambda>lines.
     if lines = [] then fail_tx (line_not_found line)
     else
     bind_tx (query (Wrapf ''query analytics series for line %q: %w'' [AStr line]) (\<lambda>db. line_series median q db line)) (\<lambda>series.
     let x = \<lparr>an_line = hd lines, an_series = series, an_causes = [], an_effects = [],
           an_limitations = (if detailed then analytics_metric_limitations else [])\<rparr>;
         kinds = if cause_first then (''cause'', ''effect'') else (''effect'', ''cause'')
     in bind_tx (line_breakdown q line x (fst kinds)) (\<lambda>x. line_breakdown q line x (snd kinds))))"

definition get_line_analytics ::
    "bool \<Rightarrow> (duration list \<Rightarrow> 64 word) \<Rightarrow> tx_io \<Rightarrow> string \<Rightarrow> analytics_query \<Rightarrow> db \<Rightarrow> line_analytics result" where
  "get_line_analytics cause_first median io line q =
     read_tx io ''line analytics detail query'' (query_line_analytics cause_first median line q True)"

end
