(* ===== verification/AnalyticsRules.thy ===== *)
theory AnalyticsRules
  imports Analytics NetworkPages
begin

text \<open>
  The list of lines and the page of a line compute the same analytics in two ways: buckets counted
  in Go and in SQL, rows put over empty points and a left join, groups by column and by label.
  They differ in two places, which the rules name: a bucket that starts less than a microsecond
  before the end, and a category that is literally the label of the missing one.
\<close>

section \<open>Buckets\<close>

definition bucket_length :: "string \<Rightarrow> int" where
  "bucket_length interval = bucket_days interval * day_length"

definition bucket_offset :: "string \<Rightarrow> int" where
  "bucket_offset interval = (if interval = ''week'' then - 3 * day_length else 0)"

lemma bucket_length_pos: "0 < bucket_length interval"
  by (simp add: bucket_length_def bucket_days_def day_length_def)

lemma date_trunc_eq:
  "date_trunc interval t = (t - bucket_offset interval) div bucket_length interval * bucket_length interval + bucket_offset interval"
proof (cases "interval = ''week''")
  case True
  have "(t + 3 * day_length) div (day_length * 7) = (t div day_length + 3) div 7"
    by (subst zdiv_zmult2_eq) (simp_all add: day_length_def)
  with True show ?thesis
    by (simp add: date_trunc_def bucket_length_def bucket_offset_def bucket_days_def day_of_def algebra_simps)
qed (simp add: date_trunc_def bucket_length_def bucket_offset_def bucket_days_def day_of_def)

text \<open>The first bucket of the two.\<close>

lemma go_week_start: "go_rem (- (go_weekday (d * day_length) + 6)) 7 = - ((d + 3) mod 7)"
proof -
  define w where "w = (d + 4) mod 7"
  have "go_weekday (d * day_length) = w" by (simp add: w_def go_weekday_def day_of_def day_length_def)
  moreover have "(w + 6) mod 7 = (d + 3) mod 7" unfolding w_def by presburger
  moreover have "0 \<le> w" by (simp add: w_def)
  ultimately show ?thesis by (simp add: go_rem_def add.commute)
qed

lemma first_bucket_eq: "first_bucket q = date_trunc (aa_interval q) (aa_from q)"
proof (cases "aa_interval q = ''week''")
  case True
  let ?d = "day_of (aa_from q)"
  have "first_bucket q = (?d - (?d + 3) mod 7) * day_length"
    using True go_week_start [of ?d] by (simp add: first_bucket_def Let_def add_days_def left_diff_distrib)
  also have "?d - (?d + 3) mod 7 = (?d + 3) div 7 * 7 - 3" by presburger
  finally show ?thesis using True by (simp add: date_trunc_def)
qed (simp add: first_bucket_def date_trunc_def Let_def)

lemma date_trunc_pg: "date_trunc interval (pg_time t) = date_trunc interval t"
proof -
  have "pg_time t div (1000 * 86400000000) = t div (1000 * 86400000000)"
    by (subst (1 2) zdiv_zmult2_eq) (simp_all add: pg_time_def)
  then show ?thesis by (simp add: date_trunc_def day_of_def day_length_def)
qed

text \<open>An instant where a bucket starts.\<close>

definition aligned :: "string \<Rightarrow> instant \<Rightarrow> bool" where
  "aligned interval t \<longleftrightarrow> (\<exists>k. t = k * bucket_length interval + bucket_offset interval)"

lemma aligned_trunc: "aligned interval (date_trunc interval t)"
  by (auto simp: aligned_def date_trunc_eq)

lemma aligned_step: "aligned interval t \<Longrightarrow> aligned interval (add_days t (bucket_days interval))"
proof -
  assume "aligned interval t"
  then obtain k where "t = k * bucket_length interval + bucket_offset interval" by (auto simp: aligned_def)
  then have "add_days t (bucket_days interval) = (k + 1) * bucket_length interval + bucket_offset interval"
    by (simp add: add_days_def bucket_length_def distrib_right)
  then show ?thesis unfolding aligned_def by blast
qed

lemma aligned_micro: "aligned interval t \<Longrightarrow> t mod 1000 = 0"
proof -
  have "bucket_length interval mod 1000 = 0" "bucket_offset interval mod 1000 = 0"
    by (auto simp: bucket_length_def bucket_days_def bucket_offset_def day_length_def)
  moreover assume "aligned interval t"
  ultimately show ?thesis by (auto simp: aligned_def mod_eq_0_iff_dvd)
qed

lemma le_div_iff:
  assumes "0 < (b::int)"
  shows "k \<le> a div b \<longleftrightarrow> k * b \<le> a"
proof
  assume "k \<le> a div b"
  then have "k * b \<le> a div b * b" using assms by (intro mult_right_mono) auto
  also have "\<dots> \<le> a" using pos_mod_sign [OF assms, of a] minus_mod_eq_div_mult [of a b] by linarith
  finally show "k * b \<le> a" .
next
  assume "k * b \<le> a"
  from zdiv_mono1 [OF this assms] show "k \<le> a div b" using assms by simp
qed

lemma aligned_le_trunc:
  assumes "aligned interval t"
  shows "t \<le> date_trunc interval u \<longleftrightarrow> t \<le> u"
proof -
  obtain k where k: "t = k * bucket_length interval + bucket_offset interval" using assms by (auto simp: aligned_def)
  let ?L = "bucket_length interval" and ?x = "u - bucket_offset interval"
  have "k * ?L \<le> ?x div ?L * ?L \<longleftrightarrow> k \<le> ?x div ?L" using bucket_length_pos by simp
  also have "\<dots> \<longleftrightarrow> k * ?L \<le> ?x" by (rule le_div_iff [OF bucket_length_pos])
  finally show ?thesis by (auto simp: k date_trunc_eq)
qed

lemma trunc_le: "date_trunc interval t \<le> t"
  using aligned_le_trunc [OF aligned_trunc [of interval t]] by blast

lemma trunc_mono: "s \<le> t \<Longrightarrow> date_trunc interval s \<le> date_trunc interval t"
  using aligned_le_trunc [OF aligned_trunc [of interval s]] trunc_le order_trans by blast

text \<open>The two series of buckets.\<close>

lemma buckets_to:
  assumes "aligned interval start"
  shows "bucket_starts interval start to =
    generate_series interval start (date_trunc interval (if to mod 1000 = 0 then to - 1000 else pg_time to))"
  using assms
proof (induction interval start to rule: bucket_starts.induct)
  case (1 interval start to)
  let ?u = "if to mod 1000 = 0 then to - 1000 else pg_time to"
  obtain a where a: "start = 1000 * a" using aligned_micro [OF 1(2)] by (auto simp: mod_eq_0_iff_dvd elim!: dvdE)
  have "start < to \<longleftrightarrow> start \<le> ?u"
  proof (cases "to mod 1000 = 0")
    case True
    then obtain b where "to = 1000 * b" by (auto simp: mod_eq_0_iff_dvd elim!: dvdE)
    with a True show ?thesis by auto
  next
    case False
    have "to = to div 1000 * 1000 + to mod 1000" "0 \<le> to mod 1000" "to mod 1000 < 1000" by simp_all
    with False have "to div 1000 * 1000 < to" "to < to div 1000 * 1000 + 1000" by linarith+
    with a False show ?thesis by (simp add: pg_time_def) linarith
  qed
  then have c: "start < to \<longleftrightarrow> start \<le> date_trunc interval ?u" using aligned_le_trunc [OF 1(2)] by blast
  show ?case
  proof (cases "start < to")
    case True
    with 1(1) [OF True aligned_step [OF 1(2)]] c show ?thesis
      by (subst bucket_starts.simps, subst generate_series.simps) simp
  next
    case False
    with c show ?thesis by (subst bucket_starts.simps, subst generate_series.simps) simp
  qed
qed

lemma series_above: "t \<in> set (generate_series interval start stop) \<Longrightarrow> start \<le> t \<and> t \<le> stop"
proof (induction interval start stop rule: generate_series.induct)
  case (1 interval start stop)
  have "start < add_days start (bucket_days interval)"
    by (simp add: add_days_def bucket_days_def day_length_def)
  with 1 show ?case by (subst (asm) (2) generate_series.simps) (auto split: if_splits)
qed

lemma distinct_series: "distinct (generate_series interval start stop)"
proof (induction interval start stop rule: generate_series.induct)
  case (1 interval start stop)
  have "start < add_days start (bucket_days interval)"
    by (simp add: add_days_def bucket_days_def day_length_def)
  with 1 series_above show ?case by (subst generate_series.simps) fastforce
qed

lemma aligned_next:
  assumes "aligned interval start" "aligned interval t" "start < t"
  shows "add_days start (bucket_days interval) \<le> t"
proof -
  obtain j k where jk: "start = j * bucket_length interval + bucket_offset interval" "t = k * bucket_length interval + bucket_offset interval"
    using assms(1,2) by (auto simp: aligned_def)
  with assms(3) have "j < k" using bucket_length_pos [of interval] by (metis add_le_cancel_right mult_le_cancel_right_pos not_le)
  then have "(j + 1) * bucket_length interval \<le> k * bucket_length interval"
    using bucket_length_pos [of interval] by (intro mult_right_mono) auto
  then show ?thesis by (simp add: jk add_days_def bucket_length_def algebra_simps)
qed

lemma aligned_iff: "aligned interval t \<longleftrightarrow> date_trunc interval t = t"
proof
  assume "aligned interval t"
  then show "date_trunc interval t = t" using aligned_le_trunc [of interval t t] trunc_le [of interval t] by simp
next
  assume "date_trunc interval t = t"
  then show "aligned interval t" using aligned_trunc [of interval t] by simp
qed

text \<open>The series up to an instant where a bucket starts has that bucket last.\<close>

lemma series_last:
  assumes "aligned interval start" and "u mod 1000 = 0" and "stop = date_trunc interval u"
  shows "generate_series interval start stop = generate_series interval start (date_trunc interval (u - 1000)) @
    (if date_trunc interval u = u \<and> start \<le> u then [u] else [])"
  using assms
proof (induction interval start stop rule: generate_series.induct)
  case (1 interval start stop)
  let ?next = "add_days start (bucket_days interval)"
  have le: "start \<le> date_trunc interval v \<longleftrightarrow> start \<le> v" for v by (rule aligned_le_trunc [OF 1(2)])
  have up: "start < ?next" by (simp add: add_days_def bucket_days_def day_length_def)
  obtain a where a: "start = 1000 * a" using aligned_micro [OF 1(2)] by (auto simp: mod_eq_0_iff_dvd elim!: dvdE)
  obtain b where b: "u = 1000 * b" using 1(3) by (auto simp: mod_eq_0_iff_dvd elim!: dvdE)
  consider "u < start" | "start = u" | "start < u" by linarith
  then show ?case
  proof cases
    case 1
    then show ?thesis using le by (subst (1 2) generate_series.simps) (simp add: \<open>stop = _\<close>)
  next
    case 2
    then have t: "date_trunc interval u = u" using \<open>aligned interval start\<close> by (simp add: aligned_iff)
    have "\<not> start \<le> date_trunc interval (u - 1000)" using le [of "u - 1000"] 2 by simp
    then have "generate_series interval start (date_trunc interval (u - 1000)) = []" by (subst generate_series.simps) simp
    moreover have "generate_series interval start stop = [u]"
      using up 2 by (subst generate_series.simps, subst generate_series.simps) (simp add: \<open>stop = _\<close> t)
    ultimately show ?thesis by (simp add: t 2)
  next
    case 3
    then have "start \<le> u - 1000" using a b by auto
    then have s: "start \<le> date_trunc interval (u - 1000)" "start \<le> stop" using le 3 by (simp_all add: \<open>stop = _\<close>)
    have "?next \<le> u" if "date_trunc interval u = u"
      using aligned_next [OF \<open>aligned interval start\<close> _ 3] that by (simp add: aligned_iff)
    then have c: "(date_trunc interval u = u \<and> ?next \<le> u) = (date_trunc interval u = u \<and> start \<le> u)" using 3 by auto
    have "generate_series interval start stop = start # generate_series interval ?next stop"
      using s(2) by (subst generate_series.simps) simp
    also have "generate_series interval ?next stop = generate_series interval ?next (date_trunc interval (u - 1000)) @
        (if date_trunc interval u = u \<and> start \<le> u then [u] else [])"
      using 1(1) [OF s(2) aligned_step [OF 1(2)] 1(3,4)] unfolding c .
    also have "start # \<dots> = generate_series interval start (date_trunc interval (u - 1000)) @
        (if date_trunc interval u = u \<and> start \<le> u then [u] else [])"
      using s(1) by (subst (2) generate_series.simps) simp
    finally show ?thesis .
  qed
qed

lemma series_complete:
  "aligned interval start \<Longrightarrow> aligned interval t \<Longrightarrow> start \<le> t \<Longrightarrow> t \<le> stop \<Longrightarrow> t \<in> set (generate_series interval start stop)"
proof (induction interval start stop rule: generate_series.induct)
  case (1 interval start stop)
  show ?case
  proof (cases "t = start")
    case True
    with 1 show ?thesis by (subst generate_series.simps) simp
  next
    case False
    with 1(4) have "add_days start (bucket_days interval) \<le> t" by (intro aligned_next [OF 1(2,3)]) simp
    with 1 aligned_step [OF 1(2)] show ?thesis by (subst generate_series.simps) simp
  qed
qed

section \<open>Points over empty points\<close>

lemma place_point_map:
  assumes "distinct bs" and "\<And>b. ap_starts (f b) = b"
  shows "place_point p (map f bs) = map (\<lambda>b. if b = ap_starts p then p else f b) bs"
  using assms by (induction bs) (auto intro: map_cong)

lemma place_points:
  assumes "distinct bs" and "distinct ks" and "\<And>b. ap_starts (f b) = b" and g: "\<And>k. ap_starts (g k) = k"
  shows "fold place_point (map g ks) (map f bs) = map (\<lambda>b. if b \<in> set ks then g b else f b) bs"
  using assms(2,3)
proof (induction ks arbitrary: f)
  case (Cons k ks)
  let ?f = "\<lambda>b. if b = k then g k else f b"
  have "place_point (g k) (map f bs) = map ?f bs"
    using place_point_map [OF assms(1) Cons.prems(2), of "g k"] by (simp add: g)
  moreover have "ap_starts (?f b) = b" for b using Cons.prems(2) g by simp
  ultimately show ?case using Cons.IH [of ?f] Cons.prems(1) by (auto intro!: map_cong)
qed simp

lemma bucket_point_starts [simp]: "ap_starts (bucket_point median q db line t) = t"
  by (simp add: bucket_point_def point_of_def Let_def)

text \<open>A bucket without a row has the point it started with.\<close>

lemma bucket_point_empty:
  "t \<notin> set (map (starts_at (aa_interval q)) (categorized_between q db line)) \<Longrightarrow> bucket_point median q db line t = empty_point t"
  by (auto simp: bucket_point_def point_of_def empty_point_def Let_def filter_empty_conv)

text \<open>An end a fraction of a microsecond after the start of a bucket gives the list that bucket too.\<close>

definition late_bucket :: "analytics_query \<Rightarrow> bool" where
  "late_bucket q \<longleftrightarrow> aa_to q mod 1000 \<noteq> 0 \<and> date_trunc (aa_interval q) (pg_time (aa_to q)) = pg_time (aa_to q) \<and>
     date_trunc (aa_interval q) (pg_time (aa_from q)) \<le> pg_time (aa_to q)"

lemma go_buckets:
  "bucket_starts (aa_interval q) (first_bucket q) (aa_to q) =
    generate_series (aa_interval q) (date_trunc (aa_interval q) (pg_time (aa_from q)))
      (date_trunc (aa_interval q) (pg_time (aa_to q) - 1000)) @ (if late_bucket q then [pg_time (aa_to q)] else [])"
proof (cases "aa_to q mod 1000 = 0")
  case True
  then have "pg_time (aa_to q) = aa_to q"
    by (simp add: pg_time_def) (metis mult.commute div_mult_mod_eq add.right_neutral)
  with True show ?thesis
    by (simp add: first_bucket_eq date_trunc_pg buckets_to [OF aligned_trunc] late_bucket_def)
next
  case False
  have "pg_time (aa_to q) mod 1000 = 0" by (simp add: pg_time_def)
  from series_last [OF aligned_trunc this refl] False show ?thesis
    by (simp add: first_bucket_eq date_trunc_pg buckets_to [OF aligned_trunc] late_bucket_def)
qed

lemma series_agree:
  "fold place_point (series_rows median q db line) (analytics_buckets q) =
    line_series median q db line @ (if late_bucket q then [empty_point (pg_time (aa_to q))] else [])"
proof -
  let ?gs = "generate_series (aa_interval q) (date_trunc (aa_interval q) (pg_time (aa_from q)))
      (date_trunc (aa_interval q) (pg_time (aa_to q) - 1000))"
  let ?bs = "?gs @ (if late_bucket q then [pg_time (aa_to q)] else [])"
  have "pg_time (aa_to q) \<notin> set ?gs"
    using series_above [of "pg_time (aa_to q)"] trunc_le [of "aa_interval q" "pg_time (aa_to q) - 1000"] by fastforce
  then have dist: "distinct ?bs" by (simp add: distinct_series)
  have late: "bucket_point median q db line (pg_time (aa_to q)) = empty_point (pg_time (aa_to q))"
  proof (rule bucket_point_empty)
    have "starts_at (aa_interval q) x < pg_time (aa_to q)" if "x \<in> set (categorized_between q db line)" for x
      using that trunc_le order.strict_trans1 by (fastforce simp: categorized_between_def starts_at_def)
    then show "pg_time (aa_to q) \<notin> set (map (starts_at (aa_interval q)) (categorized_between q db line))" by force
  qed
  have "fold place_point (series_rows median q db line) (analytics_buckets q) =
      map (\<lambda>b. if b \<in> set (map (starts_at (aa_interval q)) (categorized_between q db line))
         then bucket_point median q db line b else empty_point b) ?bs"
    unfolding series_rows_def analytics_buckets_def go_buckets
    by (subst place_points [OF dist]) (simp_all add: empty_point_def)
  also have "\<dots> = map (bucket_point median q db line) ?bs"
    by (rule map_cong) (auto simp: bucket_point_empty)
  also have "\<dots> = line_series median q db line @ (if late_bucket q then [empty_point (pg_time (aa_to q))] else [])"
    by (simp add: line_series_def late)
  finally show ?thesis .
qed

section \<open>Groups by column and by label\<close>

lemma remdups_map_inj: "inj_on f (set xs) \<Longrightarrow> remdups (map f xs) = map f (remdups xs)"
  by (induction xs) (auto simp: inj_on_def)

lemma breakdown_by_label:
  assumes "inj_on label (set vs)"
  shows "breakdown_of label vs = breakdown_of (\<lambda>v. v) (map label vs)"
proof -
  have "length (filter (\<lambda>w. w = label v) (map label vs)) = length (filter (\<lambda>w. w = v) vs)" if "v \<in> set vs" for v
  proof -
    have "filter (\<lambda>w. label w = label v) vs = filter (\<lambda>w. w = v) vs"
      by (rule filter_cong) (use assms that in \<open>auto simp: inj_on_eq_iff\<close>)
    then show ?thesis by (simp add: filter_map comp_def)
  qed
  then have "map (\<lambda>v. \<lparr>ab_value = label v, ab_count = length (filter (\<lambda>w. w = v) vs)\<rparr>) (remdups vs) =
      map (\<lambda>v. \<lparr>ab_value = label v, ab_count = length (filter (\<lambda>w. w = label v) (map label vs))\<rparr>) (remdups vs)"
    by (intro map_cong) auto
  then show ?thesis by (simp only: breakdown_of_def remdups_map_inj [OF assms] map_map comp_def)
qed

lemma coalesce_inj: "Some ''UNSPECIFIED'' \<notin> set vs \<Longrightarrow> inj_on coalesce (set vs)"
  by (rule inj_onI) (auto simp: coalesce_def split: option.splits)

lemma breakdowns_agree:
  "Some ''UNSPECIFIED'' \<notin> set (values_between kind q db line) \<Longrightarrow>
   breakdown_rows kind q db line = line_breakdown_rows kind q db line"
  by (simp add: breakdown_rows_def line_breakdown_rows_def breakdown_by_label [OF coalesce_inj])

section \<open>Sums\<close>

lemma sum_of_counts: "finite X \<Longrightarrow> set xs \<subseteq> X \<Longrightarrow> (\<Sum>x\<in>X. length (filter (\<lambda>y. y = x) xs)) = length xs"
  using sum_count_set [of xs X] by (simp add: count_list_eq_length_filter eq_commute)

lemma breakdown_sum: "sum_list (map ab_count (breakdown_of label vs)) = length vs"
proof -
  have "mset (map ab_count (breakdown_of label vs)) = mset (map (\<lambda>v. length (filter (\<lambda>w. w = v) vs)) (remdups vs))"
    by (simp add: breakdown_of_def image_mset.compositionality comp_def)
  then have "sum_list (map ab_count (breakdown_of label vs)) = (\<Sum>v \<leftarrow> remdups vs. length (filter (\<lambda>w. w = v) vs))"
    by (metis sum_mset_sum_list)
  also have "\<dots> = (\<Sum>v \<in> set vs. length (filter (\<lambda>w. w = v) vs))"
    by (simp add: sum_list_distinct_conv_sum_set)
  also have "\<dots> = length vs" by (rule sum_of_counts) simp_all
  finally show ?thesis .
qed

text \<open>What a breakdown says of a label.\<close>

definition label_total :: "string \<Rightarrow> analytics_breakdown list \<Rightarrow> nat" where
  "label_total l bs = sum_list (map ab_count (filter (\<lambda>b. ab_value b = l) bs))"

lemma breakdown_total: "label_total l (breakdown_of label vs) = length (filter (\<lambda>v. label v = l) vs)"
proof -
  let ?row = "\<lambda>v. \<lparr>ab_value = label v, ab_count = length (filter (\<lambda>w. w = v) vs)\<rparr>"
  let ?ks = "filter (\<lambda>v. label v = l) (remdups vs)"
  have "mset (map ab_count (filter (\<lambda>b. ab_value b = l) (breakdown_of label vs))) =
      mset (map ab_count (filter (\<lambda>b. ab_value b = l) (map ?row (remdups vs))))"
    by (simp add: breakdown_of_def)
  also have "map ab_count (filter (\<lambda>b. ab_value b = l) (map ?row (remdups vs))) =
      map (\<lambda>v. length (filter (\<lambda>w. w = v) vs)) ?ks"
    by (simp add: filter_map comp_def)
  finally have "label_total l (breakdown_of label vs) = (\<Sum>v \<leftarrow> ?ks. length (filter (\<lambda>w. w = v) vs))"
    unfolding label_total_def by (metis sum_mset_sum_list)
  also have "\<dots> = (\<Sum>v \<in> set ?ks. length (filter (\<lambda>w. w = v) vs))"
    by (simp add: sum_list_distinct_conv_sum_set)
  also have "\<dots> = (\<Sum>v \<in> set ?ks. length (filter (\<lambda>w. w = v) (filter (\<lambda>v. label v = l) vs)))"
    by (rule sum.cong) (auto intro!: arg_cong [of _ _ length] filter_cong)
  also have "\<dots> = length (filter (\<lambda>v. label v = l) vs)" by (rule sum_of_counts) auto
  finally show ?thesis .
qed

lemma totals_agree: "label_total l (breakdown_rows kind q db line) = label_total l (line_breakdown_rows kind q db line)"
  by (simp add: breakdown_rows_def line_breakdown_rows_def breakdown_total filter_map comp_def)

lemma series_sum: "sum_list (map ap_count (line_series median q db line)) = length (categorized_between q db line)"
proof -
  let ?rows = "categorized_between q db line" and ?at = "starts_at (aa_interval q)"
  let ?bs = "generate_series (aa_interval q) (date_trunc (aa_interval q) (pg_time (aa_from q)))
      (date_trunc (aa_interval q) (pg_time (aa_to q) - 1000))"
  have "map ap_count (line_series median q db line) = map (\<lambda>b. length (filter (\<lambda>t. t = b) (map ?at ?rows))) ?bs"
    by (simp add: line_series_def bucket_point_def point_of_def Let_def filter_map comp_def)
  moreover have "set (map ?at ?rows) \<subseteq> set ?bs"
  proof -
    have "?at x \<in> set ?bs" if "x \<in> set ?rows" for x
    proof -
      obtain r e where x: "x = (r, e)" by fastforce
      then have r: "pg_time (aa_from q) \<le> rv_first_seen r" "rv_first_seen r < pg_time (aa_to q)"
        using that by (auto simp: categorized_between_def)
      let ?t = "date_trunc (aa_interval q) (rv_first_seen r)"
      have "?t < pg_time (aa_to q)" using trunc_le r(2) by (rule le_less_trans)
      moreover obtain a b where "?t = 1000 * a" "pg_time (aa_to q) = 1000 * b"
        using aligned_micro [OF aligned_trunc, of "aa_interval q" "rv_first_seen r"]
        by (auto simp: mod_eq_0_iff_dvd pg_time_def mult.commute elim!: dvdE)
      ultimately have "?t \<le> pg_time (aa_to q) - 1000" by auto
      then have "?t \<in> set ?bs"
        using aligned_trunc trunc_mono [OF r(1)] aligned_le_trunc [OF aligned_trunc]
        by (intro series_complete) blast+
      then show ?thesis by (simp add: x starts_at_def)
    qed
    then show ?thesis by auto
  qed
  ultimately show ?thesis
    using sum_of_counts [of "set ?bs" "map ?at ?rows"] by (simp add: sum_list_distinct_conv_sum_set distinct_series)
qed

section \<open>The list and the page\<close>

definition analytics_of :: "(duration list \<Rightarrow> 64 word) \<Rightarrow> analytics_query \<Rightarrow> db \<Rightarrow> route \<Rightarrow> line_analytics" where
  "analytics_of median q db r =
     \<lparr>an_line = line_of (pg_time (aa_now q)) db (distinct_stations db) r, an_series = line_series median q db (rt_id r),
      an_causes = line_breakdown_rows ''cause'' q db (rt_id r), an_effects = line_breakdown_rows ''effect'' q db (rt_id r),
      an_limitations = []\<rparr>"

lemma bind_lines: "se_faults s = [] \<Longrightarrow> bind_tx (query_lines rb now line) k s =
    k (map (line_of (pg_time now) (se_db s) (distinct_stations (se_db s)))
       (sort_key (\<lambda>r. (rt_short_name r, rt_long_name r, rt_id r))
         (filter (\<lambda>r. (rb \<or> \<not> rt_replacement_bus r) \<and> (line \<noteq> [] \<longrightarrow> rt_id r = line)) (all_routes (se_db s))))) s"
  by (rule bind_tx_quiet) (rule query_lines_quiet)

lemma series_quiet: "se_faults s = [] \<Longrightarrow> query_line_analytics_series median q results s =
    (Inr (map (\<lambda>x. x\<lparr>an_series := fold place_point (series_rows median q (se_db s) (ul_id (an_line x))) (an_series x)\<rparr>) results), s)"
  by (simp add: query_line_analytics_series_def quiet_rules)

lemma breakdown_quiet: "se_faults s = [] \<Longrightarrow> query_line_analytics_breakdown q kind results s =
    (Inr (map (\<lambda>x. let new = breakdown_rows kind q (se_db s) (ul_id (an_line x))
        in if kind = ''cause'' then x\<lparr>an_causes := an_causes x @ new\<rparr> else x\<lparr>an_effects := an_effects x @ new\<rparr>) results), s)"
  by (simp add: query_line_analytics_breakdown_def quiet_rules)

lemma line_breakdown_quiet: "se_faults s = [] \<Longrightarrow> line_breakdown q line x kind s =
    (Inr (let new = line_breakdown_rows kind q (se_db s) line
      in if kind = ''cause'' then x\<lparr>an_causes := an_causes x @ new\<rparr> else x\<lparr>an_effects := an_effects x @ new\<rparr>), s)"
  by (simp add: line_breakdown_def quiet_rules Let_def)

lemma bind_analytics:
  assumes "se_faults s = []"
  shows "bind_tx (query_line_analytics_series median q results) k s = k (map (\<lambda>x. x\<lparr>an_series :=
      fold place_point (series_rows median q (se_db s) (ul_id (an_line x))) (an_series x)\<rparr>) results) s"
    and "bind_tx (query_line_analytics_breakdown q kind results) k s = k (map (\<lambda>x. let new = breakdown_rows kind q (se_db s) (ul_id (an_line x))
        in if kind = ''cause'' then x\<lparr>an_causes := an_causes x @ new\<rparr> else x\<lparr>an_effects := an_effects x @ new\<rparr>) results) s"
    and "bind_tx (line_breakdown q line x kind) k1 s = k1 (let new = line_breakdown_rows kind q (se_db s) line
      in if kind = ''cause'' then x\<lparr>an_causes := an_causes x @ new\<rparr> else x\<lparr>an_effects := an_effects x @ new\<rparr>) s"
  by (rule bind_tx_quiet, rule series_quiet [OF assms], rule bind_tx_quiet, rule breakdown_quiet [OF assms],
    rule bind_tx_quiet, rule line_breakdown_quiet [OF assms])

lemma sort_key_Nil [simp]: "sort_key k xs = [] \<longleftrightarrow> xs = []"
  by (metis length_0_conv length_sort)

lemmas analytics_rules = bind_lines bind_query ret_def bind_analytics breakdown_quiet line_breakdown_quiet

lemma ul_id_line_of [simp]: "ul_id (line_of now db n r) = rt_id r"
  by (simp add: line_of_def split: prod.split)

definition listed_analytics :: "(duration list \<Rightarrow> 64 word) \<Rightarrow> analytics_query \<Rightarrow> db \<Rightarrow> route \<Rightarrow> line_analytics" where
  "listed_analytics median q db r =
     (analytics_of median q db r)
       \<lparr>an_series := line_series median q db (rt_id r) @ (if late_bucket q then [empty_point (pg_time (aa_to q))] else []),
        an_causes := breakdown_rows ''cause'' q db (rt_id r), an_effects := breakdown_rows ''effect'' q db (rt_id r)\<rparr>"

lemma list_analytics_quiet:
  assumes io: "quiet io"
  shows "list_line_analytics median io q db = Inr (map (listed_analytics median q db)
    (sort_key (\<lambda>r. (rt_short_name r, rt_long_name r, rt_id r))
      (filter (\<lambda>r. aa_replacement q \<or> \<not> rt_replacement_bus r) (all_routes db))))"
  using io unfolding list_line_analytics_def quiet_def
  by (intro read_tx_quiet) (auto simp: analytics_rules Let_def analytics_of_def listed_analytics_def series_agree comp_def)

lemma get_analytics_quiet:
  assumes io: "quiet io" and ids: "distinct (map rt_id (all_routes db))" and r: "r \<in> set (all_routes db)" "rt_id r \<noteq> []"
  shows "get_line_analytics cause_first median io (rt_id r) q db =
    Inr ((analytics_of median q db r)\<lparr>an_limitations := analytics_metric_limitations\<rparr>)"
proof -
  have "filter (\<lambda>x. rt_id r \<noteq> [] \<longrightarrow> rt_id x = rt_id r) (all_routes db) = [r]"
    using filter_key_unique [OF ids r(1)] r(2) by simp
  then show ?thesis
    using io r(2) unfolding get_line_analytics_def query_line_analytics_def quiet_def
    by (intro read_tx_quiet) (simp_all add: analytics_rules Let_def analytics_of_def)
qed

lemma get_analytics_missing:
  assumes io: "quiet io" and "line \<noteq> []" and "line \<notin> rt_id ` set (all_routes db)"
  shows "get_line_analytics cause_first median io line q db = Inl (line_not_found line)"
proof -
  have "filter (\<lambda>x. line \<noteq> [] \<longrightarrow> rt_id x = line) (all_routes db) = []"
    using assms(2,3) by (auto simp: filter_empty_conv)
  then show ?thesis
    using io assms(2) unfolding get_line_analytics_def query_line_analytics_def quiet_def
    by (intro read_tx_quiet) (simp_all add: bind_lines fail_tx_def)
qed

end
