(* ===== verification/AnalyticsProperties.thy ===== *)
theory AnalyticsProperties
  imports AnalyticsRules PageProperties
begin

text \<open>
  The promises of the analytics, each with a concrete application.
\<close>

section \<open>Episodes\<close>

lemma number_episodes_fst: "map fst (number_episodes n p rs) = rs"
  by (induction n p rs rule: number_episodes.induct) (simp_all add: Let_def)

lemma number_episodes_sorted:
  "sorted (map snd (number_episodes n p rs)) \<and> (\<forall>m \<in> snd ` set (number_episodes n p rs). n \<le> m)"
proof (induction n p rs rule: number_episodes.induct)
  case (2 n p r rs)
  define n' where "n' = (if starts_episode p r then n + 1 else n)"
  have "n \<le> n'" by (simp add: n'_def)
  moreover have "number_episodes n p (r # rs) = (r, n') # number_episodes n' (Some r) rs" by (simp add: n'_def Let_def)
  ultimately show ?case using 2 [OF n'_def] by (auto intro: order_trans)
qed simp

lemma remdups_sorted_Cons:
  assumes "sorted (x # xs)" and "x \<in> set xs"
  shows "\<exists>ks. remdups xs = x # ks \<and> x \<notin> set ks"
proof -
  have s: "sorted (remdups xs)" "distinct (remdups xs)" using assms(1) by (simp_all add: sorted_remdups)
  have "x \<in> set (remdups xs)" using assms(2) by simp
  then obtain k ks where ks: "remdups xs = k # ks" by (cases "remdups xs") auto
  with s \<open>x \<in> set (remdups xs)\<close> have "k \<le> x" by auto
  moreover have "k \<in> set xs" using ks by (metis list.set_intros(1) set_remdups)
  then have "x \<le> k" using assms(1) by simp
  ultimately show ?thesis using ks s(2) by auto
qed

text \<open>Groups of a list sorted by the group, in the order of the groups, are the list.\<close>

lemma concat_groups:
  "sorted (map snd xs) \<Longrightarrow> concat (map (\<lambda>n. map fst (filter (\<lambda>x. snd x = n) xs)) (remdups (map snd xs))) = map fst xs"
proof (induction xs)
  case (Cons x xs)
  let ?g = "\<lambda>n ys. map fst (filter (\<lambda>y. snd y = n) ys)"
  have IH: "concat (map (\<lambda>n. ?g n xs) (remdups (map snd xs))) = map fst xs" using Cons by simp
  have other: "map (\<lambda>n. ?g n (x # xs)) ks = map (\<lambda>n. ?g n xs) ks" if "snd x \<notin> set ks" for ks
    by (rule map_cong) (use that in auto)
  show ?case
  proof (cases "snd x \<in> set (map snd xs)")
    case True
    from remdups_sorted_Cons [OF _ True] Cons.prems obtain ks where
      ks: "remdups (map snd xs) = snd x # ks" "snd x \<notin> set ks" by auto
    have "map (\<lambda>n. ?g n (x # xs)) (remdups (map snd (x # xs))) = (fst x # ?g (snd x) xs) # map (\<lambda>n. ?g n xs) ks"
      using True ks(1) other [OF ks(2)] by simp
    then show ?thesis using IH ks(1) by simp
  next
    case False
    then have "snd x \<notin> set (remdups (map snd xs))" by simp
    moreover have "filter (\<lambda>y. snd y = snd x) xs = []" using False unfolding filter_empty_conv set_map by (metis imageI)
    ultimately have "map (\<lambda>n. ?g n (x # xs)) (remdups (map snd (x # xs))) = [fst x] # map (\<lambda>n. ?g n xs) (remdups (map snd xs))"
      using False other [of "remdups (map snd xs)"] by simp
    then show ?thesis using IH by simp
  qed
qed simp

lemma episodes_partition: "concat (episodes_of db k) = sort_key revision_key (revisions_of db k)"
  using concat_groups [of "membership db k"] number_episodes_sorted
  by (simp add: episodes_of_def membership_def number_episodes_fst revisions_of_def)

text \<open>The episodes as runs of revisions: a run ends where the next revision does not follow on.\<close>

fun runs_of :: "revision_row list \<Rightarrow> revision_row list list" where
  "runs_of [] = []"
| "runs_of (r # rs) =
     (case runs_of rs of
        [] \<Rightarrow> [[r]]
      | g # gs \<Rightarrow> if starts_episode (Some r) (hd rs) then [r] # g # gs else (r # g) # gs)"

lemma runs_of_Nil [simp]: "runs_of rs = [] \<longleftrightarrow> rs = []"
  by (cases rs) (auto split: list.split)

lemma runs_of_hd: "runs_of rs = g # gs \<Longrightarrow> g \<noteq> [] \<and> hd g = hd rs"
  by (cases rs) (auto split: list.splits if_splits)

lemma runs_concat: "concat (runs_of rs) = rs \<and> [] \<notin> set (runs_of rs)"
  by (induction rs) (auto split: list.split)

lemma runs_follow: "g \<in> set (runs_of rs) \<Longrightarrow> successively (\<lambda>r s. \<not> starts_episode (Some r) s) g"
proof (induction rs arbitrary: g)
  case (Cons r rs)
  then show ?case
    by (auto split: list.splits if_splits simp: successively_Cons dest: runs_of_hd)
qed simp

lemma runs_break: "successively (\<lambda>g h. starts_episode (Some (last g)) (hd h)) (runs_of rs)"
proof (induction rs)
  case (Cons r rs)
  then show ?case
    by (auto split: list.split simp: successively_Cons dest: runs_of_hd)
qed simp

lemma groups_are_runs:
  "map (\<lambda>n. map fst (filter (\<lambda>x. snd x = n) (number_episodes m p rs))) (remdups (map snd (number_episodes m p rs))) = runs_of rs"
proof (induction rs arbitrary: m p)
  case (Cons r rs)
  let ?g = "\<lambda>n ys. map fst (filter (\<lambda>y. snd y = (n :: nat)) ys)"
  define a where "a = (if starts_episode p r then m + 1 else m)"
  define xs where "xs = number_episodes a (Some r) rs"
  have L: "number_episodes m p (r # rs) = (r, a) # xs" by (simp add: a_def xs_def Let_def)
  have IH: "map (\<lambda>n. ?g n xs) (remdups (map snd xs)) = runs_of rs" unfolding xs_def by (rule Cons.IH)
  have sorted: "sorted (map snd xs)" "\<forall>k \<in> snd ` set xs. a \<le> k" using number_episodes_sorted [of a "Some r" rs] by (simp_all add: xs_def)
  have other: "map (\<lambda>n. ?g n ((r, a) # xs)) ks = map (\<lambda>n. ?g n xs) ks" if "a \<notin> set ks" for ks
    by (rule map_cong) (use that in auto)
  show ?case
  proof (cases rs)
    case Nil
    then show ?thesis by (simp add: L xs_def)
  next
    case (Cons s ss)
    define b where "b = (if starts_episode (Some r) s then a + 1 else a)"
    have xs: "xs = (s, b) # number_episodes b (Some s) ss" by (simp add: xs_def Cons b_def Let_def)
    have above: "\<forall>k \<in> snd ` set xs. b \<le> k"
      using number_episodes_sorted [of b "Some s" ss] by (auto simp: xs)
    obtain g gs where gs: "runs_of rs = g # gs" using runs_of_Nil [of rs] Cons by (metis neq_Nil_conv)
    have s: "hd rs = s" using Cons by simp
    show ?thesis
    proof (cases "starts_episode (Some r) s")
      case True
      then have new: "a \<notin> set (map snd xs)" using above by (auto simp: b_def)
      then have "filter (\<lambda>y. snd y = a) xs = []" unfolding filter_empty_conv set_map by (metis imageI)
      then have "map (\<lambda>n. ?g n ((r, a) # xs)) (remdups (map snd ((r, a) # xs))) = [r] # map (\<lambda>n. ?g n xs) (remdups (map snd xs))"
        using new other [of "remdups (map snd xs)"] by simp
      also have "\<dots> = runs_of (r # rs)" using True by (simp add: IH gs s)
      finally show ?thesis by (simp only: L)
    next
      case False
      then have mem: "a \<in> set (map snd xs)" by (simp add: xs b_def)
      from remdups_sorted_Cons [OF _ mem] sorted obtain ks where
        ks: "remdups (map snd xs) = a # ks" "a \<notin> set ks" by auto
      have "map (\<lambda>n. ?g n ((r, a) # xs)) (remdups (map snd ((r, a) # xs))) = (r # ?g a xs) # map (\<lambda>n. ?g n xs) ks"
        using mem ks(1) other [OF ks(2)] by simp
      moreover have "runs_of rs = ?g a xs # map (\<lambda>n. ?g n xs) ks" using IH ks(1) by simp
      moreover have "runs_of (r # rs) = (r # hd (runs_of rs)) # tl (runs_of rs)" using False by (simp add: gs s)
      ultimately show ?thesis by (simp only: L list.sel)
    qed
  qed
qed simp

lemma episodes_are_runs: "episodes_of db k = runs_of (sort_key revision_key (revisions_of db k))"
  by (simp add: episodes_of_def membership_def groups_are_runs revisions_of_def)

text \<open>The rows of a line, counted: one for each episode in the interval.\<close>

definition episodes_between :: "analytics_query \<Rightarrow> db \<Rightarrow> string \<Rightarrow> (row_id \<times> nat) set" where
  "episodes_between q db line =
     {(k, n). n < length (episodes_of db k) \<and>
        (\<exists>r. find (\<lambda>r. concerns_line db line r \<and> \<not> ac_deleted (rv_columns r)) (episodes_of db k ! n) = Some r \<and>
           pg_time (aa_from q) \<le> rv_first_seen r \<and> rv_first_seen r < pg_time (aa_to q))}"

lemma episodes_of_unknown: "k \<notin> rv_alert ` set (db_revisions db) \<Longrightarrow> episodes_of db k = []"
proof -
  assume "k \<notin> rv_alert ` set (db_revisions db)"
  then have "filter (\<lambda>r. rv_alert r = k) (db_revisions db) = []" by (auto simp: filter_empty_conv)
  then show ?thesis by (simp add: episodes_of_def membership_def)
qed

lemma length_map_filter:
  "length (filter P (List.map_filter f xs)) = length (filter (\<lambda>x. \<exists>y. f x = Some y \<and> P y) xs)"
  by (induction xs) (auto simp: List.map_filter_def)

lemma categorized_between_count: "length (categorized_between q db line) = card (episodes_between q db line)"
proof -
  let ?in = "\<lambda>(r, _). pg_time (aa_from q) \<le> rv_first_seen r \<and> rv_first_seen r < pg_time (aa_to q)"
  let ?ids = "remdups (map rv_alert (db_revisions db))"
  define ok where "ok = (\<lambda>ms. \<exists>r. category db line ms = Some r \<and> pg_time (aa_from q) \<le> rv_first_seen r \<and> rv_first_seen r < pg_time (aa_to q))"
  define N where "N = (\<lambda>k. {n. n < length (episodes_of db k) \<and> ok (episodes_of db k ! n)})"
  have ok: "(\<exists>y. map_option (\<lambda>r. (r, episode_of ms)) (category db line ms) = Some y \<and> ?in y) = ok ms" for ms
    by (auto simp: ok_def)
  have "length (categorized_between q db line) =
      (\<Sum>k \<leftarrow> ?ids. length (filter ?in (List.map_filter (\<lambda>ms. map_option (\<lambda>r. (r, episode_of ms)) (category db line ms)) (episodes_of db k))))"
    by (simp only: categorized_between_def categorized_def filter_concat length_concat map_map comp_def)
  also have "\<dots> = (\<Sum>k \<leftarrow> ?ids. length (filter ok (episodes_of db k)))"
    by (simp only: length_map_filter ok)
  also have "\<dots> = (\<Sum>k \<leftarrow> ?ids. card (N k))"
    by (simp only: length_filter_conv_card N_def)
  also have "\<dots> = (\<Sum>k \<in> set ?ids. card (N k))"
    by (simp add: sum_list_distinct_conv_sum_set)
  also have "\<dots> = card (SIGMA k:set ?ids. N k)"
    by (rule card_SigmaI [symmetric]) (simp_all add: N_def)
  also have "(SIGMA k:set ?ids. N k) = episodes_between q db line"
  proof -
    have "k \<in> set ?ids" if "n < length (episodes_of db k)" for k n
      using that episodes_of_unknown [of k db] by (cases "k \<in> set ?ids") auto
    then show ?thesis by (auto simp: episodes_between_def N_def ok_def category_def)
  qed
  finally show ?thesis .
qed

lemma episodes_between_finite: "finite (episodes_between q db line)"
proof (rule finite_subset)
  show "episodes_between q db line \<subseteq> (SIGMA k:rv_alert ` set (db_revisions db). {..<length (episodes_of db k)})"
    using episodes_of_unknown [of _ db] by (fastforce simp: episodes_between_def)
qed simp

section \<open>Two ways to the same numbers\<close>

lemma episode_members:
  assumes "ms \<in> set (episodes_of db k)" and "r \<in> set ms"
  shows "r \<in> set (db_revisions db)"
proof -
  have "r \<in> set (concat (episodes_of db k))" using assms by auto
  then show ?thesis by (simp add: episodes_partition revisions_of_def)
qed

lemma categorized_mem:
  assumes "(r, e) \<in> set (categorized db line)"
  shows "r \<in> set (db_revisions db)"
proof -
  from assms obtain k ms where "ms \<in> set (episodes_of db k)" "category db line ms = Some r"
    by (auto simp: categorized_def set_map_filter)
  then show ?thesis using episode_members by (auto simp: category_def dest: find_Some_mem)
qed

lemma route_ids_distinct: "served_inv env db \<Longrightarrow> distinct (map rt_id (all_routes db))"
  by (simp add: served_inv_def system_inv_def gtfs_inv_def network_inv_def all_routes_def comp_def)

lemma unnamed_category:
  assumes "\<forall>r \<in> set (db_revisions db). category_value kind r \<noteq> Some ''UNSPECIFIED''"
  shows "breakdown_rows kind q db line = line_breakdown_rows kind q db line"
  using assms by (intro breakdowns_agree) (auto simp: values_between_def categorized_between_def dest!: categorized_mem)

text \<open>C14: the list of the lines and the page of a line give the same analytics. In a reachable
  database and for any interval the list can be read and has the lines it should; the page of each
  can be read, in whichever order it queries its breakdowns, and has the same line, the same points
  and for every label the same count of causes and of effects. The list has one more point, empty,
  exactly when the end is a fraction of a microsecond after the start of a bucket; the breakdowns
  are the same lists unless an alert names the label of the missing category itself.\<close>

theorem analytics_agree:
  assumes "(system_step env)\<^sup>*\<^sup>* empty_db db" and "quiet io"
  shows "\<exists>xs. list_line_analytics median io q db = Inr xs \<and>
    set (map (\<lambda>x. ul_id (an_line x)) xs) = rt_id ` {r \<in> set (all_routes db). aa_replacement q \<or> \<not> rt_replacement_bus r} \<and>
    (\<forall>x \<in> set xs. ul_id (an_line x) \<noteq> [] \<longrightarrow>
       (\<exists>y. get_line_analytics cause_first median io (ul_id (an_line x)) q db = Inr y \<and>
          an_line x = an_line y \<and> an_limitations x = [] \<and> an_limitations y = analytics_metric_limitations \<and>
          an_series x = an_series y @
            (if aa_to q mod 1000 \<noteq> 0 \<and> date_trunc (aa_interval q) (pg_time (aa_to q)) = pg_time (aa_to q) \<and>
               date_trunc (aa_interval q) (pg_time (aa_from q)) \<le> pg_time (aa_to q)
             then [\<lparr>ap_starts = pg_time (aa_to q), ap_count = 0, ap_completed = 0, ap_median = None\<rparr>] else []) \<and>
          (\<forall>l. label_total l (an_causes x) = label_total l (an_causes y) \<and>
               label_total l (an_effects x) = label_total l (an_effects y)) \<and>
          ((\<forall>r \<in> set (db_revisions db). ac_cause (rv_columns r) \<noteq> Some ''UNSPECIFIED'') \<longrightarrow> an_causes x = an_causes y) \<and>
          ((\<forall>r \<in> set (db_revisions db). ac_effect (rv_columns r) \<noteq> Some ''UNSPECIFIED'') \<longrightarrow> an_effects x = an_effects y)))"
proof -
  have inv: "served_inv env db" by (rule served_inv_steps [OF assms(1) served_inv_empty])
  have id: "ul_id (an_line (listed_analytics median q db r)) = rt_id r" for r
    by (simp add: listed_analytics_def analytics_of_def)
  have known: "breakdown_rows ''cause'' q db l = line_breakdown_rows ''cause'' q db l"
    if "\<forall>r \<in> set (db_revisions db). ac_cause (rv_columns r) \<noteq> Some ''UNSPECIFIED''" for l
    by (rule unnamed_category) (use that in \<open>simp add: category_value_def\<close>)
  have known': "breakdown_rows ''effect'' q db l = line_breakdown_rows ''effect'' q db l"
    if "\<forall>r \<in> set (db_revisions db). ac_effect (rv_columns r) \<noteq> Some ''UNSPECIFIED''" for l
    by (rule unnamed_category) (use that in \<open>simp add: category_value_def\<close>)
  note parts = listed_analytics_def analytics_of_def totals_agree known known' late_bucket_def empty_point_def
  show ?thesis
    using get_analytics_quiet [OF assms(2) route_ids_distinct [OF inv]]
    by - (intro exI conjI, rule list_analytics_quiet [OF assms(2)], auto simp: id image_iff parts)
qed

text \<open>One revision follows on another, as \<open>alert_revision_episode_membership\<close> has it.\<close>

definition follows_on :: "revision_row \<Rightarrow> revision_row \<Rightarrow> bool" where
  "follows_on r s \<longleftrightarrow> rv_closed r = Some (rv_first_seen s) \<and> (ac_deleted (rv_columns r) \<longrightarrow> ac_deleted (rv_columns s))"

lemma starts_episode_iff: "starts_episode (Some r) s \<longleftrightarrow> \<not> follows_on r s"
  by (auto simp: starts_episode_def follows_on_def)

text \<open>C35: the analytics of a line count every episode once. What the page of a line shows as counts in
  the series, by cause and by effect, sums up to one number: how many pairs of an alert and one of its
  episodes there are whose first revision that concerns the line and is not a deletion began
  in the interval. The episodes of an alert split its revisions, in their order, into non-empty
  runs: within an episode every revision follows on the one before, between two none does.\<close>

theorem analytics_count_episodes_once:
  assumes "(system_step env)\<^sup>*\<^sup>* empty_db db" and "quiet io" and "line \<noteq> []"
    and "get_line_analytics cause_first median io line q db = Inr x"
  shows "let counted = {(k, n). n < length (episodes_of db k) \<and>
        (\<exists>r. find (\<lambda>r. concerns_line db line r \<and> \<not> ac_deleted (rv_columns r)) (episodes_of db k ! n) = Some r \<and>
           pg_time (aa_from q) \<le> rv_first_seen r \<and> rv_first_seen r < pg_time (aa_to q))}
    in finite counted \<and>
    sum_list (map ap_count (an_series x)) = card counted \<and>
    sum_list (map ab_count (an_causes x)) = card counted \<and>
    sum_list (map ab_count (an_effects x)) = card counted \<and>
    (\<forall>a \<in> set (db_alerts db). let es = episodes_of db (sa_id a) in
       concat es = revisions_of db (sa_id a) \<and> [] \<notin> set es \<and>
       (\<forall>e \<in> set es. successively follows_on e) \<and> successively (\<lambda>e e'. \<not> follows_on (last e) (hd e')) es)"
proof -
  have inv: "served_inv env db" by (rule served_inv_steps [OF assms(1) served_inv_empty])
  have "line \<in> rt_id ` set (all_routes db)"
    using assms(4) get_analytics_missing [OF assms(2,3), of db cause_first median q] by force
  then obtain r where r: "r \<in> set (all_routes db)" "rt_id r = line" by auto
  have x: "x = (analytics_of median q db r)\<lparr>an_limitations := analytics_metric_limitations\<rparr>"
    using get_analytics_quiet [OF assms(2) route_ids_distinct [OF inv] r(1), of cause_first median q] assms(3,4) r(2) by simp
  have "sum_list (map ab_count (line_breakdown_rows kind q db line)) = length (categorized_between q db line)" for kind
    by (simp add: line_breakdown_rows_def breakdown_sum values_between_def)
  then have sums: "sum_list (map ap_count (an_series x)) = card (episodes_between q db line)"
    "sum_list (map ab_count (an_causes x)) = card (episodes_between q db line)"
    "sum_list (map ab_count (an_effects x)) = card (episodes_between q db line)"
    by (simp_all add: x analytics_of_def r(2) series_sum categorized_between_count)
  have es: "concat es = revisions_of db (sa_id a) \<and> [] \<notin> set es \<and>
      (\<forall>e \<in> set es. successively follows_on e) \<and> successively (\<lambda>e e'. \<not> follows_on (last e) (hd e')) es"
    if "a \<in> set (db_alerts db)" and "es = episodes_of db (sa_id a)" for a es
  proof -
    have runs: "es = runs_of (revisions_of db (sa_id a))"
      using revisions_in_order [OF served_invD(1,3) [OF inv] that(1)] that(2) by (simp add: episodes_are_runs)
    show ?thesis
      unfolding runs using runs_concat runs_follow runs_break by (simp add: starts_episode_iff)
  qed
  show ?thesis
    using sums es episodes_between_finite [of q db line] unfolding episodes_between_def Let_def by blast
qed

section \<open>A sample\<close>

definition sample_analytics :: analytics_query where
  "sample_analytics = \<lparr>aa_now = 20000, aa_from = 0, aa_to = 2 * day_length, aa_interval = ''day'', aa_replacement = True\<rparr>"

lemma network_installed_steps: "(system_step sample_env)\<^sup>*\<^sup>* empty_db network_installed"
  by (rule gtfs_steps_system) (rule rtranclp.rtrancl_into_rtrancl [OF network_ready_reachable network_installed_step])

theorem analytics_agree_witness:
  "\<exists>x. get_line_analytics False (\<lambda>_. 0) (quiet_io 0) ''r1'' sample_analytics network_installed = Inr x \<and>
     an_limitations x = analytics_metric_limitations"
proof -
  have io: "quiet (quiet_io 0)" by (simp add: quiet_def quiet_io_def)
  have r: "rt_id ` {r \<in> set (all_routes network_installed). aa_replacement sample_analytics \<or> \<not> rt_replacement_bus r} = {''r1''}"
    by (simp add: all_routes_def network_installed_eq sample_dataset_def route_of_def route_columns_def sample_analytics_def)
  from analytics_agree [OF network_installed_steps io, of "\<lambda>_. 0" sample_analytics False] show ?thesis
    unfolding r
    apply (elim exE conjE)
    subgoal premises p for xs
    proof -
      have "''r1'' \<in> (\<lambda>x. ul_id (an_line x)) ` set xs" using p(2) by simp
      then obtain x where x: "x \<in> set xs" "ul_id (an_line x) = ''r1''" by (elim imageE) simp
      have "(''r1'' :: string) \<noteq> []" by simp
      from mp [OF bspec [OF p(3) x(1), unfolded x(2)] this] show ?thesis by (elim exE conjE, intro exI conjI)
    qed
    done
qed

theorem analytics_count_episodes_once_witness:
  "\<exists>x. get_line_analytics True (\<lambda>_. 0) (quiet_io 0) ''r1'' sample_analytics network_installed = Inr x \<and>
     sum_list (map ap_count (an_series x)) = sum_list (map ab_count (an_causes x))"
proof -
  have io: "quiet (quiet_io 0)" by (simp add: quiet_def quiet_io_def)
  have inv: "served_inv sample_env network_installed" by (rule served_inv_steps [OF network_installed_steps served_inv_empty])
  obtain r where r: "r \<in> set (all_routes network_installed)" "rt_id r = ''r1''"
    by (simp add: all_routes_def network_installed_eq sample_dataset_def route_of_def route_columns_def)
  obtain x where x: "get_line_analytics True (\<lambda>_. 0) (quiet_io 0) ''r1'' sample_analytics network_installed = Inr x"
    using get_analytics_quiet [OF io route_ids_distinct [OF inv] r(1), of True "\<lambda>_. 0" sample_analytics] r(2) by auto
  have "''r1'' \<noteq> ([] :: string)" by simp
  note once = analytics_count_episodes_once [OF network_installed_steps io this x, unfolded Let_def]
  have "sum_list (map ap_count (an_series x)) = sum_list (map ab_count (an_causes x))"
    using once [THEN conjunct2, THEN conjunct1] once [THEN conjunct2, THEN conjunct2, THEN conjunct1] by (rule trans [OF _ sym])
  with x show ?thesis by blast
qed

end
