(* ===== verification/ApiParams.thy ===== *)
theory ApiParams
  imports Storage
begin

text \<open>
  The query parameters of \<open>internal/api/server.go\<close>: what the handlers use of \<open>net/url\<close> and of
  \<open>time.Parse\<close>, and the checks every parameter passes. A message is the error whose text it is.
\<close>

section \<open>URL escapes\<close>

definition hex_value :: "char \<Rightarrow> nat option" where
  "hex_value c =
     (if is_digit c then Some (ord c - 48)
      else if 97 \<le> ord c \<and> ord c \<le> 102 then Some (ord c - 87)
      else if 65 \<le> ord c \<and> ord c \<le> 70 then Some (ord c - 55)
      else None)"

definition hex_pair :: "char \<Rightarrow> char \<Rightarrow> char option" where
  "hex_pair a b = Option.bind (hex_value a) (\<lambda>x. map_option (\<lambda>y. char_of (16 * x + y)) (hex_value b))"

text \<open>\<open>QueryUnescape\<close> reads a plus as a space, \<open>PathUnescape\<close> does not.\<close>

fun unescape :: "bool \<Rightarrow> string \<Rightarrow> string option" where
  "unescape form [] = Some []"
| "unescape form (c # cs) =
     (if c = CHR ''%''
      then (case cs of
              a # b # rest \<Rightarrow> Option.bind (hex_pair a b) (\<lambda>d. map_option ((#) d) (unescape form rest))
            | _ \<Rightarrow> None)
      else map_option ((#) (if form \<and> c = CHR ''+'' then CHR '' '' else c)) (unescape form cs))"

abbreviation query_unescape :: "string \<Rightarrow> string option" where "query_unescape \<equiv> unescape True"
abbreviation path_unescape :: "string \<Rightarrow> string option" where "path_unescape \<equiv> unescape False"

section \<open>Query strings\<close>

text \<open>\<open>url.Values\<close>: the names in the order they first occur, each with its values in order.\<close>

type_synonym query_values = "(string \<times> string list) list"

fun add_value :: "string \<Rightarrow> string \<Rightarrow> query_values \<Rightarrow> query_values" where
  "add_value k v [] = [(k, [v])]"
| "add_value k v ((k', vs) # rest) = (if k = k' then (k', vs @ [v]) # rest else (k', vs) # add_value k v rest)"

definition cut :: "char \<Rightarrow> string \<Rightarrow> string \<times> string" where
  "cut sep s = (takeWhile (\<lambda>c. c \<noteq> sep) s, drop 1 (dropWhile (\<lambda>c. c \<noteq> sep) s))"

fun parse_pairs :: "string list \<Rightarrow> query_values \<Rightarrow> query_values option" where
  "parse_pairs [] values = Some values"
| "parse_pairs (p # ps) values =
     (if CHR '';'' \<in> set p then None
      else if p = [] then parse_pairs ps values
      else Option.bind (query_unescape (fst (cut (CHR ''='') p))) (\<lambda>k.
           Option.bind (query_unescape (snd (cut (CHR ''='') p))) (\<lambda>v.
           parse_pairs ps (add_value k v values))))"

definition max_query_params :: nat where
  "max_query_params = 10000"

definition url_parse_query :: "string \<Rightarrow> query_values option" where
  "url_parse_query raw =
     (if length (filter (\<lambda>c. c = CHR ''&'') raw) + 1 > max_query_params then None
      else parse_pairs (split_on (CHR ''&'') raw) [])"

text \<open>
  \<open>parseQuery\<close>: the first unknown name, in the order Go iterates over the map, is in the message.
\<close>

definition parse_query :: "(query_values \<Rightarrow> query_values) \<Rightarrow> string \<Rightarrow> string list \<Rightarrow> query_values result" where
  "parse_query iterate raw allowed =
     (case url_parse_query raw of
        None \<Rightarrow> Inl (Errorf ''query string is malformed'' [])
      | Some values \<Rightarrow>
          (case find (\<lambda>kv. fst kv \<notin> set allowed) (iterate values) of
             Some kv \<Rightarrow> Inl (Errorf ''unknown query parameter %q'' [AStr (fst kv)])
           | None \<Rightarrow> Inr values))"

section \<open>Parameters\<close>

definition scalar_param :: "query_values \<Rightarrow> string \<Rightarrow> string option result" where
  "scalar_param values name =
     (case map_of values name of
        None \<Rightarrow> Inr None
      | Some items \<Rightarrow>
          if length items \<noteq> 1 then Inl (Errorf ''query parameter %q must be supplied once'' [AStr name])
          else if hd items = [] then Inl (Errorf ''query parameter %q must not be empty'' [AStr name])
          else Inr (Some (hd items)))"

definition positive_int :: "query_values \<Rightarrow> string \<Rightarrow> int \<Rightarrow> int \<Rightarrow> int result" where
  "positive_int values name otherwise maximum =
     bind_res (scalar_param values name) (\<lambda>v.
     case v of
       None \<Rightarrow> Inr otherwise
     | Some s \<Rightarrow>
         (case atoi s of
            None \<Rightarrow> Inl (Errorf ''%s must be a positive integer'' [AStr name])
          | Some n \<Rightarrow>
              if n \<le> 0 then Inl (Errorf ''%s must be a positive integer'' [AStr name])
              else if maximum > 0 \<and> n > maximum then Inl (Errorf ''%s must not exceed %d'' [AStr name, AInt maximum])
              else Inr n))"

definition bool_param :: "query_values \<Rightarrow> string \<Rightarrow> bool \<Rightarrow> bool result" where
  "bool_param values name otherwise =
     bind_res (scalar_param values name) (\<lambda>v.
     case v of
       None \<Rightarrow> Inr otherwise
     | Some s \<Rightarrow>
         if s = ''true'' then Inr True
         else if s = ''false'' then Inr False
         else Inl (Errorf ''%s must be true or false'' [AStr name]))"

definition validate_string :: "string \<Rightarrow> string \<Rightarrow> nat \<Rightarrow> nat \<Rightarrow> go_error option" where
  "validate_string name value max_bytes max_runes =
     (if \<not> valid_utf8 value then Some (Errorf ''%s must be valid UTF-8'' [AStr name])
      else if max_bytes > 0 \<and> length value > max_bytes
      then Some (Errorf ''%s must not exceed %d bytes'' [AStr name, AInt (int max_bytes)])
      else if max_runes > 0 \<and> rune_count value > max_runes
      then Some (Errorf ''%s must not exceed %d characters'' [AStr name, AInt (int max_runes)])
      else if list_ex is_control (runes value) then Some (Errorf ''%s must not contain control characters'' [AStr name])
      else None)"

text \<open>A text parameter: the value, or the empty string when it is absent.\<close>

definition text_param :: "query_values \<Rightarrow> string \<Rightarrow> nat \<Rightarrow> nat \<Rightarrow> string result" where
  "text_param values name max_bytes max_runes =
     bind_res (scalar_param values name) (\<lambda>v.
     case v of
       None \<Rightarrow> Inr []
     | Some s \<Rightarrow> (case validate_string name s max_bytes max_runes of Some e \<Rightarrow> Inl e | None \<Rightarrow> Inr s))"

section \<open>Identifiers in paths\<close>

definition alert_id :: "string \<Rightarrow> int option" where
  "alert_id value =
     (if value = [] \<or> \<not> list_all is_digit value then None
      else case atoi value of None \<Rightarrow> None | Some n \<Rightarrow> if n > 0 then Some n else None)"

definition resource_id :: "string \<Rightarrow> string option" where
  "resource_id value =
     (if validate_string ''id'' value 256 0 = None \<and> value \<noteq> [] then Some value else None)"

section \<open>RFC 3339\<close>

text \<open>\<open>time.Parse(time.RFC3339, s)\<close>. The day number of a date, eras of 400 years from March.\<close>

definition day_of_civil :: "int \<Rightarrow> int \<Rightarrow> int \<Rightarrow> int" where
  "day_of_civil y m d =
     (let y = (if m \<le> 2 then y - 1 else y);
          yoe = y mod 400;
          doy = (153 * (if m > 2 then m - 3 else m + 9) + 2) div 5 + d - 1
      in y div 400 * 146097 + yoe * 365 + yoe div 4 - yoe div 100 + doy - 719468)"

definition days_in :: "int \<Rightarrow> int \<Rightarrow> int" where
  "days_in m y =
     (if m = 2 then (if y mod 4 = 0 \<and> (y mod 100 \<noteq> 0 \<or> y mod 400 = 0) then 29 else 28)
      else if m \<in> {4, 6, 9, 11} then 30 else 31)"

text \<open>\<open>getnum\<close>: two digits, or one where the layout does not ask for the zero.\<close>

fun getnum :: "bool \<Rightarrow> string \<Rightarrow> (int \<times> string) option" where
  "getnum fixed (a # b # s) =
     (if \<not> is_digit a then None
      else if is_digit b then Some (digits_val 0 [a, b], s)
      else if fixed then None else Some (digits_val 0 [a], b # s))"
| "getnum fixed [a] = (if is_digit a \<and> \<not> fixed then Some (digits_val 0 [a], []) else None)"
| "getnum fixed [] = None"

definition skip_char :: "char \<Rightarrow> string \<Rightarrow> string option" where
  "skip_char c s = (case s of x # rest \<Rightarrow> if x = c then Some rest else None | [] \<Rightarrow> None)"

definition get_year :: "string \<Rightarrow> (int \<times> string) option" where
  "get_year s =
     (if length s < 4 \<or> \<not> list_all is_digit (take 4 s) then None else Some (digits_val 0 (take 4 s), drop 4 s))"

text \<open>A fraction after the seconds: all its digits are read, nine count.\<close>

definition get_fraction :: "string \<Rightarrow> int \<times> string" where
  "get_fraction s =
     (case s of
        p # d # rest \<Rightarrow>
          if (p = CHR ''.'' \<or> p = CHR '','') \<and> is_digit d
          then (let ds = take 9 (takeWhile is_digit (d # rest))
                in (digits_val 0 ds * 10 ^ (9 - length ds), dropWhile is_digit (d # rest)))
          else (0, s)
      | _ \<Rightarrow> (0, s))"

definition get_zone :: "string \<Rightarrow> (int \<times> string) option" where
  "get_zone s =
     (case s of
        [] \<Rightarrow> None
      | c # rest \<Rightarrow>
          if c = CHR ''Z'' then Some (0, rest)
          else (case rest of
                  h1 # h2 # colon # m1 # m2 # rest' \<Rightarrow>
                    if colon \<noteq> CHR '':'' then None
                    else Option.bind (getnum True [h1, h2]) (\<lambda>(hr, _).
                         Option.bind (getnum True [m1, m2]) (\<lambda>(mm, _).
                         if hr > 24 \<or> mm > 60 then None
                         else if c = CHR ''+'' then Some ((hr * 60 + mm) * 60, rest')
                         else if c = CHR ''-'' then Some (- ((hr * 60 + mm) * 60), rest')
                         else None))
                | _ \<Rightarrow> None))"

definition get_field :: "char \<Rightarrow> bool \<Rightarrow> int \<Rightarrow> int \<Rightarrow> string \<Rightarrow> (int \<times> string) option" where
  "get_field c fixed lo hi s =
     Option.bind (skip_char c s) (\<lambda>s.
     Option.bind (getnum fixed s) (\<lambda>(n, s). if lo \<le> n \<and> n \<le> hi then Some (n, s) else None))"

definition parse_rfc3339 :: "string \<Rightarrow> instant option" where
  "parse_rfc3339 s =
     Option.bind (get_year s) (\<lambda>(year, s).
     Option.bind (get_field (CHR ''-'') True 1 12 s) (\<lambda>(month, s).
     Option.bind (get_field (CHR ''-'') True 0 99 s) (\<lambda>(day, s).
     Option.bind (get_field (CHR ''T'') False 0 23 s) (\<lambda>(hour, s).
     Option.bind (get_field (CHR '':'') True 0 59 s) (\<lambda>(minute, s).
     Option.bind (get_field (CHR '':'') True 0 59 s) (\<lambda>(second, s).
     case get_fraction s of (nano, s) \<Rightarrow>
     Option.bind (get_zone s) (\<lambda>(offset, s).
     if s \<noteq> [] \<or> day < 1 \<or> day > days_in month year then None
     else Some ((day_of_civil year month day * 86400 + hour * 3600 + minute * 60 + second - offset) * 1000000000 + nano))))))))"

text \<open>An optional time parameter.\<close>

definition time_param :: "query_values \<Rightarrow> string \<Rightarrow> instant option result" where
  "time_param values name =
     bind_res (scalar_param values name) (\<lambda>v.
     case v of
       None \<Rightarrow> Inr None
     | Some s \<Rightarrow>
         (case parse_rfc3339 s of
            None \<Rightarrow> Inl (Errorf (name @ '' must be an RFC3339 timestamp'') [])
          | Some t \<Rightarrow> Inr (Some t)))"

end
