(* ===== verification/Api.thy ===== *)
theory Api
  imports ApiParams Analytics
begin

text \<open>
  The handlers of \<open>internal/api/server.go\<close>. A request is its method, escaped path, raw query and
  headers; the repository is a record of functions, each already given its context, so that an
  expired deadline is an error it returns. A body is kept as the value that is marshalled.
\<close>

section \<open>Requests and responses\<close>

record http_request =
  rq_method :: string
  rq_path :: string
  rq_query :: string
  rq_header :: "string \<Rightarrow> string"

record alert_meta =
  am_count :: nat
  am_status :: string

record historical_meta = alert_meta +
  am_total :: nat
  am_page :: int
  am_size :: int
  am_pages :: int

record analytics_meta =
  ym_count :: nat
  ym_from :: instant
  ym_to :: instant
  ym_interval :: string
  ym_timezone :: string
  ym_basis :: string

record status_meta =
  um_alert_data :: duration
  um_alert_check :: duration
  um_gtfs_data :: duration
  um_gtfs_check :: duration
  um_alert_run :: duration
  um_gtfs_run :: duration
  um_tolerance :: duration
  um_failures :: int

datatype payload =
    ErrorBody string go_error
  | StateBody string
  | AlertsBody "current_alert list" alert_meta
  | HistoricalBody "current_alert list" historical_meta
  | AlertBody alert_detail
  | RevisionsBody "alert_revision list" nat
  | LinesBody "line_summary list" nat
  | LineBody line_detail
  | StationsBody "station_summary list" nat
  | StationBody station_detail
  | AnalyticsListBody "line_analytics list" analytics_meta
  | AnalyticsBody line_analytics analytics_meta
  | StatusBody status_response status_meta

type_synonym http_headers = "(string \<times> string) list"

record api_response =
  hr_status :: nat
  hr_headers :: http_headers
  hr_body :: "payload option"

definition set_header :: "string \<Rightarrow> string \<Rightarrow> http_headers \<Rightarrow> http_headers" where
  "set_header k v hs = filter (\<lambda>h. fst h \<noteq> k) hs @ [(k, v)]"

definition add_header :: "string \<Rightarrow> string \<Rightarrow> http_headers \<Rightarrow> http_headers" where
  "add_header k v hs = hs @ [(k, v)]"

section \<open>The handler\<close>

record read_repository =
  rp_list_alerts :: "alert_query \<Rightarrow> alert_page result"
  rp_get_alert :: "row_id \<Rightarrow> alert_detail result"
  rp_list_revisions :: "row_id \<Rightarrow> alert_revision list result"
  rp_list_lines :: "bool \<Rightarrow> instant \<Rightarrow> line_summary list result"
  rp_get_line :: "string \<Rightarrow> instant \<Rightarrow> line_detail result"
  rp_list_stations :: "station_query \<Rightarrow> instant \<Rightarrow> station_summary list result"
  rp_get_station :: "string \<Rightarrow> instant \<Rightarrow> station_detail result"
  rp_list_analytics :: "analytics_query \<Rightarrow> line_analytics list result"
  rp_get_analytics :: "string \<Rightarrow> analytics_query \<Rightarrow> line_analytics result"
  rp_get_status :: "status_query \<Rightarrow> status_response result"

record api_handler =
  ah_ping :: "go_error option"
  ah_reads :: read_repository
  ah_origin :: string
  ah_status :: status_query
  ah_now :: instant
  ah_iterate :: "query_values \<Rightarrow> query_values"

section \<open>Writing\<close>

text \<open>
  \<open>json.Marshal\<close> refuses a number that is not finite and a time whose year is not one of 0 to 9999;
  every other value of these types has an encoding.
\<close>

definition finite_double :: "64 word \<Rightarrow> bool" where
  "finite_double w \<longleftrightarrow> unat (drop_bit 52 w) mod 2048 \<noteq> 2047"

definition json_time :: "instant \<Rightarrow> bool" where
  "json_time t \<longleftrightarrow> - 62167219200 * 1000000000 \<le> t \<and> t < 253402300800 * 1000000000"

definition alert_times :: "'a current_alert_scheme \<Rightarrow> instant list" where
  "alert_times x = [ua_first_seen x, ua_last_seen x, ua_rev_first x, ua_rev_last x] @
     concat (map (\<lambda>p. List.map_filter id [up_starts p, up_ends p]) (ua_periods x))"

definition alert_numbers :: "'a current_alert_scheme \<Rightarrow> (64 word) list" where
  "alert_numbers x = concat (map (\<lambda>s. List.map_filter id [us_latitude s, us_longitude s]) (ua_stations x))"

definition encodable_alert :: "'a current_alert_scheme \<Rightarrow> bool" where
  "encodable_alert x \<longleftrightarrow> list_all json_time (alert_times x) \<and> list_all finite_double (alert_numbers x)"

definition encodable_revision :: "alert_revision \<Rightarrow> bool" where
  "encodable_revision x \<longleftrightarrow> encodable_alert x \<and> pred_option json_time (uv_closed x)"

definition encodable_station :: "station_summary \<Rightarrow> bool" where
  "encodable_station s \<longleftrightarrow> pred_option finite_double (ut_latitude s) \<and> pred_option finite_double (ut_longitude s)"

definition encodable_line :: "line_analytics \<Rightarrow> bool" where
  "encodable_line x \<longleftrightarrow> list_all (\<lambda>p. json_time (ap_starts p) \<and> pred_option finite_double (ap_median p)) (an_series x)"

definition archive_times :: "archive_summary option \<Rightarrow> instant list" where
  "archive_times a = (case a of None \<Rightarrow> [] | Some x \<Rightarrow> [ay_stored x])"

definition ingestion_times :: "ingestion_summary \<Rightarrow> instant list" where
  "ingestion_times x = [iy_started x, iy_completed x] @ List.map_filter id [iy_retrieved x, iy_data_as_of x] @ archive_times (iy_archive x)"

definition attempt_times :: "attempt_summary \<Rightarrow> instant list" where
  "attempt_times x = ty_started x # List.map_filter id [ty_completed x] @ archive_times (ty_archive x)"

definition failure_times :: "failure_summary \<Rightarrow> instant list" where
  "failure_times x = List.map_filter id [fy_failed x] @ archive_times (fy_archive x)"

definition section_times :: "status_section \<Rightarrow> instant list" where
  "section_times s = List.map_filter id [sy_data_as_of s, sy_check_at s] @
     (case sy_applied s of None \<Rightarrow> [] | Some x \<Rightarrow> ingestion_times x) @
     (case sy_attempt s of None \<Rightarrow> [] | Some x \<Rightarrow> attempt_times x) @ concat (map failure_times (sy_failures s))"

definition encodable :: "payload \<Rightarrow> bool" where
  "encodable p =
     (case p of
        AlertsBody xs _ \<Rightarrow> list_all encodable_alert xs
      | HistoricalBody xs _ \<Rightarrow> list_all encodable_alert xs
      | AlertBody d \<Rightarrow> json_time (ue_first_seen d) \<and> json_time (ue_last_seen d) \<and> pred_option json_time (ue_closed d) \<and>
          encodable_revision (ue_latest d)
      | RevisionsBody xs _ \<Rightarrow> list_all encodable_revision xs
      | LineBody d \<Rightarrow> list_all encodable_station (ld_stations d) \<and> list_all encodable_alert (ld_alerts d)
      | StationsBody xs _ \<Rightarrow> list_all encodable_station xs
      | StationBody d \<Rightarrow> encodable_station (td_station d) \<and> list_all encodable_alert (td_alerts d)
      | AnalyticsListBody xs m \<Rightarrow> list_all encodable_line xs \<and> json_time (ym_from m) \<and> json_time (ym_to m)
      | AnalyticsBody x m \<Rightarrow> encodable_line x \<and> json_time (ym_from m) \<and> json_time (ym_to m)
      | StatusBody r _ \<Rightarrow> list_all json_time (sp_generated r # section_times (fst (sp_alerts r)) @ section_times (fst (sp_gtfs r)))
      | _ \<Rightarrow> True)"

definition internal_error :: payload where
  "internal_error = ErrorBody ''internal_error'' (Errorf ''internal server error'' [])"

text \<open>A response that has started: its headers so far.\<close>

definition write_json :: "http_headers \<Rightarrow> nat \<Rightarrow> payload \<Rightarrow> api_response" where
  "write_json hs status value =
     (let (status, body) = (if encodable value then (status, value) else (500, internal_error))
      in \<lparr>hr_status = status, hr_headers = set_header ''Content-Type'' ''application/json; charset=utf-8'' hs,
          hr_body = Some body\<rparr>)"

definition write_error :: "http_headers \<Rightarrow> nat \<Rightarrow> string \<Rightarrow> go_error \<Rightarrow> api_response" where
  "write_error hs status code message = write_json hs status (ErrorBody code message)"

definition not_found_response :: "http_headers \<Rightarrow> api_response" where
  "not_found_response hs = write_error hs 404 ''not_found'' (Errorf ''resource not found'' [])"

definition invalid_query :: "http_headers \<Rightarrow> go_error \<Rightarrow> api_response" where
  "invalid_query hs message = write_error hs 400 ''invalid_query'' message"

definition no_query :: go_error where
  "no_query = Errorf ''query parameters are not supported'' []"

definition write_repository_error :: "http_headers \<Rightarrow> go_error \<Rightarrow> api_response" where
  "write_repository_error hs e =
     (if errors_is e ErrNotFound then not_found_response hs
      else if errors_is e DeadlineExceeded then write_error hs 504 ''request_timeout'' (Errorf ''request timed out'' [])
      else write_error hs 500 ''internal_error'' (Errorf ''internal server error'' []))"

text \<open>What a handler does with the result of a query: an error, or a body with status 200.\<close>

definition respond :: "http_headers \<Rightarrow> 'a result \<Rightarrow> ('a \<Rightarrow> payload) \<Rightarrow> api_response" where
  "respond hs r body =
     (case r of Inl e \<Rightarrow> write_repository_error hs e | Inr x \<Rightarrow> write_json hs 200 (body x))"

section \<open>Alerts\<close>

definition max_historical_alert_page :: int where
  "max_historical_alert_page = 1000"

definition alert_statuses :: "string list" where
  "alert_statuses = [''present'', ''current'', ''upcoming'', ''historical'']"

text \<open>The query of \<open>handleAlerts\<close>.\<close>

definition alert_query_of :: "api_handler \<Rightarrow> string \<Rightarrow> alert_query result" where
  "alert_query_of h raw =
     bind_res (parse_query (ah_iterate h) raw
       [''status'', ''line_id'', ''station_id'', ''cause'', ''effect'', ''from'', ''to'', ''page'', ''page_size'']) (\<lambda>values.
     bind_res (scalar_param values ''status'') (\<lambda>status.
     let status = (case status of None \<Rightarrow> ''present'' | Some s \<Rightarrow> s)
     in if status \<notin> set alert_statuses
        then Inl (Errorf ''status must be present, current, upcoming, or historical'' [])
        else
     bind_res (text_param values ''line_id'' 256 0) (\<lambda>line.
     bind_res (text_param values ''station_id'' 256 0) (\<lambda>station.
     bind_res (text_param values ''cause'' 64 0) (\<lambda>cause.
     bind_res (text_param values ''effect'' 64 0) (\<lambda>effect.
     bind_res (time_param values ''from'') (\<lambda>from.
     bind_res (time_param values ''to'') (\<lambda>to.
     let q = \<lparr>aq_status = status, aq_now = ah_now h, aq_line = line, aq_station = station, aq_cause = cause,
           aq_effect = effect, aq_from = from, aq_to = to, aq_page = 0, aq_size = 0\<rparr>
     in if (case (from, to) of (Some f, Some t) \<Rightarrow> \<not> f < t | _ \<Rightarrow> False)
        then Inl (Errorf ''from must be before to'' [])
        else if status = ''historical''
        then bind_res (positive_int values ''page'' 1 max_historical_alert_page) (\<lambda>page.
             bind_res (positive_int values ''page_size'' 25 100) (\<lambda>size.
             Inr (q\<lparr>aq_page := page, aq_size := size\<rparr>)))
        else if map_of values ''page'' \<noteq> None
        then Inl (Errorf ''page is only supported for historical alerts'' [])
        else if map_of values ''page_size'' \<noteq> None
        then Inl (Errorf ''page_size is only supported for historical alerts'' [])
        else Inr q))))))))"

definition go_quot :: "int \<Rightarrow> int \<Rightarrow> int" where
  "go_quot a b = (if a < 0 then - ((- a) div b) else a div b)"

definition alerts_body :: "alert_query \<Rightarrow> alert_page \<Rightarrow> payload" where
  "alerts_body q result =
     (if aq_status q = ''historical''
      then HistoricalBody (ug_alerts result)
        \<lparr>am_count = length (ug_alerts result), am_status = aq_status q, am_total = ug_total result,
         am_page = aq_page q, am_size = aq_size q,
         am_pages = go_quot (int (ug_total result) + aq_size q - 1) (aq_size q)\<rparr>
      else AlertsBody (ug_alerts result) \<lparr>am_count = length (ug_alerts result), am_status = aq_status q\<rparr>)"

definition handle_alerts :: "api_handler \<Rightarrow> string \<Rightarrow> http_headers \<Rightarrow> api_response" where
  "handle_alerts h raw hs =
     (case alert_query_of h raw of
        Inl e \<Rightarrow> invalid_query hs e
      | Inr q \<Rightarrow> respond hs (rp_list_alerts (ah_reads h) q) (alerts_body q))"

definition handle_alert :: "api_handler \<Rightarrow> string \<Rightarrow> string \<Rightarrow> http_headers \<Rightarrow> api_response" where
  "handle_alert h value raw hs =
     (case alert_id value of
        None \<Rightarrow> not_found_response hs
      | Some k \<Rightarrow>
          if raw \<noteq> [] then invalid_query hs no_query
          else respond hs (rp_get_alert (ah_reads h) k) AlertBody)"

definition handle_alert_revisions :: "api_handler \<Rightarrow> string \<Rightarrow> string \<Rightarrow> http_headers \<Rightarrow> api_response" where
  "handle_alert_revisions h value raw hs =
     (case alert_id value of
        None \<Rightarrow> not_found_response hs
      | Some k \<Rightarrow>
          if raw \<noteq> [] then invalid_query hs no_query
          else respond hs (rp_list_revisions (ah_reads h) k) (\<lambda>xs. RevisionsBody xs (length xs)))"

section \<open>Lines and stations\<close>

definition handle_lines :: "api_handler \<Rightarrow> string \<Rightarrow> http_headers \<Rightarrow> api_response" where
  "handle_lines h raw hs =
     (case bind_res (parse_query (ah_iterate h) raw [''include_replacement_bus''])
             (\<lambda>values. bool_param values ''include_replacement_bus'' False) of
        Inl e \<Rightarrow> invalid_query hs e
      | Inr included \<Rightarrow> respond hs (rp_list_lines (ah_reads h) included (ah_now h)) (\<lambda>xs. LinesBody xs (length xs)))"

definition handle_line :: "api_handler \<Rightarrow> string \<Rightarrow> string \<Rightarrow> http_headers \<Rightarrow> api_response" where
  "handle_line h value raw hs =
     (case resource_id value of
        None \<Rightarrow> invalid_query hs (Errorf ''line id is invalid'' [])
      | Some k \<Rightarrow>
          if raw \<noteq> [] then invalid_query hs no_query
          else respond hs (rp_get_line (ah_reads h) k (ah_now h)) LineBody)"

definition station_query_of :: "api_handler \<Rightarrow> string \<Rightarrow> station_query result" where
  "station_query_of h raw =
     bind_res (parse_query (ah_iterate h) raw [''q'', ''line_id'']) (\<lambda>values.
     bind_res (text_param values ''q'' 0 100) (\<lambda>q.
     bind_res (text_param values ''line_id'' 256 0) (\<lambda>line.
     Inr \<lparr>sq_text = q, sq_line = line\<rparr>)))"

definition handle_stations :: "api_handler \<Rightarrow> string \<Rightarrow> http_headers \<Rightarrow> api_response" where
  "handle_stations h raw hs =
     (case station_query_of h raw of
        Inl e \<Rightarrow> invalid_query hs e
      | Inr q \<Rightarrow> respond hs (rp_list_stations (ah_reads h) q (ah_now h)) (\<lambda>xs. StationsBody xs (length xs)))"

definition handle_station :: "api_handler \<Rightarrow> string \<Rightarrow> string \<Rightarrow> http_headers \<Rightarrow> api_response" where
  "handle_station h value raw hs =
     (case resource_id value of
        None \<Rightarrow> invalid_query hs (Errorf ''station id is invalid'' [])
      | Some k \<Rightarrow>
          if raw \<noteq> [] then invalid_query hs no_query
          else respond hs (rp_get_station (ah_reads h) k (ah_now h)) StationBody)"

section \<open>Analytics\<close>

definition analytics_query_of :: "api_handler \<Rightarrow> string \<Rightarrow> bool \<Rightarrow> analytics_query result" where
  "analytics_query_of h raw collection =
     bind_res (parse_query (ah_iterate h) raw [''from'', ''to'', ''interval'', ''include_replacement_bus'']) (\<lambda>values.
     if \<not> collection \<and> map_of values ''include_replacement_bus'' \<noteq> None
     then Inl (Errorf ''include_replacement_bus is not supported for line analytics detail'' [])
     else
     bind_res (time_param values ''from'') (\<lambda>from.
     bind_res (time_param values ''to'') (\<lambda>to.
     let from = (case from of None \<Rightarrow> ah_now h - 30 * day_length | Some t \<Rightarrow> t);
         to = (case to of None \<Rightarrow> ah_now h | Some t \<Rightarrow> t)
     in if \<not> from < to then Inl (Errorf ''from must be before to'' [])
        else if time_sub to from > 366 * day_length
        then Inl (Errorf ''analytics range must not exceed 366 days'' [])
        else
     bind_res (scalar_param values ''interval'') (\<lambda>interval.
     let interval = (case interval of None \<Rightarrow> ''day'' | Some i \<Rightarrow> i)
     in if interval \<noteq> ''day'' \<and> interval \<noteq> ''week'' then Inl (Errorf ''interval must be day or week'' [])
        else
     bind_res (if collection then bool_param values ''include_replacement_bus'' False else Inr False) (\<lambda>included.
     Inr \<lparr>aa_now = ah_now h, aa_from = from, aa_to = to, aa_interval = interval, aa_replacement = included\<rparr>)))))"

definition new_analytics_meta :: "analytics_query \<Rightarrow> nat \<Rightarrow> analytics_meta" where
  "new_analytics_meta q n = \<lparr>ym_count = n, ym_from = aa_from q, ym_to = aa_to q, ym_interval = aa_interval q,
     ym_timezone = ''UTC'', ym_basis = ''continuous_feed_observation_episodes''\<rparr>"

definition handle_line_analytics :: "api_handler \<Rightarrow> string \<Rightarrow> http_headers \<Rightarrow> api_response" where
  "handle_line_analytics h raw hs =
     (case analytics_query_of h raw True of
        Inl e \<Rightarrow> invalid_query hs e
      | Inr q \<Rightarrow> respond hs (rp_list_analytics (ah_reads h) q) (\<lambda>xs. AnalyticsListBody xs (new_analytics_meta q (length xs))))"

definition handle_line_analytics_detail :: "api_handler \<Rightarrow> string \<Rightarrow> string \<Rightarrow> http_headers \<Rightarrow> api_response" where
  "handle_line_analytics_detail h value raw hs =
     (case resource_id value of
        None \<Rightarrow> invalid_query hs (Errorf ''line id is invalid'' [])
      | Some k \<Rightarrow>
          (case analytics_query_of h raw False of
             Inl e \<Rightarrow> invalid_query hs e
           | Inr q \<Rightarrow> respond hs (rp_get_analytics (ah_reads h) k q) (\<lambda>x. AnalyticsBody x (new_analytics_meta q 1))))"

section \<open>Status and health\<close>

definition status_meta_of :: "status_query \<Rightarrow> status_meta" where
  "status_meta_of q = \<lparr>um_alert_data = qy_alert_data_age q, um_alert_check = qy_alert_check_age q,
     um_gtfs_data = qy_gtfs_data_age q, um_gtfs_check = qy_gtfs_check_age q, um_alert_run = qy_alert_run q,
     um_gtfs_run = qy_gtfs_run q, um_tolerance = qy_tolerance q, um_failures = qy_failures q\<rparr>"

definition handle_status :: "api_handler \<Rightarrow> string \<Rightarrow> http_headers \<Rightarrow> api_response" where
  "handle_status h raw hs =
     (if raw \<noteq> [] then invalid_query hs no_query
      else let q = (ah_status h)\<lparr>qy_now := ah_now h\<rparr>
           in respond hs (rp_get_status (ah_reads h) q) (\<lambda>r. StatusBody r (status_meta_of q)))"

definition handle_health :: "api_handler \<Rightarrow> string \<Rightarrow> http_headers \<Rightarrow> api_response" where
  "handle_health h raw hs =
     (if raw \<noteq> [] then write_error hs 400 ''invalid_query'' no_query
      else case ah_ping h of
             Some _ \<Rightarrow> write_json hs 503 (StateBody ''unavailable'')
           | None \<Rightarrow> write_json hs 200 (StateBody ''ok''))"

definition handle_live :: "string \<Rightarrow> http_headers \<Rightarrow> api_response" where
  "handle_live raw hs =
     (if raw \<noteq> [] then write_error hs 400 ''invalid_query'' no_query else write_json hs 200 (StateBody ''ok''))"

section \<open>Routing\<close>

definition canonical_request_path :: "string \<Rightarrow> bool" where
  "canonical_request_path path \<longleftrightarrow>
     (let segments = split_on (CHR ''/'') path
      in \<not> list_ex (\<lambda>s. s = []) (butlast (tl segments)) \<and>
         list_all (\<lambda>s. case path_unescape s of None \<Rightarrow> False | Some d \<Rightarrow> d \<noteq> ''.'' \<and> d \<noteq> ''..'') segments)"

datatype endpoint =
    EpHealth | EpLive | EpAlerts | EpAlert string | EpRevisions string | EpLines | EpLine string
  | EpStations | EpStation string | EpAnalyticsLines | EpAnalyticsLine string | EpStatus

text \<open>
  The patterns of \<open>NewHandler\<close> against the segments of a path, unescaped; \<open>{id}\<close> takes one segment, but
  not one that reads as a slash, which the mux takes for the end of a path. A path the server passes
  on starts with a slash, or is empty.
\<close>

abbreviation wildcard :: "string \<Rightarrow> endpoint \<Rightarrow> endpoint option" where
  "wildcard segment e \<equiv> (if segment = ''/'' then None else Some e)"

definition match_segments :: "string list \<Rightarrow> endpoint option" where
  "match_segments segs =
     (if segs = [''health''] then Some EpHealth
      else if segs = [''live''] then Some EpLive
      else if take 2 segs \<noteq> [''api'', ''v1''] then None
      else case drop 2 segs of
             [a] \<Rightarrow> if a = ''alerts'' then Some EpAlerts
               else if a = ''lines'' then Some EpLines
               else if a = ''stations'' then Some EpStations
               else if a = ''status'' then Some EpStatus
               else None
           | [a, b] \<Rightarrow> if a = ''alerts'' then wildcard b (EpAlert b)
               else if a = ''lines'' then wildcard b (EpLine b)
               else if a = ''stations'' then wildcard b (EpStation b)
               else if a = ''analytics'' \<and> b = ''lines'' then Some EpAnalyticsLines
               else None
           | [a, b, c] \<Rightarrow> if a = ''alerts'' \<and> c = ''revisions'' then wildcard b (EpRevisions b)
               else if a = ''analytics'' \<and> b = ''lines'' then wildcard c (EpAnalyticsLine c)
               else None
           | _ \<Rightarrow> None)"

definition mux_match :: "string \<Rightarrow> endpoint option" where
  "mux_match path =
     (let segments = tl (split_on (CHR ''/'') path)
      in if [] \<in> set segments then None
         else match_segments (map (\<lambda>s. case path_unescape s of None \<Rightarrow> s | Some d \<Rightarrow> d) segments))"

definition dispatch :: "api_handler \<Rightarrow> endpoint \<Rightarrow> string \<Rightarrow> http_headers \<Rightarrow> api_response" where
  "dispatch h e raw hs =
     (case e of
        EpHealth \<Rightarrow> handle_health h raw hs
      | EpLive \<Rightarrow> handle_live raw hs
      | EpAlerts \<Rightarrow> handle_alerts h raw hs
      | EpAlert k \<Rightarrow> handle_alert h k raw hs
      | EpRevisions k \<Rightarrow> handle_alert_revisions h k raw hs
      | EpLines \<Rightarrow> handle_lines h raw hs
      | EpLine k \<Rightarrow> handle_line h k raw hs
      | EpStations \<Rightarrow> handle_stations h raw hs
      | EpStation k \<Rightarrow> handle_station h k raw hs
      | EpAnalyticsLines \<Rightarrow> handle_line_analytics h raw hs
      | EpAnalyticsLine k \<Rightarrow> handle_line_analytics_detail h k raw hs
      | EpStatus \<Rightarrow> handle_status h raw hs)"

section \<open>Origins\<close>

definition origin_allowed :: "api_handler \<Rightarrow> string \<Rightarrow> bool" where
  "origin_allowed h origin \<longleftrightarrow> ah_origin h = ''*'' \<or> origin = ah_origin h"

definition apply_cors :: "api_handler \<Rightarrow> http_request \<Rightarrow> http_headers \<Rightarrow> http_headers" where
  "apply_cors h rq hs =
     (let hs = add_header ''Vary'' ''Origin'' hs; origin = rq_header rq ''Origin''
      in if origin \<noteq> [] \<and> origin_allowed h origin
         then set_header ''Access-Control-Allow-Origin'' (ah_origin h) hs else hs)"

text \<open>\<open>strings.TrimSpace\<close> with the Unicode spaces.\<close>

definition space_rune :: "rune \<Rightarrow> bool" where
  "space_rune r \<longleftrightarrow> r = 32 \<or> 9 \<le> r \<and> r \<le> 13 \<or> r = 133 \<or> r = 160 \<or> r = 5760 \<or> 8192 \<le> r \<and> r \<le> 8202 \<or>
     r = 8232 \<or> r = 8233 \<or> r = 8239 \<or> r = 8287 \<or> r = 12288"

definition trim_runes :: "string \<Rightarrow> string" where
  "trim_runes s = string_of_runes (rev (dropWhile space_rune (rev (dropWhile space_rune (runes s)))))"

definition only_content_type_requested :: "string \<Rightarrow> bool" where
  "only_content_type_requested value =
     list_all (\<lambda>x. equal_fold (trim_runes x) ''Content-Type'') (split_on (CHR '','') value)"

definition handle_options :: "api_handler \<Rightarrow> http_request \<Rightarrow> http_headers \<Rightarrow> api_response" where
  "handle_options h rq hs =
     (let origin = rq_header rq ''Origin'';
          requested_method = rq_header rq ''Access-Control-Request-Method'';
          requested_headers = rq_header rq ''Access-Control-Request-Headers''
      in if requested_method = [] then \<lparr>hr_status = 204, hr_headers = hs, hr_body = None\<rparr>
         else if origin = [] then write_error hs 400 ''invalid_preflight'' (Errorf ''invalid CORS preflight request'' [])
         else if \<not> origin_allowed h origin then write_error hs 403 ''origin_not_allowed'' (Errorf ''origin not allowed'' [])
         else if requested_method \<noteq> ''GET'' then write_error hs 405 ''method_not_allowed'' (Errorf ''method not allowed'' [])
         else if requested_headers \<noteq> [] \<and> \<not> only_content_type_requested requested_headers
         then write_error hs 403 ''headers_not_allowed'' (Errorf ''request headers not allowed'' [])
         else
           (let hs = set_header ''Access-Control-Allow-Methods'' ''GET, OPTIONS'' hs;
                hs = (if requested_headers \<noteq> [] then set_header ''Access-Control-Allow-Headers'' ''Content-Type'' hs else hs);
                hs = set_header ''Access-Control-Max-Age'' ''600'' hs
            in \<lparr>hr_status = 204, hr_headers = hs, hr_body = None\<rparr>))"

section \<open>Serving\<close>

definition serve_http :: "api_handler \<Rightarrow> http_request \<Rightarrow> api_response" where
  "serve_http h rq =
     (let hs = set_header ''X-Content-Type-Options'' ''nosniff'' [];
          hs = set_header ''Cache-Control'' ''no-store'' hs;
          hs = apply_cors h rq hs
      in if \<not> canonical_request_path (rq_path rq) then not_found_response hs
         else case mux_match (rq_path rq) of
           None \<Rightarrow> not_found_response hs
         | Some e \<Rightarrow>
             if rq_method rq = ''OPTIONS'' then handle_options h rq (set_header ''Allow'' ''GET, OPTIONS'' hs)
             else if rq_method rq \<noteq> ''GET''
             then write_error (set_header ''Allow'' ''GET, OPTIONS'' hs) 405 ''method_not_allowed'' (Errorf ''method not allowed'' [])
             else dispatch h e (rq_query rq) hs)"

end
