(* ===== verification/ApiRules.thy ===== *)
theory ApiRules
  imports Api
begin

text \<open>
  What every response of the API has, whatever the request and the repository: its headers, its
  status, and what it can depend on.
\<close>

section \<open>Headers\<close>

definition content_type :: "string \<times> string" where
  "content_type = (''Content-Type'', ''application/json; charset=utf-8'')"

lemma set_header_mem: "(k, v) \<in> set (set_header k' v' hs) \<longleftrightarrow> (if k = k' then v = v' else (k, v) \<in> set hs)"
  by (auto simp: set_header_def)

lemma add_header_mem: "(k, v) \<in> set (add_header k' v' hs) \<longleftrightarrow> (k, v) = (k', v') \<or> (k, v) \<in> set hs"
  by (auto simp: add_header_def)

lemmas header_mems = set_header_mem add_header_mem

lemma write_json_headers [simp]: "hr_headers (write_json hs n p) = set_header (fst content_type) (snd content_type) hs"
  by (simp add: write_json_def content_type_def split: prod.split)

lemma write_json_status: "hr_status (write_json hs n p) = (if encodable p then n else 500)"
  by (simp add: write_json_def)

lemma write_error_headers [simp]: "hr_headers (write_error hs n c e) = set_header (fst content_type) (snd content_type) hs"
  by (simp add: write_error_def)

lemma write_error_status [simp]: "hr_status (write_error hs n c e) = n"
  by (simp add: write_error_def write_json_status encodable_def)

lemma not_found_simps [simp]:
  "hr_status (not_found_response hs) = 404" "hr_headers (not_found_response hs) = set_header (fst content_type) (snd content_type) hs"
  by (simp_all add: not_found_response_def)

lemma invalid_query_simps [simp]:
  "hr_status (invalid_query hs e) = 400" "hr_headers (invalid_query hs e) = set_header (fst content_type) (snd content_type) hs"
  by (simp_all add: invalid_query_def)

lemma respond_headers [simp]: "hr_headers (respond hs r body) = set_header (fst content_type) (snd content_type) hs"
  by (simp add: respond_def write_repository_error_def split: sum.split)

lemma respond_status: "hr_status (respond hs r body) \<in> {200, 404, 500, 504}"
  by (simp add: respond_def write_repository_error_def write_json_status split: sum.split)

section \<open>Handlers\<close>

lemmas handler_defs = handle_health_def handle_live_def handle_alerts_def handle_alert_def handle_alert_revisions_def
  handle_lines_def handle_line_def handle_stations_def handle_station_def handle_line_analytics_def
  handle_line_analytics_detail_def handle_status_def

lemma dispatch_headers [simp]: "hr_headers (dispatch h e raw hs) = set_header (fst content_type) (snd content_type) hs"
  by (cases e) (simp_all add: dispatch_def handler_defs Let_def split: option.split sum.split)

definition get_statuses :: "nat set" where
  "get_statuses = {200, 400, 404, 500, 503, 504}"

lemma respond_statuses [simp]: "hr_status (respond hs r body) \<in> get_statuses"
  using respond_status [of hs r body] by (auto simp: get_statuses_def)

lemma write_json_statuses [simp]: "n \<in> get_statuses \<Longrightarrow> hr_status (write_json hs n p) \<in> get_statuses"
  by (simp add: write_json_status get_statuses_def)

lemma get_statuses_mems [simp]: "200 \<in> get_statuses" "400 \<in> get_statuses" "404 \<in> get_statuses" "503 \<in> get_statuses"
  by (simp_all add: get_statuses_def)

lemma dispatch_status: "hr_status (dispatch h e raw hs) \<in> get_statuses"
  by (cases e) (simp_all add: dispatch_def handler_defs Let_def split: option.split sum.split)

lemma options_status: "hr_status (handle_options h rq hs) \<in> {204, 400, 403, 405}"
  by (simp add: handle_options_def Let_def)

lemma options_header: "k \<notin> {''Content-Type'', ''Access-Control-Allow-Methods'', ''Access-Control-Allow-Headers'', ''Access-Control-Max-Age''} \<Longrightarrow>
  (k, v) \<in> set (hr_headers (handle_options h rq hs)) \<longleftrightarrow> (k, v) \<in> set hs"
  by (simp add: handle_options_def Let_def header_mems content_type_def)

section \<open>Valid queries\<close>

text \<open>A text of at most so many bytes and characters (0 is no limit), without control characters.\<close>

definition plain_text :: "nat \<Rightarrow> nat \<Rightarrow> string \<Rightarrow> bool" where
  "plain_text max_bytes max_runes s \<longleftrightarrow> valid_utf8 s \<and> (max_bytes > 0 \<longrightarrow> length s \<le> max_bytes) \<and>
     (max_runes > 0 \<longrightarrow> rune_count s \<le> max_runes) \<and> list_all (\<lambda>r. \<not> is_control r) (runes s)"

lemma validate_string_None: "validate_string n s b r = None \<longleftrightarrow> plain_text b r s"
  by (auto simp: validate_string_def plain_text_def list_all_iff list_ex_iff not_less)

lemma text_param_Inr: "text_param values n b r = Inr s \<Longrightarrow> s \<noteq> [] \<Longrightarrow> plain_text b r s"
  by (auto simp: text_param_def bind_res_Inr validate_string_None split: option.splits)

lemma positive_int_Inr:
  assumes "positive_int values n d m = Inr x" and "1 \<le> d" and "d \<le> m"
  shows "1 \<le> x \<and> x \<le> m"
proof -
  from assms(1) obtain v where v: "scalar_param values n = Inr v" by (auto simp: positive_int_def bind_res_Inr)
  show ?thesis
  proof (cases v)
    case (Some s)
    then show ?thesis using assms v by (cases "atoi s") (auto simp: positive_int_def split: if_splits)
  qed (use assms v in \<open>simp add: positive_int_def\<close>)
qed

definition short_text :: "nat \<Rightarrow> nat \<Rightarrow> string \<Rightarrow> bool" where
  "short_text max_bytes max_runes s \<longleftrightarrow> s = [] \<or> plain_text max_bytes max_runes s"

definition valid_alert_query :: "instant \<Rightarrow> alert_query \<Rightarrow> bool" where
  "valid_alert_query now q \<longleftrightarrow> aq_now q = now \<and> aq_status q \<in> set alert_statuses \<and>
     short_text 256 0 (aq_line q) \<and> short_text 256 0 (aq_station q) \<and>
     short_text 64 0 (aq_cause q) \<and> short_text 64 0 (aq_effect q) \<and>
     (\<forall>f t. aq_from q = Some f \<longrightarrow> aq_to q = Some t \<longrightarrow> f < t) \<and>
     (if aq_status q = ''historical'' then 1 \<le> aq_page q \<and> aq_page q \<le> 1000 \<and> 1 \<le> aq_size q \<and> aq_size q \<le> 100
      else aq_page q = 0 \<and> aq_size q = 0)"

definition valid_station_query :: "station_query \<Rightarrow> bool" where
  "valid_station_query q \<longleftrightarrow> short_text 0 100 (sq_text q) \<and> short_text 256 0 (sq_line q)"

definition valid_analytics_query :: "instant \<Rightarrow> analytics_query \<Rightarrow> bool" where
  "valid_analytics_query now q \<longleftrightarrow> aa_now q = now \<and> aa_from q < aa_to q \<and> aa_to q - aa_from q \<le> 366 * day_length \<and>
     aa_interval q \<in> {''day'', ''week''}"

definition valid_id :: "string \<Rightarrow> bool" where
  "valid_id s \<longleftrightarrow> s \<noteq> [] \<and> plain_text 256 0 s"

lemma resource_id_Some: "resource_id s = Some k \<longleftrightarrow> k = s \<and> valid_id s"
  by (auto simp: resource_id_def valid_id_def validate_string_None)

lemma resource_id_None: "resource_id s = None \<longleftrightarrow> \<not> valid_id s"
  by (auto simp: resource_id_def valid_id_def validate_string_None)

lemma alert_id_pos: "alert_id s = Some k \<Longrightarrow> 0 < k"
  by (auto simp: alert_id_def split: if_splits option.splits)

lemma text_param_short: "text_param values n b r = Inr s \<Longrightarrow> short_text b r s"
  using text_param_Inr by (cases "s = []") (simp_all add: short_text_def)

lemma station_query_valid: "station_query_of h raw = Inr q \<Longrightarrow> valid_station_query q"
  by (auto simp: station_query_of_def bind_res_Inr valid_station_query_def dest: text_param_short)

lemma alert_query_valid: "alert_query_of h raw = Inr q \<Longrightarrow> valid_alert_query (ah_now h) q"
  unfolding alert_query_of_def
  apply (clarsimp simp: bind_res_Inr Let_def split: if_splits)
  subgoal for vs st l s c e f t page size
    using positive_int_Inr [of vs "''page''" 1 _ page] positive_int_Inr [of vs "''page_size''" 25 _ size]
    by (auto simp: valid_alert_query_def max_historical_alert_page_def dest: text_param_short split: option.splits)
  subgoal by (auto simp: valid_alert_query_def dest: text_param_short split: option.splits)
  done

lemma range_bound: "\<not> 366 * day_length < time_sub t f \<Longrightarrow> t - f \<le> 366 * day_length"
  by (auto simp: time_sub_def day_length_def min_duration_def max_duration_def split: if_splits)

lemma analytics_query_valid: "analytics_query_of h raw c = Inr q \<Longrightarrow> valid_analytics_query (ah_now h) q"
  unfolding analytics_query_of_def
  apply (clarsimp simp: bind_res_Inr Let_def split: if_splits)
  subgoal by (drule range_bound) (auto simp: valid_analytics_query_def)
  subgoal by (drule range_bound) (auto simp: valid_analytics_query_def)
  done

section \<open>What a request can ask\<close>

text \<open>Two repositories that give the same answers to valid questions.\<close>

definition same_answers :: "api_handler \<Rightarrow> read_repository \<Rightarrow> read_repository \<Rightarrow> bool" where
  "same_answers h r r' \<longleftrightarrow>
     (\<forall>q. valid_alert_query (ah_now h) q \<longrightarrow> rp_list_alerts r q = rp_list_alerts r' q) \<and>
     (\<forall>k > 0. rp_get_alert r k = rp_get_alert r' k \<and> rp_list_revisions r k = rp_list_revisions r' k) \<and>
     (\<forall>b. rp_list_lines r b (ah_now h) = rp_list_lines r' b (ah_now h)) \<and>
     (\<forall>k. valid_id k \<longrightarrow> rp_get_line r k (ah_now h) = rp_get_line r' k (ah_now h)) \<and>
     (\<forall>q. valid_station_query q \<longrightarrow> rp_list_stations r q (ah_now h) = rp_list_stations r' q (ah_now h)) \<and>
     (\<forall>k. valid_id k \<longrightarrow> rp_get_station r k (ah_now h) = rp_get_station r' k (ah_now h)) \<and>
     (\<forall>q. valid_analytics_query (ah_now h) q \<longrightarrow> rp_list_analytics r q = rp_list_analytics r' q) \<and>
     (\<forall>k q. valid_id k \<longrightarrow> valid_analytics_query (ah_now h) q \<longrightarrow> rp_get_analytics r k q = rp_get_analytics r' k q) \<and>
     rp_get_status r ((ah_status h)\<lparr>qy_now := ah_now h\<rparr>) = rp_get_status r' ((ah_status h)\<lparr>qy_now := ah_now h\<rparr>)"

abbreviation with_reads :: "api_handler \<Rightarrow> read_repository \<Rightarrow> api_handler" where
  "with_reads h r \<equiv> h\<lparr>ah_reads := r\<rparr>"

lemma with_reads_fields [simp]:
  "ah_now (with_reads h r) = ah_now h" "ah_iterate (with_reads h r) = ah_iterate h" "ah_origin (with_reads h r) = ah_origin h"
  "ah_status (with_reads h r) = ah_status h" "ah_ping (with_reads h r) = ah_ping h" "ah_reads (with_reads h r) = r"
  by simp_all

lemma queries_with_reads [simp]:
  "alert_query_of (with_reads h r) raw = alert_query_of h raw"
  "station_query_of (with_reads h r) raw = station_query_of h raw"
  "analytics_query_of (with_reads h r) raw c = analytics_query_of h raw c"
  unfolding alert_query_of_def station_query_of_def analytics_query_of_def with_reads_fields by (rule refl)+

lemma origins_with_reads [simp]:
  "handle_options (with_reads h r) rq hs = handle_options h rq hs"
  "apply_cors (with_reads h r) rq hs = apply_cors h rq hs"
  unfolding handle_options_def apply_cors_def origin_allowed_def with_reads_fields by (rule refl)+

lemma dispatch_same_answers:
  assumes "same_answers h r r'"
  shows "dispatch (with_reads h r) e raw hs = dispatch (with_reads h r') e raw hs"
  using assms
  by (cases e)
    (auto simp: dispatch_def handler_defs Let_def same_answers_def resource_id_Some resource_id_None
      dest: alert_query_valid station_query_valid analytics_query_valid alert_id_pos split: option.split sum.split)

section \<open>Every response\<close>

definition base_headers :: http_headers where
  "base_headers = set_header ''Cache-Control'' ''no-store'' (set_header ''X-Content-Type-Options'' ''nosniff'' [])"

lemma serve_http_cases:
  "serve_http h rq =
     (case if canonical_request_path (rq_path rq) then mux_match (rq_path rq) else None of
        None \<Rightarrow> not_found_response (apply_cors h rq base_headers)
      | Some e \<Rightarrow>
          if rq_method rq = ''OPTIONS''
          then handle_options h rq (set_header ''Allow'' ''GET, OPTIONS'' (apply_cors h rq base_headers))
          else if rq_method rq \<noteq> ''GET''
          then write_error (set_header ''Allow'' ''GET, OPTIONS'' (apply_cors h rq base_headers)) 405 ''method_not_allowed''
            (Errorf ''method not allowed'' [])
          else dispatch h e (rq_query rq) (apply_cors h rq base_headers))"
  by (simp add: serve_http_def Let_def base_headers_def split: option.split)

definition own_headers :: "string set" where
  "own_headers = {''Content-Type'', ''Allow'', ''Access-Control-Allow-Methods'', ''Access-Control-Allow-Headers'',
     ''Access-Control-Max-Age''}"

lemma serve_http_headers:
  "k \<notin> own_headers \<Longrightarrow> (k, v) \<in> set (hr_headers (serve_http h rq)) \<longleftrightarrow> (k, v) \<in> set (apply_cors h rq base_headers)"
  by (simp add: serve_http_cases own_headers_def options_header header_mems content_type_def split: option.split)

lemma base_headers_eq: "base_headers = [(''X-Content-Type-Options'', ''nosniff''), (''Cache-Control'', ''no-store'')]"
  by (simp add: base_headers_def set_header_def)

lemma apply_cors_mem: "(k, v) \<in> set (apply_cors h rq base_headers) \<longleftrightarrow>
   (if k = ''Access-Control-Allow-Origin''
    then v = ah_origin h \<and> rq_header rq ''Origin'' \<noteq> [] \<and> origin_allowed h (rq_header rq ''Origin'')
    else (k, v) \<in> {(''X-Content-Type-Options'', ''nosniff''), (''Cache-Control'', ''no-store''), (''Vary'', ''Origin'')})"
  by (auto simp: apply_cors_def Let_def header_mems base_headers_eq)

lemma serve_http_status: "hr_status (serve_http h rq) \<in> get_statuses \<union> {204, 403, 405}"
  using options_status [of h rq "set_header ''Allow'' ''GET, OPTIONS'' (apply_cors h rq base_headers)"]
  by (auto simp: serve_http_cases dispatch_status get_statuses_def split: option.split)
    (use dispatch_status in \<open>auto simp: get_statuses_def\<close>)

definition preflight_accepted :: "api_handler \<Rightarrow> http_request \<Rightarrow> bool" where
  "preflight_accepted h rq \<longleftrightarrow>
     rq_header rq ''Access-Control-Request-Method'' = ''GET'' \<and> rq_header rq ''Origin'' \<noteq> [] \<and>
     origin_allowed h (rq_header rq ''Origin'') \<and>
     (rq_header rq ''Access-Control-Request-Headers'' = [] \<or>
      only_content_type_requested (rq_header rq ''Access-Control-Request-Headers''))"

lemma options_headers:
  assumes "\<And>v. (''Content-Type'', v) \<notin> set hs" "\<And>v. (''Access-Control-Allow-Methods'', v) \<notin> set hs"
    "\<And>v. (''Access-Control-Allow-Headers'', v) \<notin> set hs" "\<And>v. (''Access-Control-Max-Age'', v) \<notin> set hs"
  shows "(k, v) \<in> set (hr_headers (handle_options h rq hs)) \<longleftrightarrow>
    (k, v) \<in> set hs \<or> hr_status (handle_options h rq hs) \<noteq> 204 \<and> (k, v) = content_type \<or>
    preflight_accepted h rq \<and>
      ((k, v) \<in> {(''Access-Control-Allow-Methods'', ''GET, OPTIONS''), (''Access-Control-Max-Age'', ''600'')} \<or>
       rq_header rq ''Access-Control-Request-Headers'' \<noteq> [] \<and> (k, v) = (''Access-Control-Allow-Headers'', ''Content-Type''))"
  using assms
  by (auto simp: handle_options_def Let_def preflight_accepted_def header_mems content_type_def)

lemma options_body: "hr_body (handle_options h rq hs) = None \<longleftrightarrow> hr_status (handle_options h rq hs) = 204"
  by (simp add: handle_options_def Let_def write_error_def write_json_def split: prod.split)

lemma options_no_content: "hr_status (handle_options h rq hs) = 204 \<longleftrightarrow>
    rq_header rq ''Access-Control-Request-Method'' = [] \<or> preflight_accepted h rq"
  by (auto simp: handle_options_def Let_def preflight_accepted_def)

lemma write_json_body [simp]: "\<exists>p. hr_body (write_json hs n p') = Some p"
  by (simp add: write_json_def split: prod.split)

lemma error_bodies [simp]: "\<exists>p. hr_body (write_error hs n c e) = Some p" "\<exists>p. hr_body (not_found_response hs) = Some p"
  "\<exists>p. hr_body (invalid_query hs e) = Some p"
  by (simp_all add: write_error_def not_found_response_def invalid_query_def)

lemma respond_body [simp]: "\<exists>p. hr_body (respond hs r body) = Some p"
  by (simp add: respond_def write_repository_error_def split: sum.split)

lemma dispatch_body [simp]: "\<exists>p. hr_body (dispatch h e raw hs) = Some p"
  by (cases e) (simp_all add: dispatch_def handler_defs Let_def split: option.split sum.split)

lemma dispatch_content [simp]: "hr_status (dispatch h e raw hs) \<noteq> 204"
  using dispatch_status [of h e raw hs] by (auto simp: get_statuses_def)

text \<open>The endpoint a request is for, and the four ways to answer.\<close>

definition endpoint_of :: "http_request \<Rightarrow> endpoint option" where
  "endpoint_of rq = (if canonical_request_path (rq_path rq) then mux_match (rq_path rq) else None)"

lemma served_not_found: "endpoint_of rq = None \<Longrightarrow> serve_http h rq = not_found_response (apply_cors h rq base_headers)"
  and served_options: "endpoint_of rq = Some e \<Longrightarrow> rq_method rq = ''OPTIONS'' \<Longrightarrow>
    serve_http h rq = handle_options h rq (set_header ''Allow'' ''GET, OPTIONS'' (apply_cors h rq base_headers))"
  and served_other: "endpoint_of rq = Some e \<Longrightarrow> rq_method rq \<noteq> ''OPTIONS'' \<Longrightarrow> rq_method rq \<noteq> ''GET'' \<Longrightarrow>
    serve_http h rq = write_error (set_header ''Allow'' ''GET, OPTIONS'' (apply_cors h rq base_headers)) 405
      ''method_not_allowed'' (Errorf ''method not allowed'' [])"
  and served_get: "endpoint_of rq = Some e \<Longrightarrow> rq_method rq = ''GET'' \<Longrightarrow>
    serve_http h rq = dispatch h e (rq_query rq) (apply_cors h rq base_headers)"
  by (simp_all add: serve_http_cases endpoint_of_def)

lemmas served = served_not_found served_options served_other served_get

lemma request_cases:
  obtains "endpoint_of rq = None"
  | e where "endpoint_of rq = Some e" "rq_method rq = ''OPTIONS''"
  | e where "endpoint_of rq = Some e" "rq_method rq \<noteq> ''OPTIONS''" "rq_method rq \<noteq> ''GET''"
  | e where "endpoint_of rq = Some e" "rq_method rq = ''GET''"
  by (cases "endpoint_of rq") auto

lemma served_headers: "(k, v) \<in> set (hr_headers (serve_http h rq)) \<longleftrightarrow>
    (k, v) \<in> set (apply_cors h rq base_headers) \<or>
    hr_status (serve_http h rq) \<noteq> 204 \<and> (k, v) = content_type \<or>
    endpoint_of rq \<noteq> None \<and> rq_method rq \<noteq> ''GET'' \<and> (k, v) = (''Allow'', ''GET, OPTIONS'') \<or>
    endpoint_of rq \<noteq> None \<and> rq_method rq = ''OPTIONS'' \<and> preflight_accepted h rq \<and>
      ((k, v) \<in> {(''Access-Control-Allow-Methods'', ''GET, OPTIONS''), (''Access-Control-Max-Age'', ''600'')} \<or>
       rq_header rq ''Access-Control-Request-Headers'' \<noteq> [] \<and> (k, v) = (''Access-Control-Allow-Headers'', ''Content-Type''))"
proof (cases rule: request_cases [of rq])
  case 1
  then show ?thesis by (auto simp: served header_mems apply_cors_mem content_type_def)
next
  case (2 e)
  then show ?thesis
    by (subst served_options [OF 2], subst options_headers)
      (auto simp: served header_mems apply_cors_mem content_type_def)
next
  case (3 e)
  then show ?thesis by (auto simp: served header_mems apply_cors_mem content_type_def)
next
  case (4 e)
  then show ?thesis by (auto simp: served header_mems apply_cors_mem content_type_def)
qed

lemma served_body: "hr_body (serve_http h rq) = None \<longleftrightarrow> hr_status (serve_http h rq) = 204"
  and served_empty: "hr_status (serve_http h rq) = 204 \<longleftrightarrow> endpoint_of rq \<noteq> None \<and> rq_method rq = ''OPTIONS'' \<and>
    (rq_header rq ''Access-Control-Request-Method'' = [] \<or> preflight_accepted h rq)"
proof -
  have some: "\<exists>p. x = Some p \<Longrightarrow> x \<noteq> None" for x :: "payload option" by auto
  show "hr_body (serve_http h rq) = None \<longleftrightarrow> hr_status (serve_http h rq) = 204"
    by (cases rule: request_cases [of rq])
      (simp_all add: served options_body some del: not_None_eq)
  show "hr_status (serve_http h rq) = 204 \<longleftrightarrow> endpoint_of rq \<noteq> None \<and> rq_method rq = ''OPTIONS'' \<and>
      (rq_header rq ''Access-Control-Request-Method'' = [] \<or> preflight_accepted h rq)"
    by (cases rule: request_cases [of rq]) (simp_all add: served options_no_content)
qed

end
