(* ===== verification/Calendar.thy ===== *)
theory Calendar
  imports ApiParams RealtimeDecode
begin

text \<open>
  The calendar: \<open>civil_of_day\<close> names the valid date whose day number \<open>day_of_civil\<close> gives, and the
  timestamps printed with the layout of RFC 3339 are read back.
\<close>

section \<open>Years\<close>

text \<open>In an era of 400 years from March: the year of a day, and the first and the last day of a year.\<close>

definition scaled_day :: "int \<Rightarrow> int" where
  "scaled_day d = d - d div 1460 + d div 36524 - d div 146096"

definition first_day :: "int \<Rightarrow> int" where
  "first_day y = 365 * y + y div 4 - y div 100"

definition last_day :: "int \<Rightarrow> int" where
  "last_day y = (if y = 399 then 146096 else first_day (y + 1) - 1)"

definition leap_year :: "int \<Rightarrow> bool" where
  "leap_year y \<longleftrightarrow> y mod 4 = 0 \<and> (y mod 100 \<noteq> 0 \<or> y mod 400 = 0)"

definition year_ok :: "int \<Rightarrow> bool" where
  "year_ok y \<longleftrightarrow> scaled_day (first_day y) div 365 = y \<and> scaled_day (last_day y) div 365 = y \<and>
     last_day y - first_day y = (if leap_year (y + 1) then 365 else 364)"

lemma years_ok: "list_all year_ok [0..399]"
  by code_simp

lemma scaled_day_step: "scaled_day d \<le> scaled_day (d + 1)"
proof -
  have "(d + 1) div 1460 \<le> d div 1460 + 1" by linarith
  moreover have "x div 146096 = x div 36524 div 4" for x :: int by (simp add: zdiv_zmult2_eq [symmetric])
  moreover have "d div 36524 \<le> (d + 1) div 36524" "(d + 1) div 36524 \<le> d div 36524 + 1" by linarith+
  moreover have "b div 4 - a div 4 \<le> b - a" if "a \<le> b" "b \<le> a + 1" for a b :: int using that by linarith
  ultimately have "(d + 1) div 146096 - d div 146096 \<le> (d + 1) div 36524 - d div 36524" by simp
  with \<open>(d + 1) div 1460 \<le> d div 1460 + 1\<close> show ?thesis by (simp add: scaled_day_def)
qed

lemma scaled_day_mono: "a \<le> b \<Longrightarrow> scaled_day a \<le> scaled_day b"
proof (induction b rule: int_ge_induct)
  case (step i)
  with scaled_day_step [of i] show ?case by linarith
qed simp

lemma day_in_some_year: "0 \<le> d \<Longrightarrow> d < first_day (int n) \<Longrightarrow> n \<le> 399 \<Longrightarrow> \<exists>y \<in> {0..<int n}. first_day y \<le> d \<and> d \<le> last_day y"
proof (induction n)
  case (Suc n)
  show ?case
  proof (cases "d < first_day (int n)")
    case True
    with Suc show ?thesis by fastforce
  next
    case False
    moreover have "d \<le> last_day (int n)" using Suc.prems by (simp add: last_day_def algebra_simps)
    ultimately show ?thesis by (intro bexI [of _ "int n"]) auto
  qed
qed (simp add: first_day_def)

lemma year_of_day:
  assumes "0 \<le> d" and "d < 146097"
  shows "\<exists>y \<in> {0..399}. scaled_day d div 365 = y \<and> first_day y \<le> d \<and> d \<le> first_day y + (if leap_year (y + 1) then 365 else 364)"
proof -
  obtain y where y: "y \<in> {0..399}" "first_day y \<le> d" "d \<le> last_day y"
  proof (cases "d < first_day 399")
    case True
    with day_in_some_year [of d 399] assms obtain y where "y \<in> {0..<399}" "first_day y \<le> d" "d \<le> last_day y" by auto
    then show ?thesis by (intro that [of y]) simp_all
  next
    case False
    with assms that [of 399] show ?thesis by (simp add: last_day_def)
  qed
  then have ok: "year_ok y" using years_ok by (auto simp: list_all_iff)
  have "scaled_day (first_day y) div 365 \<le> scaled_day d div 365" "scaled_day d div 365 \<le> scaled_day (last_day y) div 365"
    using scaled_day_mono y by (simp_all add: zdiv_mono1)
  with ok have "scaled_day d div 365 = y" by (simp add: year_ok_def)
  moreover have "last_day y = first_day y + (if leap_year (y + 1) then 365 else 364)" using ok by (simp add: year_ok_def)
  ultimately show ?thesis using y by (intro bexI [of _ y]) simp_all
qed

section \<open>Months\<close>

text \<open>Month and day of a day of the year, from March; day 365 is the 29th of February.\<close>

definition month_of :: "int \<Rightarrow> int" where
  "month_of doy = (let mp = (5 * doy + 2) div 153 in if mp < 10 then mp + 3 else mp - 9)"

definition mday_of :: "int \<Rightarrow> int" where
  "mday_of doy = doy - (153 * ((5 * doy + 2) div 153) + 2) div 5 + 1"

definition march_day :: "int \<Rightarrow> int \<Rightarrow> int" where
  "march_day m d = (153 * (if m > 2 then m - 3 else m + 9) + 2) div 5 + d - 1"

definition doy_ok :: "int \<Rightarrow> bool" where
  "doy_ok doy \<longleftrightarrow> 1 \<le> month_of doy \<and> month_of doy \<le> 12 \<and> 1 \<le> mday_of doy \<and>
     mday_of doy \<le> (if doy = 365 then 29 else days_in (month_of doy) 1) \<and> (doy = 365 \<longrightarrow> month_of doy = 2) \<and>
     march_day (month_of doy) (mday_of doy) = doy"

lemma doys_ok: "list_all doy_ok [0..365]"
  by code_simp

section \<open>Dates\<close>

lemma civil_of_day_eq:
  "civil_of_day z =
     (let doe = (z + 719468) mod 146097; yoe = scaled_day doe div 365; doy = doe - first_day yoe; m = month_of doy
      in (yoe + (z + 719468) div 146097 * 400 + (if m \<le> 2 then 1 else 0), m, mday_of doy))"
  unfolding civil_of_day_def Let_def scaled_day_def first_day_def month_of_def mday_of_def by (rule refl)

lemma day_of_civil_eq:
  "day_of_civil y m d =
     (if m \<le> 2 then y - 1 else y) div 400 * 146097 + first_day ((if m \<le> 2 then y - 1 else y) mod 400) +
     march_day m d - 719468"
  unfolding day_of_civil_def first_day_def march_day_def Let_def by (simp only: mult.commute add.assoc)

text \<open>A day number and its date determine each other, and the date is a valid one.\<close>

lemma civil_of_day_ok:
  assumes "civil_of_day z = (y, m, d)"
  shows "day_of_civil y m d = z" and "1 \<le> m" and "m \<le> 12" and "1 \<le> d" and "d \<le> days_in m y"
proof -
  let ?doe = "(z + 719468) mod 146097" and ?era = "(z + 719468) div 146097"
  obtain yoe where yoe: "yoe \<in> {0..399}" "scaled_day ?doe div 365 = yoe" "first_day yoe \<le> ?doe"
    "?doe \<le> first_day yoe + (if leap_year (yoe + 1) then 365 else 364)"
    using year_of_day [of ?doe] by auto
  let ?doy = "?doe - first_day yoe"
  have doy: "0 \<le> ?doy" "?doy \<le> 365" "?doy = 365 \<Longrightarrow> leap_year (yoe + 1)"
    using yoe(3,4) by (auto split: if_splits)
  then have ok: "doy_ok ?doy" using doys_ok by (auto simp: list_all_iff)
  have eqs: "y = yoe + ?era * 400 + (if m \<le> 2 then 1 else 0)" "m = month_of ?doy" "d = mday_of ?doy"
    using assms by (auto simp: civil_of_day_eq Let_def yoe(2))
  let ?y' = "if m \<le> 2 then y - 1 else y"
  have y': "?y' = yoe + ?era * 400" using eqs(1) by simp
  have "?y' div 400 = ?era" "?y' mod 400 = yoe" using yoe(1) by (simp_all add: y')
  moreover have "march_day m d = ?doy"
    using ok eqs(2,3) by (simp add: doy_ok_def)
  ultimately have "day_of_civil y m d = ?era * 146097 + first_day yoe + ?doy - 719468"
    unfolding day_of_civil_eq by simp
  then show "day_of_civil y m d = z" using div_mult_mod_eq [of "z + 719468" 146097] by linarith
  show "1 \<le> m" "m \<le> 12" "1 \<le> d" using ok eqs(2,3) by (simp_all add: doy_ok_def)
  show "d \<le> days_in m y"
  proof (cases "?doy = 365")
    case True
    then have m: "m = 2" "d \<le> 29" using ok eqs(2,3) by (simp_all add: doy_ok_def)
    have "leap_year y"
    proof -
      have "y = yoe + 1 + ?era * 400" using eqs(1) m(1) by simp
      moreover have "(a + ?era * 400) mod 4 = a mod 4" "(a + ?era * 400) mod 100 = a mod 100" for a
        using mod_mult_self1 [of a "?era * 100" 4] mod_mult_self1 [of a "?era * 4" 100] by (simp_all add: mult.assoc)
      ultimately show ?thesis using doy(3) [OF True] by (simp add: leap_year_def)
    qed
    then show ?thesis using m by (auto simp: days_in_def leap_year_def)
  next
    case False
    then have "d \<le> days_in m 1" using ok eqs(2,3) by (simp add: doy_ok_def)
    also have "\<dots> \<le> days_in m y" by (simp add: days_in_def)
    finally show ?thesis .
  qed
qed

section \<open>Digits\<close>

lemma digit_char_simps [simp]:
  "d < 10 \<Longrightarrow> is_digit (digit_char d)" "d < 10 \<Longrightarrow> int (ord (digit_char d) - 48) = int d"
  "d < 10 \<Longrightarrow> ord (digit_char d) - Suc 47 = d"
  by (simp_all add: is_digit_def digit_char_ord)

lemma decimal_one: "n < 10 \<Longrightarrow> decimal n = [digit_char n]"
  by (simp add: decimal.simps)

lemma decimal_more: "10 \<le> n \<Longrightarrow> decimal n = decimal (n div 10) @ [digit_char (n mod 10)]"
  by (subst decimal.simps) simp

lemma zero_digit: "CHR ''0'' = digit_char 0"
  by code_simp

text \<open>The digits of a number, at a width that holds it.\<close>

fun digits :: "nat \<Rightarrow> nat \<Rightarrow> string" where
  "digits 0 n = []"
| "digits (Suc w) n = digits w (n div 10) @ [digit_char (n mod 10)]"

lemma digits_zero: "digits w 0 = replicate w (digit_char 0)"
  by (induction w) (simp_all add: replicate_append_same)

lemma decimal_digits_width: "n < 10 ^ Suc w \<Longrightarrow> length (decimal n) \<le> Suc w \<and>
    replicate (Suc w - length (decimal n)) (digit_char 0) @ decimal n = digits (Suc w) n"
proof (induction w arbitrary: n)
  case 0
  then show ?case by (simp add: decimal_one)
next
  case (Suc w)
  show ?case
  proof (cases "n < 10")
    case True
    then show ?thesis by (simp add: decimal_one digits_zero replicate_append_same del: replicate_Suc)
  next
    case False
    then have "n div 10 < 10 ^ Suc w" using Suc.prems by auto
    note IH = Suc.IH [OF this]
    have "decimal n = decimal (n div 10) @ [digit_char (n mod 10)]" using False by (simp add: decimal_more)
    moreover have "digits (Suc (Suc w)) n = digits (Suc w) (n div 10) @ [digit_char (n mod 10)]" by (simp only: digits.simps)
    ultimately show ?thesis using IH by (simp del: digits.simps)
  qed
qed

lemma pad_int_digits: "0 \<le> i \<Longrightarrow> i < 10 ^ Suc w \<Longrightarrow> pad_int (Suc w) i = digits (Suc w) (nat i)"
proof -
  assume i: "0 \<le> i" "i < 10 ^ Suc w"
  then have "nat i < nat (10 ^ Suc w)" by (simp only: nat_less_eq_zless)
  then have "nat i < 10 ^ Suc w" by (simp only: nat_power_eq nat_numeral)
  with i show ?thesis using decimal_digits_width [of "nat i" w] by (simp add: pad_int_def Let_def zero_digit del: digits.simps)
qed

lemma digits_list: "list_all is_digit (digits w n)" "length (digits w n) = w"
  by (induction w arbitrary: n) simp_all

lemma digits_val_append: "digits_val acc (xs @ ys) = digits_val (digits_val acc xs) ys"
  by (induction acc xs rule: digits_val.induct) simp_all

lemma digits_val_digits: "digits_val 0 (digits w n) = int (n mod 10 ^ w)"
proof (induction w arbitrary: n)
  case (Suc w)
  have "n mod (10 * 10 ^ w) = 10 * (n div 10 mod 10 ^ w) + n mod 10" by (rule mod_mult2_eq)
  then show ?case by (simp add: digits_val_append Suc.IH)
qed simp

lemma read_padded:
  assumes "0 \<le> i" and "i < 10 ^ Suc w"
  shows "length (pad_int (Suc w) i) = Suc w" and "list_all is_digit (pad_int (Suc w) i)" and "digits_val 0 (pad_int (Suc w) i) = i"
proof -
  have "nat i mod 10 ^ Suc w = nat i"
    using assms by (intro mod_less) (metis nat_less_eq_zless nat_numeral nat_power_eq zero_le_numeral)
  then show "digits_val 0 (pad_int (Suc w) i) = i"
    using assms by (simp only: pad_int_digits digits_val_digits nat_0_le)
qed (simp_all add: pad_int_digits [OF assms] digits_list del: digits.simps)

lemma getnum_padded: "0 \<le> i \<Longrightarrow> i < 100 \<Longrightarrow> getnum fixed (pad_int 2 i @ s) = Some (i, s)"
proof -
  assume i: "0 \<le> i" "i < 100"
  note R = read_padded [of i 1, simplified, OF i]
  then obtain a b where ab: "pad_int 2 i = [a, b]"
    by (auto simp: numeral_2_eq_2 length_Suc_conv)
  with R show ?thesis by (simp add: numeral_2_eq_2 del: digits_val.simps)
qed

lemma get_year_padded: "0 \<le> i \<Longrightarrow> i < 10000 \<Longrightarrow> get_year (pad_int 4 i @ s) = Some (i, s)"
proof -
  assume i: "0 \<le> i" "i < 10000"
  have "Suc 3 = (4::nat)" "(10::int) ^ Suc 3 = 10000" by simp_all
  then have R: "length (pad_int 4 i) = 4" "list_all is_digit (pad_int 4 i)" "digits_val 0 (pad_int 4 i) = i"
    using read_padded [of i 3] i by (simp_all only:)
  then show ?thesis by (simp add: get_year_def)
qed

section \<open>Timestamps\<close>

lemma get_field_padded: "0 \<le> lo \<Longrightarrow> lo \<le> i \<Longrightarrow> i \<le> hi \<Longrightarrow> hi < 100 \<Longrightarrow> get_field c fixed lo hi (c # pad_int 2 i @ s) = Some (i, s)"
  by (simp add: get_field_def skip_char_def getnum_padded)

lemma civil_time_fields:
  fixes t :: instant
  defines "secs \<equiv> t div 1000000000"
  obtains y m d where "civil_of_day (secs div 86400) = (y, m, d)" and "ct_year (civil_time_of t) = y"
    "ct_month (civil_time_of t) = m" "ct_day (civil_time_of t) = d" "ct_hour (civil_time_of t) = secs mod 86400 div 3600"
    "ct_minute (civil_time_of t) = secs mod 86400 div 60 mod 60" "ct_second (civil_time_of t) = secs mod 86400 mod 60"
proof -
  obtain y m d where c: "civil_of_day (secs div 86400) = (y, m, d)" by (cases "civil_of_day (secs div 86400)")
  show thesis
    by (rule that [OF c]) (simp_all only: civil_time_of_def Let_def c [unfolded secs_def] secs_def prod.case civil_time.simps)
qed

lemma seconds_of_day: "(x :: int) div 3600 * 3600 + x div 60 mod 60 * 60 + x mod 60 = x"
proof -
  have "x div 3600 = x div 60 div 60" by (simp add: zdiv_zmult2_eq [symmetric])
  then have "x div 3600 * 60 + x div 60 mod 60 = x div 60" by (simp only: div_mult_mod_eq)
  then show ?thesis using div_mult_mod_eq [of x 60] by linarith
qed

text \<open>A printed time of the years 0 to 9999 is read as the start of its second.\<close>

lemma parse_format_rfc3339:
  assumes "0 \<le> ct_year (civil_time_of t)" and "ct_year (civil_time_of t) \<le> 9999"
  shows "parse_rfc3339 (format_rfc3339 (civil_time_of t)) = Some (t div 1000000000 * 1000000000)"
proof -
  let ?secs = "t div 1000000000" and ?c = "civil_time_of t"
  obtain y m d where c: "civil_of_day (?secs div 86400) = (y, m, d)"
    and f: "ct_year ?c = y" "ct_month ?c = m" "ct_day ?c = d" "ct_hour ?c = ?secs mod 86400 div 3600"
    "ct_minute ?c = ?secs mod 86400 div 60 mod 60" "ct_second ?c = ?secs mod 86400 mod 60"
    by (rule civil_time_fields)
  note ok = civil_of_day_ok [OF c]
  have dd: "0 \<le> d" "d \<le> 99" using ok by (auto simp: days_in_def split: if_splits)
  have mods: "0 \<le> x mod 86400" "x mod 86400 < 86400" "0 \<le> x mod 60" "x mod 60 < 60" for x :: int by simp_all
  have hour: "0 \<le> ct_hour ?c" "ct_hour ?c \<le> 23" using mods(1,2) [of ?secs] unfolding f by linarith+
  have rest: "0 \<le> ct_minute ?c" "ct_minute ?c \<le> 59" "0 \<le> ct_second ?c" "ct_second ?c \<le> 59"
    using mods(3,4) [of "?secs mod 86400 div 60"] mods(3,4) [of "?secs mod 86400"] unfolding f by linarith+
  have frac: "get_fraction ''Z'' = (0, ''Z'')" "get_zone ''Z'' = Some (0, [])"
    by (simp_all add: get_fraction_def get_zone_def)
  have secs: "day_of_civil y m d * 86400 + ct_hour ?c * 3600 + ct_minute ?c * 60 + ct_second ?c = ?secs"
    using seconds_of_day [of "?secs mod 86400"] div_mult_mod_eq [of ?secs 86400] unfolding f ok(1) by (simp only: add.assoc)
  have "format_rfc3339 ?c = pad_int 4 y @ CHR ''-'' # pad_int 2 m @ CHR ''-'' # pad_int 2 d @ CHR ''T'' #
      pad_int 2 (ct_hour ?c) @ CHR '':'' # pad_int 2 (ct_minute ?c) @ CHR '':'' # pad_int 2 (ct_second ?c) @ ''Z''"
    by (simp add: format_rfc3339_def f)
  then show ?thesis
    using assms ok dd hour rest secs
    by (simp add: parse_rfc3339_def get_year_padded get_field_padded frac f(1))
qed

text \<open>\<open>time.Unix\<close> is exact as long as the seconds since the year 1 fit an int64.\<close>

lemma go_unix_exact:
  assumes "int v + unix_to_internal < 2 ^ 63"
  shows "go_unix v = int v * 1000000000"
proof -
  let ?n = "int v + unix_to_internal"
  have "(word_of_nat v + word_of_int unix_to_internal :: 64 word) = word_of_int ?n" by simp
  moreover have "sint (word_of_int ?n :: 64 word) = signed_take_bit 63 ?n"
    by (simp del: of_int_add add: sint_sbintrunc')
  moreover have "signed_take_bit 63 ?n = ?n"
    using assms by (intro signed_take_bit_int_eq_self) (simp_all add: unix_to_internal_def)
  ultimately show ?thesis by (simp only: go_unix_def add_diff_cancel_right')
qed

end
