(* ===== verification/ApiProperties.thy ===== *)
theory ApiProperties
  imports ApiRules Calendar Samples
begin

text \<open>
  The promises of the API that hold for every request and every repository, each with a concrete
  application.
\<close>

section \<open>Samples\<close>

text \<open>A repository that finds nothing, a handler with it, and a request.\<close>

definition empty_reads :: read_repository where
  "empty_reads = \<lparr>rp_list_alerts = (\<lambda>q. Inr \<lparr>ug_alerts = [], ug_page = aq_page q, ug_size = aq_size q, ug_total = 0\<rparr>),
     rp_get_alert = (\<lambda>_. Inl ErrNotFound), rp_list_revisions = (\<lambda>_. Inl ErrNotFound),
     rp_list_lines = (\<lambda>_ _. Inr []), rp_get_line = (\<lambda>_ _. Inl ErrNotFound),
     rp_list_stations = (\<lambda>_ _. Inr []), rp_get_station = (\<lambda>_ _. Inl ErrNotFound),
     rp_list_analytics = (\<lambda>_. Inr []), rp_get_analytics = (\<lambda>_ _. Inl ErrNotFound),
     rp_get_status = (\<lambda>_. Inl DeadlineExceeded)\<rparr>"

definition sample_api :: api_handler where
  "sample_api = \<lparr>ah_ping = None, ah_reads = empty_reads, ah_origin = ''http://localhost:5173'',
     ah_status = \<lparr>qy_now = 0, qy_alert_data_age = 0, qy_alert_check_age = 0, qy_gtfs_data_age = 0, qy_gtfs_check_age = 0,
       qy_alert_run = 0, qy_gtfs_run = 0, qy_tolerance = 0, qy_failures = 0\<rparr>, ah_now = 20000, ah_iterate = id\<rparr>"

definition sample_request :: "string \<Rightarrow> string \<Rightarrow> string \<Rightarrow> http_request" where
  "sample_request m path q = \<lparr>rq_method = m, rq_path = path, rq_query = q,
     rq_header = (\<lambda>k. if k = ''Origin'' then ''http://localhost:5173'' else [])\<rparr>"

section \<open>Responses\<close>

text \<open>C36: every response, whatever the request, forbids sniffing and caching and varies with the
  origin; it names the configured origin exactly when the request has one the handler allows; it has the
  content type of JSON exactly when it has a body, which is unless its status is 204. The allowed
  methods are named exactly when the path is one of the API and the method is not GET; the three
  headers of a preflight exactly when it asks for GET from an allowed origin and for no header but
  the content type, the one for headers only if it asks for one. There is no other header. The
  status is one of nine: 404 off the routes, 405 for a method that is neither GET nor OPTIONS, 204
  for an accepted preflight or an OPTIONS that is none. A request that is not a GET gets the same
  response from every repository.\<close>

theorem api_responses_are_framed:
  "let response = serve_http h rq;
      origin = rq_header rq ''Origin'';
      requested = rq_header rq ''Access-Control-Request-Method'';
      headers = rq_header rq ''Access-Control-Request-Headers'';
      allowed = (origin \<noteq> [] \<and> (ah_origin h = ''*'' \<or> origin = ah_origin h));
      routed = (canonical_request_path (rq_path rq) \<and> mux_match (rq_path rq) \<noteq> None);
      options = (routed \<and> rq_method rq = ''OPTIONS'');
      preflight = (options \<and> requested = ''GET'' \<and> allowed \<and> (headers = [] \<or> only_content_type_requested headers))
    in set (hr_headers response) =
        {(''X-Content-Type-Options'', ''nosniff''), (''Cache-Control'', ''no-store''), (''Vary'', ''Origin'')} \<union>
        (if allowed then {(''Access-Control-Allow-Origin'', ah_origin h)} else {}) \<union>
        (if hr_status response = 204 then {} else {(''Content-Type'', ''application/json; charset=utf-8'')}) \<union>
        (if routed \<and> rq_method rq \<noteq> ''GET'' then {(''Allow'', ''GET, OPTIONS'')} else {}) \<union>
        (if preflight then {(''Access-Control-Allow-Methods'', ''GET, OPTIONS''), (''Access-Control-Max-Age'', ''600'')} else {}) \<union>
        (if preflight \<and> headers \<noteq> [] then {(''Access-Control-Allow-Headers'', ''Content-Type'')} else {}) \<and>
      (hr_body response = None \<longleftrightarrow> hr_status response = 204) \<and>
      (hr_status response = 204 \<longleftrightarrow> preflight \<or> options \<and> requested = []) \<and>
      hr_status response \<in> {200, 204, 400, 403, 404, 405, 500, 503, 504} \<and>
      (\<not> routed \<longrightarrow> hr_status response = 404) \<and>
      (routed \<longrightarrow> rq_method rq \<notin> {''GET'', ''OPTIONS''} \<longrightarrow> hr_status response = 405) \<and>
      (rq_method rq \<noteq> ''GET'' \<longrightarrow> (\<forall>r. serve_http (h\<lparr>ah_reads := r\<rparr>) rq = response) \<and>
         hr_status response \<in> {204, 400, 403, 404, 405})"
proof -
  let ?allowed = "rq_header rq ''Origin'' \<noteq> [] \<and> (ah_origin h = ''*'' \<or> rq_header rq ''Origin'' = ah_origin h)"
  have routed: "(canonical_request_path (rq_path rq) \<and> mux_match (rq_path rq) \<noteq> None) = (endpoint_of rq \<noteq> None)"
    by (simp add: endpoint_of_def)
  have cors: "set (apply_cors h rq base_headers) =
      {(''X-Content-Type-Options'', ''nosniff''), (''Cache-Control'', ''no-store''), (''Vary'', ''Origin'')} \<union>
      (if ?allowed then {(''Access-Control-Allow-Origin'', ah_origin h)} else {})"
    by (auto simp: apply_cors_mem origin_allowed_def set_eq_iff)
  have pre: "preflight_accepted h rq \<longleftrightarrow> rq_header rq ''Access-Control-Request-Method'' = ''GET'' \<and> ?allowed \<and>
      (rq_header rq ''Access-Control-Request-Headers'' = [] \<or> only_content_type_requested (rq_header rq ''Access-Control-Request-Headers''))"
    by (auto simp: preflight_accepted_def origin_allowed_def)
  have headers: "set (hr_headers (serve_http h rq)) = set (apply_cors h rq base_headers) \<union>
      (if hr_status (serve_http h rq) = 204 then {} else {content_type}) \<union>
      (if endpoint_of rq \<noteq> None \<and> rq_method rq \<noteq> ''GET'' then {(''Allow'', ''GET, OPTIONS'')} else {}) \<union>
      (if (endpoint_of rq \<noteq> None \<and> rq_method rq = ''OPTIONS'') \<and> preflight_accepted h rq
       then {(''Access-Control-Allow-Methods'', ''GET, OPTIONS''), (''Access-Control-Max-Age'', ''600'')} else {}) \<union>
      (if ((endpoint_of rq \<noteq> None \<and> rq_method rq = ''OPTIONS'') \<and> preflight_accepted h rq) \<and> rq_header rq ''Access-Control-Request-Headers'' \<noteq> []
       then {(''Access-Control-Allow-Headers'', ''Content-Type'')} else {})"
    (is "_ = ?hs")
  proof (rule set_eqI)
    fix x :: "string \<times> string"
    obtain k v where "x = (k, v)" by fastforce
    then show "x \<in> set (hr_headers (serve_http h rq)) \<longleftrightarrow> x \<in> ?hs"
      by (simp only: served_headers) auto
  qed
  have gone: "endpoint_of rq = None \<Longrightarrow> hr_status (serve_http h rq) = 404"
    and refused: "endpoint_of rq \<noteq> None \<Longrightarrow> rq_method rq \<notin> {''GET'', ''OPTIONS''} \<Longrightarrow> hr_status (serve_http h rq) = 405"
    by (auto simp: served)
  have nine: "hr_status (serve_http h rq) \<in> {200, 204, 400, 403, 404, 405, 500, 503, 504}"
    using serve_http_status [of h rq] by (auto simp: get_statuses_def)
  have same: "serve_http (with_reads h r) rq = serve_http h rq" if "rq_method rq \<noteq> ''GET''" for r
    using that by (simp add: serve_http_cases split: option.split)
  have five: "hr_status (serve_http h rq) \<in> {204, 400, 403, 404, 405}" if "rq_method rq \<noteq> ''GET''"
    using that options_status [of h rq "set_header ''Allow'' ''GET, OPTIONS'' (apply_cors h rq base_headers)"]
    by (auto simp: serve_http_cases split: option.split)
  show ?thesis
    unfolding Let_def routed
    apply (intro conjI impI allI)
    subgoal unfolding headers cors content_type_def pre by (simp only: conj_assoc)
    subgoal by (rule served_body)
    subgoal unfolding served_empty pre by blast
    subgoal by (rule nine)
    subgoal using gone by blast
    subgoal using refused by blast
    subgoal by (rule same)
    subgoal by (rule five)
    done
qed

theorem api_responses_are_framed_witness:
  "(\<forall>r. serve_http (sample_api\<lparr>ah_reads := r\<rparr>) (sample_request ''POST'' ''/live'' []) =
     serve_http sample_api (sample_request ''POST'' ''/live'' [])) \<and>
   (''Access-Control-Allow-Origin'', ''http://localhost:5173'') \<in>
     set (hr_headers (serve_http sample_api (sample_request ''POST'' ''/live'' [])))"
proof -
  note framed = api_responses_are_framed [of sample_api "sample_request ''POST'' ''/live'' []", unfolded Let_def]
  have "ah_origin sample_api = ''http://localhost:5173''" "rq_header (sample_request ''POST'' ''/live'' []) ''Origin'' = ''http://localhost:5173''"
    by (simp_all add: sample_api_def sample_request_def)
  then have named: "(''Access-Control-Allow-Origin'', ''http://localhost:5173'') \<in>
      set (hr_headers (serve_http sample_api (sample_request ''POST'' ''/live'' [])))"
    unfolding framed [THEN conjunct1] by simp
  have "rq_method (sample_request ''POST'' ''/live'' []) \<noteq> ''GET''" by (simp add: sample_request_def)
  with named show ?thesis
    using framed [THEN conjunct2, THEN conjunct2, THEN conjunct2, THEN conjunct2, THEN conjunct2, THEN conjunct2] by blast
qed

section \<open>Questions\<close>

text \<open>C37: the repository is only asked valid questions. Two repositories that agree on the queries with
  a known status, short texts in UTF-8 without control characters, times in order, a page of at
  most 1000 and of 1 to 100 alerts, a range of at most 366 days and a positive or a valid id give
  the same response to every request.\<close>

theorem only_valid_queries_are_run:
  assumes "same_answers h r r'"
  shows "serve_http (h\<lparr>ah_reads := r\<rparr>) rq = serve_http (h\<lparr>ah_reads := r'\<rparr>) rq"
  by (simp add: serve_http_cases dispatch_same_answers [OF assms] split: option.split)

theorem only_valid_queries_are_run_witness:
  "serve_http (sample_api\<lparr>ah_reads := empty_reads\<lparr>rp_get_alert := \<lambda>k. if k > 0 then Inl ErrNotFound else Inl DeadlineExceeded\<rparr>\<rparr>)
     (sample_request ''GET'' ''/api/v1/alerts/0'' []) =
   serve_http sample_api (sample_request ''GET'' ''/api/v1/alerts/0'' [])"
proof -
  have "same_answers sample_api (empty_reads\<lparr>rp_get_alert := \<lambda>k. if k > 0 then Inl ErrNotFound else Inl DeadlineExceeded\<rparr>) empty_reads"
    by (simp add: same_answers_def empty_reads_def)
  from only_valid_queries_are_run [OF this, of "sample_request ''GET'' ''/api/v1/alerts/0'' []"]
  show ?thesis by (simp add: sample_api_def)
qed

section \<open>Times\<close>



end
