(* ===== verification/ApiAnswers.thy ===== *)
theory ApiAnswers
  imports ApiProperties StatusProperties AnalyticsProperties
begin

text \<open>
  The API over the read repository of a database, as \<open>cmd/api/main.go\<close> puts them together, and the
  response to every request when the database is one the workers reach and no query fails.
\<close>

section \<open>The service\<close>

text \<open>
  What is not in the repository: the case-insensitive match and the median of PostgreSQL, and the
  order in which Go iterates over the two kinds of breakdown.
\<close>

record database_env =
  dv_ilike :: "string \<Rightarrow> string \<Rightarrow> bool"
  dv_median :: "duration list \<Rightarrow> 64 word"
  dv_cause_first :: bool

definition database_reads :: "database_env \<Rightarrow> tx_io \<Rightarrow> db \<Rightarrow> read_repository" where
  "database_reads dv io db =
     \<lparr>rp_list_alerts = (\<lambda>q. list_alerts io q db),
      rp_get_alert = (\<lambda>k. get_alert io k db),
      rp_list_revisions = (\<lambda>k. list_alert_revisions io k db),
      rp_list_lines = (\<lambda>included now. list_lines io included now db),
      rp_get_line = (\<lambda>k now. get_line (dv_ilike dv) io k now db),
      rp_list_stations = (\<lambda>q now. list_stations (dv_ilike dv) io q now db),
      rp_get_station = (\<lambda>k now. get_station (dv_ilike dv) io k now db),
      rp_list_analytics = (\<lambda>q. list_line_analytics (dv_median dv) io q db),
      rp_get_analytics = (\<lambda>k q. get_line_analytics (dv_cause_first dv) (dv_median dv) io k q db),
      rp_get_status = (\<lambda>q. get_status io q db)\<rparr>"

text \<open>What an endpoint names is in the database.\<close>

definition known_resource :: "db \<Rightarrow> endpoint \<Rightarrow> bool" where
  "known_resource db e =
     (case e of
        EpAlert k \<Rightarrow> pred_option (\<lambda>n. n \<in> sa_id ` set (db_alerts db)) (alert_id k) \<and> alert_id k \<noteq> None
      | EpRevisions k \<Rightarrow> pred_option (\<lambda>n. n \<in> sa_id ` set (db_alerts db)) (alert_id k) \<and> alert_id k \<noteq> None
      | EpLine k \<Rightarrow> k \<in> rt_id ` set (all_routes db)
      | EpAnalyticsLine k \<Rightarrow> k \<in> rt_id ` set (all_routes db)
      | EpStation k \<Rightarrow> list_ex (\<lambda>x. st_id (sd_stop x) = k \<and> st_location_type (sd_stop x) = 1) (db_stops db)
      | _ \<Rightarrow> True)"

text \<open>A request the handler refuses: a query it cannot read, or an id that is not valid.\<close>

definition bad_request :: "api_handler \<Rightarrow> string \<Rightarrow> endpoint \<Rightarrow> bool" where
  "bad_request h raw e =
     (case e of
        EpAlerts \<Rightarrow> \<not> is_ok (alert_query_of h raw)
      | EpAlert k \<Rightarrow> alert_id k \<noteq> None \<and> raw \<noteq> []
      | EpRevisions k \<Rightarrow> alert_id k \<noteq> None \<and> raw \<noteq> []
      | EpLines \<Rightarrow> \<not> is_ok (bind_res (parse_query (ah_iterate h) raw [''include_replacement_bus''])
             (\<lambda>values. bool_param values ''include_replacement_bus'' False))
      | EpLine k \<Rightarrow> \<not> valid_id k \<or> raw \<noteq> []
      | EpStations \<Rightarrow> \<not> is_ok (station_query_of h raw)
      | EpStation k \<Rightarrow> \<not> valid_id k \<or> raw \<noteq> []
      | EpAnalyticsLines \<Rightarrow> \<not> is_ok (analytics_query_of h raw True)
      | EpAnalyticsLine k \<Rightarrow> \<not> valid_id k \<or> \<not> is_ok (analytics_query_of h raw False)
      | _ \<Rightarrow> raw \<noteq> [])"

section \<open>Every query returns\<close>

lemma read_tx_returns: "quiet io \<Longrightarrow> \<exists>x s. body \<lparr>se_db = db, se_faults = []\<rparr> = (Inr x, s) \<Longrightarrow> \<exists>x. read_tx io op body db = Inr x"
  using read_tx_quiet [of io body db] by (fastforce simp: quiet_def)

lemma read_tx_quiet_io: "quiet io \<Longrightarrow> read_tx io op body db = read_tx (quiet_io 0) op body db"
  by (simp add: read_tx_def quiet_def quiet_io_def split: sum.split)

lemma list_analytics_returns: "quiet io \<Longrightarrow> \<exists>xs. list_line_analytics median io q db = Inr xs"
  unfolding list_line_analytics_def by (rule read_tx_returns) (simp_all add: analytics_rules Let_def)

lemma list_lines_returns: "quiet io \<Longrightarrow> \<exists>xs. list_lines io b now db = Inr xs"
  unfolding list_lines_def by (rule read_tx_returns) (simp_all add: query_lines_quiet)

lemma list_stations_returns: "quiet io \<Longrightarrow> \<exists>xs. list_stations ilike io q now db = Inr xs"
  unfolding list_stations_def by (rule read_tx_returns) (simp_all add: query_stations_quiet)

lemma get_status_returns:
  assumes "quiet io" and "system_inv db"
  shows "\<exists>x. get_status io q db = Inr x"
proof -
  have "get_status io q db = get_status (quiet_io 0) q db"
    unfolding get_status_def Let_def read_tx_quiet_io [OF assms(1)] by (rule refl)
  moreover have "runs_inv db" "imports_inv db" using assms(2) by (simp_all add: system_inv_def db_inv_def gtfs_inv_def)
  ultimately show ?thesis using get_status_quiet by metis
qed

lemma list_alerts_returns:
  assumes "quiet io" and "served_inv env db" and "valid_alert_query now q"
  shows "\<exists>x. list_alerts io q db = Inr x"
proof (cases "aq_status q = ''historical''")
  case True
  then have p: "1 \<le> aq_page q" "aq_page q \<le> 1000" "1 \<le> aq_size q" "aq_size q \<le> 100"
    using assms(3) by (simp_all add: valid_alert_query_def)
  then have "aq_page q * aq_size q \<le> 1000 * 100" by (intro mult_mono) simp_all
  then have "page_offset (aq_page q) (aq_size q) = (aq_page q - 1) * aq_size q" using p by (intro page_offset_exact) simp_all
  with p show ?thesis using list_historical_quiet [OF assms(1,2) True] by simp
qed (use list_alerts_quiet [OF assms(1,2)] in simp)

section \<open>Every request is answered\<close>

text \<open>
  The payload of an answered endpoint: the result of the query that the request asks, over the
  database, with the metadata of the request. A page of one thing is the page of the id in the path.
\<close>

definition answers :: "database_env \<Rightarrow> tx_io \<Rightarrow> db \<Rightarrow> api_handler \<Rightarrow> string \<Rightarrow> endpoint \<Rightarrow> payload \<Rightarrow> bool" where
  "answers dv io db h raw e p \<longleftrightarrow>
     (case e of
        EpHealth \<Rightarrow> p = StateBody ''ok''
      | EpLive \<Rightarrow> p = StateBody ''ok''
      | EpAlerts \<Rightarrow> \<exists>q x. alert_query_of h raw = Inr q \<and> list_alerts io q db = Inr x \<and> p = alerts_body q x
      | EpAlert v \<Rightarrow> \<exists>k x. alert_id v = Some k \<and> get_alert io k db = Inr x \<and> ue_id x = k \<and> p = AlertBody x
      | EpRevisions v \<Rightarrow> \<exists>k xs. alert_id v = Some k \<and> list_alert_revisions io k db = Inr xs \<and>
          (\<forall>x \<in> set xs. ua_id x = k) \<and> p = RevisionsBody xs (length xs)
      | EpLines \<Rightarrow> \<exists>b xs. bind_res (parse_query (ah_iterate h) raw [''include_replacement_bus''])
            (\<lambda>values. bool_param values ''include_replacement_bus'' False) = Inr b \<and>
          list_lines io b (ah_now h) db = Inr xs \<and> p = LinesBody xs (length xs)
      | EpLine k \<Rightarrow> \<exists>x. get_line (dv_ilike dv) io k (ah_now h) db = Inr x \<and> ul_id (ld_line x) = k \<and> p = LineBody x
      | EpStations \<Rightarrow> \<exists>q xs. station_query_of h raw = Inr q \<and>
          list_stations (dv_ilike dv) io q (ah_now h) db = Inr xs \<and> p = StationsBody xs (length xs)
      | EpStation k \<Rightarrow> \<exists>x. get_station (dv_ilike dv) io k (ah_now h) db = Inr x \<and> ut_id (td_station x) = k \<and> p = StationBody x
      | EpAnalyticsLines \<Rightarrow> \<exists>q xs. analytics_query_of h raw True = Inr q \<and>
          list_line_analytics (dv_median dv) io q db = Inr xs \<and> p = AnalyticsListBody xs (new_analytics_meta q (length xs))
      | EpAnalyticsLine k \<Rightarrow> \<exists>q x. analytics_query_of h raw False = Inr q \<and>
          get_line_analytics (dv_cause_first dv) (dv_median dv) io k q db = Inr x \<and> ul_id (an_line x) = k \<and>
          p = AnalyticsBody x (new_analytics_meta q 1)
      | EpStatus \<Rightarrow> \<exists>x. get_status io ((ah_status h)\<lparr>qy_now := ah_now h\<rparr>) db = Inr x \<and>
          p = StatusBody x (status_meta_of ((ah_status h)\<lparr>qy_now := ah_now h\<rparr>)))"

text \<open>A payload is sent: with status 200 when it has an encoding, and otherwise an internal error.\<close>

definition delivered :: "api_response \<Rightarrow> payload \<Rightarrow> bool" where
  "delivered r p \<longleftrightarrow> hr_status r = (if encodable p then 200 else 500) \<and>
     hr_body r = Some (if encodable p then p else ErrorBody ''internal_error'' (Errorf ''internal server error'' []))"

lemma delivered_write [simp]: "delivered (write_json hs 200 p) p"
  by (simp add: delivered_def write_json_def internal_error_def)

text \<open>
  The response to a GET of an endpoint: 400 when it is refused, 404 when what it names is not there,
  503 when the database does not answer the ping, and otherwise the answer.
\<close>

definition failed_with :: "api_response \<Rightarrow> nat \<Rightarrow> string \<Rightarrow> bool" where
  "failed_with r status code \<longleftrightarrow> hr_status r = status \<and> (\<exists>m. hr_body r = Some (ErrorBody code m))"

definition good_response :: "database_env \<Rightarrow> tx_io \<Rightarrow> db \<Rightarrow> api_handler \<Rightarrow> string \<Rightarrow> endpoint \<Rightarrow> api_response \<Rightarrow> bool" where
  "good_response dv io db h raw e r \<longleftrightarrow>
     (if bad_request h raw e then failed_with r 400 ''invalid_query''
      else if \<not> known_resource db e then failed_with r 404 ''not_found''
      else if e = EpHealth \<and> ah_ping h \<noteq> None then hr_status r = 503 \<and> hr_body r = Some (StateBody ''unavailable'')
      else \<exists>p. answers dv io db h raw e p \<and> delivered r p)"

lemma write_error_failed [simp]: "failed_with (write_error hs n c e) n c"
  by (simp add: failed_with_def write_error_def write_json_def encodable_def)

lemma failed_kinds [simp]: "failed_with (not_found_response hs) 404 ''not_found''" "failed_with (invalid_query hs e) 400 ''invalid_query''"
  by (simp_all add: not_found_response_def invalid_query_def)

lemma respond_found [simp]: "respond hs (Inr x) body = write_json hs 200 (body x)"
  by (simp add: respond_def)

lemma respond_missing: "errors_is e ErrNotFound \<Longrightarrow> failed_with (respond hs (Inl e) body) 404 ''not_found''"
  by (simp add: respond_def write_repository_error_def)

lemma not_found_is: "errors_is (not_found k) ErrNotFound" "errors_is (line_not_found l) ErrNotFound" "errors_is (station_not_found l) ErrNotFound"
  by (simp_all add: not_found_def line_not_found_def station_not_found_def)

lemma is_ok_values [simp]: "is_ok (Inr x)" "\<not> is_ok (Inl e)"
  by (simp_all add: is_ok_def)

lemma missing_good: "\<exists>e. r = Inl e \<and> errors_is e ErrNotFound \<Longrightarrow> failed_with (respond hs r body) 404 ''not_found''"
  using respond_missing by auto

lemma list_good: "\<exists>x. r = Inr x \<and> Q x \<Longrightarrow> \<exists>p. (\<exists>x. r = Inr x \<and> Q x \<and> p = body x) \<and> delivered (respond hs r body) p"
  by auto

lemma all_good: "\<exists>x. r = Inr x \<Longrightarrow> \<exists>p. (\<exists>x. r = Inr x \<and> p = body x) \<and> delivered (respond hs r body) p"
  by auto

lemma find_alert_row_iff: "find_alert_row db k \<noteq> None \<longleftrightarrow> k \<in> sa_id ` set (db_alerts db)"
  by (force simp: find_alert_row_def find_None_iff)

text \<open>What is looked up is found exactly when it is there.\<close>

lemma revision_of_alert: "ua_id (presented_revision db a r) = sa_id a"
  by (simp add: presented_revision_def presented_def Let_def current_alert.defs)

lemma alert_found:
  assumes io: "quiet io" and inv: "served_inv env db"
  shows "k \<in> sa_id ` set (db_alerts db) \<Longrightarrow> \<exists>x. get_alert io k db = Inr x \<and> ue_id x = k"
    and "k \<notin> sa_id ` set (db_alerts db) \<Longrightarrow> \<exists>e. get_alert io k db = Inl e \<and> errors_is e ErrNotFound"
    and "k \<in> sa_id ` set (db_alerts db) \<Longrightarrow> \<exists>xs. list_alert_revisions io k db = Inr xs \<and> (\<forall>x \<in> set xs. ua_id x = k)"
    and "k \<notin> sa_id ` set (db_alerts db) \<Longrightarrow> \<exists>e. list_alert_revisions io k db = Inl e \<and> errors_is e ErrNotFound"
  using find_alert_row_iff [of db k]
  by (auto simp: get_alert_quiet [OF io inv] list_revisions_quiet [OF io inv] not_found_is detail_of_def Let_def
      revision_of_alert split: option.split dest: find_alert_row_Some)

lemma line_found:
  assumes io: "quiet io" and inv: "served_inv env db" and "k \<noteq> []"
  shows "k \<in> rt_id ` set (all_routes db) \<Longrightarrow> \<exists>x. get_line ilike io k now db = Inr x \<and> ul_id (ld_line x) = k"
    and "k \<notin> rt_id ` set (all_routes db) \<Longrightarrow> \<exists>e. get_line ilike io k now db = Inl e \<and> errors_is e ErrNotFound"
    and "k \<in> rt_id ` set (all_routes db) \<Longrightarrow> \<exists>x. get_line_analytics c median io k q db = Inr x \<and> ul_id (an_line x) = k"
    and "k \<notin> rt_id ` set (all_routes db) \<Longrightarrow> \<exists>e. get_line_analytics c median io k q db = Inl e \<and> errors_is e ErrNotFound"
proof -
  show "\<exists>x. get_line ilike io k now db = Inr x \<and> ul_id (ld_line x) = k" if k: "k \<in> rt_id ` set (all_routes db)"
  proof -
    obtain r where r: "r \<in> set (all_routes db)" "rt_id r = k" using k by auto
    have "filter (\<lambda>x. k \<noteq> [] \<longrightarrow> rt_id x = k) (all_routes db) = [r]"
      using filter_key_unique [OF route_ids_distinct [OF inv] r(1)] r(2) assms(3) by simp
    then show ?thesis using r by (simp add: get_line_quiet [OF io inv] Let_def)
  qed
qed (use assms(3) in \<open>auto simp: get_line_quiet [OF io inv] Let_def not_found_is filter_empty_conv get_analytics_missing [OF io]
      get_analytics_quiet [OF io route_ids_distinct [OF inv]] analytics_of_def\<close>)

lemma shown_station_id: "k \<noteq> [] \<Longrightarrow> x \<in> set (shown_stations ilike q now k db) \<Longrightarrow> ut_id x = k"
  by (auto simp: shown_stations_def station_matches_def station_of_def)

lemma station_found:
  assumes io: "quiet io" and inv: "served_inv env db" and "k \<noteq> []"
  shows "list_ex (\<lambda>x. st_id (sd_stop x) = k \<and> st_location_type (sd_stop x) = 1) (db_stops db) \<Longrightarrow>
      \<exists>x. get_station ilike io k now db = Inr x \<and> ut_id (td_station x) = k"
    and "\<not> list_ex (\<lambda>x. st_id (sd_stop x) = k \<and> st_location_type (sd_stop x) = 1) (db_stops db) \<Longrightarrow>
      \<exists>e. get_station ilike io k now db = Inl e \<and> errors_is e ErrNotFound"
proof -
  let ?found = "shown_stations ilike \<lparr>sq_text = [], sq_line = []\<rparr> now k db"
  have found: "?found = [] \<longleftrightarrow> \<not> list_ex (\<lambda>x. st_id (sd_stop x) = k \<and> st_location_type (sd_stop x) = 1) (db_stops db)"
    using assms(3) by (auto simp: filter_empty_conv shown_stations_def station_matches_def list_ex_iff)
  have "?found \<noteq> [] \<Longrightarrow> ut_id (hd ?found) = k" using shown_station_id [OF assms(3)] hd_in_set by blast
  with found show "list_ex (\<lambda>x. st_id (sd_stop x) = k \<and> st_location_type (sd_stop x) = 1) (db_stops db) \<Longrightarrow>
      \<exists>x. get_station ilike io k now db = Inr x \<and> ut_id (td_station x) = k"
    by (simp add: get_station_quiet [OF io inv] Let_def)
  show "\<not> list_ex (\<lambda>x. st_id (sd_stop x) = k \<and> st_location_type (sd_stop x) = 1) (db_stops db) \<Longrightarrow>
      \<exists>e. get_station ilike io k now db = Inl e \<and> errors_is e ErrNotFound"
    using found by (simp add: get_station_quiet [OF io inv] Let_def not_found_is)
qed

lemma is_ok_cases: "is_ok r \<longleftrightarrow> (\<exists>x. r = Inr x)"
  by (cases r) (simp_all add: is_ok_def)

lemmas good_defs = good_response_def dispatch_def bad_request_def known_resource_def answers_def

lemma alert_endpoints_good:
  assumes io: "quiet io" and inv: "served_inv env db" and reads: "ah_reads h = database_reads dv io db"
  shows "good_response dv io db h raw EpAlerts (dispatch h EpAlerts raw hs)"
    and "good_response dv io db h raw (EpAlert k) (dispatch h (EpAlert k) raw hs)"
    and "good_response dv io db h raw (EpRevisions k) (dispatch h (EpRevisions k) raw hs)"
proof -
  show "good_response dv io db h raw EpAlerts (dispatch h EpAlerts raw hs)"
  proof (cases "alert_query_of h raw")
    case (Inr q)
    show ?thesis
      using all_good [OF list_alerts_returns [OF io inv alert_query_valid [OF Inr]]] Inr
      by (simp add: good_defs handle_alerts_def reads database_reads_def)
  qed (simp add: good_defs handle_alerts_def)
  note A = alert_found [OF io inv]
  show "good_response dv io db h raw (EpAlert k) (dispatch h (EpAlert k) raw hs)"
    using list_good [OF A(1)] missing_good [OF A(2)] by (cases "alert_id k") (simp_all add: good_defs handle_alert_def reads database_reads_def)
  show "good_response dv io db h raw (EpRevisions k) (dispatch h (EpRevisions k) raw hs)"
    using list_good [OF A(3)] missing_good [OF A(4)] by (cases "alert_id k") (simp_all add: good_defs handle_alert_revisions_def reads database_reads_def)
qed

lemma network_endpoints_good:
  assumes io: "quiet io" and inv: "served_inv env db" and reads: "ah_reads h = database_reads dv io db"
  shows "good_response dv io db h raw EpLines (dispatch h EpLines raw hs)"
    and "good_response dv io db h raw (EpLine k) (dispatch h (EpLine k) raw hs)"
    and "good_response dv io db h raw EpStations (dispatch h EpStations raw hs)"
    and "good_response dv io db h raw (EpStation k) (dispatch h (EpStation k) raw hs)"
proof -
  show "good_response dv io db h raw EpLines (dispatch h EpLines raw hs)"
    using all_good [OF list_lines_returns [OF io]]
    by (auto simp: good_defs handle_lines_def reads database_reads_def is_ok_def split: sum.split)
  show "good_response dv io db h raw EpStations (dispatch h EpStations raw hs)"
    using all_good [OF list_stations_returns [OF io]]
    by (auto simp: good_defs handle_stations_def reads database_reads_def is_ok_def split: sum.split)
  have ne: "valid_id k \<Longrightarrow> k \<noteq> []" by (simp add: valid_id_def)
  show "good_response dv io db h raw (EpLine k) (dispatch h (EpLine k) raw hs)"
    using list_good [OF line_found(1) [OF io inv ne]] missing_good [OF line_found(2) [OF io inv ne]]
    by (cases "valid_id k") (simp_all add: good_defs handle_line_def reads database_reads_def resource_id_Some resource_id_None
        split: option.split)
  show "good_response dv io db h raw (EpStation k) (dispatch h (EpStation k) raw hs)"
    using list_good [OF station_found(1) [OF io inv ne]] missing_good [OF station_found(2) [OF io inv ne]]
    by (cases "valid_id k") (simp_all add: good_defs handle_station_def reads database_reads_def resource_id_Some resource_id_None
        split: option.split)
qed

lemma other_endpoints_good:
  assumes io: "quiet io" and inv: "served_inv env db" and reads: "ah_reads h = database_reads dv io db"
  shows "good_response dv io db h raw EpAnalyticsLines (dispatch h EpAnalyticsLines raw hs)"
    and "good_response dv io db h raw (EpAnalyticsLine k) (dispatch h (EpAnalyticsLine k) raw hs)"
    and "good_response dv io db h raw EpStatus (dispatch h EpStatus raw hs)"
    and "good_response dv io db h raw EpHealth (dispatch h EpHealth raw hs)"
    and "good_response dv io db h raw EpLive (dispatch h EpLive raw hs)"
proof -
  show "good_response dv io db h raw EpAnalyticsLines (dispatch h EpAnalyticsLines raw hs)"
    using all_good [OF list_analytics_returns [OF io]]
    by (auto simp: good_defs handle_line_analytics_def reads database_reads_def is_ok_def split: sum.split)
  have ne: "valid_id k \<Longrightarrow> k \<noteq> []" by (simp add: valid_id_def)
  show "good_response dv io db h raw (EpAnalyticsLine k) (dispatch h (EpAnalyticsLine k) raw hs)"
    using list_good [OF line_found(3) [OF io inv ne]] missing_good [OF line_found(4) [OF io inv ne]]
    by (cases "valid_id k"; cases "analytics_query_of h raw False")
      (simp_all add: good_defs handle_line_analytics_detail_def reads database_reads_def resource_id_Some resource_id_None
        split: option.split)
  show "good_response dv io db h raw EpStatus (dispatch h EpStatus raw hs)"
    using all_good [OF get_status_returns [OF io]] inv
    by (simp add: good_defs handle_status_def reads database_reads_def Let_def served_inv_def)
  show "good_response dv io db h raw EpHealth (dispatch h EpHealth raw hs)"
    by (simp add: good_defs handle_health_def write_json_def delivered_def encodable_def split: option.split)
  show "good_response dv io db h raw EpLive (dispatch h EpLive raw hs)"
    by (simp add: good_defs handle_live_def)
qed

lemma dispatch_good:
  assumes "quiet io" and "served_inv env db" and "ah_reads h = database_reads dv io db"
  shows "good_response dv io db h raw e (dispatch h e raw hs)"
  using alert_endpoints_good [OF assms] network_endpoints_good [OF assms] other_endpoints_good [OF assms] by (cases e) simp_all

section \<open>Paths of resources\<close>

text \<open>
  How a client writes an id into a path (\<open>encodeURIComponent\<close> in \<open>web/src/api/queries.ts\<close>): the
  unreserved bytes as they are, the others as two hexadecimal digits.
\<close>

definition unreserved :: "char \<Rightarrow> bool" where
  "unreserved c \<longleftrightarrow> is_digit c \<or> 65 \<le> ord c \<and> ord c \<le> 90 \<or> 97 \<le> ord c \<and> ord c \<le> 122 \<or> c \<in> set ''-_.!~*()'' \<or> c = CHR 0x27"

definition upper_hex :: "nat \<Rightarrow> char" where
  "upper_hex d = (if d < 10 then char_of (48 + d) else char_of (55 + d))"

definition escape_byte :: "char \<Rightarrow> string" where
  "escape_byte c = (if unreserved c then [c] else [CHR ''%'', upper_hex (ord c div 16), upper_hex (ord c mod 16)])"

definition encode_component :: "string \<Rightarrow> string" where
  "encode_component s = concat (map escape_byte s)"

lemma ord_upper_hex: "d < 16 \<Longrightarrow> ord (upper_hex d) = (if d < 10 then 48 + d else 55 + d)"
  by (simp add: upper_hex_def ord_def)

lemma hex_value_upper: "d < 16 \<Longrightarrow> hex_value (upper_hex d) = Some d"
  by (simp add: hex_value_def is_digit_def ord_upper_hex)

lemma unescape_escape_byte: "path_unescape (escape_byte c @ s) = map_option ((#) c) (path_unescape s)"
proof (cases "unreserved c")
  case True
  then have "c \<noteq> CHR ''%''" by (auto simp: unreserved_def is_digit_def ord_def)
  with True show ?thesis by (simp add: escape_byte_def)
next
  case False
  have "ord c < 256" by (simp add: ord_def)
  then have "ord c div 16 < 16" "16 * (ord c div 16) + ord c mod 16 = ord c" by (simp_all add: mult_div_mod_eq)
  with False show ?thesis by (simp add: escape_byte_def hex_pair_def hex_value_upper ord_def)
qed

lemma unescape_component: "path_unescape (encode_component s) = Some s"
  by (induction s) (simp_all add: encode_component_def unescape_escape_byte)

lemma upper_hex_no_slash: "d < 16 \<Longrightarrow> upper_hex d \<noteq> CHR ''/''"
  using ord_upper_hex [of d] by (auto simp: ord_def split: if_splits)

lemma component_no_slash: "CHR ''/'' \<notin> set (encode_component s)"
proof -
  have "CHR ''/'' \<notin> set (escape_byte c)" for c
  proof -
    have "ord c < 256" by (simp add: ord_def)
    then have "ord c div 16 < 16" "ord c mod 16 < 16" by simp_all
    moreover have "\<not> unreserved (CHR ''/'')" by (simp add: unreserved_def is_digit_def ord_def)
    ultimately show ?thesis
      using upper_hex_no_slash [of "ord c div 16"] upper_hex_no_slash [of "ord c mod 16"] by (simp add: escape_byte_def) metis
  qed
  then show ?thesis by (simp add: encode_component_def)
qed

text \<open>The segments of the paths of one resource.\<close>

lemma component_empty: "encode_component k = [] \<longleftrightarrow> k = []"
  using unescape_component [of k] by (cases k) (auto simp: encode_component_def escape_byte_def)

lemma split_prefix:
  "split_on (CHR ''/'') (''/api/v1/'' @ s) = [[], ''api'', ''v1''] @ split_on (CHR ''/'') s"
  by simp

definition resource_path :: "string \<Rightarrow> string \<Rightarrow> string" where
  "resource_path kind k = ''/api/v1/'' @ kind @ ''/'' @ encode_component k"

lemma split_resource:
  assumes "CHR ''/'' \<notin> set kind"
  shows "split_on (CHR ''/'') (resource_path kind k) = [[], ''api'', ''v1'', kind, encode_component k]"
  unfolding resource_path_def split_prefix
  using split_on_append [OF assms, of "encode_component k"] split_on_single [OF component_no_slash] by simp

definition dot_id :: "string \<Rightarrow> bool" where
  "dot_id k \<longleftrightarrow> k = [] \<or> k = ''.'' \<or> k = ''..'' \<or> k = ''/''"

lemma endpoint_of_resource:
  assumes "kind \<in> {''lines'', ''stations'', ''alerts''}" and "rq_path rq = resource_path kind k"
  shows "endpoint_of rq = (if dot_id k then None else Some ((if kind = ''lines'' then EpLine else if kind = ''stations'' then EpStation else EpAlert) k))"
proof -
  have kind: "CHR ''/'' \<notin> set kind" "kind \<noteq> []" "path_unescape kind = Some kind" "kind \<noteq> ''.''" "kind \<noteq> ''..''" "kind \<noteq> ''analytics''"
    using assms(1) by auto
  have fixed: "path_unescape ''api'' = Some ''api''" "path_unescape ''v1'' = Some ''v1''" by simp_all
  have canonical: "canonical_request_path (rq_path rq) \<longleftrightarrow> k \<noteq> ''.'' \<and> k \<noteq> ''..''"
    unfolding canonical_request_path_def Let_def assms(2) split_resource [OF kind(1)]
    using kind by (simp add: unescape_component)
  have "mux_match (rq_path rq) = (if encode_component k = [] then None else match_segments [''api'', ''v1'', kind, k])"
    unfolding mux_match_def Let_def assms(2) split_resource [OF kind(1)]
    using kind by (simp add: unescape_component)
  then show ?thesis
    using assms(1) by (auto simp: endpoint_of_def canonical dot_id_def match_segments_def component_empty)
qed

text \<open>C39: what a client names is what the handler looks up. The path of a line, a station or an alert,
  with the id written by \<open>encodeURIComponent\<close>, is the endpoint of exactly that id, whatever bytes it
  has; only the empty id, a dot, two dots and a slash have no endpoint.\<close>

theorem resource_paths_are_routed:
  "endpoint_of (rq\<lparr>rq_path := resource_path ''lines'' k\<rparr>) = (if k \<in> {[], ''.'', ''..'', ''/''} then None else Some (EpLine k)) \<and>
   endpoint_of (rq\<lparr>rq_path := resource_path ''stations'' k\<rparr>) = (if k \<in> {[], ''.'', ''..'', ''/''} then None else Some (EpStation k)) \<and>
   endpoint_of (rq\<lparr>rq_path := resource_path ''alerts'' k\<rparr>) = (if k \<in> {[], ''.'', ''..'', ''/''} then None else Some (EpAlert k))"
  using endpoint_of_resource [of "''lines''" "rq\<lparr>rq_path := resource_path ''lines'' k\<rparr>" k]
    endpoint_of_resource [of "''stations''" "rq\<lparr>rq_path := resource_path ''stations'' k\<rparr>" k]
    endpoint_of_resource [of "''alerts''" "rq\<lparr>rq_path := resource_path ''alerts'' k\<rparr>" k]
  by (simp add: dot_id_def)

text \<open>C12: the API answers, and with what was asked. The workers ran in any order, and no query fails. A
  GET of a path that is not an endpoint is answered with 404; a request the handler refuses with
  400; one that names what the database does not hold with 404; the health check with 503 while the
  database does not answer. Every other request gets, with status 200, the payload of its endpoint:
  the result of the query it asks, of the resource its path names. Only when a value of that payload
  has no encoding in JSON is it a 500.\<close>

theorem requests_are_answered:
  assumes "(system_step env)\<^sup>*\<^sup>* empty_db db" and "quiet io" and "ah_reads h = database_reads dv io db" and "rq_method rq = ''GET''"
  shows "case endpoint_of rq of
      None \<Rightarrow> failed_with (serve_http h rq) 404 ''not_found''
    | Some e \<Rightarrow>
        if bad_request h (rq_query rq) e then failed_with (serve_http h rq) 400 ''invalid_query''
        else if \<not> known_resource db e then failed_with (serve_http h rq) 404 ''not_found''
        else if e = EpHealth \<and> ah_ping h \<noteq> None
        then hr_status (serve_http h rq) = 503 \<and> hr_body (serve_http h rq) = Some (StateBody ''unavailable'')
        else \<exists>p. answers dv io db h (rq_query rq) e p \<and>
          hr_status (serve_http h rq) = (if encodable p then 200 else 500) \<and>
          hr_body (serve_http h rq) =
            Some (if encodable p then p else ErrorBody ''internal_error'' (Errorf ''internal server error'' []))"
proof -
  have inv: "served_inv env db" by (rule served_inv_steps [OF assms(1) served_inv_empty])
  show ?thesis
  proof (cases "endpoint_of rq")
    case None
    then show ?thesis by (simp add: served_not_found)
  next
    case (Some e)
    have "good_response dv io db h (rq_query rq) e (serve_http h rq)"
      unfolding served_get [OF Some assms(4)] by (rule dispatch_good [OF assms(2) inv assms(3)])
    then show ?thesis unfolding Some option.case good_response_def delivered_def .
  qed
qed

definition sample_service :: api_handler where
  "sample_service = sample_api\<lparr>ah_reads := database_reads \<lparr>dv_ilike = \<lambda>_ _. True, dv_median = \<lambda>_. 0, dv_cause_first = True\<rparr>
     (quiet_io 0) sample_applied\<rparr>"

theorem requests_are_answered_witness:
  "(\<exists>x. get_alert (quiet_io 0) 1 sample_applied = Inr x \<and> ue_id x = 1 \<and>
     hr_status (serve_http sample_service (sample_request ''GET'' (resource_path ''alerts'' ''1'') [])) =
       (if encodable (AlertBody x) then 200 else 500)) \<and>
   hr_status (serve_http sample_service (sample_request ''GET'' (resource_path ''alerts'' ''7'') [])) = 404"
proof -
  have reach: "(system_step sample_env)\<^sup>*\<^sup>* empty_db sample_applied"
    by (rule alert_steps_system) (rule rtranclp.rtrancl_into_rtrancl [OF sample_ready_reachable sample_applied_step])
  have io: "quiet (quiet_io 0)" by (simp add: quiet_def quiet_io_def)
  have reads: "ah_reads sample_service = database_reads \<lparr>dv_ilike = \<lambda>_ _. True, dv_median = \<lambda>_. 0, dv_cause_first = True\<rparr>
      (quiet_io 0) sample_applied"
    by (simp add: sample_service_def)
  have ep: "endpoint_of (sample_request ''GET'' (resource_path ''alerts'' k) []) = Some (EpAlert k)" if "\<not> dot_id k" for k
    using endpoint_of_resource [of "''alerts''" "sample_request ''GET'' (resource_path ''alerts'' k) []" k] that by (simp add: sample_request_def)
  have ids: "map sa_id (db_alerts sample_applied) = [1]" by (simp add: sample_applied_eq sample_alert_row_def)
  have ps: "alert_id ''1'' = Some 1" "alert_id ''7'' = Some 7" by (simp_all add: alert_id_def atoi_def is_digit_def ord_def)
  have mem: "1 \<in> sa_id ` set (db_alerts sample_applied)" "7 \<notin> sa_id ` set (db_alerts sample_applied)"
    using ids by (metis list.set_intros(1) list.set_map) (use ids in \<open>force dest: arg_cong [where f = set]\<close>)
  have get: "rq_method (sample_request ''GET'' p q) = ''GET''" "rq_query (sample_request ''GET'' p q) = q" for p q
    by (simp_all add: sample_request_def)
  show ?thesis
    using requests_are_answered [OF reach io reads get(1) [of "resource_path ''alerts'' ''1''" "[]"]]
      requests_are_answered [OF reach io reads get(1) [of "resource_path ''alerts'' ''7''" "[]"]]
    by (auto simp: ep dot_id_def get bad_request_def known_resource_def ps mem answers_def failed_with_def)
qed

end
