(* ===== verification/CurrentReader.thy ===== *)
theory CurrentReader
  imports ReadProperties
begin

text \<open>
  \<open>CurrentAlertReader\<close> of \<open>internal/database/current_alerts.go\<close>, over the views of
  \<open>database/migrations/00004_current_alert_enrichment.sql\<close>: four queries whose rows are put
  together in Go, and what the list has to do with that of \<open>ReadRepository\<close>.
\<close>

section \<open>The alerts\<close>

definition current_alerts :: "db \<Rightarrow> (alert_row \<times> revision_row) list" where
  "current_alerts db = filter is_present (current_revisions db)"

text \<open>Alerts of two sources can have the same key: the rows then keep the order of the table.\<close>

definition current_key :: "alert_row \<Rightarrow> int \<times> string" where
  "current_key a = (- sa_last_seen a, sa_entity a)"

definition current_rows_of :: "db \<Rightarrow> (alert_row \<times> revision_row) list" where
  "current_rows_of db = sort_key (\<lambda>ar. current_key (fst ar)) (current_alerts db)"

definition scan_current :: "alert_row \<Rightarrow> revision_row \<Rightarrow> current_alert result" where
  "scan_current a r =
     (let c = rv_columns r
      in bind_res (map_sum (Wrapf ''decode header for alert %q: %w'' [AStr (sa_entity a)]) id (unmarshal_translations (ac_header c))) (\<lambda>header.
         bind_res (map_sum (Wrapf ''decode description for alert %q: %w'' [AStr (sa_entity a)]) id
           (unmarshal_translations (ac_description c))) (\<lambda>description.
         bind_res (map_sum (Wrapf ''decode URL for alert %q: %w'' [AStr (sa_entity a)]) id (unmarshal_translations (ac_url c))) (\<lambda>url.
         Inr \<lparr>ua_id = sa_id a, ua_source_url = sa_source_url a, ua_entity = sa_entity a, ua_revision = rv_id r,
           ua_number = rv_number r, ua_cause = ac_cause c, ua_effect = ac_effect c, ua_severity = ac_severity c,
           ua_header = header, ua_description = description, ua_url = url, ua_first_seen = sa_first_seen a,
           ua_last_seen = sa_last_seen a, ua_rev_first = rv_first_seen r, ua_rev_last = rv_last_seen r,
           ua_periods = [], ua_routes = [], ua_stations = []\<rparr>))))"

text \<open>The map from the id of an alert to its index; a later index replaces an earlier one.\<close>

definition indexes_of :: "row_id list \<Rightarrow> row_id \<Rightarrow> nat option" where
  "indexes_of ids = map_of (rev (zip ids [0..<length ids]))"

definition query_current_alerts :: "(current_alert list \<times> (row_id \<Rightarrow> nat option)) tx" where
  "query_current_alerts =
     bind_tx (query (Wrapf ''query current alerts: %w'' []) current_rows_of) (\<lambda>rows.
     bind_tx (lift_res (each_res (\<lambda>(a, r). scan_current a r) rows)) (\<lambda>alerts.
     ret (alerts, indexes_of (map ua_id alerts))))"

section \<open>What belongs to them\<close>

text \<open>The rows of a view, \<open>ORDER BY alert_id\<close> and the order within one alert.\<close>

definition rows_of_alerts :: "(row_id \<Rightarrow> 'x list) \<Rightarrow> db \<Rightarrow> (row_id \<times> 'x) list" where
  "rows_of_alerts view db =
     concat (map (\<lambda>ar. map (Pair (sa_id (fst ar))) (view (rv_id (snd ar)))) (sort_key (\<lambda>ar. sa_id (fst ar)) (current_alerts db)))"

fun place_rows ::
    "string \<Rightarrow> (row_id \<Rightarrow> nat option) \<Rightarrow> ('x \<Rightarrow> current_alert \<Rightarrow> current_alert) \<Rightarrow> current_alert list \<Rightarrow> (row_id \<times> 'x) list \<Rightarrow>
     current_alert list result" where
  "place_rows what indexes add alerts [] = Inr alerts"
| "place_rows what indexes add alerts ((k, x) # rows) =
     (case indexes k of
        None \<Rightarrow> Inl (Errorf (what @ '' references unknown current alert %d'') [AInt k])
      | Some i \<Rightarrow> place_rows what indexes add (alerts[i := add x (alerts ! i)]) rows)"

definition query_current_periods :: "current_alert list \<Rightarrow> (row_id \<Rightarrow> nat option) \<Rightarrow> current_alert list tx" where
  "query_current_periods alerts indexes =
     bind_tx (query (Wrapf ''query current alert active periods: %w'' []) (\<lambda>db. rows_of_alerts (alert_periods db) db)) (\<lambda>rows.
     lift_res (place_rows ''active period'' indexes (\<lambda>p a. a\<lparr>ua_periods := ua_periods a @ [p]\<rparr>) alerts rows))"

definition query_current_routes :: "current_alert list \<Rightarrow> (row_id \<Rightarrow> nat option) \<Rightarrow> current_alert list tx" where
  "query_current_routes alerts indexes =
     bind_tx (query (Wrapf ''query current alert routes: %w'' []) (\<lambda>db. rows_of_alerts (alert_routes db) db)) (\<lambda>rows.
     lift_res (place_rows ''route'' indexes (\<lambda>r a. a\<lparr>ua_routes := ua_routes a @ [r]\<rparr>) alerts rows))"

definition query_current_stations :: "current_alert list \<Rightarrow> (row_id \<Rightarrow> nat option) \<Rightarrow> current_alert list tx" where
  "query_current_stations alerts indexes =
     bind_tx (query (Wrapf ''query current alert stations: %w'' []) (\<lambda>db. rows_of_alerts (alert_stations db) db)) (\<lambda>rows.
     lift_res (place_rows ''station'' indexes (\<lambda>s a. a\<lparr>ua_stations := ua_stations a @ [s]\<rparr>) alerts rows))"

definition list_current_alerts :: "tx_io \<Rightarrow> db \<Rightarrow> current_alert list result" where
  "list_current_alerts io =
     read_tx io ''current-alert query''
       (bind_tx query_current_alerts (\<lambda>(alerts, indexes).
        bind_tx (query_current_periods alerts indexes) (\<lambda>alerts.
        bind_tx (query_current_routes alerts indexes) (\<lambda>alerts.
        query_current_stations alerts indexes))))"

section \<open>Placing rows\<close>

lemma indexes_of_nth: "distinct ids \<Longrightarrow> i < length ids \<Longrightarrow> indexes_of ids (ids ! i) = Some i"
  unfolding indexes_of_def
  by (intro map_of_is_SomeI) (auto simp: set_zip map_fst_zip rev_map [symmetric])

lemma place_rows_all:
  assumes "distinct ids" and "map ua_id alerts = ids" and "\<And>k x. (k, x) \<in> set rows \<Longrightarrow> k \<in> set ids"
    and "\<And>x a. ua_id (add x a) = ua_id a"
  shows "place_rows what (indexes_of ids) add alerts rows =
    Inr (map (\<lambda>a. foldl (\<lambda>a x. add x a) a (map snd (filter (\<lambda>kx. fst kx = ua_id a) rows))) alerts)"
  using assms(2,3)
proof (induction rows arbitrary: alerts)
  case (Cons kx rows)
  obtain k x where kx: "kx = (k, x)" by (cases kx)
  then obtain i where i: "i < length ids" "ids ! i = k" using Cons.prems(2) by (metis in_set_conv_nth list.set_intros(1))
  have len: "length alerts = length ids" and nth: "\<And>j. j < length ids \<Longrightarrow> ua_id (alerts ! j) = ids ! j"
    using Cons.prems(1) by (metis length_map, metis length_map nth_map)
  let ?alerts = "alerts[i := add x (alerts ! i)]"
  have "map ua_id ?alerts = ids"
    using nth len i by (intro nth_equalityI) (simp_all add: nth_list_update assms(4))
  then have "place_rows what (indexes_of ids) add ?alerts rows =
      Inr (map (\<lambda>a. foldl (\<lambda>a x. add x a) a (map snd (filter (\<lambda>kx. fst kx = ua_id a) rows))) ?alerts)"
    by (rule Cons.IH) (rule Cons.prems(2), erule list.set_intros(2))
  also have "map (\<lambda>a. foldl (\<lambda>a x. add x a) a (map snd (filter (\<lambda>kx. fst kx = ua_id a) rows))) ?alerts =
      map (\<lambda>a. foldl (\<lambda>a x. add x a) a (map snd (filter (\<lambda>kx. fst kx = ua_id a) (kx # rows)))) alerts"
  proof (rule nth_equalityI)
    fix j assume j: "j < length (map (\<lambda>a. foldl (\<lambda>a x. add x a) a (map snd (filter (\<lambda>kx. fst kx = ua_id a) rows))) ?alerts)"
    then have "k = ids ! j \<longleftrightarrow> j = i" using i len nth_eq_iff_index_eq [OF assms(1), of i j] by auto
    with j i len nth show "map (\<lambda>a. foldl (\<lambda>a x. add x a) a (map snd (filter (\<lambda>kx. fst kx = ua_id a) rows))) ?alerts ! j =
        map (\<lambda>a. foldl (\<lambda>a x. add x a) a (map snd (filter (\<lambda>kx. fst kx = ua_id a) (kx # rows)))) alerts ! j"
      by (simp add: kx nth_list_update assms(4))
  qed simp
  finally show ?case using indexes_of_nth [OF assms(1) i(1)] i(2) by (simp add: kx)
qed simp

lemma filter_other_key:
  "k \<notin> key ` set rows \<Longrightarrow> filter (\<lambda>kx. fst kx = k) (concat (map (\<lambda>r. map (Pair (key r)) (f r)) rows)) = []"
  by (auto simp: filter_empty_conv)

lemma filter_pairs: "map snd (filter (\<lambda>kx. fst kx = k) (map (Pair j) xs)) = (if j = k then xs else [])"
  by (induction xs) auto

lemma rows_with_key:
  "distinct (map key rows) \<Longrightarrow> r \<in> set rows \<Longrightarrow>
   map snd (filter (\<lambda>kx. fst kx = key r) (concat (map (\<lambda>r. map (Pair (key r)) (f r)) rows))) = f r"
proof (induction rows)
  case (Cons r' rows)
  show ?case
  proof (cases "r = r'")
    case True
    then have "filter (\<lambda>kx. fst kx = key r) (concat (map (\<lambda>r. map (Pair (key r)) (f r)) rows)) = []"
      using Cons.prems(1) by (intro filter_other_key) simp
    with True show ?thesis by (simp add: comp_def)
  next
    case False
    with Cons.prems have "r \<in> set rows" "key r' \<noteq> key r" by auto
    with Cons.IH Cons.prems(1) show ?thesis by (simp add: filter_pairs)
  qed
qed simp

section \<open>The list\<close>

lemma scan_current_ok:
  assumes "served_inv env db" and "r \<in> set (db_revisions db)"
  shows "scan_current a r = Inr (scanned (a, r))"
proof -
  obtain al where "rv_columns r = columns_of al" using revision_content [OF assms] by auto
  then show ?thesis by (simp add: scan_current_def scanned_def presented_def columns_of_def Let_def)
qed

lemma current_alert_rows:
  assumes "alerts_inv db"
  shows "distinct (map (sa_id \<circ> fst) (current_alerts db))" and "ar \<in> set (current_alerts db) \<Longrightarrow> row_ok db ar"
  using current_rows [OF assms] by (simp_all add: current_alerts_def distinct_map_filter)

text \<open>One of the three queries adds to every alert the rows of its revision.\<close>

lemma place_current:
  assumes inv: "alerts_inv db" and add: "\<And>x a. ua_id (add x a) = ua_id a"
    and g: "\<And>ar. ua_id (g ar) = sa_id (fst ar)"
  shows "place_rows what (indexes_of (map (sa_id \<circ> fst) (current_rows_of db))) add (map g (current_rows_of db)) (rows_of_alerts view db) =
    Inr (map (\<lambda>ar. foldl (\<lambda>a x. add x a) (g ar) (view (rv_id (snd ar)))) (current_rows_of db))"
proof -
  let ?rows = "current_rows_of db" and ?sorted = "sort_key (\<lambda>ar. sa_id (fst ar)) (current_alerts db)"
  note C = current_alert_rows [OF inv]
  have "distinct (map (sa_id \<circ> fst) ?rows)" using C(1) by (simp add: current_rows_of_def)
  moreover have "map ua_id (map g ?rows) = map (sa_id \<circ> fst) ?rows" by (simp add: g comp_def)
  moreover have "k \<in> set (map (sa_id \<circ> fst) ?rows)" if "(k, x) \<in> set (rows_of_alerts view db)" for k x
    using that by (auto simp: rows_of_alerts_def current_rows_of_def)
  ultimately have "place_rows what (indexes_of (map (sa_id \<circ> fst) ?rows)) add (map g ?rows) (rows_of_alerts view db) =
      Inr (map (\<lambda>a. foldl (\<lambda>a x. add x a) a (map snd (filter (\<lambda>kx. fst kx = ua_id a) (rows_of_alerts view db)))) (map g ?rows))"
    by (rule place_rows_all) (use add in simp_all)
  moreover have "map snd (filter (\<lambda>kx. fst kx = ua_id (g ar)) (rows_of_alerts view db)) = view (rv_id (snd ar))"
    if "ar \<in> set ?rows" for ar
  proof -
    have "distinct (map (sa_id \<circ> fst) ?sorted)" using C(1) by simp
    then have "distinct (map (\<lambda>ar. sa_id (fst ar)) ?sorted)" by (simp add: comp_def)
    moreover have "ar \<in> set ?sorted" using that by (simp add: current_rows_of_def)
    ultimately show ?thesis unfolding g rows_of_alerts_def by (rule rows_with_key)
  qed
  ultimately show ?thesis by simp
qed

lemma foldl_append_field:
  "foldl (\<lambda>a x. a\<lparr>ua_periods := ua_periods a @ [x]\<rparr>) a ps = a\<lparr>ua_periods := ua_periods a @ ps\<rparr>"
  "foldl (\<lambda>a x. a\<lparr>ua_routes := ua_routes a @ [x]\<rparr>) a rs = a\<lparr>ua_routes := ua_routes a @ rs\<rparr>"
  "foldl (\<lambda>a x. a\<lparr>ua_stations := ua_stations a @ [x]\<rparr>) a ss = a\<lparr>ua_stations := ua_stations a @ ss\<rparr>"
  by (induction ps arbitrary: a, simp_all) (induction rs arbitrary: a, simp_all, induction ss arbitrary: a, simp_all)

lemma scanned_id: "ua_id (scanned ar) = sa_id (fst ar)"
  by (simp add: scanned_def presented_def Let_def)

lemma list_current_quiet:
  assumes io: "quiet io" and inv: "served_inv env db"
  shows "list_current_alerts io db = Inr (map (presented db) (current_rows_of db))"
proof -
  let ?rows = "current_rows_of db" and ?ids = "indexes_of (map (sa_id \<circ> fst) (current_rows_of db))"
  note I = served_invD(1) [OF inv]
  have scan: "each_res (\<lambda>(a, r). scan_current a r) ?rows = Inr (map scanned ?rows)"
    by (rule each_res_map)
      (use scan_current_ok [OF inv] current_alert_rows(2) [OF I] in \<open>auto simp: current_rows_of_def row_ok_def\<close>)
  have ids: "map ua_id (map scanned ?rows) = map (sa_id \<circ> fst) ?rows" by (simp add: scanned_id comp_def)
  define g1 where "g1 ar = foldl (\<lambda>a x. a\<lparr>ua_periods := ua_periods a @ [x]\<rparr>) (scanned ar) (alert_periods db (rv_id (snd ar)))" for ar
  define g2 where "g2 ar = foldl (\<lambda>a x. a\<lparr>ua_routes := ua_routes a @ [x]\<rparr>) (g1 ar) (alert_routes db (rv_id (snd ar)))" for ar
  define g3 where "g3 ar = foldl (\<lambda>a x. a\<lparr>ua_stations := ua_stations a @ [x]\<rparr>) (g2 ar) (alert_stations db (rv_id (snd ar)))" for ar
  have id: "ua_id (scanned ar) = sa_id (fst ar)" "ua_id (g1 ar) = sa_id (fst ar)" "ua_id (g2 ar) = sa_id (fst ar)" for ar
    by (simp_all add: scanned_id g1_def g2_def foldl_append_field)
  have periods: "place_rows what ?ids (\<lambda>p a. a\<lparr>ua_periods := ua_periods a @ [p]\<rparr>) (map scanned ?rows) (rows_of_alerts (alert_periods db) db) =
      Inr (map g1 ?rows)" for what
    unfolding g1_def by (rule place_current [OF I]) (simp_all add: id)
  have routes: "place_rows what ?ids (\<lambda>r a. a\<lparr>ua_routes := ua_routes a @ [r]\<rparr>) (map g1 ?rows) (rows_of_alerts (alert_routes db) db) =
      Inr (map g2 ?rows)" for what
    unfolding g2_def by (rule place_current [OF I]) (simp_all add: id)
  have stations: "place_rows what ?ids (\<lambda>s a. a\<lparr>ua_stations := ua_stations a @ [s]\<rparr>) (map g2 ?rows) (rows_of_alerts (alert_stations db) db) =
      Inr (map g3 ?rows)" for what
    unfolding g3_def by (rule place_current [OF I]) (simp_all add: id)
  have g3: "g3 = presented db" by (rule ext) (simp add: g1_def g2_def g3_def foldl_append_field scanned_def presented_def Let_def)
  let ?s = "\<lparr>se_db = db, se_faults = io_faults io\<rparr>"
  have s: "se_faults ?s = []" "se_db ?s = db" using io by (simp_all add: quiet_def)
  have "query_current_alerts ?s = (Inr (map scanned ?rows, ?ids), ?s)"
    unfolding query_current_alerts_def bind_query [OF s(1)] s(2) scan bind_lift ids by (simp add: ret_def)
  moreover have "query_current_periods (map scanned ?rows) ?ids ?s = (Inr (map g1 ?rows), ?s)"
    unfolding query_current_periods_def bind_query [OF s(1)] s(2) periods by (simp add: lift_res_def)
  moreover have "query_current_routes (map g1 ?rows) ?ids ?s = (Inr (map g2 ?rows), ?s)"
    unfolding query_current_routes_def bind_query [OF s(1)] s(2) routes by (simp add: lift_res_def)
  moreover have "query_current_stations (map g2 ?rows) ?ids ?s = (Inr (map (presented db) ?rows), ?s)"
    unfolding query_current_stations_def bind_query [OF s(1)] s(2) stations g3 by (simp add: lift_res_def)
  ultimately show ?thesis
    using io unfolding list_current_alerts_def quiet_def
    by (intro read_tx_quiet) (simp_all add: bind_tx_quiet)
qed

text \<open>It is the list of the present alerts of \<open>ListAlerts\<close>, up to the order of alerts with equal keys.\<close>

lemma current_list_is_present_list:
  assumes "quiet io" and "quiet io'" and "served_inv env db"
  shows "\<exists>xs page. list_current_alerts io db = Inr xs \<and> list_alerts io' (present_query now) db = Inr page \<and> mset xs = mset (ug_alerts page)"
proof -
  have "list_alerts io' (present_query now) db = Inr \<lparr>ug_alerts = map (presented db) (listed_rows (present_query now) db), ug_page = 0, ug_size = 0,
      ug_total = length (listed_rows (present_query now) db)\<rparr>"
    by (rule list_alerts_quiet [OF assms(2,3)]) (simp add: present_query_def)
  with list_current_quiet [OF assms(1,3)] show ?thesis
    by (simp add: present_rows current_rows_of_def current_alerts_def)
qed

end
