(* ===== verification/Settings.thy ===== *)
theory Settings
  imports ApiParams
begin

text \<open>
  What \<open>internal/config\<close> uses of the standard library: \<open>time.ParseDuration\<close>, \<open>url.Parse\<close> and
  \<open>url.ParseRequestURI\<close>, and \<open>filepath.Abs\<close>.
\<close>

section \<open>Durations\<close>

text \<open>\<open>leadingInt\<close>: the digits at the front, at most \<open>2 ^ 63\<close>.\<close>

fun leading_int :: "nat \<Rightarrow> string \<Rightarrow> (nat \<times> string) option" where
  "leading_int x [] = Some (x, [])"
| "leading_int x (c # s) =
     (if \<not> is_digit c then Some (x, c # s)
      else if x > 2 ^ 63 div 10 then None
      else let x' = x * 10 + (ord c - 48) in if x' > 2 ^ 63 then None else leading_int x' s)"

text \<open>\<open>leadingFraction\<close>: the digits that fit an int64 and how many they are; the others are dropped.\<close>

fun leading_fraction :: "bool \<Rightarrow> nat \<Rightarrow> nat \<Rightarrow> string \<Rightarrow> nat \<times> nat \<times> string" where
  "leading_fraction full x k [] = (x, k, [])"
| "leading_fraction full x k (c # s) =
     (if \<not> is_digit c then (x, k, c # s)
      else if full \<or> x > (2 ^ 63 - 1) div 10 \<or> x * 10 + (ord c - 48) > 2 ^ 63 then leading_fraction True x k s
      else leading_fraction False (x * 10 + (ord c - 48)) (Suc k) s)"

definition unit_of :: "string \<Rightarrow> nat option" where
  "unit_of u =
     (if u = ''ns'' then Some 1
      else if u = ''us'' \<or> u = [CHR 0xC2, CHR 0xB5, CHR ''s''] \<or> u = [CHR 0xCE, CHR 0xBC, CHR ''s''] then Some 1000
      else if u = ''ms'' then Some 1000000
      else if u = ''s'' then Some 1000000000
      else if u = ''m'' then Some 60000000000
      else if u = ''h'' then Some 3600000000000
      else None)"

definition number_byte :: "char \<Rightarrow> bool" where
  "number_byte c \<longleftrightarrow> c = CHR ''.'' \<or> is_digit c"

text \<open>
  One number with its unit. \<open>scale f unit k\<close> is \<open>uint64(float64(f) * (float64(unit) / 10^k))\<close>, the
  only step in floating point, and only taken for a fraction.
\<close>

definition parse_unit :: "(nat \<Rightarrow> nat \<Rightarrow> nat \<Rightarrow> nat) \<Rightarrow> string \<Rightarrow> (nat \<times> string) option" where
  "parse_unit scale s =
     (if s = [] \<or> \<not> number_byte (hd s) then None
      else Option.bind (leading_int 0 s) (\<lambda>(v, s1).
        let pre = (length s \<noteq> length s1);
            (f, k, s2) = (case s1 of
                [] \<Rightarrow> (0, 0, s1)
              | c # rest \<Rightarrow> if c = CHR ''.'' then leading_fraction False 0 0 rest else (0, 0, s1));
            post = (s1 \<noteq> [] \<and> hd s1 = CHR ''.'' \<and> length (tl s1) \<noteq> length s2);
            name = takeWhile (\<lambda>c. \<not> number_byte c) s2; rest = dropWhile (\<lambda>c. \<not> number_byte c) s2
        in if \<not> pre \<and> \<not> post then None
           else if name = [] then None
           else Option.bind (unit_of name) (\<lambda>unit.
             if v > 2 ^ 63 div unit then None
             else let v = v * unit;
                      v = (if f > 0 then (v + scale f unit k) mod 2 ^ 64 else v)
                  in if f > 0 \<and> v > 2 ^ 63 then None else Some (v, rest))))"

lemma leading_int_length: "leading_int x s = Some (y, r) \<Longrightarrow> length r \<le> length s"
  by (induction x s rule: leading_int.induct) (auto simp: Let_def split: if_splits)

lemma leading_fraction_length: "leading_fraction b x k s = (y, j, r) \<Longrightarrow> length r \<le> length s"
  by (induction b x k s rule: leading_fraction.induct) (auto split: if_splits)

lemma dropWhile_shorter: "takeWhile P s \<noteq> [] \<Longrightarrow> length (dropWhile P s) < length s"
proof -
  assume "takeWhile P s \<noteq> []"
  moreover have "length s = length (takeWhile P s) + length (dropWhile P s)"
    by (simp only: length_append [symmetric] takeWhile_dropWhile_id)
  ultimately show ?thesis by simp
qed

lemma parse_unit_shorter:
  assumes "parse_unit scale s = Some (v, rest)"
  shows "length rest < length s"
proof -
  obtain v1 s1 where v1: "leading_int 0 s = Some (v1, s1)"
    using assms by (cases "leading_int 0 s") (auto simp: parse_unit_def split: if_splits)
  define fks where "fks = (case s1 of [] \<Rightarrow> (0, 0, s1)
    | c # rest \<Rightarrow> if c = CHR ''.'' then leading_fraction False 0 0 rest else (0, 0, s1))"
  obtain f k s2 where f: "fks = (f, k, s2)" by (cases fks)
  have "length s2 \<le> length s1"
    using f leading_fraction_length by (fastforce simp: fks_def split: list.splits if_splits)
  moreover have "rest = dropWhile (\<lambda>c. \<not> number_byte c) s2" "takeWhile (\<lambda>c. \<not> number_byte c) s2 \<noteq> []"
    using assms f unfolding parse_unit_def v1 fks_def [symmetric]
    by (auto simp: Let_def fks_def [symmetric] v1 split: if_splits Option.bind_splits)
  ultimately show ?thesis using leading_int_length [OF v1] dropWhile_shorter by fastforce
qed

function parse_units :: "(nat \<Rightarrow> nat \<Rightarrow> nat \<Rightarrow> nat) \<Rightarrow> string \<Rightarrow> nat \<Rightarrow> nat option" where
  "parse_units scale s d =
     (if s = [] then Some d
      else case parse_unit scale s of
             None \<Rightarrow> None
           | Some (v, rest) \<Rightarrow>
               let d' = (d + v) mod 2 ^ 64 in if d' > 2 ^ 63 then None else parse_units scale rest d')"
  by pat_completeness auto

termination
  by (relation "measure (\<lambda>(_, s, _). length s)") (auto dest: parse_unit_shorter)

declare parse_units.simps [simp del]

definition parse_duration :: "(nat \<Rightarrow> nat \<Rightarrow> nat \<Rightarrow> nat) \<Rightarrow> string \<Rightarrow> duration option" where
  "parse_duration scale s =
     (let neg = (s \<noteq> [] \<and> hd s = CHR ''-'');
          s = (if s \<noteq> [] \<and> (hd s = CHR ''-'' \<or> hd s = CHR ''+'') then tl s else s)
      in if s = ''0'' then Some 0
         else if s = [] then None
         else Option.bind (parse_units scale s 0) (\<lambda>d.
           if neg then Some (- int d) else if d > 2 ^ 63 - 1 then None else Some (int d)))"

section \<open>URLs\<close>

record url_parts =
  uh_scheme :: string
  uh_user :: bool
  uh_host :: string
  uh_path :: string
  uh_query :: string
  uh_fragment :: string

fun get_scheme :: "string \<Rightarrow> string \<Rightarrow> (string \<times> string) option" where
  "get_scheme seen [] = Some ([], rev seen)"
| "get_scheme seen (c # s) =
     (if 97 \<le> ord c \<and> ord c \<le> 122 \<or> 65 \<le> ord c \<and> ord c \<le> 90 then get_scheme (c # seen) s
      else if is_digit c \<or> c = CHR ''+'' \<or> c = CHR ''-'' \<or> c = CHR ''.'' then
        (if seen = [] then Some ([], c # s) else get_scheme (c # seen) s)
      else if c = CHR '':'' then (if seen = [] then None else Some (rev seen, s))
      else Some ([], rev seen @ c # s))"

definition user_byte :: "char \<Rightarrow> bool" where
  "user_byte c \<longleftrightarrow> is_digit c \<or> 65 \<le> ord c \<and> ord c \<le> 90 \<or> 97 \<le> ord c \<and> ord c \<le> 122 \<or> c \<in> set ''-._:~!$&()*+,;=%@'' \<or> c = CHR 0x27"

text \<open>
  \<open>parseAuthority\<close>; \<open>host_of scheme s\<close> is \<open>parseHost\<close>, whose rules for colons and for addresses in
  brackets depend on the release of Go.
\<close>

definition parse_authority :: "(string \<Rightarrow> string \<Rightarrow> string option) \<Rightarrow> string \<Rightarrow> string \<Rightarrow> (bool \<times> string) option" where
  "parse_authority host_of scheme authority =
     (let segments = split_on (CHR ''@'') authority
      in Option.bind (host_of scheme (last segments)) (\<lambda>host.
         if length segments = 1 then Some (False, host)
         else let userinfo = join_with (CHR ''@'') (butlast segments)
              in if \<not> list_all user_byte userinfo then None
                 else if path_unescape (fst (cut (CHR '':'') userinfo)) = None \<or>
                   path_unescape (snd (cut (CHR '':'') userinfo)) = None then None
                 else Some (True, host)))"

definition control_byte :: "char \<Rightarrow> bool" where
  "control_byte c \<longleftrightarrow> ord c < 32 \<or> ord c = 127"

definition no_url :: url_parts where
  "no_url = \<lparr>uh_scheme = [], uh_user = False, uh_host = [], uh_path = [], uh_query = [], uh_fragment = []\<rparr>"

text \<open>\<open>parse(rawURL, viaRequest)\<close>.\<close>

definition url_parse_raw :: "(string \<Rightarrow> string \<Rightarrow> string option) \<Rightarrow> bool \<Rightarrow> string \<Rightarrow> url_parts option" where
  "url_parse_raw host_of via_request raw =
     (if list_ex control_byte raw then None
      else if raw = [] \<and> via_request then None
      else if raw = ''*'' then Some (no_url\<lparr>uh_path := ''*''\<rparr>)
      else Option.bind (get_scheme [] raw) (\<lambda>(scheme, rest).
        let scheme = map ascii_lower scheme;
            (rest, q) = (if rest \<noteq> [] \<and> last rest = CHR ''?'' \<and> CHR ''?'' \<notin> set (butlast rest) then (butlast rest, [])
              else cut (CHR ''?'') rest);
            url = no_url\<lparr>uh_scheme := scheme, uh_query := q\<rparr>
        in if \<not> has_prefix rest ''/'' \<and> scheme \<noteq> [] then Some url
           else if \<not> has_prefix rest ''/'' \<and> via_request then None
           else if \<not> has_prefix rest ''/'' \<and> CHR '':'' \<in> set (fst (cut (CHR ''/'') rest)) then None
           else if (scheme \<noteq> [] \<or> \<not> via_request \<and> \<not> has_prefix rest ''///'') \<and> has_prefix rest ''//'' then
             (let authority = takeWhile (\<lambda>c. c \<noteq> CHR ''/'') (drop 2 rest); path = dropWhile (\<lambda>c. c \<noteq> CHR ''/'') (drop 2 rest)
              in Option.bind (parse_authority host_of scheme authority) (\<lambda>(user, host).
                 map_option (\<lambda>p. url\<lparr>uh_user := user, uh_host := host, uh_path := p\<rparr>) (path_unescape path)))
           else map_option (\<lambda>p. url\<lparr>uh_path := p\<rparr>) (path_unescape rest)))"

definition parse_request_uri :: "(string \<Rightarrow> string \<Rightarrow> string option) \<Rightarrow> string \<Rightarrow> url_parts option" where
  "parse_request_uri host_of raw = url_parse_raw host_of True raw"

definition url_parse :: "(string \<Rightarrow> string \<Rightarrow> string option) \<Rightarrow> string \<Rightarrow> url_parts option" where
  "url_parse host_of raw =
     (case cut (CHR ''#'') raw of (u, frag) \<Rightarrow>
      Option.bind (url_parse_raw host_of False u) (\<lambda>url.
      map_option (\<lambda>f. url\<lparr>uh_fragment := f\<rparr>) (path_unescape frag)))"

section \<open>Paths of files\<close>

text \<open>\<open>filepath.Clean\<close> on Unix: the elements that stay, last first.\<close>

fun clean_elements :: "bool \<Rightarrow> string list \<Rightarrow> string list \<Rightarrow> string list" where
  "clean_elements rooted out [] = rev out"
| "clean_elements rooted out (x # xs) =
     (if x = [] \<or> x = ''.'' then clean_elements rooted out xs
      else if x \<noteq> ''..'' then clean_elements rooted (x # out) xs
      else if out \<noteq> [] \<and> hd out \<noteq> ''..'' then clean_elements rooted (tl out) xs
      else if rooted then clean_elements rooted out xs
      else clean_elements rooted (x # out) xs)"

definition clean_path :: "string \<Rightarrow> string" where
  "clean_path path =
     (let rooted = has_prefix path ''/'';
          joined = join_with (CHR ''/'') (clean_elements rooted [] (split_on (CHR ''/'') path))
      in if rooted then ''/'' @ joined else if joined = [] then ''.'' else joined)"

text \<open>\<open>filepath.Abs\<close>, given what \<open>os.Getwd\<close> returns; \<open>Join\<close> drops empty elements.\<close>

definition abs_path :: "string result \<Rightarrow> string \<Rightarrow> string result" where
  "abs_path workdir path =
     (if has_prefix path ''/'' then Inr (clean_path path)
      else bind_res workdir (\<lambda>wd. Inr (if wd = [] then (if path = [] then [] else clean_path path)
        else clean_path (wd @ ''/'' @ path))))"

text \<open>What \<open>Clean\<close> leaves of a rooted path are names.\<close>

definition path_element :: "string \<Rightarrow> bool" where
  "path_element x \<longleftrightarrow> x \<noteq> [] \<and> x \<noteq> ''.'' \<and> x \<noteq> ''..'' \<and> CHR ''/'' \<notin> set x"

definition clean_root :: "string \<Rightarrow> bool" where
  "clean_root p \<longleftrightarrow> (\<exists>xs. list_all path_element xs \<and> p = ''/'' @ join_with (CHR ''/'') xs)"

lemma clean_elements_names:
  "\<lbrakk>list_all path_element out; \<forall>x \<in> set xs. CHR ''/'' \<notin> set x\<rbrakk> \<Longrightarrow> list_all path_element (clean_elements True out xs)"
proof (induction xs arbitrary: out)
  case (Cons x xs)
  have "list_all path_element (tl out)" using Cons.prems(1) by (cases out) simp_all
  moreover have "list_all path_element (x # out)" if "x \<noteq> []" "x \<noteq> ''.''" "x \<noteq> ''..''"
    using Cons.prems that by (simp add: path_element_def [of x])
  ultimately show ?case using Cons.IH Cons.prems by (simp only: clean_elements.simps split: if_split) auto
qed (simp add: list_all_iff)

lemma clean_elements_stay: "list_all path_element xs \<Longrightarrow> clean_elements True out xs = rev out @ xs"
  by (induction xs arbitrary: out) (simp_all add: path_element_def)

lemma split_join: "xs \<noteq> [] \<Longrightarrow> \<forall>x \<in> set xs. sep \<notin> set x \<Longrightarrow> split_on sep (join_with sep xs) = xs"
  by (induction sep xs rule: join_with.induct) (simp_all add: split_on_append split_on_single)

lemma has_prefix_slash: "has_prefix p ''/'' \<longleftrightarrow> (\<exists>q. p = CHR ''/'' # q)"
  by (cases p) (auto simp: has_prefix_def)

lemma clean_path_root: "has_prefix p ''/'' \<Longrightarrow> clean_root (clean_path p)"
  unfolding clean_root_def clean_path_def Let_def
  by (rule exI [of _ "clean_elements True [] (split_on (CHR ''/'') p)"])
    (simp add: clean_elements_names split_on_no_sep)

lemma clean_path_stays:
  assumes "clean_root p"
  shows "clean_path p = p"
proof -
  obtain xs where xs: "list_all path_element xs" and p: "p = ''/'' @ join_with (CHR ''/'') xs"
    using assms by (auto simp: clean_root_def)
  have "clean_elements True [] (split_on (CHR ''/'') p) = xs"
  proof (cases "xs = []")
    case False
    then have "split_on (CHR ''/'') (join_with (CHR ''/'') xs) = xs"
      using xs by (intro split_join) (auto simp: list_all_iff path_element_def)
    then show ?thesis using clean_elements_stay [OF xs, of "[]"] p by simp
  qed (simp add: p)
  moreover have "has_prefix p ''/''" by (simp add: p has_prefix_slash)
  ultimately show ?thesis by (simp add: clean_path_def p)
qed

lemma clean_root_prefix: "clean_root p \<Longrightarrow> has_prefix p ''/''"
  by (auto simp: clean_root_def has_prefix_slash)

lemma abs_path_root:
  assumes "abs_path workdir p = Inr q" and "p \<noteq> []" and "\<And>wd. workdir = Inr wd \<Longrightarrow> has_prefix wd ''/''"
  shows "clean_root q"
proof (cases "has_prefix p ''/''")
  case True
  with assms(1) clean_path_root [OF True] show ?thesis by (simp add: abs_path_def)
next
  case False
  then obtain wd where wd: "workdir = Inr wd" using assms(1) by (cases workdir) (auto simp: abs_path_def)
  with assms(3) have "has_prefix wd ''/''" by simp
  then have "wd \<noteq> []" "has_prefix (wd @ ''/'' @ p) ''/''" by (auto simp: has_prefix_slash)
  with False wd assms(1) clean_path_root [of "wd @ ''/'' @ p"] show ?thesis by (simp add: abs_path_def)
qed

lemma abs_path_stays: "clean_root p \<Longrightarrow> abs_path workdir p = Inr p"
  by (simp add: abs_path_def clean_path_stays clean_root_prefix)

end
