(* ===== verification/Config.thy ===== *)
theory Config
  imports Settings Files StatusReport
begin

text \<open>
  \<open>internal/config\<close>: the settings of the commands, read from the environment. \<open>getenv\<close> is the
  empty string for a variable that is not set. Every check adds its error, and all are joined.
\<close>

section \<open>Errors\<close>

text \<open>What the settings meet outside: the scaling of a fraction, \<open>parseHost\<close> and \<open>os.Getwd\<close>.\<close>

record config_env =
  cf_scale :: "nat \<Rightarrow> nat \<Rightarrow> nat \<Rightarrow> nat"
  cf_host :: "string \<Rightarrow> string \<Rightarrow> string option"
  cf_workdir :: "string result"

definition value_or_default :: "string \<Rightarrow> string \<Rightarrow> string" where
  "value_or_default v fallback = (if v = [] then fallback else v)"

text \<open>The configuration, or all errors under one header.\<close>

definition configured :: "string \<Rightarrow> go_error option list \<Rightarrow> 'c \<Rightarrow> 'c result" where
  "configured header errs c =
     (case List.map_filter (\<lambda>e. e) errs of [] \<Rightarrow> Inr c | es \<Rightarrow> Inl (Wrapf header [] (Joined es)))"

lemma configured_Inr: "configured header errs c = Inr x \<longleftrightarrow> x = c \<and> (\<forall>e \<in> set errs. e = None)"
  by (induction errs) (auto simp: configured_def List.map_filter_def split: list.splits option.splits)

text \<open>
  A duration from a variable: the default without one, and with an error. The error prints the
  largest duration with \<open>%s\<close>; it is kept as its number of nanoseconds.
\<close>

definition duration_setting ::
    "config_env \<Rightarrow> (string \<Rightarrow> string) \<Rightarrow> string \<Rightarrow> duration option \<Rightarrow> duration \<Rightarrow> duration \<times> go_error option" where
  "duration_setting ce getenv name maximum otherwise =
     (let v = getenv name;
          refused = (case maximum of
            None \<Rightarrow> Errorf (name @ '' must be a positive Go duration: %q'') [AStr v]
          | Some m \<Rightarrow> Errorf ''%s must be a positive Go duration no greater than %s: %q'' [AStr name, AInt m, AStr v])
      in if v = [] then (otherwise, None)
         else case parse_duration (cf_scale ce) v of
                None \<Rightarrow> (otherwise, Some refused)
              | Some d \<Rightarrow> if d \<le> 0 \<or> (case maximum of None \<Rightarrow> False | Some m \<Rightarrow> d > m) then (otherwise, Some refused) else (d, None))"

abbreviation seconds :: "int \<Rightarrow> duration" where "seconds n \<equiv> n * 1000000000"
abbreviation minutes :: "int \<Rightarrow> duration" where "minutes n \<equiv> n * 60000000000"
abbreviation hours :: "int \<Rightarrow> duration" where "hours n \<equiv> n * 3600000000000"

section \<open>URLs\<close>

text \<open>The error of \<open>net/url\<close> is kept as the text it is about.\<close>

definition validate_http_url :: "config_env \<Rightarrow> string \<Rightarrow> go_error option" where
  "validate_http_url ce v =
     (case parse_request_uri (cf_host ce) v of
        None \<Rightarrow> Some (Wrapf ''must be a valid URL: %w'' [] (Errorf ''parse %q'' [AStr v]))
      | Some url \<Rightarrow>
          if uh_scheme url \<noteq> ''http'' \<and> uh_scheme url \<noteq> ''https'' then Some (Errorf ''scheme must be http or https'' [])
          else if uh_host url = [] then Some (Errorf ''host is required'' [])
          else if uh_user url then Some (Errorf ''must not contain user credentials'' [])
          else if uh_query url \<noteq> [] then Some (Errorf ''must not contain query parameters'' [])
          else if uh_fragment url \<noteq> [] then Some (Errorf ''must not contain a fragment'' [])
          else None)"

definition validate_origin :: "config_env \<Rightarrow> string \<Rightarrow> go_error option" where
  "validate_origin ce v =
     (if v = ''*'' then None
      else case parse_request_uri (cf_host ce) v of
        None \<Rightarrow> Some (Errorf ''must be an HTTP origin or *'' [])
      | Some url \<Rightarrow>
          if uh_scheme url \<noteq> ''http'' \<and> uh_scheme url \<noteq> ''https'' \<or> uh_host url = []
          then Some (Errorf ''must be an HTTP origin or *'' [])
          else if uh_user url \<or> uh_path url \<noteq> [] \<or> uh_query url \<noteq> [] \<or> uh_fragment url \<noteq> []
          then Some (Errorf ''must not contain credentials, a path, query parameters, or a fragment'' [])
          else None)"

definition validate_storage_endpoint :: "config_env \<Rightarrow> string \<Rightarrow> go_error option" where
  "validate_storage_endpoint ce v =
     (case url_parse (cf_host ce) v of
        None \<Rightarrow> Some (Errorf ''must be a valid HTTP(S) URL'' [])
      | Some url \<Rightarrow>
          if uh_scheme url \<noteq> ''http'' \<and> uh_scheme url \<noteq> ''https'' then Some (Errorf ''scheme must be http or https'' [])
          else if uh_host url = [] then Some (Errorf ''host is required'' [])
          else if uh_user url then Some (Errorf ''must not contain user credentials'' [])
          else if uh_query url \<noteq> [] then Some (Errorf ''must not contain query parameters'' [])
          else if uh_fragment url \<noteq> [] then Some (Errorf ''must not contain a fragment'' [])
          else None)"

definition wrapped :: "string \<Rightarrow> go_error option \<Rightarrow> go_error option" where
  "wrapped name e = map_option (Wrapf (name @ '': %w'') []) e"

section \<open>The worker\<close>

definition token_byte :: "char \<Rightarrow> bool" where
  "token_byte c \<longleftrightarrow> 97 \<le> ord c \<and> ord c \<le> 122 \<or> 65 \<le> ord c \<and> ord c \<le> 90 \<or> is_digit c \<or> c \<in> set ''!#$%&*+-.^_`|~'' \<or> c = CHR 0x27"

definition valid_http_header_name :: "string \<Rightarrow> bool" where
  "valid_http_header_name v \<longleftrightarrow> v \<noteq> [] \<and> list_all token_byte v"

record worker_config =
  wc_alerts_url :: string
  wc_api_key :: string
  wc_api_key_header :: string
  wc_http_timeout :: duration

definition load_worker :: "config_env \<Rightarrow> (string \<Rightarrow> string) \<Rightarrow> worker_config result" where
  "load_worker ce getenv =
     (let url = value_or_default (getenv ''TRANSIT_ALERTS_URL'')
            ''https://api.opendata.transport.vic.gov.au/opendata/public-transport/gtfs/realtime/v1/metro/service-alerts'';
          key = getenv ''TRANSIT_API_KEY'';
          header = value_or_default (getenv ''TRANSIT_API_KEY_HEADER'') ''KeyID'';
          timeout = duration_setting ce getenv ''TRANSIT_HTTP_TIMEOUT'' None (seconds 15)
      in configured ''invalid worker configuration: %w''
           [if key = [] then Some (Errorf ''TRANSIT_API_KEY is required'' []) else None,
            if valid_http_header_name header then None
            else Some (Errorf ''TRANSIT_API_KEY_HEADER is not a valid HTTP header name: %q'' [AStr header]),
            wrapped ''TRANSIT_ALERTS_URL'' (validate_http_url ce url), snd timeout]
           \<lparr>wc_alerts_url = url, wc_api_key = key, wc_api_key_header = header, wc_http_timeout = fst timeout\<rparr>)"

definition load_database :: "config_env \<Rightarrow> (string \<Rightarrow> string) \<Rightarrow> string result" where
  "load_database ce getenv =
     (let v = getenv ''DATABASE_URL''; invalid = (\<lambda>s. Inl (Errorf (''invalid database configuration: DATABASE_URL '' @ s) []))
      in if v = [] then invalid ''is required''
         else case url_parse (cf_host ce) v of
           None \<Rightarrow> invalid ''must be a valid URL''
         | Some url \<Rightarrow>
             if uh_scheme url \<noteq> ''postgres'' \<and> uh_scheme url \<noteq> ''postgresql'' then invalid ''scheme must be postgres or postgresql''
             else if uh_host url = [] then invalid ''host is required''
             else if uh_path url = [] \<or> uh_path url = ''/'' then invalid ''database name is required''
             else Inr v)"

record gtfs_config =
  tc_url :: string
  tc_http_timeout :: duration

definition load_gtfs :: "config_env \<Rightarrow> (string \<Rightarrow> string) \<Rightarrow> gtfs_config result" where
  "load_gtfs ce getenv =
     (let url = value_or_default (getenv ''GTFS_URL'') ''https://data.ptv.vic.gov.au/downloads/gtfs.zip'';
          timeout = duration_setting ce getenv ''GTFS_HTTP_TIMEOUT'' None (minutes 10)
      in configured ''invalid GTFS configuration: %w'' [wrapped ''GTFS_URL'' (validate_http_url ce url), snd timeout]
           \<lparr>tc_url = url, tc_http_timeout = fst timeout\<rparr>)"

section \<open>The object store\<close>

record s3_config =
  sc_bucket :: string
  sc_region :: string
  sc_endpoint :: string
  sc_access_key :: string
  sc_secret_key :: string
  sc_session_token :: string
  sc_path_style :: bool

record raw_storage =
  rg_backend :: string
  rg_local_dir :: string
  rg_s3 :: s3_config

definition required_for_s3 :: "string \<Rightarrow> string \<Rightarrow> go_error option" where
  "required_for_s3 name v = (if v = [] then Some (Errorf ''%s is required for S3 storage'' [AStr name]) else None)"

definition load_raw_storage :: "config_env \<Rightarrow> (string \<Rightarrow> string) \<Rightarrow> raw_storage result" where
  "load_raw_storage ce getenv =
     (let backend = value_or_default (getenv ''RAW_STORAGE_BACKEND'') ''local'';
          dir = value_or_default (getenv ''RAW_STORAGE_LOCAL_DIR'') ''./var'';
          s3 = \<lparr>sc_bucket = getenv ''RAW_STORAGE_S3_BUCKET'', sc_region = getenv ''RAW_STORAGE_S3_REGION'',
            sc_endpoint = getenv ''RAW_STORAGE_S3_ENDPOINT'', sc_access_key = getenv ''RAW_STORAGE_S3_ACCESS_KEY_ID'',
            sc_secret_key = getenv ''RAW_STORAGE_S3_SECRET_ACCESS_KEY'', sc_session_token = getenv ''RAW_STORAGE_S3_SESSION_TOKEN'',
            sc_path_style = True\<rparr>;
          header = ''invalid raw storage configuration: %w''
      in if backend = ''local'' then
           (if dir = [] then configured header [Some (Errorf ''RAW_STORAGE_LOCAL_DIR is required for local storage'' [])]
              \<lparr>rg_backend = backend, rg_local_dir = dir, rg_s3 = s3\<rparr>
            else case abs_path (cf_workdir ce) dir of
              Inl _ \<Rightarrow> configured header [Some (Errorf ''RAW_STORAGE_LOCAL_DIR cannot be normalized'' [])]
                \<lparr>rg_backend = backend, rg_local_dir = dir, rg_s3 = s3\<rparr>
            | Inr absolute \<Rightarrow> configured header [] \<lparr>rg_backend = backend, rg_local_dir = clean_path absolute, rg_s3 = s3\<rparr>)
         else if backend = ''s3'' then
           (let style = getenv ''RAW_STORAGE_S3_PATH_STYLE''
            in configured header
                 [if style \<noteq> [] \<and> style \<noteq> ''true'' \<and> style \<noteq> ''false''
                  then Some (Errorf ''RAW_STORAGE_S3_PATH_STYLE must be true or false'' []) else None,
                  required_for_s3 ''RAW_STORAGE_S3_BUCKET'' (sc_bucket s3),
                  required_for_s3 ''RAW_STORAGE_S3_REGION'' (sc_region s3),
                  if (sc_access_key s3 = []) \<noteq> (sc_secret_key s3 = [])
                  then Some (Errorf ''RAW_STORAGE_S3_ACCESS_KEY_ID and RAW_STORAGE_S3_SECRET_ACCESS_KEY must be provided together'' [])
                  else None,
                  if sc_session_token s3 \<noteq> [] \<and> sc_access_key s3 = []
                  then Some (Errorf ''RAW_STORAGE_S3_SESSION_TOKEN requires static access key and secret credentials'' [])
                  else None,
                  if sc_endpoint s3 = [] then None
                  else wrapped ''RAW_STORAGE_S3_ENDPOINT'' (validate_storage_endpoint ce (sc_endpoint s3))]
                 \<lparr>rg_backend = backend, rg_local_dir = dir, rg_s3 = s3\<lparr>sc_path_style := style = [] \<or> style = ''true''\<rparr>\<rparr>)
         else configured header [Some (Errorf ''RAW_STORAGE_BACKEND must be local or s3, got %q'' [AStr backend])]
           \<lparr>rg_backend = backend, rg_local_dir = dir, rg_s3 = s3\<rparr>)"

section \<open>The API\<close>

record api_config =
  xc_address :: string
  xc_origin :: string
  xc_request_timeout :: duration
  xc_shutdown_timeout :: duration
  xc_status :: status_query

text \<open>\<open>strconv.ParseUint(port, 10, 16)\<close>.\<close>

definition parse_port :: "string \<Rightarrow> int option" where
  "parse_port s =
     (if s = [] \<or> \<not> list_all is_digit s then None
      else let n = digits_val 0 s in if n \<le> 65535 then Some n else None)"

definition load_api :: "config_env \<Rightarrow> (string \<Rightarrow> string) \<Rightarrow> api_config result" where
  "load_api ce getenv =
     (let port = value_or_default (getenv ''PORT'') ''8080'';
          origin = value_or_default (getenv ''CORS_ALLOWED_ORIGIN'') ''http://localhost:5173'';
          setting = duration_setting ce getenv;
          request = setting ''API_REQUEST_TIMEOUT'' (Some (minutes 2)) (seconds 15);
          shutdown = setting ''API_SHUTDOWN_TIMEOUT'' None (seconds 10);
          alert_data = setting ''STATUS_ALERT_DATA_MAX_AGE'' (Some (hours 8760)) (minutes 10);
          alert_check = setting ''STATUS_ALERT_CHECK_MAX_AGE'' (Some (hours 8760)) (minutes 10);
          gtfs_data = setting ''STATUS_GTFS_DATA_MAX_AGE'' (Some (hours 8760)) (hours 192);
          gtfs_check = setting ''STATUS_GTFS_CHECK_MAX_AGE'' (Some (hours 8760)) (hours 36);
          alert_run = setting ''STATUS_ALERT_RUN_MAX_DURATION'' (Some (hours 24)) (minutes 5);
          gtfs_run = setting ''STATUS_GTFS_RUN_MAX_DURATION'' (Some (hours 24)) (minutes 30);
          tolerance = setting ''STATUS_FUTURE_TOLERANCE'' (Some (hours 1)) (minutes 2);
          limit = getenv ''STATUS_RECENT_FAILURE_LIMIT'';
          bad_limit = Errorf ''STATUS_RECENT_FAILURE_LIMIT must be an integer between 1 and %d: %q'' [AInt 20, AStr limit];
          failures = (if limit = [] then (5, None)
            else case atoi limit of
              None \<Rightarrow> (5, Some bad_limit)
            | Some n \<Rightarrow> if n \<le> 0 \<or> n > 20 then (5, Some bad_limit) else (n, None))
      in configured ''invalid API configuration: %w''
           ([if parse_port port = None \<or> parse_port port = Some 0
             then Some (Errorf ''PORT must be an integer between 1 and 65535: %q'' [AStr port]) else None,
             wrapped ''CORS_ALLOWED_ORIGIN'' (validate_origin ce origin), snd request, snd shutdown] @
            map snd [alert_data, alert_check, gtfs_data, gtfs_check, alert_run, gtfs_run, tolerance] @ [snd failures])
           \<lparr>xc_address = CHR '':'' # port, xc_origin = origin, xc_request_timeout = fst request,
            xc_shutdown_timeout = fst shutdown,
            xc_status = \<lparr>qy_now = 0, qy_alert_data_age = fst alert_data, qy_alert_check_age = fst alert_check,
              qy_gtfs_data_age = fst gtfs_data, qy_gtfs_check_age = fst gtfs_check, qy_alert_run = fst alert_run,
              qy_gtfs_run = fst gtfs_run, qy_tolerance = fst tolerance, qy_failures = fst failures\<rparr>\<rparr>)"

end
