(* ===== verification/Worker.thy ===== *)
theory Worker
  imports Config IngestStores RealtimeClient RealtimeDecode GtfsArchive
begin

text \<open>
  \<open>cmd/worker/main.go\<close>: the three commands of the worker over one database, the object stores and
  the temporary files, composed from the configuration, the clients, the services and the
  repositories. \<open>storage.New\<close> chooses the object store. Logging is left out, and so is the duration
  of the parser in the report.
\<close>

section \<open>Flags\<close>

text \<open>\<open>strconv.ParseBool\<close>.\<close>

definition parse_bool :: "string \<Rightarrow> bool option" where
  "parse_bool s =
     (if s \<in> {''1'', ''t'', ''T'', ''true'', ''TRUE'', ''True''} then Some True
      else if s \<in> {''0'', ''f'', ''F'', ''false'', ''FALSE'', ''False''} then Some False else None)"

text \<open>\<open>FlagSet.Parse\<close> with the one flag \<open>dry-run\<close>: its value and the arguments that are left.\<close>

fun parse_flags :: "bool \<Rightarrow> string list \<Rightarrow> (bool \<times> string list) result" where
  "parse_flags dry [] = Inr (dry, [])"
| "parse_flags dry (s # args) =
     (if length s < 2 \<or> hd s \<noteq> CHR ''-'' then Inr (dry, s # args)
      else if s = ''--'' then Inr (dry, args)
      else
        (let name = (if hd (tl s) = CHR ''-'' then tl (tl s) else tl s)
         in if name = [] \<or> hd name = CHR ''-'' \<or> hd name = CHR ''='' then Inl (Errorf ''bad flag syntax: %s'' [AStr s])
            else
              (let flag = hd name # fst (cut (CHR ''='') (tl name));
                   v = (if CHR ''='' \<in> set (tl name) then Some (snd (cut (CHR ''='') (tl name))) else None)
               in if flag = ''dry-run'' then
                    (case v of
                       None \<Rightarrow> parse_flags True args
                     | Some x \<Rightarrow>
                         (case parse_bool x of
                            None \<Rightarrow> Inl (Errorf ''invalid boolean value %q for -%s: parse error'' [AStr x, AStr flag])
                          | Some b \<Rightarrow> parse_flags b args))
                  else if flag = ''help'' \<or> flag = ''h'' then Inl (Errorf ''flag: help requested'' [])
                  else Inl (Errorf ''flag provided but not defined: -%s'' [AStr flag]))))"

section \<open>The object store\<close>

datatype store_choice = LocalChoice string | S3Choice s3_config

text \<open>\<open>storage.New\<close>; \<open>aws\<close> is the error of \<open>config.LoadDefaultConfig\<close>.\<close>

definition storage_new :: "config_env \<Rightarrow> (s3_config \<Rightarrow> go_error option) \<Rightarrow> raw_storage \<Rightarrow> store_choice result" where
  "storage_new ce aws c =
     (if rg_backend c = ''local'' then
        (case abs_path (cf_workdir ce) (rg_local_dir c) of
           Inl _ \<Rightarrow> Inl (Errorf ''normalize local storage root failed'' [])
         | Inr absolute \<Rightarrow> Inr (LocalChoice (clean_path absolute)))
      else if rg_backend c = ''s3'' then
        (case aws (rg_s3 c) of
           Some _ \<Rightarrow> Inl (Errorf ''load S3 storage configuration failed'' [])
         | None \<Rightarrow> Inr (S3Choice (rg_s3 c)))
      else Inl (Errorf ''unsupported raw storage backend'' []))"

section \<open>What a command meets\<close>

text \<open>
  The outcome of every call that leaves the program: the connection, the transactions, the requests,
  the files. The objects of a local store are its files, by root; S3 answers by itself.
\<close>

record worker_env =
  we_config :: config_env
  we_open :: "string \<Rightarrow> go_error option"
  we_migrate :: "go_error option"
  we_aws :: "s3_config \<Rightarrow> go_error option"
  we_repo :: repo_env
  we_alert_io :: alert_store_io
  we_gtfs_io :: gtfs_store_io
  we_media_type :: "string \<Rightarrow> string result"
  we_attempts :: "nat \<Rightarrow> attempt_io"
  we_decode :: decode_env
  we_http :: fetch_env
  we_download :: temp_io
  we_nested :: temp_io
  we_gtfs :: gtfs_env
  we_stat :: "go_error option"
  we_remove :: "go_error option"
  we_local :: local_io
  we_s3 :: s3_io
  we_checksum :: "string \<Rightarrow> string"
  we_coverage :: "go_error option list"
  we_summary :: "go_error option"
  we_write :: "go_error option"

record worker_state =
  ws_db :: db
  ws_objects :: "string \<Rightarrow> files"
  ws_files :: files

definition store_put ::
    "worker_env \<Rightarrow> store_choice \<Rightarrow> put_request \<Rightarrow> (string \<Rightarrow> files) \<Rightarrow> storage_object result \<times> (string \<Rightarrow> files)" where
  "store_put env choice q objects =
     (case choice of
        LocalChoice root \<Rightarrow>
          (case local_put (we_local env) (sha256_hex (we_repo env)) q (objects root) of
             (r, fs) \<Rightarrow> (r, objects(root := fs)))
      | S3Choice _ \<Rightarrow> (fst (s3_put (we_s3 env) (sha256_hex (we_repo env)) (we_checksum env) q), objects))"

section \<open>Reports\<close>

record dry_alerts =
  da_source_url :: string
  da_retrieved :: instant
  da_status :: int
  da_content_type :: string
  da_size :: nat
  da_feed :: feed_summary

record ingestion_report =
  nr_run :: row_id
  nr_status :: string
  nr_retrieved :: "instant option"
  nr_size :: nat
  nr_timestamp :: "timestamp option"
  nr_entities :: nat
  nr_alerts :: nat
  nr_archive :: string

record import_report =
  mr_import :: row_id
  mr_status :: string
  mr_source_url :: string
  mr_retrieved :: "instant option"
  mr_sha256 :: string
  mr_bytes :: nat
  mr_summary :: "summary option"
  mr_coverage :: "coverage option"
  mr_archive :: string

datatype report = DryAlerts dry_alerts | Ingested ingestion_report | Imported import_report

text \<open>A command returns its error or what it printed; the migrations print nothing.\<close>

type_synonym outcome_of_command = "report option result \<times> worker_state"

text \<open>\<open>writeJSON\<close>.\<close>

definition write_report :: "worker_env \<Rightarrow> report \<Rightarrow> report option result" where
  "write_report env r =
     (case we_write env of Some e \<Rightarrow> Inl (Wrapf ''write JSON report: %w'' [] e) | None \<Rightarrow> Inr (Some r))"

section \<open>ingest-alerts\<close>

definition alerts_client :: "worker_config \<Rightarrow> client" where
  "alerts_client c = \<lparr>cl_http = True, cl_url = wc_alerts_url c, cl_key = wc_api_key c, cl_header = wc_api_key_header c,
     cl_max_attempts = 3, cl_delay = seconds 1\<rparr>"

text \<open>The result of \<open>FetchAlerts\<close>; its loop never gets past the last attempt.\<close>

definition fetched :: "worker_env \<Rightarrow> worker_config \<Rightarrow> fetch_result result" where
  "fetched env c =
     (case fetch_alerts (alerts_client c) (we_media_type env) (we_attempts env) of
        None \<Rightarrow> Inl (Errorf ''unreachable'' [])
      | Some (r, _, _) \<Rightarrow> r)"

definition alert_service_of :: "worker_env \<Rightarrow> worker_config \<Rightarrow> store_choice \<Rightarrow> (db, string \<Rightarrow> files) alert_service" where
  "alert_service_of env c choice =
     \<lparr>av_source_url = wc_alerts_url c, av_fetch = fetched env c, av_store = alert_repository (we_repo env) (we_alert_io env),
      av_put = store_put env choice, av_decode = decode_alerts (we_decode env), av_sha256 = sha256_hex (we_repo env)\<rparr>"

definition ingestion_report_of :: "alert_result \<Rightarrow> ingestion_report" where
  "ingestion_report_of r =
     \<lparr>nr_run = ar_run r, nr_status = (if ar_skipped r then ''skipped'' else ''succeeded''),
      nr_retrieved = map_option fr_retrieved (ar_fetch r), nr_size = (case ar_fetch r of None \<Rightarrow> 0 | Some f \<Rightarrow> length (fr_body f)),
      nr_timestamp = Option.bind (ar_summary r) fe_timestamp,
      nr_entities = (case ar_summary r of None \<Rightarrow> 0 | Some s \<Rightarrow> fe_entity_count s),
      nr_alerts = (case ar_summary r of None \<Rightarrow> 0 | Some s \<Rightarrow> fe_alert_count s),
      nr_archive = (case ar_archive r of None \<Rightarrow> [] | Some ob \<Rightarrow> ob_key ob)\<rparr>"

text \<open>What both ingesting commands need: the database, the configured store, the connection.\<close>

definition open_stores :: "worker_env \<Rightarrow> (string \<Rightarrow> string) \<Rightarrow> store_choice result" where
  "open_stores env getenv =
     bind_res (load_database (we_config env) getenv) (\<lambda>url.
     bind_res (load_raw_storage (we_config env) getenv) (\<lambda>raw.
     case storage_new (we_config env) (we_aws env) raw of
       Inl e \<Rightarrow> Inl (Wrapf ''configure raw storage: %w'' [] e)
     | Inr choice \<Rightarrow> (case we_open env url of Some e \<Rightarrow> Inl e | None \<Rightarrow> Inr choice)))"

definition dry_run_alerts :: "worker_env \<Rightarrow> worker_config \<Rightarrow> report option result" where
  "dry_run_alerts env c =
     bind_res (fetched env c) (\<lambda>f.
     bind_res (decode_alerts (we_decode env) (fr_body f)) (\<lambda>s.
     write_report env (DryAlerts \<lparr>da_source_url = wc_alerts_url c, da_retrieved = fr_retrieved f, da_status = fr_status f,
       da_content_type = fr_content_type f, da_size = length (fr_body f), da_feed = s\<rparr>)))"

definition parsed_args :: "string \<Rightarrow> string list \<Rightarrow> bool result" where
  "parsed_args command args =
     (case parse_flags False args of
        Inl e \<Rightarrow> Inl (Wrapf (''parse '' @ command @ '' flags: %w'') [] e)
      | Inr (dry, rest) \<Rightarrow> if rest \<noteq> [] then Inl (Errorf ''unexpected arguments: %v'' (map AStr rest)) else Inr dry)"

definition run_ingest_alerts :: "worker_env \<Rightarrow> (string \<Rightarrow> string) \<Rightarrow> string list \<Rightarrow> worker_state \<Rightarrow> outcome_of_command" where
  "run_ingest_alerts env getenv args s =
     (case bind_res (parsed_args ''ingest-alerts'' args) (\<lambda>dry. map_sum id (Pair dry) (load_worker (we_config env) getenv)) of
        Inl e \<Rightarrow> (Inl e, s)
      | Inr (dry, c) \<Rightarrow>
          if dry then (dry_run_alerts env c, s)
          else
     (case open_stores env getenv of
        Inl e \<Rightarrow> (Inl e, s)
      | Inr choice \<Rightarrow>
     (case alert_run (alert_service_of env c choice) (ws_db s) (ws_objects s) of
        (result, err, db, objects) \<Rightarrow>
          let s' = s\<lparr>ws_db := db, ws_objects := objects\<rparr>
          in (case err of
                Some e \<Rightarrow> (Inl (Wrapf ''ingest service alerts: %w'' [] e), s')
              | None \<Rightarrow> (write_report env (Ingested (ingestion_report_of result)), s')))))"

section \<open>ingest-gtfs\<close>

definition gtfs_downloader :: "worker_env \<Rightarrow> gtfs_config \<Rightarrow> fetch_env" where
  "gtfs_downloader env c = (we_http env)\<lparr>ft_client := True, ft_url := tc_url c\<rparr>"

definition gtfs_service_of :: "worker_env \<Rightarrow> gtfs_config \<Rightarrow> store_choice \<Rightarrow> (db, string \<Rightarrow> files) gtfs_service" where
  "gtfs_service_of env c choice =
     \<lparr>gv_source_url = tc_url c, gv_fetch = gtfs_fetch (gtfs_downloader env c) (we_download env),
      gv_store = gtfs_repository (we_repo env) (we_gtfs_io env), gv_put = store_put env choice,
      gv_parse = parse_archive (we_gtfs env) (we_nested env), gv_stat = we_stat env, gv_remove = we_remove env\<rparr>"

definition import_report_of :: "string \<Rightarrow> string \<Rightarrow> gtfs_result \<Rightarrow> summary option \<Rightarrow> coverage option \<Rightarrow> import_report" where
  "import_report_of status url r summary cov =
     \<lparr>mr_import = gr_import r, mr_status = status, mr_source_url = url,
      mr_retrieved = map_option dl_retrieved (gr_download r), mr_sha256 = (case gr_download r of None \<Rightarrow> [] | Some d \<Rightarrow> dl_sha256 d),
      mr_bytes = (case gr_download r of None \<Rightarrow> 0 | Some d \<Rightarrow> dl_size d), mr_summary = summary, mr_coverage = cov,
      mr_archive = (case gr_archive r of None \<Rightarrow> [] | Some ob \<Rightarrow> ob_key ob)\<rparr>"

text \<open>The dry run parses the download and removes it; both errors are joined.\<close>

definition dry_run_gtfs :: "worker_env \<Rightarrow> gtfs_config \<Rightarrow> files \<Rightarrow> report option result \<times> files" where
  "dry_run_gtfs env c fs =
     (case gtfs_fetch (gtfs_downloader env c) (we_download env) fs of
        (Inl e, fs1) \<Rightarrow> (Inl e, fs1)
      | (Inr d, fs1) \<Rightarrow>
          (case parse_archive (we_gtfs env) (we_nested env) (dl_path d) fs1 of
             (dataset, fs2) \<Rightarrow>
               (case remove_file (dl_path d) (we_remove env) fs2 of
                  (cleanup, fs3) \<Rightarrow>
                    (case (dataset, join_errors [case dataset of Inl e \<Rightarrow> Some e | Inr _ \<Rightarrow> None, cleanup]) of
                       (Inr ds, None) \<Rightarrow>
                         (write_report env (Imported (import_report_of ''dry-run'' (tc_url c)
                           \<lparr>gr_import = 0, gr_download = Some d, gr_dataset = None, gr_archive = None, gr_skipped = False, gr_cleanup = None\<rparr>
                           (Some (ds_summary ds)) None)), fs3)
                     | (_, Some e) \<Rightarrow> (Inl e, fs3)
                     | (Inl e, None) \<Rightarrow> (Inl e, fs3)))))"

text \<open>After a pass: the coverage, and for a skipped archive the summary of the installed network.\<close>

definition report_import :: "worker_env \<Rightarrow> gtfs_config \<Rightarrow> gtfs_result \<Rightarrow> db \<Rightarrow> report option result" where
  "report_import env c r db =
     bind_res (coverage_of (we_coverage env) db) (\<lambda>cov.
     bind_res (if gr_skipped r then map_sum id Some (current_summary (we_summary env) db)
         else Inr (map_option ds_summary (gr_dataset r))) (\<lambda>summary.
     write_report env (Imported (import_report_of (if gr_skipped r then ''skipped'' else ''succeeded'') (tc_url c) r summary (Some cov)))))"

definition run_ingest_gtfs :: "worker_env \<Rightarrow> (string \<Rightarrow> string) \<Rightarrow> string list \<Rightarrow> worker_state \<Rightarrow> outcome_of_command" where
  "run_ingest_gtfs env getenv args s =
     (case bind_res (parsed_args ''ingest-gtfs'' args) (\<lambda>dry. map_sum id (Pair dry) (load_gtfs (we_config env) getenv)) of
        Inl e \<Rightarrow> (Inl e, s)
      | Inr (dry, c) \<Rightarrow>
          if dry then (case dry_run_gtfs env c (ws_files s) of (r, fs) \<Rightarrow> (r, s\<lparr>ws_files := fs\<rparr>))
          else
     (case open_stores env getenv of
        Inl e \<Rightarrow> (Inl e, s)
      | Inr choice \<Rightarrow>
     (case gtfs_run (gtfs_service_of env c choice) (ws_db s) (ws_objects s) (ws_files s) of
        (result, err, db, objects, fs) \<Rightarrow>
          let s' = s\<lparr>ws_db := db, ws_objects := objects, ws_files := fs\<rparr>
          in (case err of
                Some e \<Rightarrow> (Inl (Wrapf ''ingest static GTFS: %w'' [] e), s')
              | None \<Rightarrow> (report_import env c result db, s')))))"

section \<open>The worker\<close>

text \<open>\<open>runMigrate\<close>: the migrations are not modelled, the database is one they were applied to.\<close>

definition run_migrate :: "worker_env \<Rightarrow> (string \<Rightarrow> string) \<Rightarrow> string list \<Rightarrow> worker_state \<Rightarrow> outcome_of_command" where
  "run_migrate env getenv args s =
     (if args \<noteq> [] then (Inl (Errorf ''unexpected migrate arguments: %v'' (map AStr args)), s)
      else (bind_res (load_database (we_config env) getenv) (\<lambda>url.
        case we_open env url of
          Some e \<Rightarrow> Inl e
        | None \<Rightarrow> (case we_migrate env of Some e \<Rightarrow> Inl e | None \<Rightarrow> Inr None)), s))"

definition run_worker :: "worker_env \<Rightarrow> (string \<Rightarrow> string) \<Rightarrow> string list \<Rightarrow> worker_state \<Rightarrow> outcome_of_command" where
  "run_worker env getenv args s =
     (case args of
        [] \<Rightarrow> (Inl (Errorf ''usage: worker <ingest-alerts|ingest-gtfs|migrate> [options]'' []), s)
      | command # rest \<Rightarrow>
          if command = ''ingest-alerts'' then run_ingest_alerts env getenv rest s
          else if command = ''ingest-gtfs'' then run_ingest_gtfs env getenv rest s
          else if command = ''migrate'' then run_migrate env getenv rest s
          else (Inl (Errorf ''unknown command %q; usage: worker <ingest-alerts|ingest-gtfs|migrate> [options]'' [AStr command]), s))"

end
