(* ===== verification/Server.thy ===== *)
theory Server
  imports ApiAnswers Config
begin

text \<open>
  \<open>cmd/api/main.go\<close>: the handler the server is started with, from the environment. The listener and
  the shutdown are left out.
\<close>

section \<open>The handler of the server\<close>

text \<open>\<open>NewHandler\<close>: what it is given and the clock.\<close>

definition new_handler ::
    "api_config \<Rightarrow> go_error option \<Rightarrow> read_repository \<Rightarrow> instant \<Rightarrow> (query_values \<Rightarrow> query_values) \<Rightarrow> api_handler" where
  "new_handler c ping reads now iterate =
     \<lparr>ah_ping = ping, ah_reads = reads, ah_origin = xc_origin c, ah_status = xc_status c, ah_now = now, ah_iterate = iterate\<rparr>"

text \<open>\<open>run\<close> up to the server: both configurations, then the connection (\<open>open_db\<close>).\<close>

definition api_command ::
    "config_env \<Rightarrow> (string \<Rightarrow> string) \<Rightarrow> (string \<Rightarrow> go_error option) \<Rightarrow> api_config result" where
  "api_command ce getenv open_db =
     bind_res (load_api ce getenv) (\<lambda>c.
     bind_res (load_database ce getenv) (\<lambda>url.
     case open_db url of Some e \<Rightarrow> Inl e | None \<Rightarrow> Inr c))"

section \<open>Settings\<close>

lemma duration_setting_ok:
  assumes "snd (duration_setting ce getenv n m d) = None" and "0 < d" and "\<And>k. m = Some k \<Longrightarrow> d \<le> k"
  shows "0 < fst (duration_setting ce getenv n m d)" and "m = Some k \<Longrightarrow> fst (duration_setting ce getenv n m d) \<le> k"
  using assms by (auto simp: duration_setting_def Let_def split: option.splits if_splits)

lemma bounded_setting:
  assumes "snd (duration_setting ce getenv n (Some m) d) = None" and "0 < d" and "d \<le> m"
  shows "0 < fst (duration_setting ce getenv n (Some m) d) \<and> fst (duration_setting ce getenv n (Some m) d) \<le> m"
  using duration_setting_ok [OF assms(1,2)] assms(3) by simp

text \<open>What holds of every configuration of the API that loads.\<close>

definition sound_status :: "status_query \<Rightarrow> bool" where
  "sound_status q \<longleftrightarrow>
     0 < qy_alert_data_age q \<and> qy_alert_data_age q \<le> hours 8760 \<and> 0 < qy_alert_check_age q \<and> qy_alert_check_age q \<le> hours 8760 \<and>
     0 < qy_gtfs_data_age q \<and> qy_gtfs_data_age q \<le> hours 8760 \<and> 0 < qy_gtfs_check_age q \<and> qy_gtfs_check_age q \<le> hours 8760 \<and>
     0 < qy_alert_run q \<and> qy_alert_run q \<le> hours 24 \<and> 0 < qy_gtfs_run q \<and> qy_gtfs_run q \<le> hours 24 \<and>
     0 < qy_tolerance q \<and> qy_tolerance q \<le> hours 1 \<and> 1 \<le> qy_failures q \<and> qy_failures q \<le> 20"

lemma load_api_sound:
  assumes "load_api ce getenv = Inr c"
  shows "sound_status (xc_status c)" and "0 < xc_request_timeout c \<and> xc_request_timeout c \<le> minutes 2"
    and "0 < xc_shutdown_timeout c" and "validate_origin ce (xc_origin c) = None"
    and "\<exists>port n. xc_address c = CHR '':'' # port \<and> parse_port port = Some n \<and> 1 \<le> n \<and> n \<le> 65535"
proof -
  let ?port = "value_or_default (getenv ''PORT'') ''8080''"
  note I = assms [unfolded load_api_def Let_def configured_Inr]
  show "sound_status (xc_status c)"
    using I bounded_setting [of ce getenv "''STATUS_ALERT_DATA_MAX_AGE''" "hours 8760" "minutes 10"]
      bounded_setting [of ce getenv "''STATUS_ALERT_CHECK_MAX_AGE''" "hours 8760" "minutes 10"]
      bounded_setting [of ce getenv "''STATUS_GTFS_DATA_MAX_AGE''" "hours 8760" "hours 192"]
      bounded_setting [of ce getenv "''STATUS_GTFS_CHECK_MAX_AGE''" "hours 8760" "hours 36"]
      bounded_setting [of ce getenv "''STATUS_ALERT_RUN_MAX_DURATION''" "hours 24" "minutes 5"]
      bounded_setting [of ce getenv "''STATUS_GTFS_RUN_MAX_DURATION''" "hours 24" "minutes 30"]
      bounded_setting [of ce getenv "''STATUS_FUTURE_TOLERANCE''" "hours 1" "minutes 2"]
    by (simp add: sound_status_def split: option.splits if_splits)
  show "0 < xc_request_timeout c \<and> xc_request_timeout c \<le> minutes 2"
    using I bounded_setting [of ce getenv "''API_REQUEST_TIMEOUT''" "minutes 2" "seconds 15"] by simp
  show "0 < xc_shutdown_timeout c"
    using I duration_setting_ok(1) [of ce getenv "''API_SHUTDOWN_TIMEOUT''" None "seconds 10"] by simp
  show "validate_origin ce (xc_origin c) = None" using I by (simp add: wrapped_def)
  have "0 \<le> n" if "parse_port p = Some n" for p n
    using that digits_val_nonneg [of 0 p] by (auto simp: parse_port_def Let_def split: if_splits)
  moreover have "n \<le> 65535" if "parse_port p = Some n" for p n
    using that by (auto simp: parse_port_def Let_def split: if_splits)
  moreover have addr: "xc_address c = CHR '':'' # ?port" using I by simp
  moreover have port: "parse_port ?port \<noteq> None \<and> parse_port ?port \<noteq> Some 0" using I by (auto split: if_splits)
  ultimately show "\<exists>port n. xc_address c = CHR '':'' # port \<and> parse_port port = Some n \<and> 1 \<le> n \<and> n \<le> 65535"
    using addr port by (intro exI [of _ ?port]) (cases "parse_port ?port"; force)
qed

lemma sound_plausible: "sound_status q \<Longrightarrow> plausible_query (q\<lparr>qy_now := now\<rparr>)"
  by (simp add: sound_status_def plausible_query_def plausible_def max_duration_def)

section \<open>A sample\<close>

definition sample_config_env :: config_env where
  "sample_config_env = \<lparr>cf_scale = \<lambda>f unit k. f * unit div 10 ^ k, cf_host = \<lambda>_ host. Some host, cf_workdir = Inr ''/srv''\<rparr>"

definition sample_getenv :: "string \<Rightarrow> string" where
  "sample_getenv k = (if k = ''DATABASE_URL'' then ''postgres://localhost/transit''
     else if k = ''STATUS_ALERT_DATA_MAX_AGE'' then ''1h30m'' else [])"

definition sample_api_config :: api_config where
  "sample_api_config = \<lparr>xc_address = '':8080'', xc_origin = ''http://localhost:5173'', xc_request_timeout = seconds 15,
     xc_shutdown_timeout = seconds 10, xc_status = \<lparr>qy_now = 0, qy_alert_data_age = minutes 90, qy_alert_check_age = minutes 10,
       qy_gtfs_data_age = hours 192, qy_gtfs_check_age = hours 36, qy_alert_run = minutes 5, qy_gtfs_run = minutes 30,
       qy_tolerance = minutes 2, qy_failures = 5\<rparr>\<rparr>"

lemmas setting_evals = sample_getenv_def sample_config_env_def value_or_default_def Let_def duration_setting_def
  validate_origin_def parse_request_uri_def url_parse_def url_parse_raw_def cut_def is_digit_def ord_def control_byte_def
  no_url_def has_prefix_def parse_authority_def ascii_lower_def

lemma sample_origin: "validate_origin sample_config_env ''http://localhost:5173'' = None"
  by (simp add: setting_evals)

lemma sample_duration: "parse_duration f ''1h30m'' = Some (minutes 90)"
  by (simp add: parse_duration_def parse_units.simps parse_unit_def number_byte_def is_digit_def ord_def unit_of_def)

lemma sample_load_api: "load_api sample_config_env sample_getenv = Inr sample_api_config"
  unfolding load_api_def Let_def configured_Inr
  by (simp add: sample_getenv_def value_or_default_def duration_setting_def sample_duration sample_origin wrapped_def
      parse_port_def is_digit_def ord_def sample_api_config_def)

lemma sample_database_url: "load_database sample_config_env sample_getenv = Inr ''postgres://localhost/transit''"
  by (simp add: load_database_def setting_evals)

section \<open>The status page\<close>

definition status_request :: "http_request \<Rightarrow> bool" where
  "status_request rq \<longleftrightarrow> rq_method rq = ''GET'' \<and> rq_path rq = ''/api/v1/status'' \<and> rq_query rq = []"

lemma serve_status:
  assumes "status_request rq"
  shows "serve_http h rq = respond (apply_cors h rq base_headers)
    (rp_get_status (ah_reads h) ((ah_status h)\<lparr>qy_now := ah_now h\<rparr>))
    (\<lambda>r. StatusBody r (status_meta_of ((ah_status h)\<lparr>qy_now := ah_now h\<rparr>)))"
proof -
  have segs: "split_on (CHR ''/'') ''/api/v1/status'' = [[], ''api'', ''v1'', ''status'']" by simp
  have "canonical_request_path ''/api/v1/status''" "mux_match ''/api/v1/status'' = Some EpStatus"
    by (simp_all add: canonical_request_path_def mux_match_def segs Let_def match_segments_def del: split_on.simps)
  with assms show ?thesis
    by (simp add: status_request_def serve_http_cases dispatch_def handle_status_def Let_def)
qed

text \<open>Every time the report shows was recorded by an attempt or with an archive.\<close>

definition attempt_row_times :: "'a attempt_row_scheme \<Rightarrow> instant set" where
  "attempt_row_times r = insert (at_started r) (set_option (at_completed r) \<union> set_option (at_retrieved r))"

definition recorded_times :: "db \<Rightarrow> instant set" where
  "recorded_times db =
     (\<Union>r \<in> set (db_runs db). attempt_row_times r \<union> set_option (ir_feed_timestamp r)) \<union>
     (\<Union>r \<in> set (db_imports db). attempt_row_times r \<union> set_option (gi_modified r)) \<union> ra_stored ` set (db_archives db)"

lemma joined_archive_times: "set (archive_times (joined_archive db r)) \<subseteq> ra_stored ` set (db_archives db)"
  by (auto simp: joined_archive_def archive_summary_of_def archive_of_def archive_times_def Let_def bind_eq_Some_conv
      split: option.splits dest!: find_Some_mem)

lemma mem_map_filter_id: "t \<in> set (List.map_filter id xs) \<longleftrightarrow> Some t \<in> set xs"
  by (force simp: List.map_filter_def)

lemma applied_summary_times:
  "applied_summary db r t n m k = Inr x \<Longrightarrow>
   set (ingestion_times x) \<subseteq> attempt_row_times r \<union> set_option t \<union> ra_stored ` set (db_archives db) \<and> iy_data_as_of x = t"
  using joined_archive_times [of db r]
  by (auto simp: applied_summary_def ingestion_times_def attempt_row_times_def mem_map_filter_id split: option.splits)

lemma attempt_of_times:
  "set (attempt_times (attempt_of db now m r)) \<subseteq> attempt_row_times r \<union> ra_stored ` set (db_archives db)"
  using joined_archive_times [of db r]
  by (auto simp: attempt_of_def attempt_times_def attempt_row_times_def mem_map_filter_id simp del: map_filter_simps)

lemma failure_of_times: "set (failure_times (failure_of db r)) \<subseteq> attempt_row_times r \<union> ra_stored ` set (db_archives db)"
  using joined_archive_times [of db r]
  by (auto simp: failure_of_def failure_times_def attempt_row_times_def mem_map_filter_id simp del: map_filter_simps)

lemma section_times_eq: "set (section_times s) = set_option (sy_data_as_of s) \<union> set_option (sy_check_at s) \<union>
    (\<Union>x \<in> set_option (sy_applied s). set (ingestion_times x)) \<union> (\<Union>x \<in> set_option (sy_attempt s). set (attempt_times x)) \<union>
    (\<Union>f \<in> set (sy_failures s). set (failure_times f))"
  by (auto simp: section_times_def mem_map_filter_id split: option.splits)

lemma failed_rows_subset: "set (failed_rows rows) \<subseteq> set rows"
  by (auto simp: failed_rows_def order_desc_def)

lemma check_fields [simp]:
  "sy_data_as_of (apply_check now c m tol s) = sy_data_as_of s" "sy_data_as_of (add_operational_reasons c s) = sy_data_as_of s"
  "sy_check_at (add_operational_reasons c s) = sy_check_at s" "sy_attempt (add_operational_reasons c s) = sy_attempt s"
  "sy_failures (add_operational_reasons c s) = sy_failures s"
  "sy_check_at (apply_check now c m tol s) = (case c of None \<Rightarrow> sy_check_at s | Some c \<Rightarrow> ck_retrieved c)"
  by (simp_all add: apply_check_def add_operational_reasons_def add_reason_def Let_def split: option.split)

lemma check_time:
  assumes "accepted_check_of rows = Some c" and "ck_retrieved c = Some t"
  shows "\<exists>r \<in> set rows. at_retrieved r = Some t"
proof -
  obtain t' ts where "List.map_filter at_retrieved rows = t' # ts" "t = Max (set (t' # ts))"
    using assms by (auto simp: accepted_check_of_def split: list.splits)
  then have "t \<in> set (List.map_filter at_retrieved rows)" using Max_in [of "set (t' # ts)"] by simp
  then show ?thesis by (force simp: List.map_filter_def)
qed

context checked_attempts
begin

lemma section_of_times:
  assumes "sy_check_at s = None"
  shows "set (section_times (section_of now check_age run_age tolerance n s db)) \<subseteq>
    set_option (sy_data_as_of s) \<union> (\<Union>x \<in> set_option (sy_applied s). set (ingestion_times x)) \<union>
    (\<Union>r \<in> set (rows db). attempt_row_times r) \<union> ra_stored ` set (db_archives db)"
proof -
  let ?s = "section_of now check_age run_age tolerance n s db"
  have 1: "sy_data_as_of ?s = sy_data_as_of s" by (simp add: section_of_def Let_def)
  have 2: "set_option (sy_check_at ?s) \<subseteq> (\<Union>r \<in> set (rows db). attempt_row_times r)"
    using check_time [of "filter accepted (rows db)"] assms
    by (fastforce simp: section_of_def Let_def attempt_row_times_def split: option.splits)
  have 3: "set (attempt_times a) \<subseteq> (\<Union>r \<in> set (rows db). attempt_row_times r) \<union> ra_stored ` set (db_archives db)"
    if at: "sy_attempt ?s = Some a" for a
  proof -
    obtain r where "max_row started_key (rows db) = Some r" "a = attempt_of db now run_age r"
      using at by (auto simp: section_of_def Let_def)
    then have "r \<in> set (rows db)" "a = attempt_of db now run_age r" by (auto dest!: max_row_greatest)
    then show ?thesis using attempt_of_times [of db now run_age r] by auto
  qed
  have 4: "set (failure_times f) \<subseteq> (\<Union>r \<in> set (rows db). attempt_row_times r) \<union> ra_stored ` set (db_archives db)"
    if f: "f \<in> set (sy_failures ?s)" for f
  proof -
    obtain r where "r \<in> set (take n (failed_rows (rows db)))" "f = failure_of db r"
      using f by (auto simp: section_of_def Let_def)
    then have "r \<in> set (rows db)" "f = failure_of db r" using set_take_subset failed_rows_subset by fastforce+
    then show ?thesis using failure_of_times [of db r] by auto
  qed
  show ?thesis using 1 2 3 4 by (auto simp: section_times_eq) blast+
qed

end

lemma applied_section_times:
  "set_option (sy_data_as_of (applied_section now a m tol)) = (\<Union>p \<in> set_option a. set_option (iy_data_as_of (fst p)))"
  by (cases a) (auto simp: applied_section_def add_reason_def empty_section_def split: prod.split)

lemma alert_section_times:
  assumes "last_applied_alerts db = Inr a"
  shows "set (section_times (alert_section q a db)) \<subseteq> recorded_times db"
proof -
  have "set (ingestion_times (fst p)) \<union> set_option (iy_data_as_of (fst p)) \<subseteq> recorded_times db" if a: "a = Some p" for p
  proof -
    obtain r x n where r: "applied_alert_run db = Some r" "applied_summary db r (run_observed r) n 0 0 = Inr x" "fst p = x"
      using assms a by (auto simp: last_applied_alerts_def bind_res_Inr split: option.splits)
    then have "r \<in> set (db_runs db)" by (auto simp: applied_alert_run_def dest!: max_row_greatest)
    then have row: "attempt_row_times r \<subseteq> recorded_times db" "set_option (ir_feed_timestamp r) \<subseteq> recorded_times db"
      by (auto simp: recorded_times_def)
    then have at: "set_option (run_observed r) \<subseteq> recorded_times db"
      by (cases "ir_feed_timestamp r") (auto simp: run_observed_def attempt_row_times_def)
    have arch: "ra_stored ` set (db_archives db) \<subseteq> recorded_times db" by (auto simp: recorded_times_def)
    note times = applied_summary_times [OF r(2)]
    have "set (ingestion_times x) \<subseteq> recorded_times db"
      by (rule order_trans [OF conjunct1 [OF times]]) (intro Un_least row(1) at arch)
    then show ?thesis using at times r(3) by simp
  qed
  then have "set_option (sy_data_as_of (applied_section (qy_now q) a (qy_alert_data_age q) (qy_tolerance q))) \<subseteq> recorded_times db"
    and "(\<Union>x \<in> set_option (sy_applied (applied_section (qy_now q) a (qy_alert_data_age q) (qy_tolerance q))). set (ingestion_times x)) \<subseteq> recorded_times db"
    by (cases a; simp add: applied_section_times applied_section_fields(3))+
  moreover have "(\<Union>r \<in> set (db_runs db). attempt_row_times r) \<subseteq> recorded_times db" "ra_stored ` set (db_archives db) \<subseteq> recorded_times db"
    by (auto simp: recorded_times_def)
  ultimately show ?thesis
    unfolding alert_section_def by (intro order_trans [OF alert_checks.section_of_times [OF applied_section_fields(2)]] Un_least)
qed

lemma gtfs_section_times:
  assumes "last_applied_network db = Inr a"
  shows "set (section_times (gtfs_section q a db)) \<subseteq> recorded_times db"
proof -
  have "set (ingestion_times (fst p)) \<union> set_option (iy_data_as_of (fst p)) \<subseteq> recorded_times db" if a: "a = Some p" for p
  proof -
    obtain r x n m k where r: "current_network db = Some r" "applied_summary db r (import_observed r) n m k = Inr x" "fst p = x"
      using assms a by (auto simp: last_applied_network_def current_network_def bind_res_Inr Let_def split: option.splits)
    then have "r \<in> set (db_imports db)" by (auto simp: current_network_def dest: find_Some_mem)
    then have row: "attempt_row_times r \<subseteq> recorded_times db" "set_option (gi_modified r) \<subseteq> recorded_times db"
      by (auto simp: recorded_times_def)
    then have at: "set_option (import_observed r) \<subseteq> recorded_times db"
      by (cases "gi_modified r") (auto simp: import_observed_def attempt_row_times_def)
    have arch: "ra_stored ` set (db_archives db) \<subseteq> recorded_times db" by (auto simp: recorded_times_def)
    note times = applied_summary_times [OF r(2)]
    have "set (ingestion_times x) \<subseteq> recorded_times db"
      by (rule order_trans [OF conjunct1 [OF times]]) (intro Un_least row(1) at arch)
    then show ?thesis using at times r(3) by simp
  qed
  then have "set_option (sy_data_as_of (applied_section (qy_now q) a (qy_gtfs_data_age q) (qy_tolerance q))) \<subseteq> recorded_times db"
    and "(\<Union>x \<in> set_option (sy_applied (applied_section (qy_now q) a (qy_gtfs_data_age q) (qy_tolerance q))). set (ingestion_times x)) \<subseteq> recorded_times db"
    by (cases a; simp add: applied_section_times applied_section_fields(3))+
  moreover have "(\<Union>r \<in> set (db_imports db). attempt_row_times r) \<subseteq> recorded_times db" "ra_stored ` set (db_archives db) \<subseteq> recorded_times db"
    by (auto simp: recorded_times_def)
  ultimately show ?thesis
    unfolding gtfs_section_def by (intro order_trans [OF gtfs_checks.section_of_times [OF applied_section_fields(2)]] Un_least)
qed

lemma status_encodable:
  assumes "get_status io q db = Inr resp" and "json_time (qy_now q)" and "\<forall>t \<in> recorded_times db. json_time t"
  shows "encodable (StatusBody resp meta)"
proof -
  have now: "sp_generated resp = qy_now q"
    using assms(1) by (auto simp: get_status_def Let_def bind_res_Inr)
  obtain a g where "last_applied_alerts db = Inr a" "last_applied_network db = Inr g"
    "fst (sp_alerts resp) = alert_section (clamped q) a db" "fst (sp_gtfs resp) = gtfs_section (clamped q) g db"
    by (rule get_status_Inr [OF assms(1)])
  with alert_section_times gtfs_section_times assms(2,3) now show ?thesis
    by (fastforce simp: encodable_def list_all_iff)
qed

text \<open>C15: the status page tells the health of the feeds. The server was started from an environment
  that passes the checks, the invariant of the workers holds of its database, no query fails, and
  the years of the clock and of the recorded times are 0 to 9999. Then the page is served with status 200; it is
  the report on that database with the configured limits, and it says \<open>ok\<close> exactly when both feeds are healthy:
  the data that are applied are recent and not from the future, an accepted attempt was retrieved
  recently, no attempt failed after the last accepted one, and none that started after it is overdue.\<close>

theorem status_page_tells_health:
  assumes "api_command ce getenv open_db = Inr c" and "system_inv db" and "quiet io" and "status_request rq"
    and "json_time now" and "\<forall>t \<in> recorded_times db. json_time t"
  shows "\<exists>report. get_status io ((xc_status c)\<lparr>qy_now := now\<rparr>) db = Inr report \<and>
    hr_status (serve_http (new_handler c ping (database_reads dv io db) now iterate) rq) = 200 \<and>
    hr_body (serve_http (new_handler c ping (database_reads dv io db) now iterate) rq) =
      Some (StatusBody report (status_meta_of (xc_status c))) \<and>
    (sp_overall report = ''ok'' \<longleftrightarrow>
      (\<exists>r t. applied_alert_run db = Some r \<and> run_observed r = Some t \<and>
         within now (qy_alert_data_age (xc_status c)) (qy_tolerance (xc_status c)) t) \<and>
      checked now (qy_alert_check_age (xc_status c)) (qy_tolerance (xc_status c)) (qy_alert_run (xc_status c)) accepted_alert_run (db_runs db) \<and>
      (\<exists>r t. current_network db = Some r \<and> import_observed r = Some t \<and>
         within now (qy_gtfs_data_age (xc_status c)) (qy_tolerance (xc_status c)) t) \<and>
      checked now (qy_gtfs_check_age (xc_status c)) (qy_tolerance (xc_status c)) (qy_gtfs_run (xc_status c)) accepted_import (db_imports db))"
proof -
  let ?q = "(xc_status c)\<lparr>qy_now := now\<rparr>"
  obtain report where report: "get_status io ?q db = Inr report" using get_status_returns [OF assms(3,2)] by blast
  have "load_api ce getenv = Inr c" using assms(1) by (auto simp: api_command_def bind_res_Inr split: option.splits)
  then have p: "plausible_query ?q" using load_api_sound(1) sound_plausible by blast
  have meta: "status_meta_of ?q = status_meta_of (xc_status c)" by (simp add: status_meta_of_def)
  have enc: "encodable (StatusBody report (status_meta_of (xc_status c)))"
    by (rule status_encodable [OF report _ assms(6)]) (simp add: assms(5))
  have "serve_http (new_handler c ping (database_reads dv io db) now iterate) rq =
      write_json (apply_cors (new_handler c ping (database_reads dv io db) now iterate) rq base_headers) 200
        (StatusBody report (status_meta_of (xc_status c)))"
    by (simp add: serve_status [OF assms(4)] new_handler_def database_reads_def respond_def report meta)
  then have page: "hr_status (serve_http (new_handler c ping (database_reads dv io db) now iterate) rq) = 200"
    "hr_body (serve_http (new_handler c ping (database_reads dv io db) now iterate) rq) =
      Some (StatusBody report (status_meta_of (xc_status c)))"
    using enc by (simp_all add: write_json_def)
  show ?thesis
    using overall_ok_iff [OF report assms(2) p] by (intro exI [of _ report] conjI report page) simp
qed

definition status_rq :: http_request where
  "status_rq = \<lparr>rq_method = ''GET'', rq_path = ''/api/v1/status'', rq_query = [], rq_header = \<lambda>_. []\<rparr>"

theorem status_page_tells_health_witness:
  "\<exists>report. hr_status (serve_http (new_handler sample_api_config None
       (database_reads \<lparr>dv_ilike = \<lambda>_ _. True, dv_median = \<lambda>_. 0, dv_cause_first = True\<rparr> (quiet_io 0) system_sample) (minutes 1) id)
     status_rq) = 200 \<and>
   hr_body (serve_http (new_handler sample_api_config None
       (database_reads \<lparr>dv_ilike = \<lambda>_ _. True, dv_median = \<lambda>_. 0, dv_cause_first = True\<rparr> (quiet_io 0) system_sample) (minutes 1) id)
     status_rq) = Some (StatusBody report (status_meta_of (xc_status sample_api_config))) \<and> sp_overall report = ''ok''"
proof -
  have c: "api_command sample_config_env sample_getenv (\<lambda>_. None) = Inr sample_api_config"
    by (simp add: api_command_def sample_load_api sample_database_url)
  have io: "quiet (quiet_io 0)" by (simp add: quiet_def quiet_io_def)
  have rq: "status_request status_rq" by (simp add: status_request_def status_rq_def)
  have now: "json_time (minutes 1)" by (simp add: json_time_def)
  have times: "\<forall>t \<in> recorded_times system_sample. json_time t"
    by (simp add: recorded_times_def attempt_row_times_def status_eval json_time_def sample_applied_eq sample_archive_def)
  have "retrievals [sample_done] = {10000}" "retrievals [installed_import] = {9000}"
    by (auto simp: retrievals_def status_eval)
  moreover have "accepted_alert_run sample_done" "accepted_import installed_import"
    by (simp_all add: accepted_alert_run_def accepted_import_def status_eval)
  moreover define page where "page = serve_http (new_handler sample_api_config None
      (database_reads \<lparr>dv_ilike = \<lambda>_ _. True, dv_median = \<lambda>_. 0, dv_cause_first = True\<rparr> (quiet_io 0) system_sample) (minutes 1) id) status_rq"
  moreover define meta where "meta = status_meta_of (xc_status sample_api_config)"
  moreover note told = status_page_tells_health [OF c system_sample_inv io rq now times, where ping = None and iterate = id
      and dv = "\<lparr>dv_ilike = \<lambda>_ _. True, dv_median = \<lambda>_. 0, dv_cause_first = True\<rparr>", folded page_def meta_def]
  ultimately have "\<exists>report. hr_status page = 200 \<and> hr_body page = Some (StatusBody report meta) \<and> sp_overall report = ''ok''"
    unfolding checked_def operational_def last_accepted_def
    by (simp add: applied_alert_run_def current_network_def system_sample_tables within_def sample_api_config_def)
      (auto simp: status_eval run_observed_def import_observed_def)
  then show ?thesis unfolding page_def meta_def .
qed

end
