(* ===== verification/WorkerProperties.thy ===== *)
theory WorkerProperties
  imports Worker System ServiceProperties Server
begin

text \<open>
  The promises of the commands of the worker, each with a concrete application: what they do to the
  database are steps of the two repositories, dry runs and refused configurations do nothing, and
  the reports are true.
\<close>

section \<open>Commands are steps\<close>








section \<open>Every command\<close>









definition sample_worker :: worker_env where
  "sample_worker = \<lparr>we_config = sample_config_env, we_open = \<lambda>_. None, we_migrate = None, we_aws = \<lambda>_. None, we_repo = sample_env,
     we_alert_io = sample_alert_io, we_gtfs_io = sample_gtfs_io, we_media_type = Inr, we_attempts = sample_attempts,
     we_decode = sample_decode, we_http = sample_fetch_env, we_download = temp_at ''a'', we_nested = temp_at ''b'',
     we_gtfs = refusing_gtfs, we_stat = None, we_remove = None, we_local = sample_local, we_s3 = sample_s3,
     we_checksum = id, we_coverage = [], we_summary = None, we_write = None\<rparr>"

definition fresh_state :: worker_state where
  "fresh_state = \<lparr>ws_db = empty_db, ws_objects = \<lambda>_ _. None, ws_files = \<lambda>_. None\<rparr>"

definition sample_worker_getenv :: "string \<Rightarrow> string" where
  "sample_worker_getenv k = (if k = ''TRANSIT_API_KEY'' then ''secret'' else sample_getenv k)"


text \<open>A dry run, and a command whose database or object store is not configured or cannot be opened,
  changes neither the database nor an object, whatever it prints.\<close>

theorem dry_runs_change_nothing:
  assumes "run_worker env getenv (command # rest) s = (out, s')" and "command \<in> {''ingest-alerts'', ''ingest-gtfs''}"
    and "parse_flags False rest = Inr (True, []) \<or> (\<exists>e. open_stores env getenv = Inl e)"
  shows "ws_db s' = ws_db s \<and> ws_objects s' = ws_objects s"
proof -
  have dry: "dry" if "parsed_args c rest = Inr dry" "\<not> (\<exists>e. open_stores env getenv = Inl e)" for c dry
    using that assms(3) by (auto simp: parsed_args_def split: sum.splits prod.splits if_splits)
  from assms(2) consider "command = ''ingest-alerts''" | "command = ''ingest-gtfs''" by blast
  then show ?thesis
  proof cases
    case 1
    with assms(1) have run: "run_ingest_alerts env getenv rest s = (out, s')" by (simp add: run_worker_def)
    show ?thesis
    proof (cases "bind_res (parsed_args ''ingest-alerts'' rest) (\<lambda>dry. map_sum id (Pair dry) (load_worker (we_config env) getenv))")
      case (Inl e)
      with run show ?thesis by (auto simp: run_ingest_alerts_def)
    next
      case (Inr dc)
      then have "fst dc" if "\<not> (\<exists>e. open_stores env getenv = Inl e)" using dry that
        by (cases "load_worker (we_config env) getenv") (auto simp: bind_res_Inr)
      with run Inr show ?thesis
        by (cases dc; cases "open_stores env getenv") (auto simp: run_ingest_alerts_def split: if_splits)
    qed
  next
    case 2
    with assms(1) have run: "run_ingest_gtfs env getenv rest s = (out, s')" by (simp add: run_worker_def)
    show ?thesis
    proof (cases "bind_res (parsed_args ''ingest-gtfs'' rest) (\<lambda>dry. map_sum id (Pair dry) (load_gtfs (we_config env) getenv))")
      case (Inl e)
      with run show ?thesis by (auto simp: run_ingest_gtfs_def)
    next
      case (Inr dc)
      then have "fst dc" if "\<not> (\<exists>e. open_stores env getenv = Inl e)" using dry that
        by (cases "load_gtfs (we_config env) getenv") (auto simp: bind_res_Inr)
      with run Inr show ?thesis
        by (cases dc; cases "open_stores env getenv") (auto simp: run_ingest_gtfs_def split: if_splits prod.splits)
    qed
  qed
qed

theorem dry_runs_change_nothing_witness:
  "\<exists>out s'. run_worker sample_worker sample_worker_getenv [''ingest-alerts'', ''--dry-run''] fresh_state = (out, s') \<and> ws_db s' = empty_db"
proof -
  obtain out s' where run: "run_worker sample_worker sample_worker_getenv [''ingest-alerts'', ''--dry-run''] fresh_state = (out, s')" by fastforce
  have "parse_flags False [''--dry-run''] = Inr (True, [])" by (simp add: cut_def)
  with dry_runs_change_nothing [OF run] run show ?thesis by (simp add: fresh_state_def)
qed

section \<open>The object store\<close>

text \<open>C40: the store that is configured is the one that is used. A storage configuration that loads, started in
  an absolute directory, names either a local directory, absolute and without dots or empty
  elements, and the store is opened with exactly this root; or a bucket with a region, keys that are
  both given or both missing, a session token only with them and an endpoint that was checked, and
  the store of S3 is opened with them unless the SDK refuses.\<close>

theorem configured_store_is_used:
  assumes "load_raw_storage ce getenv = Inr c" and "\<And>wd. cf_workdir ce = Inr wd \<Longrightarrow> has_prefix wd ''/''"
  shows "clean_root (rg_local_dir c) \<and> storage_new ce aws c = Inr (LocalChoice (rg_local_dir c)) \<or>
    storage_new ce aws c = (case aws (rg_s3 c) of
      Some _ \<Rightarrow> Inl (Errorf ''load S3 storage configuration failed'' []) | None \<Rightarrow> Inr (S3Choice (rg_s3 c))) \<and>
    sc_bucket (rg_s3 c) \<noteq> [] \<and> sc_region (rg_s3 c) \<noteq> [] \<and>
    (sc_access_key (rg_s3 c) = [] \<longleftrightarrow> sc_secret_key (rg_s3 c) = []) \<and>
    \<not> (sc_session_token (rg_s3 c) \<noteq> [] \<and> sc_access_key (rg_s3 c) = []) \<and>
    (sc_endpoint (rg_s3 c) = [] \<or> validate_storage_endpoint ce (sc_endpoint (rg_s3 c)) = None)"
proof -
  let ?backend = "value_or_default (getenv ''RAW_STORAGE_BACKEND'') ''local''"
  let ?dir = "value_or_default (getenv ''RAW_STORAGE_LOCAL_DIR'') ''./var''"
  note I = assms(1) [unfolded load_raw_storage_def Let_def]
  consider (local) "?backend = ''local''" | (s3) "?backend \<noteq> ''local''" "?backend = ''s3''" | (other) "?backend \<noteq> ''local''" "?backend \<noteq> ''s3''"
    by blast
  then show ?thesis
  proof cases
    case local
    have "?dir \<noteq> []" by (simp add: value_or_default_def)
    with I local obtain q where q: "abs_path (cf_workdir ce) ?dir = Inr q"
      by (auto simp: configured_Inr split: sum.splits)
    have root: "clean_root q" by (rule abs_path_root [OF q \<open>?dir \<noteq> []\<close> assms(2)])
    have "rg_local_dir c = q" "rg_backend c = ''local''"
      using I local \<open>?dir \<noteq> []\<close> q clean_path_stays [OF root] by (simp_all add: configured_Inr)
    then show ?thesis using root by (simp add: storage_new_def abs_path_stays clean_path_stays)
  next
    case s3
    note J = I [unfolded if_not_P [OF s3(1)] if_P [OF s3(2)] configured_Inr]
    then show ?thesis
      by (simp add: storage_new_def s3(2) required_for_s3_def wrapped_def split: if_splits option.splits)
  next
    case other
    with I show ?thesis by (simp add: configured_Inr)
  qed
qed

theorem configured_store_is_used_witness:
  "storage_new sample_config_env (\<lambda>_. None)
     \<lparr>rg_backend = ''local'', rg_local_dir = ''/srv/var'', rg_s3 = \<lparr>sc_bucket = [], sc_region = [], sc_endpoint = [], sc_access_key = [],
       sc_secret_key = [], sc_session_token = [], sc_path_style = True\<rparr>\<rparr> = Inr (LocalChoice ''/srv/var'')"
proof -
  have "load_raw_storage sample_config_env sample_getenv = Inr \<lparr>rg_backend = ''local'', rg_local_dir = ''/srv/var'',
      rg_s3 = \<lparr>sc_bucket = [], sc_region = [], sc_endpoint = [], sc_access_key = [],
        sc_secret_key = [], sc_session_token = [], sc_path_style = True\<rparr>\<rparr>"
    by (simp add: load_raw_storage_def sample_getenv_def sample_config_env_def value_or_default_def Let_def abs_path_def has_prefix_def
        clean_path_def configured_Inr)
  from configured_store_is_used [OF this, where aws = "\<lambda>_. None"] show ?thesis
    by (simp add: sample_config_env_def has_prefix_def)
qed

end
