(* ===== verification/Spec2Isabelle.thy ===== *)
theory Spec2Isabelle
  imports GtfsProperties AlertProperties RecordProperties NetworkProperties ServiceProperties StatusProperties
    ReadProperties PageProperties AnalyticsProperties ApiAnswers CurrentReader WorkerProperties
begin

text \<open>
  Transit Observatory, the Go backend, as a shallow embedding.

  The program collects the service alerts of Melbourne's trains every few minutes and the static
  GTFS network every day, keeps every raw file in an object store, and maintains in PostgreSQL the
  history of every alert and the installed network; an HTTP API reads it. Paths below are under
  \<open>src/internal\<close>.

  \<^bold>\<open>Foundations.\<close>
  \<^item> \<open>Prelude\<close>: Go errors as values, results, instants, tables as lists of rows.
  \<^item> \<open>GoStrings\<close>, \<open>GoJson\<close>: what is used of \<open>strings\<close>, \<open>strconv\<close>, \<open>unicode/utf8\<close> and
    \<open>encoding/json\<close>, with \<open>json.Marshal\<close> injective on valid strings.
  \<^item> \<open>Schema\<close>: one record per table row of the migrations, the identity sequences and the CHECK
    constraints; \<open>Tx\<close>: transactions of \<open>database/sql\<close> statement by statement, with the failures of
    statements and commits; \<open>TxRelation\<close>: relations every transaction obeys, a locale.
  \<^item> \<open>Files\<close>: temporary files, the file system as a map from paths to contents.

  \<^bold>\<open>Static GTFS.\<close>
  \<^item> \<open>GtfsCsv\<close>, \<open>GtfsParse\<close>, \<open>GtfsArchive\<close>: \<open>gtfs/parse.go\<close>, from the limit reader and the CSV rows over
    the four tables to \<open>ParseArchive\<close>; \<open>GtfsFetch\<close>: \<open>gtfs/fetch.go\<close>.
  \<^item> \<open>GtfsRepo\<close>: \<open>database/gtfs.go\<close>; \<open>GtfsNetwork\<close>, \<open>GtfsLife\<close>, \<open>GtfsOutcome\<close>: the invariant of the
    imports and of the network, the steps that keep it, the outcome of each call.
  \<^item> \<open>GtfsProperties\<close>, \<open>NetworkProperties\<close>: the promises of the parser and of the repository.

  \<^bold>\<open>Service alerts.\<close>
  \<^item> \<open>RealtimeClient\<close>, \<open>RealtimeDecode\<close>, \<open>RealtimeHash\<close>: \<open>realtime/client.go\<close>, \<open>decode.go\<close>, \<open>hash.go\<close>.
  \<^item> \<open>AlertRepo\<close>: \<open>database/alerts.go\<close>; \<open>AlertHistory\<close>: the abstract history of an alert and the refinement
    of one feed; \<open>AlertRuns\<close>, \<open>AlertTimeline\<close>, \<open>AlertLife\<close>: runs, the order of time, the steps.
  \<^item> \<open>AlertProperties\<close>: the promises of the repository.

  \<^bold>\<open>Archives and services.\<close>
  \<^item> \<open>Storage\<close>, \<open>LocalStore\<close>, \<open>S3Store\<close>: \<open>storage\<close>; \<open>Archive\<close>: \<open>database/archive.go\<close>.
  \<^item> \<open>Ingest\<close>: \<open>ingest\<close>, services as records of functions; \<open>IngestLife\<close>: the contracts of the stores as
    locales; \<open>IngestStores\<close>: the repositories and object stores as their interpretations.
  \<^item> \<open>RecordProperties\<close>, \<open>ServiceProperties\<close>: their promises.

  \<^bold>\<open>Status.\<close>
  \<^item> \<open>ReadTx\<close>: read transactions, ordered queries, \<open>time.Sub\<close>; \<open>StatusReport\<close>: \<open>database/status.go\<close>;
    \<open>StatusRules\<close>: what a section says of its table of attempts, a locale for the two tables.
  \<^item> \<open>System\<close>: the steps of both workers on one database; \<open>StatusProperties\<close>: promises of the report.

  \<^bold>\<open>Reading.\<close>
  \<^item> \<open>Views\<close>: the views of \<open>database/migrations/00005_api_read_model.sql\<close> as functions of a revision;
    \<open>ReadRepo\<close>: \<open>database/read_repository.go\<close>; \<open>Reading\<close>: what the stored texts and hashes are in every state the
    workers reach; \<open>ReadLists\<close>, \<open>ReadDetail\<close>: lists and details as functions of the database.
  \<^item> \<open>NetworkRead\<close>, \<open>NetworkPages\<close>: \<open>database/network_read_repository.go\<close>; \<open>Analytics\<close>, \<open>AnalyticsRules\<close>:
    \<open>database/analytics_read_repository.go\<close> with the episodes of alerts, and the calendar of its buckets.
  \<^item> \<open>CurrentReader\<close>: \<open>database/current_alerts.go\<close>, and that it agrees with \<open>ListAlerts\<close>.
  \<^item> \<open>ReadProperties\<close>, \<open>PageProperties\<close>, \<open>AnalyticsProperties\<close>: from the feed to the reader, pages of the
    history, agreement of pages with lists, episodes counted once.

  \<^bold>\<open>The API.\<close>
  \<^item> \<open>ApiParams\<close>: \<open>url.ParseQuery\<close>, the parameters and \<open>time.Parse\<close>; \<open>Api\<close>: \<open>api/server.go\<close>, every handler and
    \<open>ServeHTTP\<close> over the repository as a record of functions, bodies as values with the condition
    under which \<open>json.Marshal\<close> takes them.
  \<^item> \<open>ApiRules\<close>: headers, statuses and queries; \<open>Calendar\<close>: the civil calendar of a printed time is read
    back; \<open>ApiProperties\<close>, \<open>ApiAnswers\<close>: what every response has, and that requests over a database the
    workers reach are answered.

  \<^bold>\<open>Configuration and commands.\<close>
  \<^item> \<open>Settings\<close>: \<open>time.ParseDuration\<close>, \<open>url.Parse\<close>, \<open>filepath.Abs\<close>; \<open>Config\<close>: \<open>config\<close>; \<open>Server\<close>: \<open>cmd/api/main.go\<close> up
    to the listener, and the status page of a configured server.
  \<^item> \<open>Worker\<close>: \<open>cmd/worker/main.go\<close> and \<open>storage/factory.go\<close>, the commands composed from everything above;
    \<open>WorkerProperties\<close>: their effects are steps of the repositories, their reports are true, the
    configured store is the one that is used.

  \<^bold>\<open>Parameters.\<close> SHA-256, the text of an error, the CSV tokeniser, \<open>strconv.ParseFloat\<close>, Unicode case
  tables, \<open>archive/zip\<close>, \<open>mime.ParseMediaType\<close>, the protobuf wire format, \<open>net/http\<close>, the S3 client and the
  configuration of the AWS SDK, \<open>ILIKE\<close> and \<open>percentile_cont\<close> of PostgreSQL, the iteration order of Go maps,
  \<open>parseHost\<close> of \<open>net/url\<close>, the floating-point step of \<open>time.ParseDuration\<close>, \<open>os.Getwd\<close>, the environment, the
  outcome of every system call, statement and commit.

  \<^bold>\<open>Bounds.\<close> The retry loop of the realtime client and the attempts of the S3 store are bounded by their
  configured number, and the functions are total. The walk up the parents of a stop has the number
  of stops as fuel, which \<open>Views\<close> shows to be enough; the parser of durations consumes its input;
  every other loop is structural.

  \<^bold>\<open>Assumptions of the model.\<close> The list of faults of a session also covers statements that fail on what
  the tables here do not restrict (NUL bytes or invalid UTF-8 in a text); a fault while rows are
  read has the text of the query. The collation of the database is the byte order and the time zone
  of its sessions is UTC. Durations that the report gives in seconds stay nanoseconds.
  \<open>sort.Slice\<close> is a stable sort; the keys used are unique, or equal elements are equal. The timeout of a
  request is an error of the connection. A migrated database is given; \<open>migrate\<close> returns the outcome
  of goose and changes nothing.

  \<^bold>\<open>Not modelled.\<close> Logging, signals, the listener and the graceful shutdown of \<open>cmd/api/main.go\<close>; the time the
  parser took in the report of an import; the bytes of a JSON response (its values and whether they
  can be encoded are); \<open>sql.Open\<close> and the pool; the SQL of the migrations as such (the constraints and
  views it defines are in \<open>Schema\<close>, \<open>GtfsRepo\<close>, \<open>Views\<close>); the web client and the deployment.
\<close>

end
